(* ===== verification/Prelude.thy ===== *)
theory Prelude
  imports Main "HOL-Library.Word"
begin

section \<open>Shared vocabulary of the development\<close>

text \<open>
  This theory holds what every component of the model shares: the named collections of rewrite
  rules, the reading of Go's fixed-width integers, the time and duration types, the result type
  of fallible operations and the generic facts on lists, tables and maps that the component
  theories use again and again.  It models no line of the program by itself.
\<close>

subsection \<open>Collections of facts\<close>

text \<open>
  \<open>go_defs\<close> collects the definitions a proof unfolds to compute with the model;
  \<open>table_simps\<close> the laws of keyed tables; \<open>frame_simps\<close> the facts that an operation leaves
  a part of the state alone.
\<close>

named_theorems go_defs "defining equations of the model, for evaluation"

named_theorems table_simps "laws of keyed tables"

named_theorems frame_simps "what an operation leaves unchanged"

subsection \<open>Integers, time and results\<close>

text \<open>
  Go's \<open>int\<close> and \<open>int64\<close> are 64-bit two's-complement values.  Where a computation of the program
  can leave that range its result is brought back by \<open>wrap64\<close>.
\<close>

definition wrap64 :: "int \<Rightarrow> int" where
  "wrap64 x = sint (word_of_int x :: 64 word)"

lemma wrap64_id: "- (2 ^ 63) \<le> x \<Longrightarrow> x < 2 ^ 63 \<Longrightarrow> wrap64 x = x"
  by (simp add: wrap64_def signed_of_int signed_take_bit_int_eq_self)

lemma wrap64_lower: "- (2 ^ 63) \<le> wrap64 x"
  using sint_ge [of "word_of_int x :: 64 word"] by (simp add: wrap64_def)

lemma wrap64_upper: "wrap64 x < 2 ^ 63"
  using sint_lt [of "word_of_int x :: 64 word"] by (simp add: wrap64_def)

lemma wrap64_max: "wrap64 (2 ^ 63) = - (2 ^ 63)"
  by (simp add: wrap64_def)

text \<open>
  A \<open>time.Time\<close> is the number of nanoseconds since the first instant of year 1 in UTC, so that
  Go's zero time is \<open>0\<close> and \<open>IsZero\<close> is the comparison with \<open>0\<close>.  A \<open>time.Duration\<close> is a number
  of nanoseconds.
\<close>

type_synonym time = int

type_synonym duration = int

abbreviation zero_time :: time where
  "zero_time \<equiv> 0"

abbreviation nano_per_second :: duration where
  "nano_per_second \<equiv> 1000000000"

abbreviation nano_per_milli :: duration where
  "nano_per_milli \<equiv> 1000000"

text \<open>\<open>t.Sub(u)\<close> saturates at the bounds of a duration.\<close>

definition time_sub :: "time \<Rightarrow> time \<Rightarrow> duration" where
  "time_sub t u = max (- (2 ^ 63)) (min (2 ^ 63 - 1) (t - u))"

lemma time_sub_exact: "- (2 ^ 63) \<le> t - u \<Longrightarrow> t - u < 2 ^ 63 \<Longrightarrow> time_sub t u = t - u"
  by (simp add: time_sub_def)

lemma time_sub_greater: "d < 2 ^ 63 - 1 \<Longrightarrow> - (2 ^ 63) \<le> d \<Longrightarrow> time_sub t u > d \<longleftrightarrow> t - u > d"
  by (auto simp: time_sub_def)

text \<open>Go's integer division truncates towards zero.\<close>

definition quot :: "int \<Rightarrow> int \<Rightarrow> int" where
  "quot a b = sgn a * sgn b * (\<bar>a\<bar> div \<bar>b\<bar>)"

lemma quot_nonneg: "0 \<le> a \<Longrightarrow> 0 < b \<Longrightarrow> quot a b = a div b"
  by (cases "a = 0") (auto simp: quot_def)

text \<open>
  An operation that returns \<open>(T, error)\<close> in Go returns a value of a sum type: \<open>Inl\<close> the error,
  \<open>Inr\<close> the value.
\<close>

definition is_ok :: "'e + 'a \<Rightarrow> bool" where
  "is_ok r = (case r of Inl _ \<Rightarrow> False | Inr _ \<Rightarrow> True)"

lemma is_ok_simps [simp]: "is_ok (Inr x)" "\<not> is_ok (Inl e)"
  by (simp_all add: is_ok_def)

lemma is_ok_iff: "is_ok r \<longleftrightarrow> (\<exists>x. r = Inr x)"
  by (cases r) auto

text \<open>
  An operation on a state returns its result and the new state.  \<open>and_then m k\<close> runs \<open>m\<close> and hands
  its value to \<open>k\<close>, or returns at once with its error: the source's \<open>x, err := m(); if err != nil
  { return err }\<close>.  \<open>ok_unit\<close> is the nil error.
\<close>

type_synonym ('s, 'e, 'a) op = "'s \<Rightarrow> ('e + 'a) \<times> 's"

definition and_then :: "('s, 'e, 'a) op \<Rightarrow> ('a \<Rightarrow> ('s, 'e, 'b) op) \<Rightarrow> ('s, 'e, 'b) op" where
  "and_then m k s = (case m s of (Inl e, s') \<Rightarrow> (Inl e, s') | (Inr x, s') \<Rightarrow> k x s')"

definition ret :: "'a \<Rightarrow> ('s, 'e, 'a) op" where
  "ret x s = (Inr x, s)"

definition fail :: "'e \<Rightarrow> ('s, 'e, 'a) op" where
  "fail e s = (Inl e, s)"

abbreviation ok_unit :: "'e + unit" where
  "ok_unit \<equiv> Inr ()"

lemma and_then_simps [simp]:
  "m s = (Inl e, s') \<Longrightarrow> and_then m k s = (Inl e, s')"
  "m s = (Inr x, s') \<Longrightarrow> and_then m k s = k x s'"
  by (simp_all add: and_then_def)

lemma and_then_cases:
  assumes "and_then m k s = (r, s')"
  obtains (err) e where "m s = (Inl e, s')" "r = Inl e"
    | (val) x s1 where "m s = (Inr x, s1)" "k x s1 = (r, s')"
  using assms by (auto simp: and_then_def split: prod.splits sum.splits)

subsection \<open>Keyed tables\<close>

text \<open>
  A table is the list of its rows in insertion order; a key function names the primary key.
  \<open>find_row\<close> is the row a query by primary key returns, \<open>upsert_row\<close> the effect of an insert with
  an update on conflict, \<open>update_rows\<close> the effect of an update of the rows with a given key.
\<close>

definition find_row :: "('r \<Rightarrow> 'k) \<Rightarrow> 'k \<Rightarrow> 'r list \<Rightarrow> 'r option" where
  "find_row key k rows = List.find (\<lambda>r. key r = k) rows"

definition update_rows :: "('r \<Rightarrow> 'k) \<Rightarrow> 'k \<Rightarrow> ('r \<Rightarrow> 'r) \<Rightarrow> 'r list \<Rightarrow> 'r list" where
  "update_rows key k f rows = map (\<lambda>r. if key r = k then f r else r) rows"

definition upsert_row :: "('r \<Rightarrow> 'k) \<Rightarrow> 'r \<Rightarrow> 'r list \<Rightarrow> 'r list" where
  "upsert_row key r rows =
     (if key r \<in> key ` set rows then update_rows key (key r) (\<lambda>_. r) rows else rows @ [r])"

lemma find_row_Nil [table_simps]: "find_row key k [] = None"
  by (simp add: find_row_def)

lemma find_row_Cons [table_simps]:
  "find_row key k (r # rows) = (if key r = k then Some r else find_row key k rows)"
  by (simp add: find_row_def)

lemma find_row_append [table_simps]:
  "find_row key k (xs @ ys) = (case find_row key k xs of None \<Rightarrow> find_row key k ys | Some r \<Rightarrow> Some r)"
  by (induction xs) (auto simp: table_simps)

lemma find_row_SomeD: "find_row key k rows = Some r \<Longrightarrow> key r = k \<and> r \<in> set rows"
  by (induction rows) (auto simp: table_simps split: if_splits)

lemma find_row_None_iff: "find_row key k rows = None \<longleftrightarrow> k \<notin> key ` set rows"
  by (induction rows) (auto simp: table_simps)

lemma find_row_unique:
  "distinct (map key rows) \<Longrightarrow> r \<in> set rows \<Longrightarrow> find_row key (key r) rows = Some r"
  by (induction rows) (auto simp: table_simps image_iff)

lemma update_rows_simps [table_simps]:
  "update_rows key k f [] = []"
  "update_rows key k f (r # rows) = (if key r = k then f r else r) # update_rows key k f rows"
  by (simp_all add: update_rows_def)

lemma length_update_rows [simp]: "length (update_rows key k f rows) = length rows"
  by (simp add: update_rows_def)

lemma map_key_update_rows:
  "(\<And>r. key r = k \<Longrightarrow> key (f r) = k) \<Longrightarrow> map key (update_rows key k f rows) = map key rows"
  by (induction rows) (auto simp: table_simps)

lemma find_row_update_rows:
  assumes "\<And>r. key r = k \<Longrightarrow> key (f r) = k"
  shows "find_row key j (update_rows key k f rows) =
    (if j = k then map_option f (find_row key k rows) else find_row key j rows)"
  using assms by (induction rows) (auto simp: table_simps)

lemma find_row_upsert_row:
  "find_row key j (upsert_row key r rows) = (if j = key r then Some r else find_row key j rows)"
proof (cases "key r \<in> key ` set rows")
  case True
  then obtain r' where r': "find_row key (key r) rows = Some r'"
    by (cases "find_row key (key r) rows") (auto simp: find_row_None_iff)
  have "find_row key j (update_rows key (key r) (\<lambda>_. r) rows) =
      (if j = key r then map_option (\<lambda>_. r) (find_row key (key r) rows) else find_row key j rows)"
    by (rule find_row_update_rows) simp
  with True r' show ?thesis by (simp add: upsert_row_def)
next
  case False
  then have "find_row key (key r) rows = None" by (simp add: find_row_None_iff)
  with False show ?thesis
    by (simp add: upsert_row_def table_simps split: option.split)
qed

lemma distinct_upsert_row:
  "distinct (map key rows) \<Longrightarrow> distinct (map key (upsert_row key r rows))"
  by (auto simp: upsert_row_def map_key_update_rows)

lemma set_upsert_row: "set (upsert_row key r rows) \<subseteq> insert r (set rows)"
  by (auto simp: upsert_row_def update_rows_def)

subsection \<open>The interface of a keyed store\<close>

text \<open>
  Several parts of the program are keyed stores: the tables with a primary key, the registry's map
  of collectors and the map of pending configurations.  The interface is a lookup and a put that
  writes under the key of the value; its law says what a lookup returns after a put.
\<close>

locale keyed_store =
  fixes get :: "'k \<Rightarrow> 't \<Rightarrow> 'v option"
    and put :: "'v \<Rightarrow> 't \<Rightarrow> 't"
    and key :: "'v \<Rightarrow> 'k"
  assumes get_put: "get j (put v t) = (if j = key v then Some v else get j t)"
begin

lemma get_put_same: "get (key v) (put v t) = Some v"
  by (simp add: get_put)

lemma get_put_other: "j \<noteq> key v \<Longrightarrow> get j (put v t) = get j t"
  by (simp add: get_put)

lemma get_put_overwrites: "key v = key u \<Longrightarrow> get j (put v (put u t)) = get j (put v t)"
  by (simp add: get_put)

lemma get_put_swap: "key v \<noteq> key u \<Longrightarrow> get j (put v (put u t)) = get j (put u (put v t))"
  by (simp add: get_put)

lemma get_fold_put_other: "j \<notin> key ` set vs \<Longrightarrow> get j (fold put vs t) = get j t"
  by (induction vs arbitrary: t) (auto simp: get_put)

lemma get_fold_put:
  "get j (fold put vs t) =
    (case List.find (\<lambda>v. key v = j) (rev vs) of None \<Rightarrow> get j t | Some v \<Rightarrow> Some v)"
proof (induction vs rule: rev_induct)
  case Nil
  show ?case by simp
next
  case (snoc v vs)
  then show ?case by (auto simp: get_put)
qed

lemma keys_kept:
  assumes "\<forall>j v. get j t = Some v \<longrightarrow> key v = j"
  shows "\<forall>j v. get j (fold put vs t) = Some v \<longrightarrow> key v = j"
  using assms
proof (induction vs arbitrary: t)
  case Nil
  then show ?case by simp
next
  case (Cons v vs)
  have "\<forall>j u. get j (put v t) = Some u \<longrightarrow> key u = j"
    using Cons.prems by (simp add: get_put)
  then have "\<forall>j u. get j (fold put vs (put v t)) = Some u \<longrightarrow> key u = j" by (rule Cons.IH)
  then show ?case by simp
qed

end

interpretation rows: keyed_store "find_row key" "upsert_row key" key for key
  by unfold_locales (rule find_row_upsert_row)

subsection \<open>Generic facts\<close>

lemma find_cong_on: "(\<And>x. x \<in> set xs \<Longrightarrow> P x = Q x) \<Longrightarrow> List.find P xs = List.find Q xs"
  by (induction xs) auto

lemma fold_inv: "P s \<Longrightarrow> (\<And>x s. x \<in> set xs \<Longrightarrow> P s \<Longrightarrow> P (f x s)) \<Longrightarrow> P (fold f xs s)"
  by (induction xs arbitrary: s) auto

lemma take_drop_concat_upt:
  assumes "0 < n"
  shows "concat (map (\<lambda>k. take n (drop (k * n) xs)) [0..<m]) = take (m * n) xs"
proof (induction m)
  case 0
  show ?case by simp
next
  case (Suc m)
  have "take (Suc m * n) xs = take (m * n) xs @ take n (drop (m * n) xs)"
    using take_add [of "m * n" n xs] by (simp add: add.commute)
  with Suc show ?case by simp
qed

end
