(* ===== verification/Go_Strings.thy ===== *)
theory Go_Strings
  imports Prelude "HOL-Library.Sublist" "HOL-Library.Char_ord" "HOL-Library.List_Lexorder"
begin

section \<open>The parts of Go's string library the program uses\<close>

text \<open>
  A Go string is a sequence of bytes; it is modelled as a \<open>string\<close>, whose characters are bytes.
  The functions below follow \<open>strings\<close>, \<open>strconv\<close>, \<open>encoding/hex\<close> and \<open>fmt\<close> as far as the
  program calls them.  Upper and lower case are those of ASCII letters; every other byte is left
  alone.  The order on strings is the byte order the database uses for its text columns.
\<close>

subsection \<open>Prefixes, suffixes and search\<close>

definition has_prefix :: "string \<Rightarrow> string \<Rightarrow> bool" where
  "has_prefix p s \<longleftrightarrow> take (length p) s = p"

definition has_suffix :: "string \<Rightarrow> string \<Rightarrow> bool" where
  "has_suffix p s \<longleftrightarrow> has_prefix (rev p) (rev s)"

definition trim_prefix :: "string \<Rightarrow> string \<Rightarrow> string" where
  "trim_prefix p s = (if has_prefix p s then drop (length p) s else s)"

definition trim_suffix :: "string \<Rightarrow> string \<Rightarrow> string" where
  "trim_suffix p s = (if has_suffix p s then take (length s - length p) s else s)"

fun index_of :: "string \<Rightarrow> string \<Rightarrow> nat option" where
  "index_of sub [] = (if sub = [] then Some 0 else None)"
| "index_of sub (c # cs) =
     (if has_prefix sub (c # cs) then Some 0 else map_option Suc (index_of sub cs))"

definition contains :: "string \<Rightarrow> string \<Rightarrow> bool" where
  "contains sub s \<longleftrightarrow> index_of sub s \<noteq> None"

definition contains_any :: "string \<Rightarrow> string \<Rightarrow> bool" where
  "contains_any chars s \<longleftrightarrow> list_ex (\<lambda>c. c \<in> set chars) s"

lemma has_prefix_iff: "has_prefix p s \<longleftrightarrow> (\<exists>r. s = p @ r)"
  unfolding has_prefix_def
  by (metis append_eq_conv_conj append_take_drop_id)

lemma has_prefix_Nil [simp]: "has_prefix [] s"
  by (simp add: has_prefix_def)

lemma has_prefix_Cons [simp]:
  "has_prefix (c # p) [] = False"
  "has_prefix (c # p) (d # s) \<longleftrightarrow> c = d \<and> has_prefix p s"
  by (auto simp: has_prefix_def)

lemma has_suffix_iff: "has_suffix p s \<longleftrightarrow> (\<exists>r. s = r @ p)"
  unfolding has_suffix_def has_prefix_iff
  by (metis rev_append rev_rev_ident)

lemma trim_suffix_append [simp]: "trim_suffix p (s @ p) = s"
  by (auto simp: trim_suffix_def has_suffix_iff)

lemma index_of_SomeD: "index_of sub s = Some n \<Longrightarrow> n \<le> length s \<and> has_prefix sub (drop n s)"
proof (induction s arbitrary: n)
  case Nil
  then show ?case by (auto split: if_splits)
next
  case (Cons c cs)
  then show ?case by (cases n) (auto split: if_splits)
qed

lemma contains_iff: "contains sub s \<longleftrightarrow> (\<exists>a b. s = a @ sub @ b)"
proof (induction s)
  case Nil
  then show ?case by (auto simp: contains_def)
next
  case (Cons c cs)
  have step: "contains sub (c # cs) \<longleftrightarrow> has_prefix sub (c # cs) \<or> contains sub cs"
    by (auto simp: contains_def)
  have "(\<exists>a b. c # cs = a @ sub @ b) \<longleftrightarrow>
      (\<exists>b. c # cs = sub @ b) \<or> (\<exists>a b. cs = a @ sub @ b)"
  proof
    assume "\<exists>a b. c # cs = a @ sub @ b"
    then obtain a b where "c # cs = a @ sub @ b" by blast
    then show "(\<exists>b. c # cs = sub @ b) \<or> (\<exists>a b. cs = a @ sub @ b)"
      by (cases a) auto
  next
    assume "(\<exists>b. c # cs = sub @ b) \<or> (\<exists>a b. cs = a @ sub @ b)"
    then show "\<exists>a b. c # cs = a @ sub @ b"
      by (metis append_Cons append_Nil)
  qed
  with step Cons.IH show ?case by (simp add: has_prefix_iff)
qed

lemma contains_append_right: "contains sub s \<Longrightarrow> contains sub (p @ s)"
  unfolding contains_iff by (metis append.assoc)

subsection \<open>White space\<close>

text \<open>
  \<open>strings.TrimSpace\<close> strips Unicode white space at both ends: the ASCII characters below and the
  wide spaces, given here by their UTF-8 encodings.
\<close>

definition is_ascii_space :: "char \<Rightarrow> bool" where
  "is_ascii_space c \<longleftrightarrow>
     c = CHR '' '' \<or> c = CHR 0x09 \<or> c = CHR 0x0A \<or> c = CHR 0x0B \<or> c = CHR 0x0C \<or> c = CHR 0x0D"

definition wide_spaces :: "string list" where
  "wide_spaces =
    [[CHR 0xC2, CHR 0x85], [CHR 0xC2, CHR 0xA0], [CHR 0xE1, CHR 0x9A, CHR 0x80],
     [CHR 0xE2, CHR 0x80, CHR 0x80], [CHR 0xE2, CHR 0x80, CHR 0x81], [CHR 0xE2, CHR 0x80, CHR 0x82],
     [CHR 0xE2, CHR 0x80, CHR 0x83], [CHR 0xE2, CHR 0x80, CHR 0x84], [CHR 0xE2, CHR 0x80, CHR 0x85],
     [CHR 0xE2, CHR 0x80, CHR 0x86], [CHR 0xE2, CHR 0x80, CHR 0x87], [CHR 0xE2, CHR 0x80, CHR 0x88],
     [CHR 0xE2, CHR 0x80, CHR 0x89], [CHR 0xE2, CHR 0x80, CHR 0x8A], [CHR 0xE2, CHR 0x80, CHR 0xA8],
     [CHR 0xE2, CHR 0x80, CHR 0xA9], [CHR 0xE2, CHR 0x80, CHR 0xAF], [CHR 0xE2, CHR 0x81, CHR 0x9F],
     [CHR 0xE3, CHR 0x80, CHR 0x80]]"

text \<open>
  \<open>trim_left ws s\<close> strips leading ASCII white space and leading occurrences of the strings \<open>ws\<close>;
  a byte below \<open>0x80\<close> that is no white space ends the scan.
\<close>

function trim_left :: "string list \<Rightarrow> string \<Rightarrow> string" where
  "trim_left ws [] = []"
| "trim_left ws (c # cs) =
     (if is_ascii_space c then trim_left ws cs
      else if c < CHR 0x80 then c # cs
      else case List.find (\<lambda>w. w \<noteq> [] \<and> has_prefix w (c # cs)) ws of
             None \<Rightarrow> c # cs
           | Some w \<Rightarrow> trim_left ws (drop (length w) (c # cs)))"
  by pat_completeness auto
termination
  by (relation "measure (\<lambda>(ws, s). length s)") (auto simp: find_Some_iff)

definition trim_space :: "string \<Rightarrow> string" where
  "trim_space s = rev (trim_left (map rev wide_spaces) (rev (trim_left wide_spaces s)))"

lemma trim_left_drop: "\<exists>n. trim_left ws s = drop n s"
proof (induction ws s rule: trim_left.induct)
  case (1 ws)
  show ?case by simp
next
  case (2 ws c cs)
  show ?case
  proof (cases "is_ascii_space c \<or> c < CHR 0x80")
    case True
    with 2 show ?thesis
      by (metis drop0 drop_Suc_Cons trim_left.simps(2))
  next
    case False
    show ?thesis
    proof (cases "List.find (\<lambda>w. w \<noteq> [] \<and> has_prefix w (c # cs)) ws")
      case None
      with False show ?thesis by (auto intro: exI [of _ 0])
    next
      case (Some w)
      with 2 False obtain n where "trim_left ws (drop (length w) (c # cs)) = drop n (drop (length w) (c # cs))"
        by blast
      with False Some show ?thesis by auto
    qed
  qed
qed

lemma trim_left_stop: "\<not> is_ascii_space c \<Longrightarrow> c < CHR 0x80 \<Longrightarrow> trim_left ws (c # cs) = c # cs"
  by simp

text \<open>A string whose first and last bytes are printing ASCII characters is left alone.\<close>

lemma trim_space_id:
  assumes "s \<noteq> []"
    and "\<not> is_ascii_space (hd s)" and "hd s < CHR 0x80"
    and "\<not> is_ascii_space (last s)" and "last s < CHR 0x80"
  shows "trim_space s = s"
proof -
  have left: "trim_left wide_spaces s = s"
    using assms(1-3) trim_left_stop by (cases s) auto
  obtain c cs where r: "rev s = c # cs"
    using assms(1) by (cases "rev s") auto
  then have "c = last s" by (metis hd_rev list.sel(1))
  with assms(4,5) have "trim_left (map rev wide_spaces) (c # cs) = c # cs"
    by (intro trim_left_stop) auto
  then have "trim_left (map rev wide_spaces) (rev s) = rev s" by (simp only: r)
  with left show ?thesis by (simp add: trim_space_def)
qed

lemma trim_space_Nil [simp]: "trim_space [] = []"
  by (simp add: trim_space_def)

text \<open>Trimming twice is trimming once.\<close>

lemma trim_left_fixed_iff:
  "trim_left ws s = s \<longleftrightarrow>
    (case s of [] \<Rightarrow> True
     | c # cs \<Rightarrow> \<not> is_ascii_space c \<and> (c < CHR 0x80 \<or> (\<forall>w \<in> set ws. w \<noteq> [] \<longrightarrow> \<not> has_prefix w s)))"
proof (cases s)
  case Nil
  then show ?thesis by simp
next
  case (Cons c cs)
  have shorter: "trim_left ws t \<noteq> u" if "length t < length u" for t u
  proof -
    obtain n where "trim_left ws t = drop n t" using trim_left_drop by blast
    with that show ?thesis by auto
  qed
  show ?thesis
  proof (cases "is_ascii_space c \<or> c < CHR 0x80")
    case True
    with Cons shorter [of cs s] show ?thesis by auto
  next
    case False
    show ?thesis
    proof (cases "List.find (\<lambda>w. w \<noteq> [] \<and> has_prefix w (c # cs)) ws")
      case None
      then have "\<forall>w \<in> set ws. w \<noteq> [] \<longrightarrow> \<not> has_prefix w s"
        by (auto simp: find_None_iff Cons)
      with None False Cons show ?thesis by auto
    next
      case (Some w)
      then have "w \<in> set ws" "w \<noteq> []" "has_prefix w s"
        by (auto simp: find_Some_iff Cons)
      with Some False Cons shorter [of "drop (length w) s" s] show ?thesis by auto
    qed
  qed
qed

lemma trim_left_idem: "trim_left ws (trim_left ws s) = trim_left ws s"
proof (induction ws s rule: trim_left.induct)
  case (1 ws)
  show ?case by simp
next
  case (2 ws c cs)
  then show ?case by (auto split: option.splits)
qed

lemma trim_left_prefix:
  assumes "trim_left ws (s @ t) = s @ t"
  shows "trim_left ws s = s"
proof (cases s)
  case (Cons c cs)
  have "has_prefix w (s @ t)" if "has_prefix w s" for w
    using that by (auto simp: has_prefix_iff)
  with assms Cons show ?thesis
    by (auto simp only: trim_left_fixed_iff list.case append_Cons)
qed simp

lemma trim_space_idem: "trim_space (trim_space s) = trim_space s"
proof -
  let ?l = "trim_left wide_spaces s"
  let ?r = "trim_left (map rev wide_spaces) (rev ?l)"
  obtain n where "?r = drop n (rev ?l)"
    using trim_left_drop by blast
  then have "?l = rev ?r @ rev (take n (rev ?l))"
    by (metis append_take_drop_id rev_append rev_rev_ident)
  with trim_left_idem [of wide_spaces s] have "trim_left wide_spaces (rev ?r) = rev ?r"
    by (metis trim_left_prefix)
  then show ?thesis
    by (simp add: trim_space_def trim_left_idem)
qed

subsection \<open>Case folding\<close>

definition lower_char :: "char \<Rightarrow> char" where
  "lower_char c = (if CHR ''A'' \<le> c \<and> c \<le> CHR ''Z'' then char_of (of_char c + 32 :: nat) else c)"

definition to_lower :: "string \<Rightarrow> string" where
  "to_lower s = map lower_char s"

definition equal_fold :: "string \<Rightarrow> string \<Rightarrow> bool" where
  "equal_fold s t \<longleftrightarrow> to_lower s = to_lower t"

lemma equal_fold_refl [simp]: "equal_fold s s"
  by (simp add: equal_fold_def)

lemma equal_fold_sym: "equal_fold s t \<Longrightarrow> equal_fold t s"
  by (simp add: equal_fold_def)

subsection \<open>Splitting, joining, replacing\<close>

fun split_on :: "char \<Rightarrow> string \<Rightarrow> string list" where
  "split_on sep [] = [[]]"
| "split_on sep (c # cs) =
     (if c = sep then [] # split_on sep cs
      else case split_on sep cs of [] \<Rightarrow> [[c]] | w # ws \<Rightarrow> (c # w) # ws)"

fun join :: "string \<Rightarrow> string list \<Rightarrow> string" where
  "join sep [] = []"
| "join sep [w] = w"
| "join sep (w # v # ws) = w @ sep @ join sep (v # ws)"

lemma split_on_nonempty: "split_on sep s \<noteq> []"
  by (induction s) (auto split: list.splits)

lemma split_on_no_sep: "w \<in> set (split_on sep s) \<Longrightarrow> sep \<notin> set w"
  by (induction s arbitrary: w) (auto split: if_splits list.splits)

lemma join_Cons: "join sep (w # ws) = (if ws = [] then w else w @ sep @ join sep ws)"
  by (cases ws) auto

lemma join_split_on: "join [sep] (split_on sep s) = s"
proof (induction s)
  case Nil
  show ?case by simp
next
  case (Cons c cs)
  obtain w ws where ws: "split_on sep cs = w # ws"
    using split_on_nonempty [of sep cs] by (cases "split_on sep cs") auto
  with Cons show ?case by (auto simp: join_Cons)
qed

lemma split_on_append_sep:
  "sep \<notin> set w \<Longrightarrow> split_on sep (w @ sep # s) = w # split_on sep s"
  by (induction w) auto

lemma split_on_single: "sep \<notin> set w \<Longrightarrow> split_on sep w = [w]"
  by (induction w) auto

lemma split_on_join:
  "ws \<noteq> [] \<Longrightarrow> (\<forall>w \<in> set ws. sep \<notin> set w) \<Longrightarrow> split_on sep (join [sep] ws) = ws"
proof (induction ws)
  case Nil
  then show ?case by simp
next
  case (Cons w ws)
  then show ?case
    by (cases ws) (auto simp: split_on_single split_on_append_sep)
qed

text \<open>
  \<open>strings.ReplaceAll\<close> for a non-empty pattern: the occurrences are replaced from the left and do
  not overlap.
\<close>

function replace_all :: "string \<Rightarrow> string \<Rightarrow> string \<Rightarrow> string" where
  "replace_all old new [] = []"
| "replace_all old new (c # cs) =
     (if old \<noteq> [] \<and> has_prefix old (c # cs)
      then new @ replace_all old new (drop (length old) (c # cs))
      else c # replace_all old new cs)"
  by pat_completeness auto
termination
  by (relation "measure (\<lambda>(old, new, s). length s)") auto

lemma replace_all_id: "\<not> contains old s \<Longrightarrow> replace_all old new s = s"
  by (induction s) (auto simp: contains_def)

subsection \<open>Decimal numbers\<close>

definition digit :: "nat \<Rightarrow> char" where
  "digit n = char_of (48 + n)"

definition digit_value :: "char \<Rightarrow> nat option" where
  "digit_value c = (let n = of_char c in if 48 \<le> n \<and> n \<le> 57 then Some (n - 48) else None)"

fun nat_digits :: "nat \<Rightarrow> string" where
  "nat_digits n = (if n < 10 then [digit n] else nat_digits (n div 10) @ [digit (n mod 10)])"

declare nat_digits.simps [simp del]

definition itoa :: "int \<Rightarrow> string" where
  "itoa i = (if i < 0 then CHR ''-'' # nat_digits (nat (- i)) else nat_digits (nat i))"

fun parse_digits :: "nat \<Rightarrow> string \<Rightarrow> nat option" where
  "parse_digits acc [] = Some acc"
| "parse_digits acc (c # cs) =
     (case digit_value c of None \<Rightarrow> None | Some d \<Rightarrow> parse_digits (10 * acc + d) cs)"

text \<open>
  \<open>strconv.Atoi\<close> and \<open>strconv.ParseInt(v, 10, 64)\<close>: an optional sign, at least one digit, nothing
  else, and a value in the range of \<open>int64\<close>; \<open>None\<close> is the error.
\<close>

definition parse_int :: "string \<Rightarrow> int option" where
  "parse_int s =
    (let neg = has_prefix ''-'' s;
         body = (if neg \<or> has_prefix ''+'' s then tl s else s)
     in case (if body = [] then None else parse_digits 0 body) of
          None \<Rightarrow> None
        | Some n \<Rightarrow>
            (let i = (if neg then - int n else int n)
             in if - (2 ^ 63) \<le> i \<and> i < 2 ^ 63 then Some i else None))"

lemma digit_value_digit: "n < 10 \<Longrightarrow> digit_value (digit n) = Some n"
  by (simp add: digit_value_def digit_def of_char_of)

lemma parse_digits_append:
  "parse_digits acc (s @ t) = Option.bind (parse_digits acc s) (\<lambda>a. parse_digits a t)"
  by (induction s arbitrary: acc) (auto split: option.splits)

lemma parse_nat_digits: "parse_digits 0 (nat_digits n) = Some n"
proof (induction n rule: nat_digits.induct)
  case (1 n)
  show ?case
  proof (cases "n < 10")
    case True
    then show ?thesis by (simp add: nat_digits.simps [of n] digit_value_digit)
  next
    case False
    with 1 show ?thesis
      by (simp add: nat_digits.simps [of n] parse_digits_append digit_value_digit)
  qed
qed

lemma nat_digits_nonempty [simp]: "nat_digits n \<noteq> []"
  by (subst nat_digits.simps) simp

lemma nat_digits_digits: "c \<in> set (nat_digits n) \<Longrightarrow> \<exists>d<10. c = digit d"
proof (induction n rule: nat_digits.induct)
  case (1 n)
  then show ?case
    by (subst (asm) (2) nat_digits.simps) (auto split: if_splits intro: exI [of _ n] exI [of _ "n mod 10"])
qed

lemma digit_neq_sign: "d < 10 \<Longrightarrow> digit d \<noteq> CHR ''-'' \<and> digit d \<noteq> CHR ''+''"
  using digit_value_digit [of d] by (auto simp: digit_value_def Let_def)

lemma parse_int_itoa:
  assumes "- (2 ^ 63) \<le> i" and "i < 2 ^ 63"
  shows "parse_int (itoa i) = Some i"
proof (cases "i < 0")
  case True
  then show ?thesis
    using assms by (simp add: itoa_def parse_int_def parse_nat_digits)
next
  case False
  obtain c cs where c: "nat_digits (nat i) = c # cs"
    using nat_digits_nonempty by (cases "nat_digits (nat i)") auto
  then obtain d where "d < 10" "c = digit d"
    using nat_digits_digits [of c "nat i"] by auto
  then have "c \<noteq> CHR ''-''" "c \<noteq> CHR ''+''" using digit_neq_sign by auto
  with False c assms show ?thesis
    using parse_nat_digits [of "nat i"] by (simp add: itoa_def parse_int_def)
qed

subsection \<open>Hexadecimal encoding of bytes\<close>

definition hex_digit :: "nat \<Rightarrow> char" where
  "hex_digit n = (if n < 10 then char_of (48 + n) else char_of (87 + n))"

definition hex_value :: "char \<Rightarrow> nat option" where
  "hex_value c =
    (let n = of_char c
     in if 48 \<le> n \<and> n \<le> 57 then Some (n - 48)
        else if 97 \<le> n \<and> n \<le> 102 then Some (n - 87)
        else if 65 \<le> n \<and> n \<le> 70 then Some (n - 55)
        else None)"

definition hex_encode :: "8 word list \<Rightarrow> string" where
  "hex_encode bs = concat (map (\<lambda>b. [hex_digit (unat b div 16), hex_digit (unat b mod 16)]) bs)"

fun hex_decode :: "string \<Rightarrow> 8 word list option" where
  "hex_decode [] = Some []"
| "hex_decode [c] = None"
| "hex_decode (c # d # cs) =
     (case (hex_value c, hex_value d, hex_decode cs) of
        (Some h, Some l, Some bs) \<Rightarrow> Some (word_of_nat (16 * h + l) # bs)
      | _ \<Rightarrow> None)"

lemma hex_value_digit: "n < 16 \<Longrightarrow> hex_value (hex_digit n) = Some n"
  by (simp add: hex_value_def hex_digit_def of_char_of)

lemma hex_decode_encode: "hex_decode (hex_encode bs) = Some bs"
proof (induction bs)
  case Nil
  show ?case by (simp add: hex_encode_def)
next
  case (Cons b bs)
  have "unat b < 256" using unsigned_less [of b] by simp
  then have "unat b div 16 < 16" and "16 * (unat b div 16) + unat b mod 16 = unat b"
    by auto
  with Cons show ?case
    by (simp add: hex_encode_def hex_value_digit)
qed

lemma hex_encode_eq_Nil_iff [simp]: "hex_encode bs = [] \<longleftrightarrow> bs = []"
  by (cases bs) (auto simp: hex_encode_def)

lemma hex_encode_inj: "hex_encode as = hex_encode bs \<Longrightarrow> as = bs"
  by (metis hex_decode_encode option.inject)

end
