(* ===== verification/Store_Models.thy ===== *)
theory Store_Models
  imports Go_Strings
begin

section \<open>The data model (internal/store/models.go)\<close>

text \<open>
  The persistent data of the program: collectors, groups, configuration versions, tasks and their
  events, chat sessions, agent runs and the audit log.  A Go string type with named constants is a
  datatype with one constructor per constant and one, first, for its zero value, the empty string;
  the functions ending in \<open>_text\<close> give the stored text.  A struct is a record whose fields carry a
  prefix.  The last part holds the error values of all components: \<open>ErrNotFound\<close> is the sentinel of
  the store, \<open>ErrWrap\<close> an error wrapped with \<open>%w\<close>, and each constructor of \<open>err_msg\<close> and
  \<open>val_msg\<close> stands for one message of the source.
\<close>

subsection \<open>Collectors and groups\<close>

datatype collector_status =
    CollectorStatusNone
  | CollectorStatusHealthy
  | CollectorStatusUnhealthy
  | CollectorStatusOffline
  | CollectorStatusUnknown

fun collector_status_text :: "collector_status \<Rightarrow> string" where
  "collector_status_text CollectorStatusNone = ''''"
| "collector_status_text CollectorStatusHealthy = ''healthy''"
| "collector_status_text CollectorStatusUnhealthy = ''unhealthy''"
| "collector_status_text CollectorStatusOffline = ''offline''"
| "collector_status_text CollectorStatusUnknown = ''unknown''"

record collector =
  col_instance_uid :: string
  col_hostname :: string
  col_version :: string
  col_last_seen_at :: time
  col_status :: collector_status
  col_effective_config :: string
  col_group_id :: string

record collector_group =
  grp_id :: string
  grp_name :: string
  grp_selector :: string

record config_version =
  cv_id :: int
  cv_collector_instance_uid :: string
  cv_yaml :: string
  cv_hash :: string
  cv_validated :: bool
  cv_created_at :: time

subsection \<open>Tasks\<close>

datatype task_type =
    TaskTypeNone
  | TaskTypeGenerate
  | TaskTypeOptimize
  | TaskTypeApply
  | TaskTypeUpgrade
  | TaskTypeRollback

fun task_type_text :: "task_type \<Rightarrow> string" where
  "task_type_text TaskTypeNone = ''''"
| "task_type_text TaskTypeGenerate = ''generate''"
| "task_type_text TaskTypeOptimize = ''optimize''"
| "task_type_text TaskTypeApply = ''apply''"
| "task_type_text TaskTypeUpgrade = ''upgrade''"
| "task_type_text TaskTypeRollback = ''rollback''"

datatype task_status =
    TaskStatusNone
  | TaskStatusPending
  | TaskStatusGenerating
  | TaskStatusValidating
  | TaskStatusAwaitingApproval
  | TaskStatusApplying
  | TaskStatusDone
  | TaskStatusRejected
  | TaskStatusFailed

fun task_status_text :: "task_status \<Rightarrow> string" where
  "task_status_text TaskStatusNone = ''''"
| "task_status_text TaskStatusPending = ''pending''"
| "task_status_text TaskStatusGenerating = ''generating''"
| "task_status_text TaskStatusValidating = ''validating''"
| "task_status_text TaskStatusAwaitingApproval = ''awaiting_approval''"
| "task_status_text TaskStatusApplying = ''applying''"
| "task_status_text TaskStatusDone = ''done''"
| "task_status_text TaskStatusRejected = ''rejected''"
| "task_status_text TaskStatusFailed = ''failed''"

definition task_statuses :: "string list" where
  "task_statuses =
    [''pending'', ''generating'', ''validating'', ''awaiting_approval'', ''applying'', ''done'',
     ''rejected'', ''failed'']"

definition task_types :: "string list" where
  "task_types = [''generate'', ''optimize'', ''apply'', ''upgrade'', ''rollback'']"

definition is_valid_task_status :: "string \<Rightarrow> bool" where
  "is_valid_task_status v = (if v = '''' then True else list_ex (\<lambda>s. v = s) task_statuses)"

definition is_valid_task_type :: "string \<Rightarrow> bool" where
  "is_valid_task_type v = (if v = '''' then True else list_ex (\<lambda>t. v = t) task_types)"

record task =
  t_id :: string
  t_type :: task_type
  t_status :: task_status
  t_require_approval :: bool
  t_input :: string
  t_generated_yaml :: string
  t_base_yaml :: string
  t_git_commit :: string
  t_git_path :: string
  t_git_ref :: string
  t_base_source :: string
  t_session_id :: string
  t_target_group_id :: string
  t_target_instance_uid :: string
  t_rollback_version_id :: int
  t_approvers :: "string list"
  t_approver :: string
  t_reject_reason :: string
  t_model_used :: string
  t_error :: string
  t_created_at :: time
  t_updated_at :: time

text \<open>The zero value of the struct, from which composite literals start.\<close>

definition empty_task :: task where
  "empty_task = \<lparr>t_id = '''', t_type = TaskTypeNone, t_status = TaskStatusNone,
     t_require_approval = False, t_input = '''', t_generated_yaml = '''', t_base_yaml = '''',
     t_git_commit = '''', t_git_path = '''', t_git_ref = '''', t_base_source = '''',
     t_session_id = '''', t_target_group_id = '''', t_target_instance_uid = '''',
     t_rollback_version_id = 0, t_approvers = [], t_approver = '''', t_reject_reason = '''',
     t_model_used = '''', t_error = '''', t_created_at = zero_time, t_updated_at = zero_time\<rparr>"

record task_event =
  ev_id :: int
  ev_task_id :: string
  ev_from_status :: string
  ev_to_status :: string
  ev_created_at :: time

subsection \<open>Conversations and agent runs\<close>

record chat_message =
  msg_id :: int
  msg_role :: string
  msg_content :: string
  msg_created_at :: time

record chat_session =
  sess_id :: string
  sess_messages :: "chat_message list"
  sess_created_at :: time

datatype run_status = RunStatusRunning | RunStatusDone | RunStatusFailed

record tool_call =
  tc_name :: string
  tc_arguments_json :: string
  tc_result_json :: string
  tc_error :: string
  tc_started_at :: time
  tc_finished_at :: time

record agent_run =
  run_id :: string
  run_session_id :: string
  run_agent_type :: string
  run_tool_calls :: "tool_call list"
  run_status :: run_status
  run_model_used :: string
  run_started_at :: time
  run_finished_at :: time

subsection \<open>The audit log\<close>

datatype audit_action =
    AuditActionNone
  | AuditActionGenerate
  | AuditActionApprove
  | AuditActionReject
  | AuditActionApply
  | AuditActionUpgrade
  | AuditActionRollback

fun audit_action_text :: "audit_action \<Rightarrow> string" where
  "audit_action_text AuditActionNone = ''''"
| "audit_action_text AuditActionGenerate = ''generate''"
| "audit_action_text AuditActionApprove = ''approve''"
| "audit_action_text AuditActionReject = ''reject''"
| "audit_action_text AuditActionApply = ''apply''"
| "audit_action_text AuditActionUpgrade = ''upgrade''"
| "audit_action_text AuditActionRollback = ''rollback''"

definition audit_actions :: "string list" where
  "audit_actions = [''generate'', ''approve'', ''reject'', ''apply'', ''upgrade'', ''rollback'']"

definition is_valid_audit_action :: "string \<Rightarrow> bool" where
  "is_valid_audit_action v = (if v = '''' then True else list_ex (\<lambda>a. v = a) audit_actions)"

record audit_log =
  au_id :: int
  au_actor :: string
  au_action :: audit_action
  au_subject :: string
  au_detail :: string
  au_created_at :: time

subsection \<open>Enumerations\<close>

text \<open>
  The statuses and types are finite, so a statement about all of them is decided by evaluation.
\<close>

instantiation task_status :: enum
begin

definition enum_task_status :: "task_status list" where
  "enum_task_status =
    [TaskStatusNone, TaskStatusPending, TaskStatusGenerating, TaskStatusValidating,
     TaskStatusAwaitingApproval, TaskStatusApplying, TaskStatusDone, TaskStatusRejected,
     TaskStatusFailed]"

definition enum_all_task_status :: "(task_status \<Rightarrow> bool) \<Rightarrow> bool" where
  "enum_all_task_status P = list_all P Enum.enum"

definition enum_ex_task_status :: "(task_status \<Rightarrow> bool) \<Rightarrow> bool" where
  "enum_ex_task_status P = list_ex P Enum.enum"

instance
proof
  have "s \<in> set Enum.enum" for s :: task_status
    by (cases s) (simp_all add: enum_task_status_def)
  then show univ: "(UNIV :: task_status set) = set Enum.enum" by blast
  show "distinct (Enum.enum :: task_status list)"
    by (simp add: enum_task_status_def)
  show "Enum.enum_all P \<longleftrightarrow> Ball UNIV P" for P :: "task_status \<Rightarrow> bool"
    by (simp add: enum_all_task_status_def univ list_all_iff)
  show "Enum.enum_ex P \<longleftrightarrow> Bex UNIV P" for P :: "task_status \<Rightarrow> bool"
    by (simp add: enum_ex_task_status_def univ list_ex_iff)
qed

end

text \<open>Reading a status back from its text, as the conversion of a validated parameter does.\<close>

definition task_status_of :: "string \<Rightarrow> task_status" where
  "task_status_of v =
    (case List.find (\<lambda>s. task_status_text s = v) Enum.enum of
       None \<Rightarrow> TaskStatusNone | Some s \<Rightarrow> s)"

definition task_type_of :: "string \<Rightarrow> task_type" where
  "task_type_of v =
    (case List.find (\<lambda>s. task_type_text s = v)
       [TaskTypeGenerate, TaskTypeOptimize, TaskTypeApply, TaskTypeUpgrade, TaskTypeRollback] of
       None \<Rightarrow> TaskTypeNone | Some s \<Rightarrow> s)"

definition audit_action_of :: "string \<Rightarrow> audit_action" where
  "audit_action_of v =
    (case List.find (\<lambda>s. audit_action_text s = v)
       [AuditActionGenerate, AuditActionApprove, AuditActionReject, AuditActionApply,
        AuditActionUpgrade, AuditActionRollback] of
       None \<Rightarrow> AuditActionNone | Some s \<Rightarrow> s)"

lemma task_status_of_text [simp]: "task_status_of (task_status_text s) = s"
  by (cases s) (simp_all add: task_status_of_def enum_task_status_def)

lemma task_type_of_text [simp]: "task_type_of (task_type_text s) = s"
  by (cases s) (simp_all add: task_type_of_def)

lemma audit_action_of_text [simp]: "audit_action_of (audit_action_text s) = s"
  by (cases s) (simp_all add: audit_action_of_def)

lemma task_status_text_inj: "task_status_text s = task_status_text t \<longleftrightarrow> s = t"
  by (metis task_status_of_text)

lemma task_statuses_enum: "map task_status_text Enum.enum = '''' # task_statuses"
  by (simp add: enum_task_status_def task_statuses_def)

lemma is_valid_task_status_text: "is_valid_task_status v \<longleftrightarrow> (\<exists>s. task_status_text s = v)"
proof -
  have "is_valid_task_status v \<longleftrightarrow> v \<in> set ('''' # task_statuses)"
    by (auto simp: is_valid_task_status_def list_ex_iff)
  also have "\<dots> \<longleftrightarrow> v \<in> range task_status_text"
    by (simp only: task_statuses_enum [symmetric] set_map enum_UNIV)
  finally show ?thesis by auto
qed

lemma valid_task_status_roundtrip: "is_valid_task_status v \<Longrightarrow> task_status_text (task_status_of v) = v"
  by (auto simp: is_valid_task_status_text)

subsection \<open>Errors\<close>

datatype err_msg =
    MsgCreateTaskFailed
  | MsgQueryCollectorsFailed
  | MsgQueryTasksFailed
  | MsgQueryVersionsFailed
  | MsgGetCollectorFailed
  | MsgTaskMissing
  | MsgTaskIdRequired
  | MsgInstanceUidRequired
  | MsgTargetDescriptionRequired
  | MsgTargetYamlRequired
  | MsgTargetVersionRequired
  | MsgTargetEmpty
  | MsgNoMatchingCollector
  | MsgNothingToCompare
  | MsgNothingToDispatch
  | MsgGitDisabled
  | MsgApprovalRequired
  | MsgConfigInvalid
  | MsgGenerateRetriesExhausted
  | MsgLlmCallFailed
  | MsgLlmReturnedError
  | MsgLlmEmptyConfig
  | MsgOpampNotInitialised
  | MsgIllegalInstanceUid
  | MsgRollbackNoTarget
  | MsgRollbackNoContent
  | MsgRollbackVersionMissing
  | MsgRollbackVersionForeign
  | MsgRollbackDispatchFailed
  | MsgToolArgsInvalid
  | MsgGitDirEmpty
  | MsgGitDirInvalid
  | MsgGitNotRepository
  | MsgGitLogUnexpected
  | MsgGitRefUnresolved
  | MsgGitPathRequired
  | MsgGitReadFailed
  | MsgGitTimeout
  | MsgGitFailed
  | MsgRefEmpty
  | MsgRefTooLong
  | MsgRefIllegalChars
  | MsgRefMalformed
  | MsgPathTooLong
  | MsgPathNotRelative
  | MsgPathIllegalChars
  | MsgPathEscapes
  | MsgPathColon
  | MsgPathspecMissing
  | MsgLimitRange
  | MsgToolUnknown
  | MsgToolResultUnserializable
  | MsgCreateRunFailed
  | MsgLlmEmptyResponse
  | MsgLlmStreamEmpty

datatype val_msg =
    ValYamlSyntax string
  | ValConfigEmpty
  | ValServiceMissing
  | ValPipelinesMissing
  | ValSectionMissing string
  | ValOtelcolNotConfigured
  | ValDeepUnavailable string
  | ValOtelcolFailed
  | ValOtelcolWarnOnly "val_msg list"

datatype go_error =
    ErrNotFound
  | ErrDb string
  | ErrIllegalTransition task_status task_status
  | ErrText err_msg
  | ErrTexts err_msg "val_msg list"
  | ErrWrap err_msg go_error
  | ErrCmd err_msg string

text \<open>\<open>errors.Is(err, store.ErrNotFound)\<close> looks through the wrapped errors.\<close>

fun is_not_found :: "go_error \<Rightarrow> bool" where
  "is_not_found ErrNotFound = True"
| "is_not_found (ErrWrap m e) = is_not_found e"
| "is_not_found _ = False"

end
