(* ===== verification/Sql_Store.thy ===== *)
theory Sql_Store
  imports Store_Models "HOL-Library.Product_Lexorder" "HOL-Library.Multiset"
begin

section \<open>The SQL store (internal/store/sqlstore.go, store.go)\<close>

text \<open>
  The database is a record of tables, each the list of its rows in insertion order, and every
  statement of the source is an operation on it.  The columns hold typed values: a time column the
  instant itself, an enumeration its constructor, the JSON columns the list they encode.
  Comparisons on the first nineteen characters of a time column compare instants by the second.

  The driver can fail at any call.  \<open>db_faults\<close> lists the outcomes of the calls to come, the
  healthy outcome when it is empty; a failed attempt also says whether the caller's context was
  done while the store waited before its next attempt.
\<close>

subsection \<open>Database state and driver calls\<close>

datatype db_outcome = DbOk | DbErr string bool

record session_row =
  sr_id :: string
  sr_created_at :: time

record message_row =
  mr_session_id :: string
  mr_message :: chat_message

record sql_db =
  db_collectors :: "collector list"
  db_groups :: "collector_group list"
  db_versions :: "config_version list"
  db_tasks :: "task list"
  db_events :: "task_event list"
  db_sessions :: "session_row list"
  db_messages :: "message_row list"
  db_runs :: "agent_run list"
  db_audit :: "audit_log list"
  db_seq_versions :: int
  db_seq_events :: int
  db_seq_messages :: int
  db_seq_audit :: int
  db_faults :: "db_outcome list"

text \<open>The database after the schema has been created on an empty file.\<close>

definition empty_db :: sql_db where
  "empty_db = \<lparr>db_collectors = [], db_groups = [], db_versions = [], db_tasks = [], db_events = [],
     db_sessions = [], db_messages = [], db_runs = [], db_audit = [], db_seq_versions = 0,
     db_seq_events = 0, db_seq_messages = 0, db_seq_audit = 0, db_faults = []\<rparr>"

type_synonym 'a db_op = "(sql_db, go_error, 'a) op"

text \<open>A statement either fails with the driver's message or yields the new tables.\<close>

type_synonym statement = "sql_db \<Rightarrow> string + sql_db"

definition take_outcome :: "sql_db \<Rightarrow> db_outcome \<times> sql_db" where
  "take_outcome d =
    (case db_faults d of [] \<Rightarrow> (DbOk, d) | x # xs \<Rightarrow> (x, d\<lparr>db_faults := xs\<rparr>))"

definition exec_once :: "statement \<Rightarrow> sql_db \<Rightarrow> (string \<times> bool + unit) \<times> sql_db" where
  "exec_once stmt d =
    (case take_outcome d of
       (DbErr msg done, d') \<Rightarrow> (Inl (msg, done), d')
     | (DbOk, d') \<Rightarrow>
         (case stmt d' of Inl msg \<Rightarrow> (Inl (msg, False), d') | Inr d'' \<Rightarrow> (Inr (), d'')))"

definition is_busy_error :: "string \<Rightarrow> bool" where
  "is_busy_error msg =
    (contains ''database is locked'' (to_lower msg) \<or> contains ''sqlite_busy'' (to_lower msg))"

text \<open>
  The retry loop of \<open>execCtx\<close>: \<open>n\<close> attempts are left and \<open>err\<close> is the error of the last one.  Only
  a busy error is retried, and only while the context is not done.
\<close>

fun exec_attempts :: "nat \<Rightarrow> string \<Rightarrow> statement \<Rightarrow> unit db_op" where
  "exec_attempts 0 err stmt d = (Inl (ErrDb err), d)"
| "exec_attempts (Suc n) err stmt d =
     (case exec_once stmt d of
        (Inr _, d') \<Rightarrow> (ok_unit, d')
      | (Inl (msg, done), d') \<Rightarrow>
          if \<not> is_busy_error msg then (Inl (ErrDb msg), d')
          else if done then (Inl (ErrDb msg), d')
          else exec_attempts n msg stmt d')"

definition exec_ctx :: "statement \<Rightarrow> unit db_op" where
  "exec_ctx stmt d = exec_attempts 3 '''' stmt d"

text \<open>A plain \<open>ExecContext\<close> makes one attempt; a query makes one and reads.\<close>

definition exec_direct :: "statement \<Rightarrow> unit db_op" where
  "exec_direct stmt d =
    (case exec_once stmt d of
       (Inl (msg, _), d') \<Rightarrow> (Inl (ErrDb msg), d')
     | (Inr _, d') \<Rightarrow> (ok_unit, d'))"

definition query :: "(sql_db \<Rightarrow> 'a) \<Rightarrow> 'a db_op" where
  "query f d =
    (case take_outcome d of
       (DbErr msg _, d') \<Rightarrow> (Inl (ErrDb msg), d')
     | (DbOk, d') \<Rightarrow> (Inr (f d'), d'))"

text \<open>A query for one row maps \<open>sql.ErrNoRows\<close> to \<open>ErrNotFound\<close>.\<close>

definition map_no_rows :: "'a option \<Rightarrow> 'a db_op" where
  "map_no_rows r = (case r of None \<Rightarrow> fail ErrNotFound | Some x \<Rightarrow> ret x)"

definition query_row :: "(sql_db \<Rightarrow> 'a option) \<Rightarrow> 'a db_op" where
  "query_row f = and_then (query f) map_no_rows"

text \<open>\<open>LIMIT size OFFSET (page-1)*size\<close>; the offset is computed in 64 bits, a negative one is 0.\<close>

definition page_offset :: "int \<Rightarrow> int \<Rightarrow> int" where
  "page_offset page page_size = wrap64 (wrap64 (page - 1) * page_size)"

definition paged :: "int \<Rightarrow> int \<Rightarrow> 'a list \<Rightarrow> 'a list" where
  "paged page page_size rows =
    (if page_size > 0 then take (nat page_size) (drop (nat (page_offset page page_size)) rows) else rows)"

text \<open>Times compared by the second, as the filters on \<open>substr(created_at,1,19)\<close> do.\<close>

definition second_bound :: "time \<Rightarrow> int" where
  "second_bound t = t div nano_per_second"

definition truncate_second :: "time \<Rightarrow> time" where
  "truncate_second t = t - t mod nano_per_second"

definition unique_violation :: string where
  "unique_violation = ''UNIQUE constraint failed''"

text \<open>The table's primary key: an insert with a key that is present fails (\<open>Schema\<close> has the key columns).\<close>

definition insert_unique :: "('r \<Rightarrow> 'k) \<Rightarrow> 'r \<Rightarrow> 'r list \<Rightarrow> string + 'r list" where
  "insert_unique key r rows =
    (if key r \<in> key ` set rows then Inl unique_violation else Inr (rows @ [r]))"

subsection \<open>Collectors and groups\<close>

definition upsert_collector :: "collector \<Rightarrow> unit db_op" where
  "upsert_collector c =
    exec_direct (\<lambda>d. Inr (d\<lparr>db_collectors := upsert_row col_instance_uid c (db_collectors d)\<rparr>))"

definition get_collector :: "string \<Rightarrow> collector db_op" where
  "get_collector uid = query_row (\<lambda>d. find_row col_instance_uid uid (db_collectors d))"

definition list_collectors :: "int \<Rightarrow> int \<Rightarrow> (collector list \<times> int) db_op" where
  "list_collectors page page_size =
    and_then (query (\<lambda>d. int (length (db_collectors d)))) (\<lambda>total.
    and_then (query (\<lambda>d. paged page page_size (sort_key col_instance_uid (db_collectors d)))) (\<lambda>rows.
    ret (rows, total)))"

definition upsert_group :: "collector_group \<Rightarrow> unit db_op" where
  "upsert_group g =
    exec_direct (\<lambda>d. Inr (d\<lparr>db_groups := upsert_row grp_id g (db_groups d)\<rparr>))"

definition get_group :: "string \<Rightarrow> collector_group db_op" where
  "get_group gid = query_row (\<lambda>d. find_row grp_id gid (db_groups d))"

definition list_groups :: "collector_group list db_op" where
  "list_groups = query (\<lambda>d. sort_key grp_id (db_groups d))"

subsection \<open>Configuration versions\<close>

text \<open>The insert assigns the next value of the table's sequence and the new id is handed back.\<close>

definition create_config_version :: "config_version \<Rightarrow> config_version db_op" where
  "create_config_version v =
    and_then (exec_direct (\<lambda>d. let i = db_seq_versions d + 1 in
        Inr (d\<lparr>db_versions := db_versions d @ [v\<lparr>cv_id := i\<rparr>], db_seq_versions := i\<rparr>)))
      (\<lambda>_ d. (Inr (v\<lparr>cv_id := db_seq_versions d\<rparr>), d))"

definition versions_of :: "string \<Rightarrow> sql_db \<Rightarrow> config_version list" where
  "versions_of uid d = filter (\<lambda>v. cv_collector_instance_uid v = uid) (db_versions d)"

definition list_config_versions :: "string \<Rightarrow> int \<Rightarrow> int \<Rightarrow> (config_version list \<times> int) db_op" where
  "list_config_versions uid page page_size =
    and_then (query (\<lambda>d. int (length (versions_of uid d)))) (\<lambda>total.
    and_then (query (\<lambda>d. paged page page_size (rev (sort_key cv_id (versions_of uid d))))) (\<lambda>rows.
    ret (rows, total)))"

subsection \<open>Tasks\<close>

definition insert_task :: "task \<Rightarrow> statement" where
  "insert_task t d =
    (case insert_unique t_id t (db_tasks d) of
       Inl msg \<Rightarrow> Inl msg | Inr rows \<Rightarrow> Inr (d\<lparr>db_tasks := rows\<rparr>))"

definition create_task :: "task \<Rightarrow> unit db_op" where
  "create_task t = exec_ctx (insert_task t)"

text \<open>
  The update writes every column but \<open>id\<close> and \<open>created_at\<close>; it stamps \<open>updated_at\<close> on the caller's
  task first, and that task is part of the result.  An unknown id updates no row and is no error.
\<close>

definition rewrite_task :: "task \<Rightarrow> statement" where
  "rewrite_task t d =
    Inr (d\<lparr>db_tasks := update_rows t_id (t_id t) (\<lambda>r. t\<lparr>t_created_at := t_created_at r\<rparr>) (db_tasks d)\<rparr>)"

definition update_task :: "time \<Rightarrow> task \<Rightarrow> task db_op" where
  "update_task now t =
    (let t' = t\<lparr>t_updated_at := now\<rparr>
     in and_then (exec_ctx (rewrite_task t')) (\<lambda>_. ret t'))"

definition get_task :: "string \<Rightarrow> task db_op" where
  "get_task tid = query_row (\<lambda>d. find_row t_id tid (db_tasks d))"

record task_filter =
  tf_status :: task_status
  tf_type :: task_type
  tf_target :: string
  tf_session_id :: string
  tf_since :: time
  tf_until :: time

definition no_task_filter :: task_filter where
  "no_task_filter = \<lparr>tf_status = TaskStatusNone, tf_type = TaskTypeNone, tf_target = '''',
     tf_session_id = '''', tf_since = zero_time, tf_until = zero_time\<rparr>"

definition task_matches :: "task_filter \<Rightarrow> task \<Rightarrow> bool" where
  "task_matches f t \<longleftrightarrow>
     (tf_status f \<noteq> TaskStatusNone \<longrightarrow> t_status t = tf_status f) \<and>
     (tf_type f \<noteq> TaskTypeNone \<longrightarrow> t_type t = tf_type f) \<and>
     (tf_target f \<noteq> '''' \<longrightarrow> t_target_instance_uid t = tf_target f \<or> t_target_group_id t = tf_target f) \<and>
     (tf_session_id f \<noteq> '''' \<longrightarrow> t_session_id t = tf_session_id f) \<and>
     (tf_since f \<noteq> zero_time \<longrightarrow> second_bound (t_created_at t) \<ge> second_bound (tf_since f)) \<and>
     (tf_until f \<noteq> zero_time \<longrightarrow>
        second_bound (t_created_at t)
          < second_bound (truncate_second (tf_until f) + nano_per_second))"

definition list_tasks :: "task_filter \<Rightarrow> int \<Rightarrow> int \<Rightarrow> (task list \<times> int) db_op" where
  "list_tasks f page page_size =
    and_then (query (\<lambda>d. int (length (filter (task_matches f) (db_tasks d))))) (\<lambda>total.
    and_then (query (\<lambda>d. paged page page_size
        (rev (sort_key (\<lambda>t. (second_bound (t_created_at t), t_id t))
          (filter (task_matches f) (db_tasks d)))))) (\<lambda>rows.
    ret (rows, total)))"

subsection \<open>Sessions and messages\<close>

definition create_session :: "string \<Rightarrow> time \<Rightarrow> unit db_op" where
  "create_session sid created =
    exec_direct (\<lambda>d. case insert_unique sr_id \<lparr>sr_id = sid, sr_created_at = created\<rparr> (db_sessions d) of
      Inl msg \<Rightarrow> Inl msg | Inr rows \<Rightarrow> Inr (d\<lparr>db_sessions := rows\<rparr>))"

definition messages_of :: "string \<Rightarrow> sql_db \<Rightarrow> chat_message list" where
  "messages_of sid d =
    sort_key msg_id (map mr_message (filter (\<lambda>r. mr_session_id r = sid) (db_messages d)))"

definition get_session :: "string \<Rightarrow> chat_session db_op" where
  "get_session sid =
    and_then (query_row (\<lambda>d. find_row sr_id sid (db_sessions d))) (\<lambda>row.
    and_then (query (messages_of sid)) (\<lambda>msgs.
    ret \<lparr>sess_id = sr_id row, sess_messages = msgs, sess_created_at = sr_created_at row\<rparr>))"

text \<open>
  Keyset paging: with \<open>after\<close> the first \<open>limit\<close> messages behind the cursor, with \<open>before\<close> the last
  \<open>limit\<close> ones in front of it, with neither the last \<open>limit\<close> of all.  The two descending queries are
  turned round at the end.
\<close>

definition message_window :: "int \<Rightarrow> int \<Rightarrow> int \<Rightarrow> chat_message list \<Rightarrow> chat_message list" where
  "message_window before after limit msgs =
    (if after > 0 then take (nat limit) (filter (\<lambda>m. msg_id m > after) msgs)
     else if before > 0 then take (nat limit) (rev (filter (\<lambda>m. msg_id m < before) msgs))
     else take (nat limit) (rev msgs))"

definition list_messages :: "string \<Rightarrow> int \<Rightarrow> int \<Rightarrow> int \<Rightarrow> (chat_message list \<times> int) db_op" where
  "list_messages sid before after limit0 =
    (let limit = (if limit0 \<le> 0 then 50 else limit0)
     in and_then (query (\<lambda>d. int (length (messages_of sid d)))) (\<lambda>total.
        and_then (query (\<lambda>d. message_window before after limit (messages_of sid d))) (\<lambda>out.
        ret (if after \<le> 0 then rev out else out, total))))"

definition append_message :: "string \<Rightarrow> chat_message \<Rightarrow> unit db_op" where
  "append_message sid m =
    exec_ctx (\<lambda>d. let i = db_seq_messages d + 1 in
      Inr (d\<lparr>db_messages := db_messages d @ [\<lparr>mr_session_id = sid, mr_message = m\<lparr>msg_id := i\<rparr>\<rparr>],
             db_seq_messages := i\<rparr>))"

definition session_exists :: "string \<Rightarrow> bool db_op" where
  "session_exists sid =
    and_then (query (\<lambda>d. int (length (filter (\<lambda>r. sr_id r = sid) (db_sessions d))))) (\<lambda>n.
    ret (n > 0))"

definition count_sessions :: "int db_op" where
  "count_sessions = query (\<lambda>d. int (length (db_sessions d)))"

subsection \<open>Task events\<close>

definition append_task_event :: "task_event \<Rightarrow> unit db_op" where
  "append_task_event e =
    exec_ctx (\<lambda>d. let i = db_seq_events d + 1 in
      Inr (d\<lparr>db_events := db_events d @ [e\<lparr>ev_id := i\<rparr>], db_seq_events := i\<rparr>))"

definition list_task_events :: "time \<Rightarrow> task_event list db_op" where
  "list_task_events since =
    query (\<lambda>d. sort_key ev_id
      (filter (\<lambda>e. since \<noteq> zero_time \<longrightarrow> second_bound (ev_created_at e) \<ge> second_bound since)
        (db_events d)))"

subsection \<open>Counts by status\<close>

text \<open>\<open>GROUP BY\<close> yields a map with an entry for each value that occurs.\<close>

definition count_grouped :: "('r \<Rightarrow> 'k) \<Rightarrow> 'r list \<Rightarrow> 'k \<Rightarrow> int option" where
  "count_grouped col rows k =
    (let n = length (filter (\<lambda>r. col r = k) rows) in if n = 0 then None else Some (int n))"

definition count_collectors_by_status :: "(collector_status \<Rightarrow> int option) db_op" where
  "count_collectors_by_status = query (\<lambda>d. count_grouped col_status (db_collectors d))"

definition count_tasks_by_status :: "(task_status \<Rightarrow> int option) db_op" where
  "count_tasks_by_status = query (\<lambda>d. count_grouped t_status (db_tasks d))"

subsection \<open>Agent runs and the audit log\<close>

definition create_agent_run :: "agent_run \<Rightarrow> unit db_op" where
  "create_agent_run r =
    exec_direct (\<lambda>d. case insert_unique run_id r (db_runs d) of
      Inl msg \<Rightarrow> Inl msg | Inr rows \<Rightarrow> Inr (d\<lparr>db_runs := rows\<rparr>))"

text \<open>The update leaves \<open>started_at\<close> as it was inserted.\<close>

definition update_agent_run :: "agent_run \<Rightarrow> unit db_op" where
  "update_agent_run r =
    exec_direct (\<lambda>d. Inr (d\<lparr>db_runs :=
      update_rows run_id (run_id r) (\<lambda>row. r\<lparr>run_started_at := run_started_at row\<rparr>) (db_runs d)\<rparr>))"

definition append_audit :: "audit_log \<Rightarrow> unit db_op" where
  "append_audit a =
    exec_direct (\<lambda>d. let i = db_seq_audit d + 1 in
      Inr (d\<lparr>db_audit := db_audit d @ [a\<lparr>au_id := i\<rparr>], db_seq_audit := i\<rparr>))"

record audit_filter =
  af_since_id :: int
  af_actor :: string
  af_action :: audit_action
  af_subject :: string
  af_from :: time
  af_to :: time

definition audit_matches :: "audit_filter \<Rightarrow> audit_log \<Rightarrow> bool" where
  "audit_matches f a \<longleftrightarrow>
     (af_since_id f > 0 \<longrightarrow> au_id a > af_since_id f) \<and>
     (af_actor f \<noteq> '''' \<longrightarrow> au_actor a = af_actor f) \<and>
     (af_action f \<noteq> AuditActionNone \<longrightarrow> au_action a = af_action f) \<and>
     (af_subject f \<noteq> '''' \<longrightarrow> au_subject a = af_subject f) \<and>
     (af_from f \<noteq> zero_time \<longrightarrow> second_bound (au_created_at a) \<ge> second_bound (af_from f)) \<and>
     (af_to f \<noteq> zero_time \<longrightarrow>
        second_bound (au_created_at a) < second_bound (truncate_second (af_to f) + nano_per_second))"

definition list_audit :: "audit_filter \<Rightarrow> int \<Rightarrow> int \<Rightarrow> (audit_log list \<times> int) db_op" where
  "list_audit f page page_size =
    and_then (query (\<lambda>d. int (length (filter (audit_matches f) (db_audit d))))) (\<lambda>total.
    and_then (query (\<lambda>d. paged page page_size (rev (sort_key au_id (filter (audit_matches f) (db_audit d))))))
      (\<lambda>rows. ret (rows, total)))"

subsection \<open>What a driver call does to the tables\<close>

lemma take_outcome_cases:
  obtains (healthy) "db_faults d = []" "take_outcome d = (DbOk, d)"
    | (next_outcome) x xs where "db_faults d = x # xs" "take_outcome d = (x, d\<lparr>db_faults := xs\<rparr>)"
  by (cases "db_faults d") (auto simp: take_outcome_def)

lemma take_outcome_drop:
  "take_outcome d = (x, d') \<Longrightarrow> d' = d\<lparr>db_faults := drop 1 (db_faults d)\<rparr>"
  by (auto simp: take_outcome_def split: list.splits)

text \<open>
  One attempt consumes one outcome; it fails and leaves the tables alone, or it runs the statement.
\<close>

lemma exec_once_effect:
  assumes "exec_once stmt d = (r, d')"
  shows "let d0 = d\<lparr>db_faults := drop 1 (db_faults d)\<rparr> in
    case r of Inl _ \<Rightarrow> d' = d0 | Inr _ \<Rightarrow> stmt d0 = Inr d'"
  using assms
  by (auto simp: exec_once_def split: prod.splits db_outcome.splits sum.splits
      dest!: take_outcome_drop)

lemma exec_attempts_effect:
  assumes "exec_attempts n err stmt d = (r, d')"
  shows "\<exists>k\<le>n. let d0 = d\<lparr>db_faults := drop k (db_faults d)\<rparr> in
    case r of Inl e \<Rightarrow> d' = d0 | Inr _ \<Rightarrow> 0 < k \<and> stmt d0 = Inr d'"
  using assms
proof (induction n arbitrary: err d)
  case 0
  then show ?case by auto
next
  case (Suc n)
  obtain r1 d1 where once: "exec_once stmt d = (r1, d1)" by (cases "exec_once stmt d")
  note effect = exec_once_effect [OF once]
  show ?case
  proof (cases r1)
    case (Inr u)
    with once Suc.prems have "r = ok_unit" "d' = d1" by auto
    with Inr effect show ?thesis by (intro exI [of _ 1]) (auto simp: Let_def)
  next
    case (Inl e1)
    obtain msg stop where e1: "e1 = (msg, stop)" by (cases e1)
    from effect Inl have d1: "d1 = d\<lparr>db_faults := drop 1 (db_faults d)\<rparr>" by (simp add: Let_def)
    show ?thesis
    proof (cases "is_busy_error msg \<and> \<not> stop")
      case True
      with once Inl e1 Suc.prems have "exec_attempts n msg stmt d1 = (r, d')" by simp
      from Suc.IH [OF this] obtain k where "k \<le> n"
        "let d0 = d1\<lparr>db_faults := drop k (db_faults d1)\<rparr> in
           case r of Inl e \<Rightarrow> d' = d0 | Inr _ \<Rightarrow> 0 < k \<and> stmt d0 = Inr d'" by blast
      with d1 show ?thesis
        by (intro exI [of _ "Suc k"]) (auto simp: Let_def split: sum.splits)
    next
      case False
      with once Inl e1 Suc.prems have "r = Inl (ErrDb msg)" "d' = d1" by (auto split: if_splits)
      with d1 show ?thesis by (intro exI [of _ 1]) (auto simp: Let_def)
    qed
  qed
qed

lemma exec_direct_effect:
  assumes "exec_direct stmt d = (r, d')"
  shows "let d0 = d\<lparr>db_faults := drop 1 (db_faults d)\<rparr> in
    case r of Inl e \<Rightarrow> d' = d0 | Inr _ \<Rightarrow> stmt d0 = Inr d'"
proof -
  obtain r1 d1 where once: "exec_once stmt d = (r1, d1)" by (cases "exec_once stmt d")
  with assms exec_once_effect [OF once] show ?thesis
    by (auto simp: exec_direct_def Let_def split: sum.splits)
qed

lemma query_effect:
  assumes "query f d = (r, d')"
  shows "d' = d\<lparr>db_faults := drop 1 (db_faults d)\<rparr> \<and> (\<forall>x. r = Inr x \<longrightarrow> x = f d')"
  using assms
  by (auto simp: query_def split: prod.splits db_outcome.splits dest!: take_outcome_drop)

lemma query_row_effect:
  assumes "query_row f d = (r, d')"
  shows "d' = d\<lparr>db_faults := drop 1 (db_faults d)\<rparr> \<and> (\<forall>x. r = Inr x \<longrightarrow> f d' = Some x)"
  using assms unfolding query_row_def
  by (auto simp: and_then_def map_no_rows_def fail_def ret_def dest!: query_effect
      split: option.splits prod.splits sum.splits)

text \<open>
  A predicate that does not look at the outcomes to come and that every statement keeps is kept by
  the calls: the form in which the invariants below are proved.
\<close>

definition fault_blind :: "(sql_db \<Rightarrow> bool) \<Rightarrow> bool" where
  "fault_blind P \<longleftrightarrow> (\<forall>d xs. P (d\<lparr>db_faults := xs\<rparr>) = P d)"

lemma exec_ctx_keeps:
  assumes "fault_blind P" and "P d" and "\<And>d d'. P d \<Longrightarrow> stmt d = Inr d' \<Longrightarrow> P d'"
    and "exec_ctx stmt d = (r, d')"
  shows "P d'"
proof -
  from assms(4) have "exec_attempts 3 '''' stmt d = (r, d')" by (simp only: exec_ctx_def)
  from exec_attempts_effect [OF this] assms(1-3) show ?thesis
    by (cases r) (auto simp: fault_blind_def Let_def)
qed

lemma exec_direct_keeps:
  assumes "fault_blind P" and "P d" and "\<And>d d'. P d \<Longrightarrow> stmt d = Inr d' \<Longrightarrow> P d'"
    and "exec_direct stmt d = (r, d')"
  shows "P d'"
  using exec_direct_effect [OF assms(4)] assms(1-3)
  by (cases r) (auto simp: fault_blind_def Let_def)

lemma query_keeps: "fault_blind P \<Longrightarrow> P d \<Longrightarrow> query f d = (r, d') \<Longrightarrow> P d'"
  by (auto simp: fault_blind_def dest!: query_effect)

lemma query_row_keeps: "fault_blind P \<Longrightarrow> P d \<Longrightarrow> query_row f d = (r, d') \<Longrightarrow> P d'"
  by (auto simp: fault_blind_def dest!: query_row_effect)

subsection \<open>Calls on a healthy database\<close>

lemma exec_once_healthy:
  "db_faults d = [] \<Longrightarrow> exec_once stmt d =
    (case stmt d of Inl msg \<Rightarrow> (Inl (msg, False), d) | Inr d' \<Rightarrow> (Inr (), d'))"
  by (simp add: exec_once_def take_outcome_def)

lemma exec_ctx_healthy:
  "db_faults d = [] \<Longrightarrow> stmt d = Inr d' \<Longrightarrow> exec_ctx stmt d = (ok_unit, d')"
  by (simp add: exec_ctx_def exec_once_healthy numeral_3_eq_3)

lemma exec_direct_healthy:
  "db_faults d = [] \<Longrightarrow> stmt d = Inr d' \<Longrightarrow> exec_direct stmt d = (ok_unit, d')"
  by (simp add: exec_direct_def exec_once_healthy)

lemma query_healthy: "db_faults d = [] \<Longrightarrow> query f d = (Inr (f d), d)"
  by (simp add: query_def take_outcome_def)

lemma query_row_healthy:
  "db_faults d = [] \<Longrightarrow>
    query_row f d = (case f d of None \<Rightarrow> (Inl ErrNotFound, d) | Some x \<Rightarrow> (Inr x, d))"
  by (simp add: query_row_def and_then_def query_healthy map_no_rows_def fail_def ret_def
      split: option.split)

lemmas healthy_calls = exec_ctx_healthy exec_direct_healthy query_healthy query_row_healthy

subsection \<open>The invariant of the tables\<close>

text \<open>
  Rows of a table with a primary key have distinct keys; the ids an \<open>AUTOINCREMENT\<close> column hands
  out increase along the table and never exceed the sequence.
\<close>

definition numbered :: "('r \<Rightarrow> int) \<Rightarrow> int \<Rightarrow> 'r list \<Rightarrow> bool" where
  "numbered key n rows \<longleftrightarrow> sorted_wrt (<) (map key rows) \<and> (\<forall>r \<in> set rows. 0 < key r \<and> key r \<le> n) \<and> 0 \<le> n"

definition db_wf :: "sql_db \<Rightarrow> bool" where
  "db_wf d \<longleftrightarrow>
     distinct (map col_instance_uid (db_collectors d)) \<and>
     distinct (map grp_id (db_groups d)) \<and>
     distinct (map t_id (db_tasks d)) \<and>
     distinct (map sr_id (db_sessions d)) \<and>
     distinct (map run_id (db_runs d)) \<and>
     numbered cv_id (db_seq_versions d) (db_versions d) \<and>
     numbered ev_id (db_seq_events d) (db_events d) \<and>
     numbered (\<lambda>r. msg_id (mr_message r)) (db_seq_messages d) (db_messages d) \<and>
     numbered au_id (db_seq_audit d) (db_audit d)"

lemma numbered_Nil [simp]: "numbered key 0 []"
  by (simp add: numbered_def)

lemma numbered_snoc: "numbered key n rows \<Longrightarrow> key r = n + 1 \<Longrightarrow> numbered key (n + 1) (rows @ [r])"
  by (auto simp: numbered_def sorted_wrt_append)

lemma numbered_sort: "numbered key n rows \<Longrightarrow> sort_key key (filter P rows) = filter P rows"
proof -
  assume "numbered key n rows"
  then have "sorted (map key rows)"
    by (auto simp: numbered_def sorted_wrt_map intro: sorted_wrt_mono_rel [rotated])
  then show "sort_key key (filter P rows) = filter P rows"
    by (intro sort_key_id_if_sorted sorted_filter)
qed

lemma db_wf_fault_blind: "fault_blind db_wf"
  by (simp add: fault_blind_def db_wf_def)

lemma empty_db_wf: "db_wf empty_db"
  by (simp add: db_wf_def empty_db_def)

lemma insert_unique_distinct:
  "distinct (map key rows) \<Longrightarrow> insert_unique key r rows = Inr rows' \<Longrightarrow> distinct (map key rows')"
  by (auto simp: insert_unique_def split: if_splits)

text \<open>
  The steps of a database: an operation of the store that writes, or a change of the outcomes the
  driver is going to report.  Reads change nothing but those outcomes.
\<close>

inductive db_step :: "sql_db \<Rightarrow> sql_db \<Rightarrow> bool" where
  outcomes_change: "db_step d (d\<lparr>db_faults := xs\<rparr>)"
| upserts_collector: "upsert_collector c d = (r, d') \<Longrightarrow> db_step d d'"
| upserts_group: "upsert_group g d = (r, d') \<Longrightarrow> db_step d d'"
| creates_version: "create_config_version v d = (rv, d') \<Longrightarrow> db_step d d'"
| creates_task: "create_task t d = (r, d') \<Longrightarrow> db_step d d'"
| updates_task: "update_task now t d = (rt, d') \<Longrightarrow> db_step d d'"
| creates_session: "create_session sid now d = (r, d') \<Longrightarrow> db_step d d'"
| appends_message: "append_message sid m d = (r, d') \<Longrightarrow> db_step d d'"
| appends_event: "append_task_event e d = (r, d') \<Longrightarrow> db_step d d'"
| creates_run: "create_agent_run g d = (r, d') \<Longrightarrow> db_step d d'"
| updates_run: "update_agent_run g d = (r, d') \<Longrightarrow> db_step d d'"
| appends_audit: "append_audit a d = (r, d') \<Longrightarrow> db_step d d'"

text \<open>Each statement keeps the invariant; the calls around them then do.\<close>

lemma insert_task_wf: "db_wf d \<Longrightarrow> insert_task t d = Inr d' \<Longrightarrow> db_wf d'"
  by (auto simp: insert_task_def db_wf_def dest: insert_unique_distinct split: sum.splits)

lemma rewrite_task_wf: "db_wf d \<Longrightarrow> rewrite_task t d = Inr d' \<Longrightarrow> db_wf d'"
  by (auto simp: rewrite_task_def db_wf_def map_key_update_rows)

lemma update_agent_run_rows_wf:
  "distinct (map run_id rows) \<Longrightarrow>
    distinct (map run_id (update_rows run_id (run_id g) (\<lambda>row. g\<lparr>run_started_at := run_started_at row\<rparr>) rows))"
  by (simp add: map_key_update_rows)

lemma ctx_keeps_wf:
  "exec_ctx stmt d = (r, d') \<Longrightarrow> db_wf d \<Longrightarrow>
    (\<And>e e'. db_wf e \<Longrightarrow> stmt e = Inr e' \<Longrightarrow> db_wf e') \<Longrightarrow> db_wf d'"
  by (rule exec_ctx_keeps [OF db_wf_fault_blind])

lemma direct_keeps_wf:
  "exec_direct stmt d = (r, d') \<Longrightarrow> db_wf d \<Longrightarrow>
    (\<And>e e'. db_wf e \<Longrightarrow> stmt e = Inr e' \<Longrightarrow> db_wf e') \<Longrightarrow> db_wf d'"
  by (rule exec_direct_keeps [OF db_wf_fault_blind])

lemma and_then_keeps_wf:
  assumes "and_then m k d = (r, d')"
    and "\<And>x e. m d = (x, e) \<Longrightarrow> db_wf e"
    and "\<And>x e. m d = (Inr x, e) \<Longrightarrow> k x e = (r, d') \<Longrightarrow> db_wf e \<Longrightarrow> db_wf d'"
  shows "db_wf d'"
  using assms by (elim and_then_cases) blast+

theorem db_step_wf: "db_step d d' \<Longrightarrow> db_wf d \<Longrightarrow> db_wf d'"
proof (induction rule: db_step.induct)
  case (outcomes_change d xs)
  then show ?case by (simp add: db_wf_def)
next
  case (upserts_collector c d r d')
  then show ?case
    unfolding upsert_collector_def
    by (elim direct_keeps_wf) (auto simp: db_wf_def distinct_upsert_row)
next
  case (upserts_group g d r d')
  then show ?case
    unfolding upsert_group_def
    by (elim direct_keeps_wf) (auto simp: db_wf_def distinct_upsert_row)
next
  case (creates_version v d rv d')
  show ?case
    using creates_version(1) unfolding create_config_version_def
  proof (rule and_then_keeps_wf)
    fix x e assume "exec_direct (\<lambda>d. let i = db_seq_versions d + 1 in
        Inr (d\<lparr>db_versions := db_versions d @ [v\<lparr>cv_id := i\<rparr>], db_seq_versions := i\<rparr>)) d = (x, e)"
    then show "db_wf e" using creates_version(2)
      by (elim direct_keeps_wf) (auto simp: db_wf_def Let_def numbered_snoc)
  qed auto
next
  case (creates_task t d r d')
  then show ?case unfolding create_task_def by (rule ctx_keeps_wf) (rule insert_task_wf)
next
  case (updates_task now t d rt d')
  show ?case
    using updates_task(1) unfolding update_task_def Let_def
  proof (rule and_then_keeps_wf)
    fix x e assume "exec_ctx (rewrite_task (t\<lparr>t_updated_at := now\<rparr>)) d = (x, e)"
    then show "db_wf e" using updates_task(2) by (rule ctx_keeps_wf) (rule rewrite_task_wf)
  qed (simp add: ret_def)
next
  case (creates_session sid now d r d')
  then show ?case
    unfolding create_session_def
    by (elim direct_keeps_wf)
      (auto simp: db_wf_def dest: insert_unique_distinct split: sum.splits)
next
  case (appends_message sid m d r d')
  then show ?case
    unfolding append_message_def
    by (elim ctx_keeps_wf) (auto simp: db_wf_def Let_def numbered_snoc)
next
  case (appends_event e d r d')
  then show ?case
    unfolding append_task_event_def
    by (elim ctx_keeps_wf) (auto simp: db_wf_def Let_def numbered_snoc)
next
  case (creates_run g d r d')
  then show ?case
    unfolding create_agent_run_def
    by (elim direct_keeps_wf)
      (auto simp: db_wf_def dest: insert_unique_distinct split: sum.splits)
next
  case (updates_run g d r d')
  then show ?case
    unfolding update_agent_run_def
    by (elim direct_keeps_wf) (auto simp: db_wf_def update_agent_run_rows_wf)
next
  case (appends_audit a d r d')
  then show ?case
    unfolding append_audit_def
    by (elim direct_keeps_wf) (auto simp: db_wf_def Let_def numbered_snoc)
qed

subsection \<open>The attempts of a statement\<close>

text \<open>The database after its driver has reported \<open>k\<close> more outcomes.\<close>

definition after_outcomes :: "nat \<Rightarrow> sql_db \<Rightarrow> sql_db" where
  "after_outcomes k d = d\<lparr>db_faults := drop k (db_faults d)\<rparr>"

lemma after_outcomes_simps [simp]:
  "after_outcomes 0 d = d"
  "after_outcomes j (after_outcomes k d) = after_outcomes (j + k) d"
  by (simp_all add: after_outcomes_def)

definition busy_failure :: "statement \<Rightarrow> sql_db \<Rightarrow> bool" where
  "busy_failure stmt d \<longleftrightarrow>
    (case fst (exec_once stmt d) of Inl (msg, stop) \<Rightarrow> is_busy_error msg \<and> \<not> stop | Inr _ \<Rightarrow> False)"

definition final_failure :: "statement \<Rightarrow> sql_db \<Rightarrow> go_error \<Rightarrow> bool" where
  "final_failure stmt d e \<longleftrightarrow>
    (case fst (exec_once stmt d) of Inl (msg, stop) \<Rightarrow> e = ErrDb msg | Inr _ \<Rightarrow> False)"

lemma exec_attempts_trace:
  assumes "0 < n" and "exec_attempts n err stmt d = (r, d')"
  shows "\<exists>k. 1 \<le> k \<and> k \<le> n \<and> (\<forall>j<k - 1. busy_failure stmt (after_outcomes j d)) \<and>
    (case r of
       Inr _ \<Rightarrow> stmt (after_outcomes k d) = Inr d'
     | Inl e \<Rightarrow> d' = after_outcomes k d \<and> final_failure stmt (after_outcomes (k - 1) d) e \<and>
         (k = n \<or> \<not> busy_failure stmt (after_outcomes (k - 1) d)))"
  using assms
proof (induction n arbitrary: err d)
  case 0
  then show ?case by simp
next
  case (Suc n)
  obtain r1 d1 where once: "exec_once stmt d = (r1, d1)" by (cases "exec_once stmt d")
  note effect = exec_once_effect [OF once]
  show ?case
  proof (cases "busy_failure stmt d \<and> 0 < n")
    case True
    then obtain msg where r1: "r1 = Inl (msg, False)" and busy: "is_busy_error msg"
      using once by (auto simp: busy_failure_def split: sum.splits)
    from effect r1 have d1: "d1 = after_outcomes 1 d" by (simp add: Let_def after_outcomes_def)
    from once r1 busy Suc.prems(2) have "exec_attempts n msg stmt d1 = (r, d')" by simp
    from Suc.IH [OF _ this] True obtain k where k: "1 \<le> k" "k \<le> n"
      and busys: "\<forall>j<k - 1. busy_failure stmt (after_outcomes j d1)"
      and end_: "case r of
         Inr _ \<Rightarrow> stmt (after_outcomes k d1) = Inr d'
       | Inl e \<Rightarrow> d' = after_outcomes k d1 \<and> final_failure stmt (after_outcomes (k - 1) d1) e \<and>
           (k = n \<or> \<not> busy_failure stmt (after_outcomes (k - 1) d1))" by blast
    have "\<forall>j<Suc k - 1. busy_failure stmt (after_outcomes j d)"
    proof (intro allI impI)
      fix j assume "j < Suc k - 1"
      with True busys d1 show "busy_failure stmt (after_outcomes j d)"
        by (cases j) auto
    qed
    with k end_ d1 show ?thesis
      by (intro exI [of _ "Suc k"]) (auto split: sum.splits)
  next
    case False
    show ?thesis
    proof (cases r1)
      case (Inr u)
      with once Suc.prems(2) effect show ?thesis
        by (intro exI [of _ 1]) (auto simp: Let_def after_outcomes_def)
    next
      case (Inl e1)
      obtain msg stop where e1: "e1 = (msg, stop)" by (cases e1)
      from effect Inl have d1: "d1 = after_outcomes 1 d" by (simp add: Let_def after_outcomes_def)
      have "r = Inl (ErrDb msg) \<and> d' = d1"
        using False Suc.prems(2) once Inl e1
        by (cases n) (auto simp: busy_failure_def split: if_splits)
      with False once Inl e1 d1 show ?thesis
        by (intro exI [of _ 1]) (auto simp: final_failure_def)
    qed
  qed
qed

subsection \<open>Properties of the store\<close>

text \<open>In every state a run of the store can reach from the empty schema, whatever the driver
  reports, primary keys are distinct and generated ids increase along their tables, so that a stored
  task is the one its id finds.\<close>

theorem reachable_db_wf:
  assumes "db_step\<^sup>*\<^sup>* empty_db d"
  shows "db_wf d \<and> (t \<in> set (db_tasks d) \<longrightarrow> find_row t_id (t_id t) (db_tasks d) = Some t)"
proof -
  from assms have "db_wf d" by (induction rule: rtranclp_induct) (auto intro: empty_db_wf db_step_wf)
  then show ?thesis by (auto simp: db_wf_def intro: find_row_unique)
qed

theorem reachable_db_wf_witness:
  "db_wf (snd (create_task empty_task empty_db)) \<and>
   find_row t_id '''' (db_tasks (snd (create_task empty_task empty_db))) = Some empty_task"
proof -
  let ?d = "snd (create_task empty_task empty_db)"
  have "create_task empty_task empty_db = (fst (create_task empty_task empty_db), ?d)" by simp
  then have "db_step empty_db ?d" by (rule creates_task)
  then have "db_step\<^sup>*\<^sup>* empty_db ?d" by (rule r_into_rtranclp)
  note wf = reachable_db_wf [OF this, of empty_task]
  have "create_task empty_task empty_db = (ok_unit, empty_db\<lparr>db_tasks := [empty_task]\<rparr>)"
    unfolding create_task_def
    by (rule exec_ctx_healthy) (simp_all add: empty_db_def insert_task_def insert_unique_def)
  with wf show ?thesis by (simp add: empty_task_def)
qed

text \<open>C29: A statement run by \<open>execCtx\<close> is attempted at most three times: every attempt before the
  last one failed with a busy error while the context was alive, each consumed one outcome of the
  driver, and the last one either applied the statement, exactly once, or left the tables as they
  were; its error is returned, and only a third busy failure or one that may not be retried ends the
  loop.\<close>

theorem exec_ctx_attempts:
  "\<exists>k. 1 \<le> k \<and> k \<le> 3 \<and> (\<forall>j<k - 1. busy_failure stmt (after_outcomes j d)) \<and>
    (case exec_ctx stmt d of
       (Inr _, d') \<Rightarrow> stmt (after_outcomes k d) = Inr d'
     | (Inl e, d') \<Rightarrow> d' = after_outcomes k d \<and> final_failure stmt (after_outcomes (k - 1) d) e \<and>
         (k = 3 \<or> \<not> busy_failure stmt (after_outcomes (k - 1) d)))"
proof -
  obtain r d' where call: "exec_ctx stmt d = (r, d')" by (cases "exec_ctx stmt d")
  then have "exec_attempts 3 '''' stmt d = (r, d')" by (simp only: exec_ctx_def)
  from exec_attempts_trace [OF _ this] call show ?thesis by (cases r) simp_all
qed

text \<open>Two busy failures and then a healthy call: the statement is applied by the third attempt.\<close>

theorem exec_ctx_attempts_witness:
  "fst (exec_ctx (insert_task empty_task)
     (empty_db\<lparr>db_faults := [DbErr ''database is locked (5)'' False, DbErr ''SQLITE_BUSY'' False]\<rparr>)) = ok_unit \<and>
   (\<exists>k. 1 \<le> k \<and> k \<le> 3 \<and> insert_task empty_task (after_outcomes k
      (empty_db\<lparr>db_faults := [DbErr ''database is locked (5)'' False, DbErr ''SQLITE_BUSY'' False]\<rparr>))
      = Inr (empty_db\<lparr>db_tasks := [empty_task]\<rparr>))"
proof -
  let ?d = "empty_db\<lparr>db_faults := [DbErr ''database is locked (5)'' False, DbErr ''SQLITE_BUSY'' False]\<rparr>"
  have "exec_ctx (insert_task empty_task) ?d = (ok_unit, empty_db\<lparr>db_tasks := [empty_task]\<rparr>)"
    by code_simp
  with exec_ctx_attempts [of "insert_task empty_task" ?d] show ?thesis by auto
qed

lemma get_task_healthy:
  "db_faults d = [] \<Longrightarrow> get_task k d =
    (case find_row t_id k (db_tasks d) of None \<Rightarrow> (Inl ErrNotFound, d) | Some t \<Rightarrow> (Inr t, d))"
  by (simp add: get_task_def query_row_healthy)

text \<open>Updating a task that exists and reading it back gives the caller's task, with \<open>updated_at\<close>
  stamped and \<open>created_at\<close> as it was stored; every other task, the order of the rows and the set of
  ids stay as they were.  Updating an id that does not exist changes nothing and is no error.\<close>

theorem update_task_roundtrip:
  assumes "db_faults d = []"
  shows "\<exists>d'. update_task now t d = (Inr (t\<lparr>t_updated_at := now\<rparr>), d') \<and>
    map t_id (db_tasks d') = map t_id (db_tasks d) \<and>
    get_task (t_id t) d' =
      (case find_row t_id (t_id t) (db_tasks d) of
         None \<Rightarrow> (Inl ErrNotFound, d)
       | Some old \<Rightarrow> (Inr (t\<lparr>t_created_at := t_created_at old, t_updated_at := now\<rparr>), d')) \<and>
    (\<forall>k. k \<noteq> t_id t \<longrightarrow> fst (get_task k d') = fst (get_task k d))"
proof -
  let ?t = "t\<lparr>t_updated_at := now\<rparr>"
  let ?f = "\<lambda>r. ?t\<lparr>t_created_at := t_created_at r\<rparr>"
  let ?rows = "update_rows t_id (t_id t) ?f (db_tasks d)"
  let ?d = "d\<lparr>db_tasks := ?rows\<rparr>"
  have healthy: "db_faults ?d = []" using assms by simp
  have call: "update_task now t d = (Inr ?t, ?d)"
    using exec_ctx_healthy [OF assms, of "rewrite_task ?t" ?d]
    by (simp add: update_task_def rewrite_task_def Let_def ret_def)
  have keys: "map t_id ?rows = map t_id (db_tasks d)"
    by (rule map_key_update_rows) simp
  have find: "find_row t_id k ?rows =
      (if k = t_id t then map_option ?f (find_row t_id k (db_tasks d)) else find_row t_id k (db_tasks d))" for k
    by (subst find_row_update_rows) auto
  have same_rows: "?rows = db_tasks d" if "find_row t_id (t_id t) (db_tasks d) = None"
    using that unfolding update_rows_def
    by (intro map_idI) (auto simp: find_row_None_iff image_iff)
  have same: "get_task (t_id t) ?d =
      (case find_row t_id (t_id t) (db_tasks d) of
         None \<Rightarrow> (Inl ErrNotFound, d)
       | Some old \<Rightarrow> (Inr (t\<lparr>t_created_at := t_created_at old, t_updated_at := now\<rparr>), ?d))"
  proof (cases "find_row t_id (t_id t) (db_tasks d)")
    case None
    from same_rows [OF this] have "?d = d" by simp
    with None assms show ?thesis by (simp add: get_task_healthy)
  next
    case (Some old)
    with find [of "t_id t"] get_task_healthy [OF healthy] show ?thesis by simp
  qed
  have others: "fst (get_task k ?d) = fst (get_task k d)" if "k \<noteq> t_id t" for k
    using get_task_healthy [OF healthy] get_task_healthy [OF assms] find [of k] that
    by (simp split: option.split)
  from call keys same others show ?thesis by auto
qed

theorem update_task_roundtrip_witness:
  "\<exists>d'. update_task 9 (empty_task\<lparr>t_input := ''x''\<rparr>) (empty_db\<lparr>db_tasks := [empty_task\<lparr>t_created_at := 4\<rparr>]\<rparr>)
      = (Inr (empty_task\<lparr>t_input := ''x'', t_updated_at := 9\<rparr>), d') \<and>
    get_task '''' d' = (Inr (empty_task\<lparr>t_input := ''x'', t_created_at := 4, t_updated_at := 9\<rparr>), d')"
  using update_task_roundtrip [of "empty_db\<lparr>db_tasks := [empty_task\<lparr>t_created_at := 4\<rparr>]\<rparr>" 9
      "empty_task\<lparr>t_input := ''x''\<rparr>"]
  by (auto simp: empty_db_def empty_task_def find_row_def)

subsection \<open>Paging\<close>

definition page_rows :: "('e + 'a list \<times> int) \<times> 's \<Rightarrow> 'a list" where
  "page_rows r = (case fst r of Inl _ \<Rightarrow> [] | Inr (rows, _) \<Rightarrow> rows)"

lemma page_offset_exact:
  assumes "0 < ps" and "k * ps < 2 ^ 63" and "0 \<le> k"
  shows "page_offset (k + 1) ps = k * ps"
proof -
  have "k * 1 \<le> k * ps" by (rule mult_left_mono) (use assms in auto)
  then have "wrap64 k = k" using assms by (intro wrap64_id) auto
  moreover have "wrap64 (k * ps) = k * ps"
    using assms by (intro wrap64_id) (auto intro: order_trans [of _ 0])
  ultimately show ?thesis by (simp add: page_offset_def)
qed

lemma paged_exact:
  assumes "0 < ps" and "int k * ps < 2 ^ 63"
  shows "paged (int k + 1) ps rows = take (nat ps) (drop (k * nat ps) rows)"
  using page_offset_exact [of ps "int k"] assms
  by (simp add: paged_def nat_mult_distrib)

lemma paged_partition:
  assumes "0 < ps" and "int m * ps < 2 ^ 63"
  shows "concat (map (\<lambda>k. paged (int k + 1) ps rows) [0..<m]) = take (m * nat ps) rows"
proof -
  have "paged (int k + 1) ps rows = take (nat ps) (drop (k * nat ps) rows)" if "k < m" for k
  proof -
    have "int k * ps \<le> int m * ps" by (rule mult_right_mono) (use that assms in auto)
    with assms(2) have "int k * ps < 2 ^ 63" by linarith
    with assms(1) show ?thesis by (rule paged_exact)
  qed
  then have "map (\<lambda>k. paged (int k + 1) ps rows) [0..<m] =
      map (\<lambda>k. take (nat ps) (drop (k * nat ps) rows)) [0..<m]" by simp
  with assms show ?thesis by (simp only: take_drop_concat_upt)
qed

definition task_order :: "task \<Rightarrow> int \<times> string" where
  "task_order t = (second_bound (t_created_at t), t_id t)"

lemma list_tasks_healthy:
  "db_faults d = [] \<Longrightarrow> list_tasks f page ps d =
    (Inr (paged page ps (rev (sort_key task_order (filter (task_matches f) (db_tasks d)))),
      int (length (filter (task_matches f) (db_tasks d)))), d)"
  by (simp add: list_tasks_def and_then_def query_healthy ret_def task_order_def [abs_def])

text \<open>Reading all pages of a task listing, as long as the offsets stay in 64 bits, gives every task
  that matches the filter exactly once, newest second first and within a second by descending id, and
  each page reports the number of all of them.\<close>

theorem list_tasks_pages:
  assumes "db_faults d = []" and "0 < ps" and "int m * ps < 2 ^ 63"
    and "length (filter (task_matches f) (db_tasks d)) \<le> m * nat ps"
  shows "mset (concat (map (\<lambda>k. page_rows (list_tasks f (int k + 1) ps d)) [0..<m])) =
      mset (filter (task_matches f) (db_tasks d)) \<and>
    sorted_wrt (\<lambda>a b. task_order b \<le> task_order a)
      (concat (map (\<lambda>k. page_rows (list_tasks f (int k + 1) ps d)) [0..<m])) \<and>
    (\<forall>k. \<exists>rows. fst (list_tasks f k ps d) =
      Inr (rows, int (length (filter (task_matches f) (db_tasks d)))))"
proof -
  let ?all = "rev (sort_key task_order (filter (task_matches f) (db_tasks d)))"
  have pages: "concat (map (\<lambda>k. page_rows (list_tasks f (int k + 1) ps d)) [0..<m]) = ?all"
    using paged_partition [OF assms(2,3), of ?all] assms(1,4)
    by (simp add: list_tasks_healthy page_rows_def)
  have "sorted_wrt (\<lambda>a b. task_order b \<le> task_order a) ?all"
    using sorted_sort_key [of task_order] by (simp only: sorted_wrt_rev sorted_map)
  with pages assms(1) show ?thesis by (simp add: list_tasks_healthy)
qed

theorem list_tasks_pages_witness:
  "mset (concat (map (\<lambda>k. page_rows (list_tasks no_task_filter (int k + 1) 1
     (empty_db\<lparr>db_tasks := [empty_task, empty_task\<lparr>t_id := ''b''\<rparr>]\<rparr>))) [0..<2])) =
   mset [empty_task, empty_task\<lparr>t_id := ''b''\<rparr>]"
proof -
  let ?d = "empty_db\<lparr>db_tasks := [empty_task, empty_task\<lparr>t_id := ''b''\<rparr>]\<rparr>"
  have "filter (task_matches no_task_filter) (db_tasks ?d) = [empty_task, empty_task\<lparr>t_id := ''b''\<rparr>]"
    by (simp add: task_matches_def no_task_filter_def)
  moreover have "db_faults ?d = []" by (simp add: empty_db_def)
  ultimately show ?thesis
    using list_tasks_pages [of ?d 1 2 no_task_filter] by simp
qed

text \<open>Without that bound the listing is wrong: for page \<open>2^62 + 1\<close> of size 4 the offset
  wraps round to zero and the first page is returned.\<close>

theorem page_offset_overflow:
  "page_rows (list_tasks f (2 ^ 62 + 1) 4 d) = page_rows (list_tasks f 1 4 d)"
proof -
  have "page_offset (2 ^ 62 + 1) 4 = page_offset 1 4" by (simp add: page_offset_def wrap64_def)
  then show ?thesis by (simp add: list_tasks_def paged_def)
qed

subsection \<open>Windows of a conversation\<close>

lemma sorted_filter_above:
  fixes key :: "'r \<Rightarrow> int"
  assumes "sorted_wrt (<) (map key xs)" and "i < length xs"
  shows "filter (\<lambda>x. key x > key (xs ! i)) xs = drop (Suc i) xs"
proof -
  have split: "xs = take (Suc i) xs @ drop (Suc i) xs" by simp
  have "\<not> key x > key (xs ! i)" if "x \<in> set (take (Suc i) xs)" for x
  proof -
    from that obtain j where j: "j < Suc i" "x = xs ! j"
      using assms(2) by (auto simp: in_set_conv_nth)
    then have "j < i \<or> j = i" by linarith
    with assms j show ?thesis
      by (auto simp: sorted_wrt_map dest!: sorted_wrt_nth_less [of _ _ j i])
  qed
  moreover have "key x > key (xs ! i)" if "x \<in> set (drop (Suc i) xs)" for x
  proof -
    from that obtain j where "j < length xs - Suc i" "x = xs ! (Suc i + j)"
      by (auto simp: in_set_conv_nth)
    then have j: "Suc i + j < length xs" "x = xs ! (Suc i + j)" using assms(2) by auto
    with assms show ?thesis
      by (auto simp: sorted_wrt_map dest!: sorted_wrt_nth_less [of _ _ i "Suc i + j"])
  qed
  ultimately show ?thesis
    by (subst split, subst filter_append) (simp add: filter_False filter_True)
qed

lemma sorted_filter_below:
  fixes key :: "'r \<Rightarrow> int"
  assumes "sorted_wrt (<) (map key xs)" and "i < length xs"
  shows "filter (\<lambda>x. key x < key (xs ! i)) xs = take i xs"
proof -
  have split: "xs = take i xs @ drop i xs" by simp
  have "key x < key (xs ! i)" if "x \<in> set (take i xs)" for x
  proof -
    from that obtain j where j: "j < i" "x = xs ! j"
      using assms(2) by (auto simp: in_set_conv_nth)
    with assms show ?thesis
      by (auto simp: sorted_wrt_map dest!: sorted_wrt_nth_less [of _ _ j i])
  qed
  moreover have "\<not> key x < key (xs ! i)" if "x \<in> set (drop i xs)" for x
  proof -
    from that obtain j where "j < length xs - i" "x = xs ! (i + j)"
      by (auto simp: in_set_conv_nth)
    then have j: "i + j < length xs" "x = xs ! (i + j)" using assms(2) by auto
    then show ?thesis
      using assms by (cases j) (auto simp: sorted_wrt_map dest!: sorted_wrt_nth_less [of _ _ i "i + j"])
  qed
  ultimately show ?thesis
    by (subst split, subst filter_append) (simp add: filter_False filter_True)
qed

lemma messages_of_ids:
  assumes "db_wf d"
  shows "messages_of sid d = map mr_message (filter (\<lambda>r. mr_session_id r = sid) (db_messages d)) \<and>
    sorted_wrt (<) (map msg_id (messages_of sid d)) \<and> (\<forall>m \<in> set (messages_of sid d). 0 < msg_id m)"
proof -
  let ?rows = "filter (\<lambda>r. mr_session_id r = sid) (db_messages d)"
  have num: "numbered (\<lambda>r. msg_id (mr_message r)) (db_seq_messages d) (db_messages d)"
    using assms by (simp add: db_wf_def)
  then have incr: "sorted_wrt (<) (map (\<lambda>r. msg_id (mr_message r)) ?rows)"
    by (auto simp: numbered_def sorted_wrt_map intro: sorted_wrt_filter)
  then have "sorted (map msg_id (map mr_message ?rows))"
    by (auto simp: sorted_wrt_map comp_def intro: sorted_wrt_mono_rel [rotated])
  then have "messages_of sid d = map mr_message ?rows"
    unfolding messages_of_def by (rule sort_key_id_if_sorted)
  with incr num show ?thesis by (auto simp: numbered_def comp_def)
qed

lemma list_messages_healthy:
  "db_faults d = [] \<Longrightarrow> 0 < limit \<Longrightarrow> list_messages sid before after limit d =
    (Inr (if after \<le> 0 then rev (message_window before after limit (messages_of sid d))
          else message_window before after limit (messages_of sid d), int (length (messages_of sid d))), d)"
  by (simp add: list_messages_def and_then_def query_healthy ret_def)

text \<open>C27: The cursors of the message listing neither skip nor repeat a message, in every state a run of the store
  can reach from the empty schema and on a healthy database.  Without a cursor the last \<open>limit\<close> messages of the
  session are returned, in front of a message the \<open>limit\<close> ones right before it, behind a message the
  \<open>limit\<close> ones right after it, each in ascending order, with the number of all messages of the session and none
  of another.\<close>

theorem list_messages_windows:
  assumes "db_step\<^sup>*\<^sup>* empty_db d" and "db_faults d = []" and "0 < limit"
  shows "let all = map mr_message (filter (\<lambda>r. mr_session_id r = sid) (db_messages d)) in
    sorted_wrt (<) (map msg_id all) \<and>
    fst (list_messages sid 0 0 limit d) =
      Inr (drop (length all - nat limit) all, int (length all)) \<and>
    (\<forall>i<length all.
      fst (list_messages sid (msg_id (all ! i)) 0 limit d) =
        Inr (drop (i - nat limit) (take i all), int (length all)) \<and>
      fst (list_messages sid 0 (msg_id (all ! i)) limit d) =
        Inr (take (nat limit) (drop (Suc i) all), int (length all)))"
proof -
  define all where "all = map mr_message (filter (\<lambda>r. mr_session_id r = sid) (db_messages d))"
  have "db_wf d" using reachable_db_wf [OF assms(1), of undefined] by blast
  from messages_of_ids [OF this] have of: "messages_of sid d = all"
    and incr: "sorted_wrt (<) (map msg_id all)" and pos: "\<forall>m \<in> set all. 0 < msg_id m"
    unfolding all_def by metis+
  have turned: "rev (take n (rev xs)) = drop (length xs - n) xs" for n and xs :: "chat_message list"
    by (simp add: rev_take)
  have "0 < msg_id (all ! i)" "\<not> msg_id (all ! i) \<le> 0" if "i < length all" for i
    using pos that by (simp_all add: not_le)
  moreover have "filter (\<lambda>m. msg_id m < msg_id (all ! i)) all = take i all" if "i < length all" for i
    using incr that by (rule sorted_filter_below)
  moreover have "filter (\<lambda>m. msg_id (all ! i) < msg_id m) all = drop (Suc i) all" if "i < length all" for i
    using incr that by (rule sorted_filter_above)
  ultimately show ?thesis
    using assms(2,3) incr
    by (simp add: list_messages_healthy message_window_def turned Let_def of flip: all_def)
qed

text \<open>Two messages of a session with one of another in between.\<close>

definition chat_line :: "string \<Rightarrow> chat_message" where
  "chat_line content = \<lparr>msg_id = 0, msg_role = ''user'', msg_content = content, msg_created_at = 0\<rparr>"

definition messages_db :: sql_db where
  "messages_db = snd (append_message ''s'' (chat_line ''c'') (snd (append_message ''u'' (chat_line ''b'')
     (snd (append_message ''s'' (chat_line ''a'') empty_db)))))"

lemma messages_db_reached: "db_step\<^sup>*\<^sup>* empty_db messages_db"
proof -
  have "db_step\<^sup>*\<^sup>* empty_db (snd (append_message sid m d))" if "db_step\<^sup>*\<^sup>* empty_db d" for sid m d
    using that appends_message [OF surjective_pairing, of d sid m] by (rule rtranclp.rtrancl_into_rtrancl)
  then show ?thesis by (simp add: messages_db_def)
qed

theorem list_messages_windows_witness:
  "fst (list_messages ''s'' 3 0 1 messages_db) =
     Inr ([\<lparr>msg_id = 1, msg_role = ''user'', msg_content = ''a'', msg_created_at = 0\<rparr>], 2)"
proof -
  have rows: "map mr_message (filter (\<lambda>r. mr_session_id r = ''s'') (db_messages messages_db)) =
      [(chat_line ''a'')\<lparr>msg_id := 1\<rparr>, (chat_line ''c'')\<lparr>msg_id := 3\<rparr>]" and healthy: "db_faults messages_db = []"
    by (simp_all add: messages_db_def append_message_def exec_ctx_healthy empty_db_def Let_def)
  have "(0::int) < 1" by simp
  note windows = list_messages_windows [OF messages_db_reached healthy this, of "''s''", unfolded rows Let_def]
  from windows [THEN conjunct2, THEN conjunct2, THEN spec, of 1] show ?thesis by (simp add: chat_line_def)
qed

end
