(* ===== verification/Task_Service.thy ===== *)
theory Task_Service
  imports Sql_Store
begin

section \<open>The task state machine (internal/task/task.go)\<close>

text \<open>
  The service creates tasks, approves and rejects them and moves them along the state machine.  Each
  operation reads the task, checks the transition, writes the task back and records an event whose
  failure is ignored.  The instants one call reads from the clock are one argument \<open>now\<close>.  The
  lemmas are proved over the interface \<open>task_repo\<close>, which the SQL store implements; the last part
  looks at runs of the service: what the event log says of a task, that no task is applied without
  approval, and what happens when two approvals overlap.
\<close>

subsection \<open>Operations\<close>

definition can_transition :: "task_status \<Rightarrow> task_status \<Rightarrow> bool" where
  "can_transition from to =
    (case to of
       TaskStatusFailed \<Rightarrow>
         from \<noteq> TaskStatusDone \<and> from \<noteq> TaskStatusRejected \<and> from \<noteq> TaskStatusFailed
     | TaskStatusGenerating \<Rightarrow> from = TaskStatusPending \<or> from = TaskStatusFailed
     | TaskStatusValidating \<Rightarrow> from = TaskStatusGenerating
     | TaskStatusAwaitingApproval \<Rightarrow> from = TaskStatusValidating
     | TaskStatusApplying \<Rightarrow> from = TaskStatusAwaitingApproval
     | TaskStatusDone \<Rightarrow> from = TaskStatusApplying
     | TaskStatusRejected \<Rightarrow> from = TaskStatusAwaitingApproval
     | TaskStatusPending \<Rightarrow> from = TaskStatusPending
     | TaskStatusNone \<Rightarrow> False)"

definition transition :: "time \<Rightarrow> task \<Rightarrow> task_status \<Rightarrow> go_error + task" where
  "transition now t to =
    (if \<not> can_transition (t_status t) to then Inl (ErrIllegalTransition (t_status t) to)
     else Inr (t\<lparr>t_status := to, t_updated_at := now\<rparr>))"

definition record_event :: "time \<Rightarrow> string \<Rightarrow> string \<Rightarrow> string \<Rightarrow> unit db_op" where
  "record_event now tid from to d =
    (ok_unit, snd (append_task_event
       \<lparr>ev_id = 0, ev_task_id = tid, ev_from_status = from, ev_to_status = to, ev_created_at = now\<rparr> d))"

definition svc_create :: "time \<Rightarrow> task \<Rightarrow> task db_op" where
  "svc_create now t =
    (let t1 = t\<lparr>t_created_at := now, t_updated_at := now\<rparr>;
         t2 = (if t_status t1 = TaskStatusNone then t1\<lparr>t_status := TaskStatusPending\<rparr> else t1)
     in and_then (create_task t2) (\<lambda>_.
        and_then (record_event now (t_id t2) '''' (task_status_text (t_status t2))) (\<lambda>_.
        ret t2)))"

text \<open>The part of each operation after the task has been read.\<close>

definition approve_loaded :: "time \<Rightarrow> string \<Rightarrow> task \<Rightarrow> task db_op" where
  "approve_loaded now approver t =
    (case transition now t TaskStatusApplying of
       Inl e \<Rightarrow> fail e
     | Inr t1 \<Rightarrow>
         and_then (update_task now (t1\<lparr>t_approver := approver\<rparr>)) (\<lambda>t2.
         and_then (record_event now (t_id t2) (task_status_text (t_status t)) (task_status_text (t_status t2)))
           (\<lambda>_. ret t2)))"

definition svc_approve :: "time \<Rightarrow> string \<Rightarrow> string \<Rightarrow> task db_op" where
  "svc_approve now tid approver = and_then (get_task tid) (approve_loaded now approver)"

definition reject_loaded :: "time \<Rightarrow> string \<Rightarrow> string \<Rightarrow> task \<Rightarrow> task db_op" where
  "reject_loaded now approver reason t =
    (case transition now t TaskStatusRejected of
       Inl e \<Rightarrow> fail e
     | Inr t1 \<Rightarrow>
         and_then (update_task now (t1\<lparr>t_approver := approver, t_reject_reason := reason\<rparr>)) (\<lambda>t2.
         and_then (record_event now (t_id t2) (task_status_text (t_status t)) (task_status_text (t_status t2)))
           (\<lambda>_. ret t2)))"

definition svc_reject :: "time \<Rightarrow> string \<Rightarrow> string \<Rightarrow> string \<Rightarrow> task db_op" where
  "svc_reject now tid approver reason = and_then (get_task tid) (reject_loaded now approver reason)"

definition set_status_loaded :: "time \<Rightarrow> task_status \<Rightarrow> task \<Rightarrow> task db_op" where
  "set_status_loaded now to t =
    (case transition now t to of
       Inl e \<Rightarrow> fail e
     | Inr t1 \<Rightarrow>
         and_then (update_task now t1) (\<lambda>t2.
         and_then (record_event now (t_id t2) (task_status_text (t_status t)) (task_status_text (t_status t2)))
           (\<lambda>_. ret t2)))"

definition svc_set_status :: "time \<Rightarrow> string \<Rightarrow> task_status \<Rightarrow> task db_op" where
  "svc_set_status now tid to = and_then (get_task tid) (set_status_loaded now to)"

subsection \<open>The repository interface\<close>

text \<open>
  What the service relies on: a read returns the stored task, a write replaces it but for its
  creation time, an event is appended or lost, and a call that fails leaves both tasks and events
  as they were.
\<close>

locale task_repo =
  fixes stored :: "'s \<Rightarrow> string \<Rightarrow> task option"
    and history :: "'s \<Rightarrow> (string \<times> string \<times> string) list"
    and load :: "string \<Rightarrow> ('s, go_error, task) op"
    and save :: "time \<Rightarrow> task \<Rightarrow> ('s, go_error, task) op"
    and note_event :: "time \<Rightarrow> string \<Rightarrow> string \<Rightarrow> string \<Rightarrow> ('s, go_error, unit) op"
  assumes load_ok: "load k s = (Inr t, s') \<Longrightarrow> stored s k = Some t"
    and load_keeps: "load k s = (r, s') \<Longrightarrow> stored s' = stored s \<and> history s' = history s"
    and save_ok: "save now t s = (Inr t', s') \<Longrightarrow>
          t' = t\<lparr>t_updated_at := now\<rparr> \<and> history s' = history s \<and>
          stored s' = (stored s)(t_id t := map_option (\<lambda>old. t'\<lparr>t_created_at := t_created_at old\<rparr>)
            (stored s (t_id t)))"
    and save_err: "save now t s = (Inl e, s') \<Longrightarrow> stored s' = stored s \<and> history s' = history s"
    and note_keeps: "note_event now k from to s = (u, s') \<Longrightarrow> u = ok_unit \<and> stored s' = stored s \<and>
          (history s' = history s \<or> history s' = history s @ [(k, from, to)])"
    and stored_key: "stored s k = Some t \<Longrightarrow> t_id t = k"
begin

text \<open>Read a task, check the transition, edit it, write it and record the event.\<close>

lemma guarded_update:
  assumes run: "and_then (load k) (\<lambda>t. case transition now t to of
        Inl e \<Rightarrow> fail e
      | Inr t1 \<Rightarrow> and_then (save now (edit t1)) (\<lambda>t2.
          and_then (note_event now (t_id t2) (task_status_text (t_status t)) (task_status_text (t_status t2)))
            (\<lambda>_. ret t2))) s = (r, s')"
    and edit: "\<And>t. t_id (edit t) = t_id t \<and> t_status (edit t) = t_status t \<and>
        t_created_at (edit t) = t_created_at t"
  shows "case r of
      Inl e \<Rightarrow> stored s' = stored s \<and> history s' = history s
    | Inr t2 \<Rightarrow> \<exists>t. stored s k = Some t \<and> can_transition (t_status t) to \<and>
        t2 = (edit (t\<lparr>t_status := to, t_updated_at := now\<rparr>))\<lparr>t_updated_at := now\<rparr> \<and>
        stored s' = (stored s)(k \<mapsto> t2) \<and>
        (history s' = history s \<or>
         history s' = history s @ [(k, task_status_text (t_status t), task_status_text to)])"
  using run
proof (cases rule: and_then_cases)
  case (err e)
  with load_keeps show ?thesis by simp
next
  case (val t s1)
  have t: "stored s k = Some t" "t_id t = k" and s1: "stored s1 = stored s" "history s1 = history s"
    using load_ok [OF val(1)] load_keeps [OF val(1)] stored_key by auto
  show ?thesis
  proof (cases "can_transition (t_status t) to")
    case False
    with val(2) s1 show ?thesis by (auto simp: transition_def fail_def)
  next
    case True
    let ?t1 = "t\<lparr>t_status := to, t_updated_at := now\<rparr>"
    from val(2) True have rest: "and_then (save now (edit ?t1)) (\<lambda>t2.
        and_then (note_event now (t_id t2) (task_status_text (t_status t)) (task_status_text (t_status t2)))
          (\<lambda>_. ret t2)) s1 = (r, s')" by (simp add: transition_def)
    then show ?thesis
    proof (cases rule: and_then_cases)
      case (err e)
      with save_err s1 show ?thesis by simp
    next
      case (val t2 s2)
      from save_ok [OF val(1)] edit s1 t
      have t2: "t2 = (edit ?t1)\<lparr>t_updated_at := now\<rparr>"
        and s2: "history s2 = history s" "stored s2 = (stored s)(k \<mapsto> t2)" by auto
      obtain r3 s3 where ev: "note_event now (t_id t2) (task_status_text (t_status t))
          (task_status_text (t_status t2)) s2 = (r3, s3)" by (cases "note_event now (t_id t2)
          (task_status_text (t_status t)) (task_status_text (t_status t2)) s2")
      have ids: "t_id t2 = k" "t_status t2 = to" using t2 edit t by auto
      from note_keeps [OF ev] have "r3 = ok_unit" and s3: "stored s3 = stored s2"
        "history s3 = history s2 \<or> history s3 = history s2 @
          [(t_id t2, task_status_text (t_status t), task_status_text (t_status t2))]" by auto
      with val(2) ev have "r = Inr t2" "s' = s3" by (auto simp: ret_def)
      with s2 s3 ids t t2 True show ?thesis by auto
    qed
  qed
qed

end

text \<open>A repository whose calls succeed while it is healthy.\<close>

locale healthy_task_repo = task_repo stored history load save note_event
  for stored :: "'s \<Rightarrow> string \<Rightarrow> task option"
    and history :: "'s \<Rightarrow> (string \<times> string \<times> string) list"
    and load :: "string \<Rightarrow> ('s, go_error, task) op"
    and save :: "time \<Rightarrow> task \<Rightarrow> ('s, go_error, task) op"
    and note_event :: "time \<Rightarrow> string \<Rightarrow> string \<Rightarrow> string \<Rightarrow> ('s, go_error, unit) op" +
  fixes healthy :: "'s \<Rightarrow> bool"
  assumes load_healthy: "healthy s \<Longrightarrow>
        load k s = (case stored s k of None \<Rightarrow> (Inl ErrNotFound, s) | Some t \<Rightarrow> (Inr t, s))"
    and save_healthy: "healthy s \<Longrightarrow> \<exists>s'. save now t s = (Inr (t\<lparr>t_updated_at := now\<rparr>), s') \<and> healthy s'"
    and note_healthy: "healthy s \<Longrightarrow> \<exists>s'. note_event now k from to s = (ok_unit, s') \<and> healthy s' \<and>
        history s' = history s @ [(k, from, to)]"
begin

lemma guarded_update_healthy:
  assumes healthy: "healthy s"
    and edit: "\<And>t. t_id (edit t) = t_id t \<and> t_status (edit t) = t_status t \<and>
        t_created_at (edit t) = t_created_at t"
  shows "\<exists>s'. and_then (load k) (\<lambda>t. case transition now t to of
        Inl e \<Rightarrow> fail e
      | Inr t1 \<Rightarrow> and_then (save now (edit t1)) (\<lambda>t2.
          and_then (note_event now (t_id t2) (task_status_text (t_status t)) (task_status_text (t_status t2)))
            (\<lambda>_. ret t2))) s =
      (case stored s k of
         None \<Rightarrow> (Inl ErrNotFound, s)
       | Some t \<Rightarrow>
           if can_transition (t_status t) to
           then (Inr ((edit (t\<lparr>t_status := to, t_updated_at := now\<rparr>))\<lparr>t_updated_at := now\<rparr>), s')
           else (Inl (ErrIllegalTransition (t_status t) to), s)) \<and>
      (\<forall>t. stored s k = Some t \<longrightarrow> can_transition (t_status t) to \<longrightarrow> healthy s' \<and>
        history s' = history s @ [(k, task_status_text (t_status t), task_status_text to)])"
proof (cases "stored s k")
  case None
  then show ?thesis using load_healthy [OF healthy, of k] by (auto simp: and_then_def)
next
  case (Some t)
  let ?t1 = "edit (t\<lparr>t_status := to, t_updated_at := now\<rparr>)"
  let ?t2 = "?t1\<lparr>t_updated_at := now\<rparr>"
  obtain s1 where s1: "save now ?t1 s = (Inr ?t2, s1)" "healthy s1" using save_healthy [OF healthy] by blast
  obtain s2 where s2: "note_event now (t_id ?t2) (task_status_text (t_status t)) (task_status_text (t_status ?t2)) s1
      = (ok_unit, s2)" "healthy s2"
      "history s2 = history s1 @ [(t_id ?t2, task_status_text (t_status t), task_status_text (t_status ?t2))]"
    using note_healthy [OF s1(2)] by blast
  have "t_id ?t2 = k" "t_status ?t2 = to" "history s1 = history s"
    using edit stored_key [OF Some] save_ok [OF s1(1)] by auto
  with s1 s2 Some show ?thesis
    using load_healthy [OF healthy, of k]
    by (intro exI [of _ s2]) (auto simp: and_then_def transition_def fail_def ret_def)
qed

end

subsection \<open>The SQL store is a task repository\<close>

definition stored_task :: "sql_db \<Rightarrow> string \<Rightarrow> task option" where
  "stored_task d tid = find_row t_id tid (db_tasks d)"

definition event_links :: "sql_db \<Rightarrow> (string \<times> string \<times> string) list" where
  "event_links d = map (\<lambda>e. (ev_task_id e, ev_from_status e, ev_to_status e)) (db_events d)"

lemma record_event_effect:
  assumes "record_event now k from to d = (r, d')"
  shows "r = ok_unit \<and> stored_task d' = stored_task d \<and>
    (event_links d' = event_links d \<or> event_links d' = event_links d @ [(k, from, to)])"
proof -
  let ?e = "\<lparr>ev_id = 0, ev_task_id = k, ev_from_status = from, ev_to_status = to, ev_created_at = now\<rparr>"
  obtain r1 where "append_task_event ?e d = (r1, d')" and "r = ok_unit"
    using assms unfolding record_event_def by (metis prod.collapse prod.inject)
  then have "exec_attempts 3 '''' (\<lambda>d. let i = db_seq_events d + 1 in
      Inr (d\<lparr>db_events := db_events d @ [?e\<lparr>ev_id := i\<rparr>], db_seq_events := i\<rparr>)) d = (r1, d')"
    by (simp add: append_task_event_def exec_ctx_def)
  from exec_attempts_effect [OF this] \<open>r = ok_unit\<close> show ?thesis
    by (cases r1) (auto simp: Let_def stored_task_def event_links_def)
qed

lemma update_task_effect:
  assumes "update_task now t d = (r, d')"
  shows "case r of
      Inl e \<Rightarrow> db_tasks d' = db_tasks d \<and> db_events d' = db_events d
    | Inr t' \<Rightarrow> t' = t\<lparr>t_updated_at := now\<rparr> \<and> db_events d' = db_events d \<and>
        db_tasks d' = update_rows t_id (t_id t) (\<lambda>r. t'\<lparr>t_created_at := t_created_at r\<rparr>) (db_tasks d)"
proof -
  let ?t = "t\<lparr>t_updated_at := now\<rparr>"
  from assms have "and_then (exec_ctx (rewrite_task ?t)) (\<lambda>_. ret ?t) d = (r, d')"
    by (simp add: update_task_def Let_def)
  then obtain r1 where call: "exec_attempts 3 '''' (rewrite_task ?t) d = (r1, d')"
    and r: "r = (case r1 of Inl e \<Rightarrow> Inl e | Inr _ \<Rightarrow> Inr ?t)"
    by (cases rule: and_then_cases) (auto simp: ret_def exec_ctx_def)
  from exec_attempts_effect [OF call] r show ?thesis
    by (cases r1) (auto simp: Let_def rewrite_task_def)
qed

interpretation sql_repo: task_repo stored_task event_links get_task update_task record_event
proof
  fix k s t s' assume "get_task k s = (Inr t, s')"
  then show "stored_task s k = Some t"
    by (auto simp: get_task_def stored_task_def dest!: query_row_effect)
next
  fix k s r s' assume "get_task k s = (r, s')"
  then show "stored_task s' = stored_task s \<and> event_links s' = event_links s"
    by (auto simp: get_task_def stored_task_def event_links_def dest!: query_row_effect)
next
  fix now t s t' s' assume "update_task now t s = (Inr t', s')"
  from update_task_effect [OF this]
  show "t' = t\<lparr>t_updated_at := now\<rparr> \<and> event_links s' = event_links s \<and>
      stored_task s' = (stored_task s)(t_id t := map_option (\<lambda>old. t'\<lparr>t_created_at := t_created_at old\<rparr>)
        (stored_task s (t_id t)))"
    by (auto simp: stored_task_def event_links_def find_row_update_rows)
next
  fix now t s e s' assume "update_task now t s = (Inl e, s')"
  from update_task_effect [OF this]
  show "stored_task s' = stored_task s \<and> event_links s' = event_links s"
    by (auto simp: stored_task_def event_links_def)
next
  fix now k "from" to s r s' assume "record_event now k from to s = (r, s')"
  then show "r = ok_unit \<and> stored_task s' = stored_task s \<and>
      (event_links s' = event_links s \<or> event_links s' = event_links s @ [(k, from, to)])"
    by (rule record_event_effect)
next
  fix s k t assume "stored_task s k = Some t"
  then show "t_id t = k" by (auto simp: stored_task_def dest: find_row_SomeD)
qed

interpretation sql_repo: healthy_task_repo stored_task event_links get_task update_task record_event
  "\<lambda>d. db_faults d = []"
proof
  fix s :: sql_db and k assume "db_faults s = []"
  then show "get_task k s =
      (case stored_task s k of None \<Rightarrow> (Inl ErrNotFound, s) | Some t \<Rightarrow> (Inr t, s))"
    by (simp add: get_task_healthy stored_task_def)
next
  fix s :: sql_db and now t assume "db_faults s = []"
  then show "\<exists>s'. update_task now t s = (Inr (t\<lparr>t_updated_at := now\<rparr>), s') \<and> db_faults s' = []"
    by (simp add: update_task_def Let_def and_then_def ret_def rewrite_task_def exec_ctx_healthy)
next
  fix s :: sql_db and now k "from" to assume "db_faults s = []"
  then show "\<exists>s'. record_event now k from to s = (ok_unit, s') \<and> db_faults s' = [] \<and>
      event_links s' = event_links s @ [(k, from, to)]"
    by (simp add: record_event_def append_task_event_def exec_ctx_healthy event_links_def Let_def)
qed

subsection \<open>What the operations do\<close>

lemma approve_effect:
  assumes "svc_approve now k who d = (r, d')"
  shows "case r of
      Inl e \<Rightarrow> stored_task d' = stored_task d \<and> event_links d' = event_links d
    | Inr t2 \<Rightarrow> \<exists>t. stored_task d k = Some t \<and> can_transition (t_status t) TaskStatusApplying \<and>
        t2 = t\<lparr>t_status := TaskStatusApplying, t_approver := who, t_updated_at := now\<rparr> \<and>
        stored_task d' = (stored_task d)(k \<mapsto> t2) \<and>
        (event_links d' = event_links d \<or> event_links d' = event_links d @
          [(k, task_status_text (t_status t), task_status_text TaskStatusApplying)])"
proof -
  note assms [unfolded svc_approve_def approve_loaded_def [abs_def]]
  from sql_repo.guarded_update [where edit = "\<lambda>t. t\<lparr>t_approver := who\<rparr>", OF this] show ?thesis
    by (cases r) auto
qed

lemma reject_effect:
  assumes "svc_reject now k who why d = (r, d')"
  shows "case r of
      Inl e \<Rightarrow> stored_task d' = stored_task d \<and> event_links d' = event_links d
    | Inr t2 \<Rightarrow> \<exists>t. stored_task d k = Some t \<and> can_transition (t_status t) TaskStatusRejected \<and>
        t2 = t\<lparr>t_status := TaskStatusRejected, t_approver := who, t_reject_reason := why,
          t_updated_at := now\<rparr> \<and>
        stored_task d' = (stored_task d)(k \<mapsto> t2) \<and>
        (event_links d' = event_links d \<or> event_links d' = event_links d @
          [(k, task_status_text (t_status t), task_status_text TaskStatusRejected)])"
proof -
  note assms [unfolded svc_reject_def reject_loaded_def [abs_def]]
  from sql_repo.guarded_update [where edit = "\<lambda>t. t\<lparr>t_approver := who, t_reject_reason := why\<rparr>", OF this] show ?thesis
    by (cases r) auto
qed

lemma set_status_effect:
  assumes "svc_set_status now k to d = (r, d')"
  shows "case r of
      Inl e \<Rightarrow> stored_task d' = stored_task d \<and> event_links d' = event_links d
    | Inr t2 \<Rightarrow> \<exists>t. stored_task d k = Some t \<and> can_transition (t_status t) to \<and>
        t2 = t\<lparr>t_status := to, t_updated_at := now\<rparr> \<and>
        stored_task d' = (stored_task d)(k \<mapsto> t2) \<and>
        (event_links d' = event_links d \<or> event_links d' = event_links d @
          [(k, task_status_text (t_status t), task_status_text to)])"
proof -
  note assms [unfolded svc_set_status_def set_status_loaded_def [abs_def]]
  from sql_repo.guarded_update [where edit = "\<lambda>t. t", OF this] show ?thesis
    by (cases r) auto
qed

lemma create_effect:
  assumes "svc_create now t d = (r, d')"
  shows "case r of
      Inl e \<Rightarrow> stored_task d' = stored_task d \<and> event_links d' = event_links d
    | Inr t2 \<Rightarrow> stored_task d (t_id t) = None \<and>
        t2 = t\<lparr>t_created_at := now, t_updated_at := now,
          t_status := (if t_status t = TaskStatusNone then TaskStatusPending else t_status t)\<rparr> \<and>
        stored_task d' = (stored_task d)(t_id t \<mapsto> t2) \<and>
        (event_links d' = event_links d \<or> event_links d' = event_links d @
          [(t_id t, '''', task_status_text (t_status t2))])"
proof -
  let ?t2 = "t\<lparr>t_created_at := now, t_updated_at := now,
          t_status := (if t_status t = TaskStatusNone then TaskStatusPending else t_status t)\<rparr>"
  have same: "(if t_status t = TaskStatusNone
      then t\<lparr>t_created_at := now, t_updated_at := now, t_status := TaskStatusPending\<rparr>
      else t\<lparr>t_created_at := now, t_updated_at := now\<rparr>) = ?t2" by simp
  have run: "and_then (create_task ?t2) (\<lambda>_.
      and_then (record_event now (t_id t) '''' (task_status_text (t_status ?t2))) (\<lambda>_. ret ?t2)) d = (r, d')"
    using assms by (simp add: svc_create_def Let_def same split: if_splits)
  then show ?thesis
  proof (cases rule: and_then_cases)
    case (err e)
    then have "exec_attempts 3 '''' (insert_task ?t2) d = (Inl e, d')"
      by (simp only: create_task_def exec_ctx_def)
    from exec_attempts_effect [OF this] err show ?thesis
      by (auto simp: Let_def stored_task_def event_links_def)
  next
    case (val u d1)
    then have "exec_attempts 3 '''' (insert_task ?t2) d = (Inr u, d1)"
      by (simp only: create_task_def exec_ctx_def)
    from exec_attempts_effect [OF this] have new: "t_id t \<notin> t_id ` set (db_tasks d)"
      and d1: "db_tasks d1 = db_tasks d @ [?t2]" "db_events d1 = db_events d"
      by (auto simp: Let_def insert_task_def insert_unique_def split: if_splits)
    obtain r3 d3 where ev: "record_event now (t_id t) '''' (task_status_text (t_status ?t2)) d1 = (r3, d3)"
      by (cases "record_event now (t_id t) '''' (task_status_text (t_status ?t2)) d1")
    note noted = record_event_effect [OF ev]
    with val(2) ev have r: "r = Inr ?t2" "d' = d3" by (auto simp: ret_def)
    have none: "find_row t_id (t_id t) (db_tasks d) = None" using new by (simp add: find_row_None_iff)
    have "stored_task d1 = (stored_task d)(t_id t \<mapsto> ?t2)"
      using d1 none by (auto simp: fun_eq_iff stored_task_def table_simps split: option.split)
    with noted r none d1 show ?thesis by (auto simp: stored_task_def event_links_def)
  qed
qed

text \<open>The operations write the tasks and the events only.\<close>

lemma task_writes_keep:
  assumes "fault_blind P" and "\<And>d ts. P (d\<lparr>db_tasks := ts\<rparr>) = P d"
    and "\<And>d es i. P (d\<lparr>db_events := es, db_seq_events := i\<rparr>) = P d"
  shows "get_task k d = (rt, d') \<Longrightarrow> P d \<Longrightarrow> P d'"
    and "create_task t d = (ru, d') \<Longrightarrow> P d \<Longrightarrow> P d'"
    and "update_task now t d = (rt, d') \<Longrightarrow> P d \<Longrightarrow> P d'"
    and "record_event now k from to d = (ru, d') \<Longrightarrow> P d \<Longrightarrow> P d'"
proof -
  show "get_task k d = (rt, d') \<Longrightarrow> P d \<Longrightarrow> P d'"
    unfolding get_task_def by (rule query_row_keeps [OF assms(1)])
  show "create_task t d = (ru, d') \<Longrightarrow> P d \<Longrightarrow> P d'"
    unfolding create_task_def
    by (elim exec_ctx_keeps [OF assms(1), rotated 2]) (auto simp: insert_task_def assms(2) split: sum.splits)
  have "exec_ctx (rewrite_task u) d = (rs, d1) \<Longrightarrow> P d \<Longrightarrow> P d1" for u rs d1
    by (elim exec_ctx_keeps [OF assms(1), rotated 2]) (auto simp: rewrite_task_def assms(2))
  then show "update_task now t d = (rt, d') \<Longrightarrow> P d \<Longrightarrow> P d'"
    by (auto simp: update_task_def Let_def ret_def and_then_def split: prod.splits sum.splits)
  have "append_task_event e d = (rs, d1) \<Longrightarrow> P d \<Longrightarrow> P d1" for e rs d1
    unfolding append_task_event_def
    by (elim exec_ctx_keeps [OF assms(1), rotated 2]) (auto simp: Let_def assms(3))
  then show "record_event now k from to d = (ru, d') \<Longrightarrow> P d \<Longrightarrow> P d'"
    unfolding record_event_def by (metis prod.collapse prod.inject)
qed

lemma and_then_keeps:
  assumes "and_then m k d = (r, d')" and "P d"
    and "\<And>x e. m d = (x, e) \<Longrightarrow> P d \<Longrightarrow> P e"
    and "\<And>x e. k x e = (r, d') \<Longrightarrow> P e \<Longrightarrow> P d'"
  shows "P d'"
  using assms(1) by (cases rule: and_then_cases) (use assms in blast)+

lemma svc_keeps:
  assumes "fault_blind P" and "\<And>d ts. P (d\<lparr>db_tasks := ts\<rparr>) = P d"
    and "\<And>d es i. P (d\<lparr>db_events := es, db_seq_events := i\<rparr>) = P d"
  shows "svc_create now t d = (rt, d') \<Longrightarrow> P d \<Longrightarrow> P d'"
    and "svc_approve now k who d = (rt, d') \<Longrightarrow> P d \<Longrightarrow> P d'"
    and "svc_reject now k who why d = (rt, d') \<Longrightarrow> P d \<Longrightarrow> P d'"
    and "svc_set_status now k to d = (rt, d') \<Longrightarrow> P d \<Longrightarrow> P d'"
proof -
  note keep = task_writes_keep [OF assms]
  have fails: "P e" if "fail x d = (r, e)" "P d" for x :: go_error and r :: "go_error + task" and d e
    using that by (simp add: fail_def)
  have tail: "P d'" if "and_then (update_task now u) (\<lambda>t2. and_then (record_event now (f t2) (g t2) (h t2))
      (\<lambda>_. ret t2)) e = (r, d')" "P e" for u f g h e r
    using that(1,2)
  proof (rule and_then_keeps)
    show "P e'" if "update_task now u e = (x, e')" "P e" for x e' using keep(3) that by blast
  next
    fix t2 e' assume "and_then (record_event now (f t2) (g t2) (h t2)) (\<lambda>_. ret t2) e' = (r, d')" "P e'"
    then show "P d'" by (rule and_then_keeps) (use keep(4) in \<open>auto simp: ret_def\<close>)
  qed
  show "svc_create now t d = (rt, d') \<Longrightarrow> P d \<Longrightarrow> P d'"
    unfolding svc_create_def Let_def
  proof (erule and_then_keeps, assumption)
    show "P e" if "create_task u d = (x, e)" "P d" for u x e using keep(2) that by blast
  next
    fix u k e to_text assume "and_then (record_event now k '''' to_text) (\<lambda>_. ret u) e = (rt, d')" "P e"
    then show "P d'" by (rule and_then_keeps) (use keep(4) in \<open>auto simp: ret_def\<close>)
  qed
  show "svc_approve now k who d = (rt, d') \<Longrightarrow> P d \<Longrightarrow> P d'"
    unfolding svc_approve_def
    by (erule and_then_keeps, assumption, erule keep(1), assumption)
      (auto simp: approve_loaded_def split: sum.splits elim: tail fails)
  show "svc_reject now k who why d = (rt, d') \<Longrightarrow> P d \<Longrightarrow> P d'"
    unfolding svc_reject_def
    by (erule and_then_keeps, assumption, erule keep(1), assumption)
      (auto simp: reject_loaded_def split: sum.splits elim: tail fails)
  show "svc_set_status now k to d = (rt, d') \<Longrightarrow> P d \<Longrightarrow> P d'"
    unfolding svc_set_status_def
    by (erule and_then_keeps, assumption, erule keep(1), assumption)
      (auto simp: set_status_loaded_def split: sum.splits elim: tail fails)
qed

lemma edit_stamps:
  "t\<lparr>t_status := s, t_updated_at := n, t_updated_at := n\<rparr> = t\<lparr>t_status := s, t_updated_at := n\<rparr>"
  "t\<lparr>t_status := s, t_updated_at := n, t_approver := w, t_updated_at := n\<rparr> =
    t\<lparr>t_status := s, t_approver := w, t_updated_at := n\<rparr>"
  "t\<lparr>t_status := s, t_updated_at := n, t_approver := w, t_reject_reason := y, t_updated_at := n\<rparr> =
    t\<lparr>t_status := s, t_approver := w, t_reject_reason := y, t_updated_at := n\<rparr>"
  for t :: task
  by simp_all

lemma approve_healthy:
  assumes "db_faults d = []"
  shows "\<exists>d'. svc_approve now k who d =
      (case stored_task d k of
         None \<Rightarrow> (Inl ErrNotFound, d)
       | Some t \<Rightarrow>
           if can_transition (t_status t) TaskStatusApplying
           then (Inr (t\<lparr>t_status := TaskStatusApplying, t_approver := who, t_updated_at := now\<rparr>), d')
           else (Inl (ErrIllegalTransition (t_status t) TaskStatusApplying), d)) \<and>
      (\<forall>t. stored_task d k = Some t \<longrightarrow> can_transition (t_status t) TaskStatusApplying \<longrightarrow>
        db_faults d' = [] \<and> event_links d' = event_links d @
          [(k, task_status_text (t_status t), task_status_text TaskStatusApplying)])"
  unfolding svc_approve_def approve_loaded_def [abs_def]
  using sql_repo.guarded_update_healthy [OF assms, of "\<lambda>t. t\<lparr>t_approver := who\<rparr>" k now TaskStatusApplying,
      unfolded edit_stamps]
  by simp

lemma reject_healthy:
  assumes "db_faults d = []"
  shows "\<exists>d'. svc_reject now k who why d =
      (case stored_task d k of
         None \<Rightarrow> (Inl ErrNotFound, d)
       | Some t \<Rightarrow>
           if can_transition (t_status t) TaskStatusRejected
           then (Inr (t\<lparr>t_status := TaskStatusRejected, t_approver := who, t_reject_reason := why,
             t_updated_at := now\<rparr>), d')
           else (Inl (ErrIllegalTransition (t_status t) TaskStatusRejected), d)) \<and>
      (\<forall>t. stored_task d k = Some t \<longrightarrow> can_transition (t_status t) TaskStatusRejected \<longrightarrow>
        db_faults d' = [] \<and> event_links d' = event_links d @
          [(k, task_status_text (t_status t), task_status_text TaskStatusRejected)])"
  unfolding svc_reject_def reject_loaded_def [abs_def]
  using sql_repo.guarded_update_healthy [OF assms,
      of "\<lambda>t. t\<lparr>t_approver := who, t_reject_reason := why\<rparr>" k now TaskStatusRejected,
      unfolded edit_stamps]
  by simp

lemma set_status_healthy:
  assumes "db_faults d = []"
  shows "\<exists>d'. svc_set_status now k to d =
      (case stored_task d k of
         None \<Rightarrow> (Inl ErrNotFound, d)
       | Some t \<Rightarrow>
           if can_transition (t_status t) to
           then (Inr (t\<lparr>t_status := to, t_updated_at := now\<rparr>), d')
           else (Inl (ErrIllegalTransition (t_status t) to), d)) \<and>
      (\<forall>t. stored_task d k = Some t \<longrightarrow> can_transition (t_status t) to \<longrightarrow>
        db_faults d' = [] \<and> event_links d' = event_links d @
          [(k, task_status_text (t_status t), task_status_text to)])"
  unfolding svc_set_status_def set_status_loaded_def [abs_def]
  using sql_repo.guarded_update_healthy [OF assms, of "\<lambda>t. t" k now to,
      unfolded edit_stamps]
  by simp

lemma create_task_healthy:
  assumes "db_faults d = []"
  shows "create_task t d =
    (if t_id t \<in> t_id ` set (db_tasks d) then (Inl (ErrDb unique_violation), d)
     else (ok_unit, d\<lparr>db_tasks := db_tasks d @ [t]\<rparr>))"
proof -
  have "\<not> is_busy_error unique_violation" by code_simp
  with assms show ?thesis
    by (simp add: create_task_def exec_ctx_def exec_once_healthy numeral_3_eq_3 insert_task_def
        insert_unique_def)
qed

lemma create_healthy:
  assumes "db_faults d = []" and "svc_create now t d = (r, d')"
  shows "db_faults d' = [] \<and>
    (case r of Inl e \<Rightarrow> stored_task d (t_id t) \<noteq> None \<and> event_links d' = event_links d
     | Inr t2 \<Rightarrow> event_links d' = event_links d @ [(t_id t, '''', task_status_text (t_status t2))])"
proof -
  define t2 where "t2 = (if t_status t = TaskStatusNone
      then t\<lparr>t_created_at := now, t_updated_at := now, t_status := TaskStatusPending\<rparr>
      else t\<lparr>t_created_at := now, t_updated_at := now\<rparr>)"
  have id2: "t_id t2 = t_id t" by (simp add: t2_def)
  have run: "and_then (create_task t2) (\<lambda>_.
      and_then (record_event now (t_id t2) '''' (task_status_text (t_status t2))) (\<lambda>_. ret t2)) d = (r, d')"
    using assms(2) by (simp add: svc_create_def Let_def t2_def cong: if_cong)
  show ?thesis
  proof (cases "t_id t \<in> t_id ` set (db_tasks d)")
    case True
    with run id2 create_task_healthy [OF assms(1), of t2] assms(1) show ?thesis
      by (auto simp: stored_task_def find_row_None_iff)
  next
    case False
    let ?d1 = "d\<lparr>db_tasks := db_tasks d @ [t2]\<rparr>"
    have "db_faults ?d1 = []" using assms(1) by simp
    then obtain d2 where "record_event now (t_id t2) '''' (task_status_text (t_status t2)) ?d1 = (ok_unit, d2)"
      "db_faults d2 = []" "event_links d2 = event_links ?d1 @ [(t_id t2, '''', task_status_text (t_status t2))]"
      using sql_repo.note_healthy [of ?d1 now "t_id t2" "''''" "task_status_text (t_status t2)"] by blast
    with run id2 False create_task_healthy [OF assms(1), of t2] show ?thesis
      by (auto simp: ret_def event_links_def)
  qed
qed

subsection \<open>Runs of the service\<close>

text \<open>
  A run starts on the empty schema and takes operations of the service in any order, and writes of
  a task that leave its status alone, as the agent's tools make.
\<close>

inductive svc_run :: "sql_db \<Rightarrow> bool" where
  svc_starts: "svc_run empty_db"
| svc_creates: "svc_run d \<Longrightarrow> svc_create now t d = (r, d') \<Longrightarrow> svc_run d'"
| svc_approves: "svc_run d \<Longrightarrow> svc_approve now k who d = (r, d') \<Longrightarrow> svc_run d'"
| svc_rejects: "svc_run d \<Longrightarrow> svc_reject now k who why d = (r, d') \<Longrightarrow> svc_run d'"
| svc_moves: "svc_run d \<Longrightarrow> svc_set_status now k to d = (r, d') \<Longrightarrow> svc_run d'"
| svc_writes: "svc_run d \<Longrightarrow> map_option t_status (stored_task d (t_id t)) = Some (t_status t) \<Longrightarrow>
    update_task now t d = (r, d') \<Longrightarrow> svc_run d'"

definition links_of :: "string \<Rightarrow> sql_db \<Rightarrow> (string \<times> string) list" where
  "links_of k d = map snd (filter (\<lambda>l. fst l = k) (event_links d))"

definition status_in_db :: "sql_db \<Rightarrow> string \<Rightarrow> task_status" where
  "status_in_db d k = (case stored_task d k of None \<Rightarrow> TaskStatusNone | Some t \<Rightarrow> t_status t)"

text \<open>
  Replaying the events of a task: the first one creates it in some status, every other one is a
  legal transition from the status before.
\<close>

fun replay :: "task_status \<Rightarrow> (string \<times> string) list \<Rightarrow> task_status option" where
  "replay s [] = Some s"
| "replay s ((f, t) # ls) =
     (if f = task_status_text s \<and> task_status_of t \<noteq> TaskStatusNone \<and>
         (s = TaskStatusNone \<or> can_transition s (task_status_of t))
      then replay (task_status_of t) ls else None)"

lemma replay_append:
  "replay s (xs @ ys) = (case replay s xs of None \<Rightarrow> None | Some s' \<Rightarrow> replay s' ys)"
  by (induction s xs rule: replay.induct) auto

lemma can_transition_not_None: "can_transition s t \<Longrightarrow> t \<noteq> TaskStatusNone"
  by (auto simp: can_transition_def)

definition log_inv :: "sql_db \<Rightarrow> bool" where
  "log_inv d \<longleftrightarrow> db_faults d = [] \<and> (\<forall>k. replay TaskStatusNone (links_of k d) = Some (status_in_db d k)) \<and>
    (\<forall>k t. stored_task d k = Some t \<longrightarrow> t_status t \<noteq> TaskStatusNone)"

lemma log_inv_moved:
  assumes "log_inv d" and "db_faults d' = []"
    and "stored_task d k = Some t" and "stored_task d' = (stored_task d)(k \<mapsto> t2)"
    and "event_links d' = event_links d @ [(k, task_status_text (t_status t), task_status_text to)]"
    and "can_transition (t_status t) to" and "t_status t2 = to"
  shows "log_inv d'"
  using assms can_transition_not_None [OF assms(6)]
  by (auto simp: log_inv_def links_of_def status_in_db_def replay_append)

lemma log_inv_created:
  assumes "log_inv d" and "db_faults d' = []"
    and "stored_task d k = None" and "t_status t2 \<noteq> TaskStatusNone"
    and "stored_task d' = (stored_task d)(k \<mapsto> t2)"
    and "event_links d' = event_links d @ [(k, '''', task_status_text (t_status t2))]"
  shows "log_inv d'"
  using assms by (auto simp: log_inv_def links_of_def status_in_db_def replay_append)

lemma log_inv_same:
  "log_inv d \<Longrightarrow> db_faults d' = [] \<Longrightarrow> stored_task d' = stored_task d \<Longrightarrow>
    event_links d' = event_links d \<Longrightarrow> log_inv d'"
  by (simp add: log_inv_def links_of_def status_in_db_def)

lemma svc_run_log_inv: "svc_run d \<Longrightarrow> log_inv d"
proof (induction rule: svc_run.induct)
  case svc_starts
  show ?case
    by (simp add: log_inv_def empty_db_def links_of_def event_links_def status_in_db_def
        stored_task_def table_simps)
next
  case (svc_creates d now t r d')
  note inv = svc_creates.IH
  from inv have healthy: "db_faults d = []" by (simp add: log_inv_def)
  note log = create_healthy [OF healthy svc_creates.hyps(2)]
  note effect = create_effect [OF svc_creates.hyps(2)]
  show ?case
  proof (cases r)
    case (Inl e)
    with inv log effect show ?thesis by (auto intro: log_inv_same)
  next
    case (Inr t2)
    with effect have "t_status t2 \<noteq> TaskStatusNone" "stored_task d (t_id t) = None"
      "stored_task d' = (stored_task d)(t_id t \<mapsto> t2)" by auto
    with inv log Inr show ?thesis by (auto intro: log_inv_created)
  qed
next
  case (svc_approves d now k who r d')
  from svc_approves.IH have "db_faults d = []" by (simp add: log_inv_def)
  from approve_healthy [OF this, of now k who] svc_approves.hyps(2) svc_approves.IH
    approve_effect [OF svc_approves.hyps(2)]
  show ?case
    by (cases "stored_task d k") (auto split: if_splits simp del: task_status_text.simps intro: log_inv_moved)
next
  case (svc_rejects d now k who why r d')
  from svc_rejects.IH have "db_faults d = []" by (simp add: log_inv_def)
  from reject_healthy [OF this, of now k who why] svc_rejects.hyps(2) svc_rejects.IH
    reject_effect [OF svc_rejects.hyps(2)]
  show ?case
    by (cases "stored_task d k") (auto split: if_splits simp del: task_status_text.simps intro: log_inv_moved)
next
  case (svc_moves d now k to r d')
  from svc_moves.IH have "db_faults d = []" by (simp add: log_inv_def)
  from set_status_healthy [OF this, of now k to] svc_moves.hyps(2) svc_moves.IH
    set_status_effect [OF svc_moves.hyps(2)]
  show ?case
    by (cases "stored_task d k") (auto split: if_splits simp del: task_status_text.simps intro: log_inv_moved)
next
  case (svc_writes d t now r d')
  from svc_writes.IH have "db_faults d = []" by (simp add: log_inv_def)
  from sql_repo.save_healthy [OF this, of now t] svc_writes.hyps(3)
  have r: "r = Inr (t\<lparr>t_updated_at := now\<rparr>)" and "db_faults d' = []" by auto
  with sql_repo.save_ok [OF svc_writes.hyps(3) [unfolded r]] svc_writes.hyps(2) svc_writes.IH
  show ?case
    by (auto simp: log_inv_def links_of_def status_in_db_def split: if_splits)
qed

subsection \<open>Properties of the service\<close>

text \<open>The state machine as the documentation draws it.\<close>

inductive documented_edge :: "task_status \<Rightarrow> task_status \<Rightarrow> bool" where
  "documented_edge TaskStatusPending TaskStatusGenerating"
| "documented_edge TaskStatusGenerating TaskStatusValidating"
| "documented_edge TaskStatusValidating TaskStatusAwaitingApproval"
| "documented_edge TaskStatusAwaitingApproval TaskStatusApplying"
| "documented_edge TaskStatusAwaitingApproval TaskStatusRejected"
| "documented_edge TaskStatusApplying TaskStatusDone"
| "documented_edge TaskStatusFailed TaskStatusGenerating"
| "s \<notin> {TaskStatusDone, TaskStatusRejected, TaskStatusFailed} \<Longrightarrow> documented_edge s TaskStatusFailed"

inductive_simps documented_edge_to: "documented_edge s t"

text \<open>The transitions the code accepts are the edges of the documented diagram and one more, from
  \<open>pending\<close> to itself; \<open>done\<close> and \<open>rejected\<close> are final, and a failed task can only be generated
  again.\<close>

theorem can_transition_diagram:
  "(can_transition s t \<longleftrightarrow> documented_edge s t \<or> s = TaskStatusPending \<and> t = TaskStatusPending) \<and>
   \<not> can_transition TaskStatusDone t \<and> \<not> can_transition TaskStatusRejected t \<and>
   (can_transition TaskStatusFailed t \<longleftrightarrow> t = TaskStatusGenerating)"
  by (cases t) (auto simp: can_transition_def documented_edge_to)

text \<open>Whatever the database reports, an approval either changes no task and records no event, or it
  found the task waiting for approval and moved exactly that task to \<open>applying\<close> with the approver
  set.  On a healthy database it succeeds exactly when the task waits for approval.\<close>

theorem approve_outcome:
  "(case svc_approve now k who d of
      (Inl e, d') \<Rightarrow> stored_task d' = stored_task d \<and> event_links d' = event_links d
    | (Inr t2, d') \<Rightarrow> \<exists>t. stored_task d k = Some t \<and> t_status t = TaskStatusAwaitingApproval \<and>
        t2 = t\<lparr>t_status := TaskStatusApplying, t_approver := who, t_updated_at := now\<rparr> \<and>
        stored_task d' = (stored_task d)(k \<mapsto> t2)) \<and>
   (db_faults d = [] \<longrightarrow>
      is_ok (fst (svc_approve now k who d)) =
        (map_option t_status (stored_task d k) = Some TaskStatusAwaitingApproval))"
proof -
  obtain r d' where run: "svc_approve now k who d = (r, d')" by (cases "svc_approve now k who d")
  have can: "can_transition s TaskStatusApplying \<longleftrightarrow> s = TaskStatusAwaitingApproval" for s
    by (simp add: can_transition_def)
  have "is_ok (fst (svc_approve now k who d)) =
        (map_option t_status (stored_task d k) = Some TaskStatusAwaitingApproval)"
    if healthy: "db_faults d = []"
  proof -
    obtain e where run: "svc_approve now k who d = (case stored_task d k of
         None \<Rightarrow> (Inl ErrNotFound, d)
       | Some t \<Rightarrow>
           if can_transition (t_status t) TaskStatusApplying
           then (Inr (t\<lparr>t_status := TaskStatusApplying, t_approver := who, t_updated_at := now\<rparr>), e)
           else (Inl (ErrIllegalTransition (t_status t) TaskStatusApplying), d))"
      using approve_healthy [OF healthy] by blast
    show ?thesis
    proof (cases "stored_task d k")
      case None
      then show ?thesis by (simp add: run)
    next
      case (Some t)
      then show ?thesis
        by (cases "t_status t = TaskStatusAwaitingApproval") (simp_all add: run can)
    qed
  qed
  moreover have "case r of
      Inl e \<Rightarrow> stored_task d' = stored_task d \<and> event_links d' = event_links d
    | Inr t2 \<Rightarrow> \<exists>t. stored_task d k = Some t \<and> t_status t = TaskStatusAwaitingApproval \<and>
        t2 = t\<lparr>t_status := TaskStatusApplying, t_approver := who, t_updated_at := now\<rparr> \<and>
        stored_task d' = (stored_task d)(k \<mapsto> t2)"
    using approve_effect [OF run] can by (cases r) auto
  ultimately show ?thesis using run by (cases r) simp_all
qed

theorem approve_outcome_witness:
  "is_ok (fst (svc_approve 7 ''t'' ''ann''
     (empty_db\<lparr>db_tasks := [empty_task\<lparr>t_id := ''t'', t_status := TaskStatusAwaitingApproval\<rparr>]\<rparr>)))"
proof -
  let ?d = "empty_db\<lparr>db_tasks := [empty_task\<lparr>t_id := ''t'', t_status := TaskStatusAwaitingApproval\<rparr>]\<rparr>"
  have "db_faults ?d = []" by (simp add: empty_db_def)
  moreover have "map_option t_status (stored_task ?d ''t'') = Some TaskStatusAwaitingApproval"
    by (simp add: stored_task_def find_row_def)
  ultimately show ?thesis using approve_outcome [where d = ?d and k = "''t''"] by blast
qed

text \<open>C12: In every run of the service on a healthy database the event log of a task, replayed from its
  creation, uses legal transitions only and ends in the status that is stored.\<close>

theorem event_log_replays:
  assumes "svc_run d"
  shows "replay TaskStatusNone (links_of k d) = Some (status_in_db d k)"
  using svc_run_log_inv [OF assms] by (simp add: log_inv_def)

theorem event_log_replays_witness:
  "replay TaskStatusNone (links_of '''' (snd (svc_create 5 empty_task empty_db)))
    = Some (status_in_db (snd (svc_create 5 empty_task empty_db)) '''')"
proof -
  have "svc_create 5 empty_task empty_db =
      (fst (svc_create 5 empty_task empty_db), snd (svc_create 5 empty_task empty_db))" by simp
  then have "svc_run (snd (svc_create 5 empty_task empty_db))" by (rule svc_creates [OF svc_starts])
  then show ?thesis by (rule event_log_replays)
qed

lemma replay_approval:
  assumes "replay s ls = Some e" and "e \<in> {TaskStatusApplying, TaskStatusDone}"
    and "s \<noteq> TaskStatusNone" and "s \<notin> {TaskStatusApplying, TaskStatusDone}"
  shows "(task_status_text TaskStatusAwaitingApproval, task_status_text TaskStatusApplying) \<in> set ls"
  using assms
proof (induction s ls rule: replay.induct)
  case (1 s)
  then show ?case by auto
next
  case (2 s f t ls)
  then have link: "f = task_status_text s" "can_transition s (task_status_of t)"
    and rest: "replay (task_status_of t) ls = Some e" by (auto split: if_splits)
  show ?case
  proof (cases "task_status_of t \<in> {TaskStatusApplying, TaskStatusDone}")
    case True
    with link(2) 2(5) have "s = TaskStatusAwaitingApproval" "task_status_of t = TaskStatusApplying"
      by (auto simp: can_transition_def)
    moreover from this have "t = task_status_text TaskStatusApplying"
      by (auto simp: task_status_of_def enum_task_status_def split: if_splits)
    ultimately show ?thesis using link(1) by simp
  next
    case False
    moreover have "task_status_of t \<noteq> TaskStatusNone" using can_transition_not_None [OF link(2)] .
    ultimately show ?thesis using 2 rest by (auto split: if_splits)
  qed
qed

text \<open>No task is applied without approval: in every run of the service on a healthy database a task
  that was created \<open>pending\<close> and is being applied or is done has an approval, the event from
  \<open>awaiting_approval\<close> to \<open>applying\<close>, in its log.\<close>

theorem applied_was_approved:
  assumes "svc_run d" and "links_of k d = ('''', ''pending'') # ls"
    and "status_in_db d k \<in> {TaskStatusApplying, TaskStatusDone}"
  shows "(''awaiting_approval'', ''applying'') \<in> set (links_of k d)"
proof -
  have pending: "task_status_of ''pending'' = TaskStatusPending"
    using task_status_of_text [of TaskStatusPending] by simp
  have "replay TaskStatusNone (links_of k d) = Some (status_in_db d k)"
    using svc_run_log_inv [OF assms(1)] by (simp add: log_inv_def)
  with assms(2) pending have "replay TaskStatusPending ls = Some (status_in_db d k)"
    by (simp split: if_splits)
  from replay_approval [OF this assms(3)] assms(2) show ?thesis by simp
qed

text \<open>A task taken from creation to approval.\<close>

definition approved_db :: sql_db where
  "approved_db =
    (let d1 = snd (svc_create 1 (empty_task\<lparr>t_id := ''t''\<rparr>) empty_db);
         d2 = snd (svc_set_status 2 ''t'' TaskStatusGenerating d1);
         d3 = snd (svc_set_status 3 ''t'' TaskStatusValidating d2);
         d4 = snd (svc_set_status 4 ''t'' TaskStatusAwaitingApproval d3)
     in snd (svc_approve 5 ''t'' ''ann'' d4))"

lemma svc_run_approved_db: "svc_run approved_db"
  unfolding approved_db_def Let_def
  by (rule svc_approves [OF svc_moves [OF svc_moves [OF svc_moves [OF svc_creates [OF svc_starts]]]]])
    (rule surjective_pairing)+

theorem applied_was_approved_witness:
  "(''awaiting_approval'', ''applying'') \<in> set (links_of ''t'' approved_db)"
proof -
  have "links_of ''t'' approved_db = ('''', ''pending'') #
      [(''pending'', ''generating''), (''generating'', ''validating''),
       (''validating'', ''awaiting_approval''), (''awaiting_approval'', ''applying'')]"
    by code_simp
  moreover have "status_in_db approved_db ''t'' = TaskStatusApplying" by code_simp
  ultimately show ?thesis using applied_was_approved [OF svc_run_approved_db] by blast
qed

text \<open>Once a task is approved a second approval is refused and changes nothing.\<close>

theorem second_approval_refused:
  assumes "svc_approve now k who d = (Inr t2, d')" and "db_faults d' = []"
  shows "svc_approve later k other d' =
    (Inl (ErrIllegalTransition TaskStatusApplying TaskStatusApplying), d')"
proof -
  from approve_effect [OF assms(1)] have "stored_task d' k = Some t2" "t_status t2 = TaskStatusApplying"
    by auto
  with approve_healthy [OF assms(2), of later k other] show ?thesis
    by (auto simp: can_transition_def)
qed

theorem second_approval_refused_witness:
  "svc_approve 9 ''t'' ''bob'' (snd (svc_approve 7 ''t'' ''ann''
     (empty_db\<lparr>db_tasks := [empty_task\<lparr>t_id := ''t'', t_status := TaskStatusAwaitingApproval\<rparr>]\<rparr>))) =
   (Inl (ErrIllegalTransition TaskStatusApplying TaskStatusApplying), snd (svc_approve 7 ''t'' ''ann''
     (empty_db\<lparr>db_tasks := [empty_task\<lparr>t_id := ''t'', t_status := TaskStatusAwaitingApproval\<rparr>]\<rparr>)))"
proof -
  let ?d = "empty_db\<lparr>db_tasks := [empty_task\<lparr>t_id := ''t'', t_status := TaskStatusAwaitingApproval\<rparr>]\<rparr>"
  have healthy: "db_faults ?d = []" by (simp add: empty_db_def)
  have "stored_task ?d ''t'' = Some (empty_task\<lparr>t_id := ''t'', t_status := TaskStatusAwaitingApproval\<rparr>)"
    by (simp add: stored_task_def find_row_def)
  with approve_healthy [OF healthy, of 7 "''t''" "''ann''"] obtain t2 d' where
    "svc_approve 7 ''t'' ''ann'' ?d = (Inr t2, d')" and "db_faults d' = []"
    by (auto simp: can_transition_def)
  with second_approval_refused [of 7 "''t''" "''ann''" ?d t2 d' 9 "''bob''"] show ?thesis by simp
qed

text \<open>Two approvals whose reads both happen before either write are both accepted: the read, the
  check and the write are not one atomic step, the second approver replaces the first and the log
  gets the same transition twice.\<close>

theorem overlapping_approvals_both_succeed:
  assumes "db_faults d = []" and "stored_task d k = Some t" and "t_status t = TaskStatusAwaitingApproval"
  shows "\<exists>d1 d2 t1 t2.
    get_task k d = (Inr t, d) \<and>
    approve_loaded now ann t d = (Inr t1, d1) \<and> approve_loaded later bob t d1 = (Inr t2, d2) \<and>
    map_option t_approver (stored_task d2 k) = Some bob \<and>
    event_links d2 = event_links d @
      [(k, ''awaiting_approval'', ''applying''), (k, ''awaiting_approval'', ''applying'')]"
proof -
  have load: "get_task k d = (Inr t, d)" using sql_repo.load_healthy [OF assms(1), of k] assms(2) by simp
  have tid: "t_id t = k" using sql_repo.stored_key [OF assms(2)] .
  have step: "\<exists>e'. approve_loaded n w t e =
        (Inr (t\<lparr>t_status := TaskStatusApplying, t_approver := w, t_updated_at := n\<rparr>), e') \<and>
      db_faults e' = [] \<and> event_links e' = event_links e @ [(k, ''awaiting_approval'', ''applying'')] \<and>
      stored_task e' k = Some (t\<lparr>t_status := TaskStatusApplying, t_approver := w, t_updated_at := n,
        t_created_at := t_created_at old\<rparr>)"
    if e: "db_faults e = []" and old: "stored_task e k = Some old" for e n w old
  proof -
    let ?t1 = "t\<lparr>t_status := TaskStatusApplying, t_updated_at := n, t_approver := w\<rparr>"
    let ?t2 = "t\<lparr>t_status := TaskStatusApplying, t_approver := w, t_updated_at := n\<rparr>"
    have stamps: "?t1\<lparr>t_updated_at := n\<rparr> = ?t2" by simp
    obtain s1 where s1: "update_task n ?t1 e = (Inr ?t2, s1)" "db_faults s1 = []"
      using sql_repo.save_healthy [OF e, of n ?t1] unfolding stamps by blast
    obtain s2 where s2: "record_event n k ''awaiting_approval'' ''applying'' s1 = (ok_unit, s2)"
      "db_faults s2 = []" "event_links s2 = event_links s1 @ [(k, ''awaiting_approval'', ''applying'')]"
      using sql_repo.note_healthy [OF s1(2)] by blast
    have "event_links s1 = event_links e" "stored_task s1 k = Some (?t2\<lparr>t_created_at := t_created_at old\<rparr>)"
      using sql_repo.save_ok [OF s1(1)] old tid by auto
    moreover have "stored_task s2 = stored_task s1" using sql_repo.note_keeps [OF s2(1)] by simp
    moreover have "approve_loaded n w t e = (Inr ?t2, s2)"
      using s1 s2 assms(3) tid
      by (simp add: approve_loaded_def transition_def can_transition_def ret_def)
    ultimately show ?thesis using s2 by (intro exI [of _ s2]) simp
  qed
  obtain d1 where d1: "approve_loaded now ann t d =
      (Inr (t\<lparr>t_status := TaskStatusApplying, t_approver := ann, t_updated_at := now\<rparr>), d1)"
    "db_faults d1 = []" "event_links d1 = event_links d @ [(k, ''awaiting_approval'', ''applying'')]"
    "stored_task d1 k \<noteq> None" using step [OF assms(1,2), of now ann] by auto
  then obtain old where "stored_task d1 k = Some old" by blast
  from step [OF d1(2) this, of later bob] load d1 show ?thesis by auto
qed

theorem overlapping_approvals_both_succeed_witness:
  "\<exists>d1 d2 t1 t2. approve_loaded 7 ''ann''
      (empty_task\<lparr>t_id := ''t'', t_status := TaskStatusAwaitingApproval\<rparr>)
      (empty_db\<lparr>db_tasks := [empty_task\<lparr>t_id := ''t'', t_status := TaskStatusAwaitingApproval\<rparr>]\<rparr>) = (Inr t1, d1) \<and>
    approve_loaded 8 ''bob''
      (empty_task\<lparr>t_id := ''t'', t_status := TaskStatusAwaitingApproval\<rparr>) d1 = (Inr t2, d2) \<and>
    map_option t_approver (stored_task d2 ''t'') = Some ''bob''"
proof -
  let ?t = "empty_task\<lparr>t_id := ''t'', t_status := TaskStatusAwaitingApproval\<rparr>"
  let ?d = "empty_db\<lparr>db_tasks := [?t]\<rparr>"
  have "db_faults ?d = []" by (simp add: empty_db_def)
  moreover have "stored_task ?d ''t'' = Some ?t" by (simp add: stored_task_def find_row_def)
  moreover have "t_status ?t = TaskStatusAwaitingApproval" by simp
  ultimately show ?thesis using overlapping_approvals_both_succeed [of ?d "''t''" ?t 7 "''ann''" 8 "''bob''"]
    by blast
qed

end
