(* ===== verification/Unified_Diff.thy ===== *)
theory Unified_Diff
  imports Go_Strings "HOL-Library.Sublist"
begin

section \<open>Line diffs (internal/diff/diff.go)\<close>

text \<open>
  The unified diff of two texts: the lines are aligned by a longest common subsequence, found by
  dynamic programming, the edits are grouped into hunks with three lines of context and printed.
  The tables of the source are lists of lists, its loops recursions over the same indices.  The
  lemmas show that the table holds the lengths of longest common subsequences, that the edits turn
  one list of lines into the other with as few changes as possible, and that the hunks, applied as a
  patch, do the same.
\<close>

subsection \<open>Operations\<close>

datatype op_kind = Keep | Delete | Insert

fun kind_char :: "op_kind \<Rightarrow> char" where
  "kind_char Keep = CHR '' ''"
| "kind_char Delete = CHR ''-''"
| "kind_char Insert = CHR ''+''"

record edit_op =
  op_of :: op_kind
  op_text :: string

abbreviation line_op :: "op_kind \<Rightarrow> string \<Rightarrow> edit_op" where
  "line_op k l \<equiv> \<lparr>op_of = k, op_text = l\<rparr>"

definition context_lines :: nat where
  "context_lines = 3"

definition max_dp_cells :: nat where
  "max_dp_cells = 4000000"

definition newline :: char where
  "newline = CHR 0x0A"

definition carriage_return :: char where
  "carriage_return = CHR 0x0D"

definition split_lines :: "string \<Rightarrow> string list" where
  "split_lines s0 =
    (let s = replace_all [carriage_return, newline] [newline] s0 in
     if s = '''' then []
     else let s' = trim_suffix [newline] s in
       if s' = '''' then [''''] else split_on newline s')"

text \<open>
  One row of the table from the row below it, filled from the right: the entry for the suffixes
  \<open>x # xs\<close> and \<open>ys\<close> is computed from the one below, the one to the right and the one diagonally below.
\<close>

fun dp_row :: "string \<Rightarrow> string list \<Rightarrow> nat list \<Rightarrow> nat list" where
  "dp_row x [] below = [0]"
| "dp_row x (y # ys) below =
     (let right = dp_row x ys (tl below) in
      (if x = y then hd (tl below) + 1
       else if hd below \<ge> hd right then hd below
       else hd right) # right)"

fun dp_table :: "string list \<Rightarrow> string list \<Rightarrow> nat list list" where
  "dp_table [] b = [replicate (length b + 1) 0]"
| "dp_table (x # xs) b = (let t = dp_table xs b in dp_row x b (hd t) # t)"

function walk_ops ::
  "string list \<Rightarrow> string list \<Rightarrow> nat list list \<Rightarrow> nat \<Rightarrow> nat \<Rightarrow> edit_op list" where
  "walk_ops a b dp i j =
    (if i < length a \<and> j < length b then
       if a ! i = b ! j then line_op Keep (a ! i) # walk_ops a b dp (i + 1) (j + 1)
       else if dp ! (i + 1) ! j \<ge> dp ! i ! (j + 1) then line_op Delete (a ! i) # walk_ops a b dp (i + 1) j
       else line_op Insert (b ! j) # walk_ops a b dp i (j + 1)
     else map (line_op Delete) (drop i a) @ map (line_op Insert) (drop j b))"
  by pat_completeness auto

termination
  by (relation "measure (\<lambda>(a, b, dp, i, j). (length a - i) + (length b - j))") auto

declare walk_ops.simps [simp del]

definition lcs_ops :: "string list \<Rightarrow> string list \<Rightarrow> edit_op list" where
  "lcs_ops a b = walk_ops a b (dp_table a b) 0 0"

definition has_change :: "edit_op list \<Rightarrow> bool" where
  "has_change ops = list_ex (\<lambda>oper. op_of oper \<noteq> Keep) ops"

record hunk =
  h_a_start :: int
  h_a_count :: int
  h_b_start :: int
  h_b_count :: int
  h_ops :: "edit_op list"

text \<open>The spans \<open>[start, end)\<close> of operations around the changes, overlapping ones merged.\<close>

definition changed_indices :: "edit_op list \<Rightarrow> nat list" where
  "changed_indices ops = filter (\<lambda>i. op_of (ops ! i) \<noteq> Keep) [0..<length ops]"

definition add_span :: "nat \<Rightarrow> (nat \<times> nat) list \<Rightarrow> nat \<Rightarrow> (nat \<times> nat) list" where
  "add_span n spans idx =
    (let start = idx - context_lines;
         stop = (if idx + context_lines + 1 > n then n else idx + context_lines + 1)
     in if spans \<noteq> [] \<and> start \<le> snd (last spans) then
          if stop > snd (last spans) then butlast spans @ [(fst (last spans), stop)] else spans
        else spans @ [(start, stop)])"

definition op_spans :: "edit_op list \<Rightarrow> (nat \<times> nat) list" where
  "op_spans ops = foldl (add_span (length ops)) [] (changed_indices ops)"

definition advance :: "edit_op \<Rightarrow> int \<times> int \<Rightarrow> int \<times> int" where
  "advance oper lines =
    (case op_of oper of
       Keep \<Rightarrow> (fst lines + 1, snd lines + 1)
     | Delete \<Rightarrow> (fst lines + 1, snd lines)
     | Insert \<Rightarrow> (fst lines, snd lines + 1))"

definition make_hunk :: "int \<times> int \<Rightarrow> edit_op list \<Rightarrow> hunk" where
  "make_hunk lines body =
    (let counts = fold advance body (0, 0)
     in \<lparr>h_a_start = (if fst counts = 0 then fst lines - 1 else fst lines), h_a_count = fst counts,
         h_b_start = (if snd counts = 0 then snd lines - 1 else snd lines), h_b_count = snd counts,
         h_ops = body\<rparr>)"

primrec span_hunks :: "edit_op list \<Rightarrow> (nat \<times> nat) list \<Rightarrow> nat \<Rightarrow> int \<times> int \<Rightarrow> hunk list" where
  "span_hunks ops [] cursor lines = []"
| "span_hunks ops (sp # spans) cursor lines =
     (let skipped = take (fst sp - cursor) (drop cursor ops);
          at = cursor + length skipped;
          lines1 = fold advance skipped lines;
          body = take (snd sp - at) (drop at ops)
      in make_hunk lines1 body # span_hunks ops spans (at + length body) (fold advance body lines1))"

definition hunks :: "edit_op list \<Rightarrow> hunk list" where
  "hunks ops = (if changed_indices ops = [] then [] else span_hunks ops (op_spans ops) 0 (1, 1))"

definition render_op :: "edit_op \<Rightarrow> string" where
  "render_op oper = kind_char (op_of oper) # op_text oper @ [newline]"

definition render_hunk :: "hunk \<Rightarrow> string" where
  "render_hunk h =
    ''@@ -'' @ itoa (h_a_start h) @ '','' @ itoa (h_a_count h) @ '' +'' @ itoa (h_b_start h) @ '','' @
    itoa (h_b_count h) @ '' @@'' @ [newline] @ concat (map render_op (h_ops h))"

definition render :: "edit_op list \<Rightarrow> string" where
  "render ops = ''--- a'' @ [newline] @ ''+++ b'' @ [newline] @ concat (map render_hunk (hunks ops))"

definition diff_ops :: "string list \<Rightarrow> string list \<Rightarrow> edit_op list" where
  "diff_ops al bl =
    (if length al * length bl > max_dp_cells
     then map (line_op Delete) al @ map (line_op Insert) bl
     else lcs_ops al bl)"

definition unified :: "string \<Rightarrow> string \<Rightarrow> string" where
  "unified a b =
    (let al = split_lines a; bl = split_lines b in
     if length al = 0 \<and> length bl = 0 then ''''
     else let ops = diff_ops al bl in
       if \<not> has_change ops then '''' else render ops)"

subsection \<open>The table holds longest common subsequences\<close>

fun lcs_len :: "string list \<Rightarrow> string list \<Rightarrow> nat" where
  "lcs_len [] ys = 0"
| "lcs_len xs [] = 0"
| "lcs_len (x # xs) (y # ys) =
     (if x = y then lcs_len xs ys + 1 else max (lcs_len xs (y # ys)) (lcs_len (x # xs) ys))"

lemma lcs_len_Nil2 [simp]: "lcs_len xs [] = 0"
  by (cases xs) auto

text \<open>A row lists the entries for all suffixes of the second list.\<close>

lemma dp_row_entries:
  "below = map (\<lambda>j. lcs_len xs (drop j ys)) [0..<length ys + 1] \<Longrightarrow>
    dp_row x ys below = map (\<lambda>j. lcs_len (x # xs) (drop j ys)) [0..<length ys + 1]"
proof (induction ys arbitrary: below)
  case Nil
  then show ?case by simp
next
  case (Cons y ys)
  have shift: "map f [0..<length (y # ys) + 1] = f 0 # map (\<lambda>j. f (Suc j)) [0..<length ys + 1]"
    for f :: "nat \<Rightarrow> nat"
    by (simp add: upt_conv_Cons map_Suc_upt [symmetric] del: upt_Suc)
  from Cons.prems have below: "below = lcs_len xs (y # ys) # map (\<lambda>j. lcs_len xs (drop j ys)) [0..<length ys + 1]"
    unfolding shift by simp
  then have right: "dp_row x ys (tl below) = map (\<lambda>j. lcs_len (x # xs) (drop j ys)) [0..<length ys + 1]"
    by (intro Cons.IH) simp
  have first: "hd (map (\<lambda>j. f (drop j ys)) [0..<length ys + 1]) = f ys" for f :: "string list \<Rightarrow> nat"
    by (simp add: upt_conv_Cons del: upt_Suc)
  have "hd (tl below) = lcs_len xs ys" using below first [of "lcs_len xs"] by simp
  with below right first [of "lcs_len (x # xs)"] show ?case
    unfolding shift by (simp add: Let_def max_def)
qed

lemma dp_table_entries:
  "dp_table a b = map (\<lambda>i. map (\<lambda>j. lcs_len (drop i a) (drop j b)) [0..<length b + 1]) [0..<length a + 1]"
proof (induction a)
  case Nil
  show ?case by (simp add: map_replicate_const)
next
  case (Cons x xs)
  have shift: "map f [0..<length (x # xs) + 1] = f 0 # map (\<lambda>i. f (Suc i)) [0..<length xs + 1]"
    for f :: "nat \<Rightarrow> nat list"
    by (simp add: upt_conv_Cons map_Suc_upt [symmetric] del: upt_Suc)
  have "hd (dp_table xs b) = map (\<lambda>j. lcs_len xs (drop j b)) [0..<length b + 1]"
    unfolding Cons.IH by (simp add: upt_conv_Cons del: upt_Suc)
  then have "dp_row x b (hd (dp_table xs b)) = map (\<lambda>j. lcs_len (x # xs) (drop j b)) [0..<length b + 1]"
    by (rule dp_row_entries)
  then show ?case
    unfolding shift using Cons.IH by (simp add: Let_def del: upt_Suc)
qed

lemma dp_table_at:
  "i \<le> length a \<Longrightarrow> j \<le> length b \<Longrightarrow> dp_table a b ! i ! j = lcs_len (drop i a) (drop j b)"
  by (simp add: dp_table_entries del: upt_Suc)

lemma lcs_len_upper: "subseq c a \<Longrightarrow> subseq c b \<Longrightarrow> length c \<le> lcs_len a b"
proof (induction a b arbitrary: c rule: lcs_len.induct)
  case (3 x xs y ys)
  show ?case
  proof (cases "x = y")
    case True
    show ?thesis
    proof (cases c)
      case (Cons z zs)
      then have "subseq zs xs" "subseq zs ys"
        using "3.prems" True by (auto split: if_splits dest: subseq_Cons')
      with "3.IH"(1) [OF True] True Cons show ?thesis by simp
    qed simp
  next
    case False
    have "subseq c xs \<or> subseq c ys"
    proof (cases c)
      case (Cons z zs)
      with "3.prems" False show ?thesis by (auto split: if_splits)
    qed simp
    with "3.IH"(2,3) [OF False] "3.prems" False show ?thesis by fastforce
  qed
qed simp_all

lemma lcs_len_attained: "\<exists>c. subseq c a \<and> subseq c b \<and> length c = lcs_len a b"
proof (induction a b rule: lcs_len.induct)
  case (3 x xs y ys)
  show ?case
  proof (cases "x = y")
    case True
    with "3.IH"(1) obtain c where "subseq c xs" "subseq c ys" "length c = lcs_len xs ys" by blast
    with True show ?thesis by (intro exI [of _ "x # c"]) simp
  next
    case False
    with "3.IH"(2,3) show ?thesis by (auto simp: max_def dest: list_emb_Cons)
  qed
qed (auto intro: exI [of _ "[]"])

subsection \<open>The operations turn one list of lines into the other\<close>

definition old_lines :: "edit_op list \<Rightarrow> string list" where
  "old_lines ops = map op_text (filter (\<lambda>oper. op_of oper \<noteq> Insert) ops)"

definition new_lines :: "edit_op list \<Rightarrow> string list" where
  "new_lines ops = map op_text (filter (\<lambda>oper. op_of oper \<noteq> Delete) ops)"

definition kept_lines :: "edit_op list \<Rightarrow> string list" where
  "kept_lines ops = map op_text (filter (\<lambda>oper. op_of oper = Keep) ops)"

definition change_count :: "edit_op list \<Rightarrow> nat" where
  "change_count ops = length (filter (\<lambda>oper. op_of oper \<noteq> Keep) ops)"

lemmas line_views = old_lines_def new_lines_def kept_lines_def change_count_def

lemma line_views_simps [simp]:
  "old_lines [] = []" "new_lines [] = []" "kept_lines [] = []"
  "old_lines (xs @ ys) = old_lines xs @ old_lines ys"
  "new_lines (xs @ ys) = new_lines xs @ new_lines ys"
  "kept_lines (xs @ ys) = kept_lines xs @ kept_lines ys"
  "old_lines (line_op Keep l # ops) = l # old_lines ops"
  "old_lines (line_op Delete l # ops) = l # old_lines ops"
  "old_lines (line_op Insert l # ops) = old_lines ops"
  "new_lines (line_op Keep l # ops) = l # new_lines ops"
  "new_lines (line_op Delete l # ops) = new_lines ops"
  "new_lines (line_op Insert l # ops) = l # new_lines ops"
  "kept_lines (line_op Keep l # ops) = l # kept_lines ops"
  "kept_lines (line_op Delete l # ops) = kept_lines ops"
  "kept_lines (line_op Insert l # ops) = kept_lines ops"
  "old_lines (map (line_op Delete) ls) = ls" "old_lines (map (line_op Insert) ls) = []"
  "new_lines (map (line_op Delete) ls) = []" "new_lines (map (line_op Insert) ls) = ls"
  "kept_lines (map (line_op Delete) ls) = []" "kept_lines (map (line_op Insert) ls) = []"
  by (simp_all add: line_views filter_map comp_def)

lemma walk_ops_lines:
  "old_lines (walk_ops a b dp i j) = drop i a \<and> new_lines (walk_ops a b dp i j) = drop j b"
proof (induction a b dp i j rule: walk_ops.induct)
  case (1 a b dp i j)
  show ?case
  proof (cases "i < length a \<and> j < length b")
    case True
    have a: "drop i a = a ! i # drop (Suc i) a" and b: "drop j b = b ! j # drop (Suc j) b"
      using True by (simp_all add: Cons_nth_drop_Suc)
    show ?thesis
      using 1 True unfolding walk_ops.simps [of a b dp i j] a b by simp
  next
    case False
    then show ?thesis by (subst (1 2) walk_ops.simps) auto
  qed
qed

lemma lcs_len_step:
  "i < length a \<Longrightarrow> j < length b \<Longrightarrow> lcs_len (drop i a) (drop j b) =
    (if a ! i = b ! j then lcs_len (drop (Suc i) a) (drop (Suc j) b) + 1
     else max (lcs_len (drop (Suc i) a) (drop j b)) (lcs_len (drop i a) (drop (Suc j) b)))"
  by (simp add: Cons_nth_drop_Suc [symmetric])

lemma walk_ops_kept:
  "i \<le> length a \<Longrightarrow> j \<le> length b \<Longrightarrow>
    length (kept_lines (walk_ops a b (dp_table a b) i j)) = lcs_len (drop i a) (drop j b)"
proof (induction a b "dp_table a b" i j rule: walk_ops.induct)
  case (1 a b i j)
  show ?case
  proof (cases "i < length a \<and> j < length b")
    case False
    with 1(4,5) show ?thesis by (subst walk_ops.simps) auto
  next
    case True
    then have entries: "dp_table a b ! Suc i ! j = lcs_len (drop (Suc i) a) (drop j b)"
      "dp_table a b ! i ! Suc j = lcs_len (drop i a) (drop (Suc j) b)"
      by (simp_all add: dp_table_at)
    from True 1 show ?thesis
      by (subst walk_ops.simps) (simp add: entries lcs_len_step)
  qed
qed

lemma lcs_ops_lines: "old_lines (lcs_ops a b) = a" "new_lines (lcs_ops a b) = b"
  by (simp_all add: lcs_ops_def walk_ops_lines)

lemma lcs_ops_kept: "length (kept_lines (lcs_ops a b)) = lcs_len a b"
  by (simp add: lcs_ops_def walk_ops_kept)

lemma kept_subseq: "subseq (kept_lines ops) (old_lines ops)" "subseq (kept_lines ops) (new_lines ops)"
proof -
  have "subseq (filter P xs) (filter Q xs)" if "\<And>x. P x \<Longrightarrow> Q x" for P Q and xs :: "edit_op list"
    using that by (induction xs) auto
  note filters = this
  show "subseq (kept_lines ops) (old_lines ops)" "subseq (kept_lines ops) (new_lines ops)"
    unfolding line_views by (rule subseq_map, rule filters, simp)+
qed

lemma change_count_lengths:
  "change_count ops + 2 * length (kept_lines ops) = length (old_lines ops) + length (new_lines ops)"
proof (induction ops)
  case (Cons oper ops)
  then show ?case by (cases "op_of oper") (auto simp: line_views)
qed (simp add: line_views)

text \<open>The table the dynamic program fills holds, at row \<open>i\<close> and column \<open>j\<close>, the length of a
  longest common subsequence of the lines from \<open>i\<close> and from \<open>j\<close> on.\<close>

theorem dp_table_longest:
  assumes "i \<le> length a" and "j \<le> length b"
  shows "(\<exists>c. subseq c (drop i a) \<and> subseq c (drop j b) \<and> length c = dp_table a b ! i ! j) \<and>
    (\<forall>c. subseq c (drop i a) \<longrightarrow> subseq c (drop j b) \<longrightarrow> length c \<le> dp_table a b ! i ! j)"
  using assms lcs_len_attained lcs_len_upper by (simp add: dp_table_at)

theorem dp_table_longest_witness:
  "\<exists>c. subseq c [''a'', ''b'', ''c''] \<and> subseq c [''b'', ''c'', ''d''] \<and>
    length c = dp_table [''a'', ''b'', ''c''] [''b'', ''c'', ''d''] ! 0 ! 0"
  using dp_table_longest [of 0 "[''a'', ''b'', ''c'']" 0 "[''b'', ''c'', ''d'']"] by simp

text \<open>C26: The operations of the diff, the degraded form included, contain the old lines and the new
  lines in order; computed by the table they change as few lines as any such list of operations.\<close>

theorem diff_ops_sound_minimal:
  "old_lines (diff_ops a b) = a \<and> new_lines (diff_ops a b) = b \<and>
   (length a * length b \<le> max_dp_cells \<longrightarrow>
     old_lines other = a \<longrightarrow> new_lines other = b \<longrightarrow> change_count (diff_ops a b) \<le> change_count other)"
proof -
  have minimal: "change_count (lcs_ops a b) \<le> change_count other"
    if "old_lines other = a" "new_lines other = b"
  proof -
    have "length (kept_lines other) \<le> lcs_len a b"
      using kept_subseq [of other] that by (intro lcs_len_upper) simp_all
    moreover have "change_count other + 2 * length (kept_lines other) = length a + length b"
      "change_count (lcs_ops a b) + 2 * lcs_len a b = length a + length b"
      using change_count_lengths [of other] change_count_lengths [of "lcs_ops a b"] that
      by (simp_all add: lcs_ops_lines lcs_ops_kept)
    ultimately show ?thesis by linarith
  qed
  then show ?thesis by (auto simp: diff_ops_def lcs_ops_lines)
qed

theorem diff_ops_sound_minimal_witness:
  "change_count (diff_ops [''a'', ''b''] [''b'']) \<le> change_count (map (line_op Delete) [''a'', ''b''] @ [line_op Insert ''b''])"
  using diff_ops_sound_minimal [of "[''a'', ''b'']" "[''b'']"
      "map (line_op Delete) [''a'', ''b''] @ [line_op Insert ''b'']"]
  by (simp add: max_dp_cells_def line_views)

subsection \<open>Hunks as a patch\<close>

text \<open>
  Applying hunks to the old lines: \<open>pos\<close> old lines are consumed and \<open>out\<close> new ones written before
  \<open>rest\<close>.  A hunk applies when its header agrees with its lines and with both positions, and the
  lines it keeps or deletes are the ones found there.
\<close>

definition hunk_pos :: "int \<Rightarrow> int \<Rightarrow> int" where
  "hunk_pos start n = (if n = 0 then start else start - 1)"

fun apply_patch :: "hunk list \<Rightarrow> int \<Rightarrow> int \<Rightarrow> string list \<Rightarrow> string list option" where
  "apply_patch [] pos out rest = Some rest"
| "apply_patch (h # hs) pos out rest =
     (let old = old_lines (h_ops h); new = new_lines (h_ops h);
          skip = nat (hunk_pos (h_a_start h) (h_a_count h) - pos)
      in if h_a_count h = int (length old) \<and> h_b_count h = int (length new) \<and>
            pos \<le> hunk_pos (h_a_start h) (h_a_count h) \<and> skip \<le> length rest \<and>
            hunk_pos (h_b_start h) (h_b_count h) = out + int skip \<and>
            take (length old) (drop skip rest) = old
         then map_option (\<lambda>r. take skip rest @ new @ r)
           (apply_patch hs (pos + int skip + int (length old)) (out + int skip + int (length new))
             (drop (skip + length old) rest))
         else None)"

text \<open>Spans are good from \<open>c\<close> on when they lie in order behind \<open>c\<close> and cover every change there.\<close>

fun spans_good :: "edit_op list \<Rightarrow> nat \<Rightarrow> (nat \<times> nat) list \<Rightarrow> bool" where
  "spans_good ops c [] \<longleftrightarrow> (\<forall>oper \<in> set (drop c ops). op_of oper = Keep)"
| "spans_good ops c (sp # sps) \<longleftrightarrow>
     c \<le> fst sp \<and> fst sp \<le> snd sp \<and> snd sp \<le> length ops \<and>
     (\<forall>oper \<in> set (take (fst sp - c) (drop c ops)). op_of oper = Keep) \<and> spans_good ops (snd sp) sps"

lemma fold_advance:
  "fold advance ops lines =
    (fst lines + int (length (old_lines ops)), snd lines + int (length (new_lines ops)))"
proof (induction ops arbitrary: lines)
  case (Cons oper ops)
  then show ?case by (cases "op_of oper") (auto simp: advance_def line_views)
qed (simp add: line_views)

lemma all_kept_lines:
  "\<forall>oper \<in> set ops. op_of oper = Keep \<Longrightarrow> old_lines ops = new_lines ops"
  by (induction ops) (auto simp: line_views)

lemma hunk_pos_make:
  "hunk_pos (h_a_start (make_hunk lines body)) (int (length (old_lines body))) = fst lines - 1"
  "hunk_pos (h_b_start (make_hunk lines body)) (int (length (new_lines body))) = snd lines - 1"
  "h_a_count (make_hunk lines body) = int (length (old_lines body))"
  "h_b_count (make_hunk lines body) = int (length (new_lines body))"
  "h_ops (make_hunk lines body) = body"
  by (simp_all add: make_hunk_def fold_advance hunk_pos_def Let_def)

lemma apply_span_hunks:
  assumes "spans_good ops c spans" and "lines = (pos + 1, out + 1)"
  shows "apply_patch (span_hunks ops spans c lines) pos out (old_lines (drop c ops)) =
    Some (new_lines (drop c ops))"
  using assms
proof (induction spans arbitrary: c lines pos out)
  case Nil
  then show ?case by (simp add: all_kept_lines)
next
  case (Cons sp sps)
  define skipped where "skipped = take (fst sp - c) (drop c ops)"
  define body where "body = take (snd sp - fst sp) (drop (fst sp) ops)"
  from Cons.prems(1) have good: "c \<le> fst sp" "fst sp \<le> snd sp" "snd sp \<le> length ops"
    "\<forall>oper \<in> set skipped. op_of oper = Keep" "spans_good ops (snd sp) sps"
    by (simp_all add: skipped_def)
  have at: "c + length skipped = fst sp" "fst sp + length body = snd sp"
    using good by (simp_all add: skipped_def body_def)
  have kept: "old_lines skipped = new_lines skipped" using good(4) by (rule all_kept_lines)
  have split: "drop c ops = skipped @ body @ drop (snd sp) ops"
  proof -
    have "drop c ops = skipped @ drop (fst sp) ops"
      using append_take_drop_id [of "fst sp - c" "drop c ops"] good(1) by (simp add: skipped_def)
    moreover have "drop (fst sp) ops = body @ drop (snd sp) ops"
      using append_take_drop_id [of "snd sp - fst sp" "drop (fst sp) ops"] good(2) by (simp add: body_def)
    ultimately show ?thesis by simp
  qed
  define lines1 where "lines1 = fold advance skipped lines"
  have lines1: "lines1 = (pos + int (length (new_lines skipped)) + 1, out + int (length (new_lines skipped)) + 1)"
    using Cons.prems(2) by (simp add: lines1_def fold_advance kept)
  have hunks: "span_hunks ops (sp # sps) c lines =
      make_hunk lines1 body # span_hunks ops sps (snd sp) (fold advance body lines1)"
    using at by (simp only: span_hunks.simps Let_def skipped_def [symmetric] lines1_def [symmetric]
        body_def [symmetric])
  have rest: "apply_patch (span_hunks ops sps (snd sp) (fold advance body lines1))
      (pos + int (length (new_lines skipped)) + int (length (old_lines body)))
      (out + int (length (new_lines skipped)) + int (length (new_lines body)))
      (old_lines (drop (snd sp) ops)) = Some (new_lines (drop (snd sp) ops))"
    by (rule Cons.IH [OF good(5)]) (simp add: lines1 fold_advance)
  show ?case
    unfolding hunks split
    using rest by (simp add: Let_def hunk_pos_make lines1 kept)
qed

text \<open>The spans the source collects are good.\<close>

definition spans_of_changes :: "nat \<Rightarrow> nat list \<Rightarrow> (nat \<times> nat) list \<Rightarrow> bool" where
  "spans_of_changes n cs spans \<longleftrightarrow>
     sorted_wrt (\<lambda>s t. snd s < fst t) spans \<and> (\<forall>s \<in> set spans. fst s < snd s \<and> snd s \<le> n) \<and>
     (\<forall>i \<in> set cs. \<exists>s \<in> set spans. fst s \<le> i \<and> i < snd s)"

lemma add_span_good:
  assumes inv: "spans_of_changes n cs spans" and idx: "idx < n" "\<forall>i \<in> set cs. i < idx"
    and covered: "spans \<noteq> [] \<longrightarrow> fst (last spans) \<le> idx"
  shows "spans_of_changes n (cs @ [idx]) (add_span n spans idx) \<and>
    fst (last (add_span n spans idx)) \<le> idx"
proof -
  define start where "start = idx - context_lines"
  define stop where "stop = (if idx + context_lines + 1 > n then n else idx + context_lines + 1)"
  have bounds: "start \<le> idx" "idx < stop" "stop \<le> n"
    using idx by (auto simp: start_def stop_def context_lines_def)
  have step: "add_span n spans idx =
      (if spans \<noteq> [] \<and> start \<le> snd (last spans)
       then if stop > snd (last spans) then butlast spans @ [(fst (last spans), stop)] else spans
       else spans @ [(start, stop)])"
    by (simp add: add_span_def start_def stop_def Let_def)
  show ?thesis
  proof (cases "spans = []")
    case True
    then have "add_span n spans idx = [(start, stop)]" using step by simp
    with inv bounds True show ?thesis by (simp add: spans_of_changes_def)
  next
    case False
    define init where "init = butlast spans"
    define final where "final = last spans"
    have spans: "spans = init @ [final]" using False by (simp add: init_def final_def)
    from inv have sorted: "sorted_wrt (\<lambda>s t. snd s < fst t) init" "\<forall>s \<in> set init. snd s < fst final"
      and each: "\<forall>s \<in> set init. fst s < snd s \<and> snd s \<le> n" "fst final < snd final" "snd final \<le> n"
      and cover: "\<forall>i \<in> set cs. (\<exists>s \<in> set init. fst s \<le> i \<and> i < snd s) \<or> fst final \<le> i \<and> i < snd final"
      by (auto simp: spans_of_changes_def spans sorted_wrt_append)
    have final_le: "fst final \<le> idx" using covered False by (simp add: final_def)
    consider "start \<le> snd final" "stop > snd final" | "start \<le> snd final" "stop \<le> snd final"
      | "start > snd final" by linarith
    then show ?thesis
    proof cases
      case 1
      have "fst final < stop" using each 1 by linarith
      moreover have "\<forall>i \<in> set (cs @ [idx]). \<exists>s \<in> set (init @ [(fst final, stop)]). fst s \<le> i \<and> i < snd s"
        using cover final_le bounds 1 by fastforce
      moreover have "add_span n spans idx = init @ [(fst final, stop)]" using step spans 1 by simp
      ultimately show ?thesis
        using 1 sorted each bounds final_le by (auto simp: spans_of_changes_def sorted_wrt_append)
    next
      case 2
      then have "add_span n spans idx = init @ [final]" using step spans by simp
      with 2 show ?thesis
        using sorted each cover bounds final_le
        by (auto simp: spans_of_changes_def sorted_wrt_append)
    next
      case 3
      then have new: "add_span n spans idx = init @ [final, (start, stop)]" using step spans by simp
      have "snd s < start" if "s \<in> set init" for s
        using that 3 sorted(2) each(2) by fastforce
      with 3 new show ?thesis
        using sorted each cover bounds
        by (auto simp: spans_of_changes_def sorted_wrt_append)
    qed
  qed
qed

lemma fold_spans_good:
  assumes "sorted_wrt (<) (cs0 @ cs)" and "\<forall>i \<in> set cs. i < n"
    and "spans_of_changes n cs0 spans" and "cs0 \<noteq> [] \<longrightarrow> spans \<noteq> [] \<and> fst (last spans) \<le> last cs0"
    and "cs0 = [] \<longrightarrow> spans = []"
  shows "spans_of_changes n (cs0 @ cs) (foldl (add_span n) spans cs)"
  using assms
proof (induction cs arbitrary: cs0 spans)
  case Nil
  then show ?case by simp
next
  case (Cons idx cs)
  have below: "\<forall>i \<in> set cs0. i < idx" using Cons.prems(1) by (auto simp: sorted_wrt_append)
  have "fst (last spans) \<le> idx" if "spans \<noteq> []"
  proof -
    have "cs0 \<noteq> []" using that Cons.prems(5) by blast
    then have "last cs0 < idx" using below by simp
    with Cons.prems(4) \<open>cs0 \<noteq> []\<close> show ?thesis by linarith
  qed
  then have step: "spans_of_changes n (cs0 @ [idx]) (add_span n spans idx)"
    "fst (last (add_span n spans idx)) \<le> idx"
    using add_span_good [OF Cons.prems(3), of idx] below Cons.prems(2) by auto
  have "add_span n spans idx \<noteq> []" by (simp add: add_span_def Let_def)
  with Cons.IH [of "cs0 @ [idx]" "add_span n spans idx"] step Cons.prems(1,2)
  show ?case by simp
qed

lemma op_spans_good: "spans_of_changes (length ops) (changed_indices ops) (op_spans ops)"
proof -
  have "sorted_wrt (<) ([] @ changed_indices ops)"
    unfolding changed_indices_def by (simp add: sorted_wrt_filter)
  moreover have "\<forall>i \<in> set (changed_indices ops). i < length ops"
    by (simp add: changed_indices_def)
  moreover have "spans_of_changes (length ops) [] []" by (simp add: spans_of_changes_def)
  ultimately have "spans_of_changes (length ops) ([] @ changed_indices ops)
      (foldl (add_span (length ops)) [] (changed_indices ops))"
    by (rule fold_spans_good) simp_all
  then show ?thesis by (simp add: op_spans_def)
qed

lemma spans_of_changes_good:
  assumes "sorted_wrt (\<lambda>s t. snd s < fst t) spans"
    and "\<forall>s \<in> set spans. fst s < snd s \<and> snd s \<le> length ops \<and> c \<le> fst s"
    and "\<forall>i \<in> set (changed_indices ops). c \<le> i \<longrightarrow> (\<exists>s \<in> set spans. fst s \<le> i \<and> i < snd s)"
  shows "spans_good ops c spans"
  using assms
proof (induction spans arbitrary: c)
  case Nil
  have "op_of oper = Keep" if "oper \<in> set (drop c ops)" for oper
  proof -
    from that obtain i where "i < length ops - c" "oper = ops ! (c + i)"
      by (auto simp: in_set_conv_nth)
    with Nil.prems(3) show ?thesis by (auto simp: changed_indices_def dest!: spec [of _ "c + i"])
  qed
  then show ?case by simp
next
  case (Cons sp sps)
  have "op_of oper = Keep" if "oper \<in> set (take (fst sp - c) (drop c ops))" for oper
  proof -
    from that obtain i where i: "i < fst sp - c" "i < length ops - c" "oper = ops ! (c + i)"
      by (auto simp: in_set_conv_nth)
    have "\<not> (fst s \<le> c + i)" if "s \<in> set (sp # sps)" for s
      using i(1) Cons.prems(1,2) that by fastforce
    then have "c + i \<notin> set (changed_indices ops)" using Cons.prems(3) le_add1 by blast
    with i show ?thesis by (auto simp: changed_indices_def)
  qed
  moreover have "spans_good ops (snd sp) sps"
    using Cons.prems by (intro Cons.IH) fastforce+
  ultimately show ?case using Cons.prems(2) by auto
qed

lemma hunks_apply: "apply_patch (hunks ops) 0 0 (old_lines ops) = Some (new_lines ops)"
proof (cases "changed_indices ops = []")
  case True
  then have "\<forall>oper \<in> set ops. op_of oper = Keep"
    by (auto simp: changed_indices_def filter_empty_conv in_set_conv_nth)
  with True show ?thesis by (simp add: hunks_def all_kept_lines)
next
  case False
  have "spans_good ops 0 (op_spans ops)"
    using op_spans_good [of ops] by (intro spans_of_changes_good) (auto simp: spans_of_changes_def)
  from apply_span_hunks [OF this, of "(1, 1)" 0 0] False show ?thesis by (simp add: hunks_def)
qed

text \<open>C25: The hunks of a diff are a patch: applied to the old lines, with the line numbers and counts of
  their headers and the lines they quote checked, they give the new lines.\<close>

theorem hunks_patch:
  "apply_patch (hunks (diff_ops a b)) 0 0 a = Some b"
proof -
  have "old_lines (diff_ops a b) = a" "new_lines (diff_ops a b) = b"
    by (simp_all add: diff_ops_def lcs_ops_lines)
  with hunks_apply [of "diff_ops a b"] show ?thesis by simp
qed

lemma has_change_iff: "has_change ops \<longleftrightarrow> change_count ops \<noteq> 0"
  by (auto simp: has_change_def change_count_def list_ex_iff filter_empty_conv)

lemma unchanged_lines: "\<not> has_change ops \<Longrightarrow> old_lines ops = new_lines ops"
  by (intro all_kept_lines) (auto simp: has_change_def list_ex_iff)

lemma lcs_len_same [simp]: "lcs_len xs xs = length xs"
  by (induction xs) auto

lemma lcs_ops_same: "\<not> has_change (lcs_ops xs xs)"
  using change_count_lengths [of "lcs_ops xs xs"]
  by (simp add: has_change_iff lcs_ops_lines lcs_ops_kept)

text \<open>As long as the table fits its limit the diff is empty exactly when both texts have the same
  lines.  Beyond the limit the diff is never empty, not even for identical texts.\<close>

theorem unified_empty_iff:
  "if length (split_lines a) * length (split_lines b) \<le> max_dp_cells
   then (unified a b = '''') = (split_lines a = split_lines b)
   else unified a b \<noteq> ''''"
proof -
  have render: "render ops \<noteq> ''''" for ops by (simp add: render_def)
  show ?thesis
  proof (cases "length (split_lines a) * length (split_lines b) \<le> max_dp_cells")
    case True
    then have ops: "diff_ops (split_lines a) (split_lines b) = lcs_ops (split_lines a) (split_lines b)"
      by (simp add: diff_ops_def)
    have "split_lines a = split_lines b" if "\<not> has_change (lcs_ops (split_lines a) (split_lines b))"
      using unchanged_lines [OF that] by (simp add: lcs_ops_lines)
    with True ops render lcs_ops_same show ?thesis by (auto simp: unified_def Let_def)
  next
    case False
    then have "split_lines a \<noteq> []" "split_lines b \<noteq> []" by auto
    then have "has_change (diff_ops (split_lines a) (split_lines b))"
      using False by (cases "split_lines a") (auto simp: diff_ops_def has_change_def)
    with False render \<open>split_lines a \<noteq> []\<close> show ?thesis by (simp add: unified_def Let_def)
  qed
qed

end
