(* ===== verification/Validator.thy ===== *)
theory Validator
  imports Store_Models
begin

section \<open>Configuration validation (internal/validator/validator.go)\<close>

text \<open>
  A configuration is checked in two stages: its YAML must parse and have a \<open>service.pipelines\<close>
  section, and where a Collector binary is configured that binary may check it too.  The YAML parser,
  the hash function, the temporary file and the run of the binary are parameters.  The lemmas say
  when a configuration is valid and what the second stage can change.
\<close>

subsection \<open>Decoded YAML\<close>

text \<open>
  A decoded value: a map with string keys, a list, a string, the other scalars.  \<open>YOther\<close> is any
  other value of the decoder, a float, a timestamp or a map with other keys, by its printed form.
\<close>

datatype yaml =
    YMap "(string \<times> yaml) list"
  | YList "yaml list"
  | YStr string
  | YNil
  | YBool bool
  | YInt int
  | YOther string

text \<open>\<open>yaml.Unmarshal\<close> into a map fails with a message or yields the map, nil for an empty document.\<close>

type_synonym map_decoder = "string \<Rightarrow> string + (string \<times> yaml) list option"

subsection \<open>Results\<close>

datatype val_method = MethodNone | MethodYaml | MethodOtelcol

record val_result =
  vr_valid :: bool
  vr_errors :: "val_msg list"
  vr_warnings :: "val_msg list"
  vr_method :: val_method

subsection \<open>The two stages\<close>

definition as_map :: "yaml option \<Rightarrow> (string \<times> yaml) list option" where
  "as_map v = (case v of Some (YMap m) \<Rightarrow> Some m | _ \<Rightarrow> None)"

definition validate_yaml :: "map_decoder \<Rightarrow> string \<Rightarrow> val_result" where
  "validate_yaml decode content =
    (let res = \<lparr>vr_valid = True, vr_errors = [], vr_warnings = [], vr_method = MethodNone\<rparr>;
         invalid = (\<lambda>msg. res\<lparr>vr_valid := False, vr_errors := [msg]\<rparr>)
     in case decode content of
          Inl err \<Rightarrow> invalid (ValYamlSyntax err)
        | Inr None \<Rightarrow> invalid ValConfigEmpty
        | Inr (Some doc) \<Rightarrow>
            (case as_map (map_of doc ''service'') of
               None \<Rightarrow> invalid ValServiceMissing
             | Some service \<Rightarrow>
                 (case as_map (map_of service ''pipelines'') of
                    None \<Rightarrow> invalid ValPipelinesMissing
                  | Some _ \<Rightarrow>
                      res\<lparr>vr_warnings := map ValSectionMissing
                        (filter (\<lambda>section. map_of doc section = None) [''receivers'', ''exporters''])\<rparr>)))"

text \<open>What the operating system does for the second stage.\<close>

datatype tmp_outcome =
    TmpOk string
  | TmpCreateFailed string
  | TmpWriteFailed string
  | TmpCloseFailed string

datatype run_outcome =
    RunOk
  | RunBinaryMissing string
  | RunExitError
  | RunFailed string

record otelcol_env =
  oc_tmp :: "string \<Rightarrow> tmp_outcome"
  oc_run :: "string \<Rightarrow> string list \<Rightarrow> run_outcome"

definition otelcol_args :: "string \<Rightarrow> string \<Rightarrow> string list" where
  "otelcol_args tmp content =
    [''validate'', ''--config'', tmp] @
    (if contains ''opamp'' content
     then [''--feature-gates'', ''extension.opampextension.RemoteRestarts''] else [])"

definition validate_with_otelcol :: "otelcol_env \<Rightarrow> string \<Rightarrow> string \<Rightarrow> string + val_result" where
  "validate_with_otelcol env bin content =
    (let res = \<lparr>vr_valid = True, vr_errors = [], vr_warnings = [], vr_method = MethodOtelcol\<rparr>
     in case oc_tmp env content of
          TmpCreateFailed err \<Rightarrow> Inl err
        | TmpWriteFailed err \<Rightarrow> Inl err
        | TmpCloseFailed err \<Rightarrow> Inl err
        | TmpOk tmp \<Rightarrow>
            (case oc_run env bin (otelcol_args tmp content) of
               RunOk \<Rightarrow> Inr res
             | RunBinaryMissing err \<Rightarrow> Inl err
             | RunExitError \<Rightarrow> Inr (res\<lparr>vr_valid := False, vr_errors := [ValOtelcolFailed]\<rparr>)
             | RunFailed err \<Rightarrow> Inl err))"

definition validate :: "map_decoder \<Rightarrow> otelcol_env \<Rightarrow> string \<Rightarrow> string \<Rightarrow> bool \<Rightarrow> val_result" where
  "validate decode env content bin strict =
    (let res0 = validate_yaml decode content;
         res = (if vr_method res0 = MethodNone then res0\<lparr>vr_method := MethodYaml\<rparr> else res0)
     in if \<not> vr_valid res then res
        else if bin = '''' then
          res\<lparr>vr_warnings := vr_warnings res @ [ValOtelcolNotConfigured]\<rparr>
        else case validate_with_otelcol env bin content of
            Inl err \<Rightarrow> res\<lparr>vr_warnings := vr_warnings res @ [ValDeepUnavailable err]\<rparr>
          | Inr deep \<Rightarrow>
              (let res1 = res\<lparr>vr_method := MethodOtelcol, vr_warnings := vr_warnings res @ vr_warnings deep\<rparr>
               in if strict then res1\<lparr>vr_valid := vr_valid deep, vr_errors := vr_errors res1 @ vr_errors deep\<rparr>
                  else if \<not> vr_valid deep then
                    res1\<lparr>vr_warnings := vr_warnings res1 @ [ValOtelcolWarnOnly (vr_errors deep)]\<rparr>
                  else res1))"

text \<open>The hash is the hexadecimal SHA-256 sum; the sum itself is a parameter.\<close>

type_synonym sha_sum = "string \<Rightarrow> 8 word list"

definition content_hash :: "sha_sum \<Rightarrow> string \<Rightarrow> string" where
  "content_hash sha content = hex_encode (sha content)"

subsection \<open>Properties\<close>

definition has_pipelines :: "(string \<times> yaml) list \<Rightarrow> bool" where
  "has_pipelines doc \<longleftrightarrow>
    (\<exists>service pipelines. map_of doc ''service'' = Some (YMap service) \<and>
      map_of service ''pipelines'' = Some (YMap pipelines))"

lemma as_map_Some: "as_map v = Some m \<longleftrightarrow> v = Some (YMap m)"
  by (auto simp: as_map_def split: option.splits yaml.splits)

lemma as_map_YMap [simp]: "as_map (Some (YMap m)) = Some m"
  by (simp add: as_map_def)

lemma validate_yaml_valid_iff:
  "vr_valid (validate_yaml decode content) \<longleftrightarrow> (\<exists>doc. decode content = Inr (Some doc) \<and> has_pipelines doc)"
  by (auto simp: validate_yaml_def has_pipelines_def as_map_Some Let_def
      split: sum.splits option.splits)

lemma validate_yaml_errors: "vr_errors (validate_yaml decode content) = [] \<longleftrightarrow> vr_valid (validate_yaml decode content)"
  by (auto simp: validate_yaml_def Let_def split: sum.splits option.splits)

lemma validate_yaml_method: "vr_method (validate_yaml decode content) = MethodNone"
  by (auto simp: validate_yaml_def Let_def split: sum.splits option.splits)

lemma deep_errors: "validate_with_otelcol env bin content = Inr deep \<Longrightarrow>
    vr_errors deep = (if vr_valid deep then [] else [ValOtelcolFailed])"
  by (auto simp: validate_with_otelcol_def Let_def split: tmp_outcome.splits run_outcome.splits)

text \<open>A configuration is valid exactly when it decodes to a document with a \<open>service.pipelines\<close>
  section and, in strict mode with a binary configured, the binary did not reject it.  The error list
  is empty exactly when the configuration is valid, and a binary that cannot be run never rejects.\<close>

theorem validate_valid_iff:
  "vr_valid (validate decode env content bin strict) =
     ((\<exists>doc. decode content = Inr (Some doc) \<and> has_pipelines doc) \<and>
      (bin = '''' \<or> \<not> strict \<or>
       (case validate_with_otelcol env bin content of Inl _ \<Rightarrow> True | Inr deep \<Rightarrow> vr_valid deep))) \<and>
   (vr_errors (validate decode env content bin strict) = []) = vr_valid (validate decode env content bin strict)"
proof -
  define res where "res = (validate_yaml decode content)\<lparr>vr_method := MethodYaml\<rparr>"
  have first: "vr_valid res = (\<exists>doc. decode content = Inr (Some doc) \<and> has_pipelines doc)"
    "(vr_errors res = []) = vr_valid res"
    by (simp_all add: res_def validate_yaml_valid_iff validate_yaml_errors)
  have eq: "validate decode env content bin strict =
     (if \<not> vr_valid res then res
        else if bin = '''' then res\<lparr>vr_warnings := vr_warnings res @ [ValOtelcolNotConfigured]\<rparr>
        else case validate_with_otelcol env bin content of
            Inl err \<Rightarrow> res\<lparr>vr_warnings := vr_warnings res @ [ValDeepUnavailable err]\<rparr>
          | Inr deep \<Rightarrow>
              (let res1 = res\<lparr>vr_method := MethodOtelcol, vr_warnings := vr_warnings res @ vr_warnings deep\<rparr>
               in if strict then res1\<lparr>vr_valid := vr_valid deep, vr_errors := vr_errors res1 @ vr_errors deep\<rparr>
                  else if \<not> vr_valid deep then
                    res1\<lparr>vr_warnings := vr_warnings res1 @ [ValOtelcolWarnOnly (vr_errors deep)]\<rparr>
                  else res1))"
    unfolding validate_def Let_def validate_yaml_method res_def by simp
  show ?thesis
  proof (cases "vr_valid res \<and> bin \<noteq> ''''")
    case False
    with first show ?thesis unfolding eq by auto
  next
    case True
    show ?thesis
    proof (cases "validate_with_otelcol env bin content")
      case (Inl err)
      with True first show ?thesis unfolding eq by auto
    next
      case (Inr deep)
      with True first deep_errors [OF Inr] show ?thesis
        unfolding eq by (cases strict) (auto simp: Let_def)
    qed
  qed
qed

theorem validate_valid_iff_witness:
  "vr_valid (validate (\<lambda>_. Inr (Some [(''service'', YMap [(''pipelines'', YMap [])])]))
     \<lparr>oc_tmp = (\<lambda>_. TmpOk ''/tmp/c''), oc_run = (\<lambda>_ _. RunExitError)\<rparr> ''x'' ''otelcol'' False) \<and>
   \<not> vr_valid (validate (\<lambda>_. Inr (Some [(''service'', YMap [(''pipelines'', YMap [])])]))
     \<lparr>oc_tmp = (\<lambda>_. TmpOk ''/tmp/c''), oc_run = (\<lambda>_ _. RunExitError)\<rparr> ''x'' ''otelcol'' True)"
proof -
  let ?doc = "[(''service'', YMap [(''pipelines'', YMap [])])]"
  let ?env = "\<lparr>oc_tmp = (\<lambda>_. TmpOk ''/tmp/c''), oc_run = (\<lambda>_ _. RunExitError)\<rparr>"
  have "has_pipelines ?doc" by (simp add: has_pipelines_def)
  moreover have "validate_with_otelcol ?env ''otelcol'' ''x'' =
      Inr \<lparr>vr_valid = False, vr_errors = [ValOtelcolFailed], vr_warnings = [], vr_method = MethodOtelcol\<rparr>"
    by (simp add: validate_with_otelcol_def Let_def)
  ultimately show ?thesis
    using validate_valid_iff [of "\<lambda>_. Inr (Some ?doc)" ?env "''x''" "''otelcol''" False]
      validate_valid_iff [of "\<lambda>_. Inr (Some ?doc)" ?env "''x''" "''otelcol''" True] by simp
qed

lemma content_hash_eq_iff: "content_hash sha a = content_hash sha b \<longleftrightarrow> sha a = sha b"
  by (auto simp: content_hash_def dest: hex_encode_inj)

end
