(* ===== verification/Config_Subset.thy ===== *)
theory Config_Subset
  imports Validator
begin

section \<open>Is a pushed configuration in effect? (internal/agent/subset.go)\<close>

text \<open>
  An agent that reports only its effective configuration, expanded with defaults, confirms a push
  when the report covers everything the push declares.  The comparison walks both decoded values.
  The lemmas show that it accepts the pushed configuration itself and every extension of it, and
  where it accepts more than that.
\<close>

subsection \<open>Printing and comparing scalars\<close>

text \<open>\<open>fmt.Sprint\<close> of a decoded value; a map is printed with its keys in order.\<close>

fun sprint_any :: "yaml \<Rightarrow> string" where
  "sprint_any (YStr s) = s"
| "sprint_any YNil = ''<nil>''"
| "sprint_any (YBool b) = (if b then ''true'' else ''false'')"
| "sprint_any (YInt i) = itoa i"
| "sprint_any (YOther s) = s"
| "sprint_any (YList vs) = ''['' @ join '' '' (map sprint_any vs) @ '']''"
| "sprint_any (YMap kvs) =
     ''map['' @ join '' '' (map snd (sort_key fst (map (\<lambda>(k, v). (k, k @ '':'' @ sprint_any v)) kvs))) @ '']''"

definition redacted_value :: string where
  "redacted_value = ''[REDACTED]''"

definition as_string :: "yaml \<Rightarrow> string option" where
  "as_string v = (case v of YStr s \<Rightarrow> Some s | _ \<Rightarrow> None)"

text \<open>A failed type assertion leaves the empty string in the variable.\<close>

definition scalar_equal :: "yaml \<Rightarrow> yaml \<Rightarrow> bool" where
  "scalar_equal p e =
    (let ps = (case as_string p of None \<Rightarrow> '''' | Some s \<Rightarrow> s); pok = (as_string p \<noteq> None);
         es = (case as_string e of None \<Rightarrow> '''' | Some s \<Rightarrow> s); eok = (as_string e \<noteq> None)
     in if pok \<and> es = redacted_value then True
        else if eok \<and> ps = redacted_value then True
        else if sprint_any p = sprint_any e then True
        else if pok \<and> eok then equal_fold ps es
        else False)"

subsection \<open>The subset relation\<close>

lemma size_entry: "kv \<in> set kvs \<Longrightarrow> size (snd kv) < Suc (size_list (size_prod (\<lambda>_. 0) size) kvs)"
  by (induction kvs) (auto simp: less_Suc_eq_le)

lemma size_element: "v \<in> set vs \<Longrightarrow> size v < Suc (size_list size vs)"
  by (induction vs) auto

function yaml_subset :: "yaml \<Rightarrow> yaml \<Rightarrow> bool" where
  "yaml_subset (YMap pv) e =
     (case e of
        YMap ev \<Rightarrow> list_all (\<lambda>kv. case map_of ev (fst kv) of
          None \<Rightarrow> False | Some w \<Rightarrow> yaml_subset (snd kv) w) pv
      | _ \<Rightarrow> False)"
| "yaml_subset (YList pv) e =
     (case e of
        YList ev \<Rightarrow>
          if pv = [] then True
          else if length ev = length pv \<and> list_all (\<lambda>i. yaml_subset (pv ! i) (ev ! i)) [0..<length pv] then True
          else list_all (\<lambda>v. list_ex (\<lambda>w. yaml_subset v w) ev) pv
      | _ \<Rightarrow> False)"
| "yaml_subset (YStr s) e = scalar_equal (YStr s) e"
| "yaml_subset YNil e = scalar_equal YNil e"
| "yaml_subset (YBool b) e = scalar_equal (YBool b) e"
| "yaml_subset (YInt i) e = scalar_equal (YInt i) e"
| "yaml_subset (YOther s) e = scalar_equal (YOther s) e"
  by pat_completeness auto

termination
  by (relation "measure (\<lambda>(p, e). size p)") (auto simp: size_entry size_element)

text \<open>The decoder into \<open>any\<close> is a parameter; a decoding error is no confirmation.\<close>

type_synonym any_decoder = "string \<Rightarrow> string + yaml"

definition config_subset :: "any_decoder \<Rightarrow> string \<Rightarrow> string \<Rightarrow> bool" where
  "config_subset decode pushed effective =
    (case decode pushed of
       Inl _ \<Rightarrow> False
     | Inr p \<Rightarrow> (case decode effective of Inl _ \<Rightarrow> False | Inr e \<Rightarrow> yaml_subset p e))"

subsection \<open>Properties\<close>

text \<open>Decoded maps have distinct keys.\<close>

fun yaml_wf :: "yaml \<Rightarrow> bool" where
  "yaml_wf (YMap kvs) \<longleftrightarrow> distinct (map fst kvs) \<and> (\<forall>kv \<in> set kvs. yaml_wf (snd kv))"
| "yaml_wf (YList vs) \<longleftrightarrow> (\<forall>v \<in> set vs. yaml_wf v)"
| "yaml_wf _ \<longleftrightarrow> True"

lemma scalar_equal_refl: "scalar_equal p p"
  by (simp add: scalar_equal_def Let_def)

lemma yaml_subset_refl: "yaml_wf p \<Longrightarrow> yaml_subset p p"
proof (induction p rule: yaml_wf.induct)
  case (1 kvs)
  have "case map_of kvs (fst kv) of None \<Rightarrow> False | Some w \<Rightarrow> yaml_subset (snd kv) w"
    if "kv \<in> set kvs" for kv
  proof -
    have "map_of kvs (fst kv) = Some (snd kv)"
      using 1(2) that by (intro map_of_is_SomeI) simp_all
    moreover have "yaml_subset (snd kv) (snd kv)" using 1 that by simp
    ultimately show ?thesis by simp
  qed
  then show ?case by (simp add: list_all_iff)
next
  case (2 vs)
  then show ?case by (auto simp: list_all_iff)
qed (simp_all add: scalar_equal_refl)

text \<open>
  A report extends another when its maps have more keys, at any depth, and the rest is the same.
\<close>

function yaml_extends :: "yaml \<Rightarrow> yaml \<Rightarrow> bool" where
  "yaml_extends (YMap a) e' =
     (case e' of YMap b \<Rightarrow> list_all (\<lambda>kv. case map_of b (fst kv) of
          None \<Rightarrow> False | Some w \<Rightarrow> yaml_extends (snd kv) w) a
      | _ \<Rightarrow> False)"
| "yaml_extends (YList a) e' =
     (case e' of YList b \<Rightarrow> length a = length b \<and> list_all (\<lambda>i. yaml_extends (a ! i) (b ! i)) [0..<length a]
      | _ \<Rightarrow> False)"
| "yaml_extends (YStr s) e' = (e' = YStr s)"
| "yaml_extends YNil e' = (e' = YNil)"
| "yaml_extends (YBool b) e' = (e' = YBool b)"
| "yaml_extends (YInt i) e' = (e' = YInt i)"
| "yaml_extends (YOther s) e' = (e' = YOther s)"
  by pat_completeness auto

termination
  by (relation "measure (\<lambda>(p, e). size p)") (auto simp: size_entry size_element)

text \<open>A value none of whose scalars prints like a list or a map.\<close>

fun prints_plainly :: "yaml \<Rightarrow> bool" where
  "prints_plainly (YMap kvs) \<longleftrightarrow> (\<forall>kv \<in> set kvs. prints_plainly (snd kv))"
| "prints_plainly (YList vs) \<longleftrightarrow> (\<forall>v \<in> set vs. prints_plainly v)"
| "prints_plainly v \<longleftrightarrow> \<not> has_prefix ''['' (sprint_any v) \<and> \<not> has_prefix ''map['' (sprint_any v)"

definition is_container :: "yaml \<Rightarrow> bool" where
  "is_container v = (case v of YMap _ \<Rightarrow> True | YList _ \<Rightarrow> True | _ \<Rightarrow> False)"

lemma scalar_equal_container:
  assumes "prints_plainly p" and "\<not> is_container p" and "is_container e"
  shows "\<not> scalar_equal p e"
  using assms
  by (cases p; cases e)
    (auto simp: scalar_equal_def Let_def as_string_def redacted_value_def is_container_def)

lemma extends_scalar: "\<not> is_container e \<Longrightarrow> yaml_extends e e' \<Longrightarrow> e' = e"
  by (cases e) (auto simp: is_container_def)

lemma scalar_extends:
  "prints_plainly p \<Longrightarrow> \<not> is_container p \<Longrightarrow> scalar_equal p e \<Longrightarrow> yaml_extends e e' \<Longrightarrow> scalar_equal p e'"
  using scalar_equal_container extends_scalar by blast

lemma yaml_subset_extends:
  "yaml_subset p e \<Longrightarrow> yaml_extends e e' \<Longrightarrow> prints_plainly p \<Longrightarrow> yaml_subset p e'"
proof (induction p e arbitrary: e' rule: yaml_subset.induct)
  case (1 pv e)
  obtain ev where e: "e = YMap ev" using 1(2) by (auto split: yaml.splits)
  obtain ev' where e': "e' = YMap ev'" using 1(3) e by (auto split: yaml.splits)
  have "case map_of ev' (fst kv) of None \<Rightarrow> False | Some w \<Rightarrow> yaml_subset (snd kv) w"
    if kv: "kv \<in> set pv" for kv
  proof -
    obtain w where w: "map_of ev (fst kv) = Some w" "yaml_subset (snd kv) w"
      using 1(2) e kv by (auto simp: list_all_iff split: option.splits)
    from map_of_SomeD [OF w(1)] obtain w' where w': "map_of ev' (fst kv) = Some w'" "yaml_extends w w'"
      using 1(3) e e' by (fastforce simp: list_all_iff split: option.splits)
    have "prints_plainly (snd kv)" using 1(4) kv by simp
    from 1(1) [OF e kv w(1) w(2) w'(2) this] w'(1) show ?thesis by simp
  qed
  then show ?case by (simp add: e' list_all_iff)
next
  case (2 pv e)
  obtain ev where e: "e = YList ev" using 2(3) by (auto split: yaml.splits)
  obtain ev' where e': "e' = YList ev'" using 2(4) e by (auto split: yaml.splits)
  have len: "length ev' = length ev" and ext: "\<And>i. i < length ev \<Longrightarrow> yaml_extends (ev ! i) (ev' ! i)"
    using 2(4) e e' by (auto simp: list_all_iff)
  show ?case
  proof (cases "pv = [] \<or> length ev = length pv \<and> list_all (\<lambda>i. yaml_subset (pv ! i) (ev ! i)) [0..<length pv]")
    case True
    then show ?thesis
    proof
      assume same: "length ev = length pv \<and> list_all (\<lambda>i. yaml_subset (pv ! i) (ev ! i)) [0..<length pv]"
      have "yaml_subset (pv ! i) (ev' ! i)" if "i < length pv" for i
        using 2(1) [OF e] same ext [of i] that 2(5) by (cases "pv = []") (auto simp: list_all_iff)
      with same len show ?thesis by (simp add: e' list_all_iff)
    qed (simp add: e')
  next
    case False
    have "list_ex (\<lambda>w. yaml_subset v w) ev'" if v: "v \<in> set pv" for v
    proof -
      have "\<exists>w \<in> set ev. yaml_subset v w"
        using 2(3) False e v by (auto simp: list_all_iff list_ex_iff split: if_splits)
      then obtain i where i: "i < length ev" "yaml_subset v (ev ! i)"
        by (auto simp: in_set_conv_nth)
      have "yaml_subset v (ev' ! i)"
        using 2(2) [OF e, of v "ev ! i" "ev' ! i"] False v i ext 2(5) by auto
      moreover have "ev' ! i \<in> set ev'" using i len by simp
      ultimately show ?thesis by (auto simp: list_ex_iff)
    qed
    then show ?thesis by (simp add: e' list_all_iff)
  qed
qed (auto intro: scalar_extends simp: is_container_def)

text \<open>The check confirms a configuration reported as it was pushed, and every report that extends a
  confirming one by further keys at any depth: defaults an agent adds do not hide a push.\<close>

theorem config_subset_extension:
  assumes "decode pushed = Inr p" and "yaml_wf p" and "prints_plainly p"
    and "decode reported = Inr e" and "decode extended = Inr e'" and "yaml_extends e e'"
    and "config_subset decode pushed reported"
  shows "config_subset decode pushed pushed \<and> config_subset decode pushed extended"
proof -
  have "yaml_subset p e" using assms(1,4,7) by (simp add: config_subset_def)
  from yaml_subset_extends [OF this assms(6,3)] yaml_subset_refl [OF assms(2)] assms(1,5)
  show ?thesis by (simp add: config_subset_def)
qed

theorem config_subset_extension_witness:
  "config_subset (\<lambda>s. Inr (if s = ''p'' then YMap [(''a'', YInt 1)] else YMap [(''b'', YNil), (''a'', YInt 1)]))
     ''p'' ''e''"
proof -
  let ?decode = "\<lambda>s. Inr (if s = ''p'' then YMap [(''a'', YInt 1)] else YMap [(''b'', YNil), (''a'', YInt 1)])
    :: string + yaml"
  have "sprint_any (YInt 1) = ''1''" by code_simp
  moreover have "config_subset ?decode ''p'' ''p''" by (simp add: config_subset_def scalar_equal_refl)
  ultimately show ?thesis
    using config_subset_extension [of ?decode "''p''" "YMap [(''a'', YInt 1)]" "''p''"
        "YMap [(''a'', YInt 1)]" "''e''" "YMap [(''b'', YNil), (''a'', YInt 1)]"] by simp
qed

lemma itoa_not_redacted: "itoa i \<noteq> redacted_value"
proof
  assume eq: "itoa i = redacted_value"
  then have hd: "hd (itoa i) = CHR ''[''" by (simp add: redacted_value_def)
  show False
  proof (cases "i < 0")
    case True
    with hd show False by (simp add: itoa_def)
  next
    case False
    have "hd (nat_digits (nat i)) \<in> set (nat_digits (nat i))" by (rule hd_in_set) simp
    then obtain d where "d < 10" "hd (itoa i) = digit d"
      using False nat_digits_digits by (fastforce simp: itoa_def)
    then have "digit_value (CHR ''['') = Some d" using hd digit_value_digit [of d] by simp
    then show False by (simp add: digit_value_def)
  qed
qed

text \<open>What the check gets wrong: repeated list elements are confirmed by one occurrence, a push
  that only removes keys is confirmed by the old report, and a redacted report matches a pushed string
  but never a pushed number.\<close>

theorem config_subset_limits:
  "yaml_subset (YList [v, v]) (YList [w]) = yaml_subset v w \<and>
   (yaml_wf (YMap (removed @ kept)) \<longrightarrow> yaml_subset (YMap kept) (YMap (removed @ kept))) \<and>
   yaml_subset (YStr s) (YStr redacted_value) \<and> \<not> yaml_subset (YInt i) (YStr redacted_value)"
proof -
  have "yaml_subset (YMap kept) (YMap (removed @ kept))" if "yaml_wf (YMap (removed @ kept))"
    using yaml_subset_refl [OF that] by (simp add: list_all_iff)
  moreover have "\<not> yaml_subset (YInt i) (YStr redacted_value)"
    using itoa_not_redacted [of i]
    by (simp add: scalar_equal_def as_string_def) (simp add: redacted_value_def)
  ultimately show ?thesis by (simp add: scalar_equal_def as_string_def Let_def)
qed

theorem config_subset_limits_witness:
  "yaml_subset (YMap [(''b'', YNil)]) (YMap ([(''a'', YNil)] @ [(''b'', YNil)]))"
  using config_subset_limits [of YNil YNil "[(''a'', YNil)]" "[(''b'', YNil)]" "''''" 0] by simp

end
