(* ===== verification/Registry.thy ===== *)
theory Registry
  imports Sql_Store
begin

section \<open>The registry of Collectors (internal/opampserver/registry.go)\<close>

text \<open>
  The registry keeps, for every Collector it has heard of, the last known record and, while the
  agent is connected, its connection, capabilities and what it reported: the hash of the last applied
  configuration and the effective configuration.  A change of a record is written to the store; a
  failing write is ignored.  Every method holds the lock, so a method is one step.  The maps are
  iterated in an order the language leaves open: where it matters the order is an argument.
\<close>

type_synonym conn_id = nat

record registry =
  rg_collectors :: "collector list"
  rg_conns :: "string \<rightharpoonup> conn_id"
  rg_caps :: "string \<rightharpoonup> 64 word"
  rg_rep_hash :: "string \<rightharpoonup> string"
  rg_rep_eff :: "string \<rightharpoonup> string"
  rg_offline_after :: duration

definition new_registry :: "duration \<Rightarrow> registry" where
  "new_registry offline_after = \<lparr>rg_collectors = [], rg_conns = Map.empty, rg_caps = Map.empty,
     rg_rep_hash = Map.empty, rg_rep_eff = Map.empty, rg_offline_after = offline_after\<rparr>"

subsection \<open>Operations\<close>

definition reg_upsert :: "collector \<Rightarrow> conn_id option \<Rightarrow> registry \<times> sql_db \<Rightarrow> registry \<times> sql_db" where
  "reg_upsert c conn s =
    (let r = fst s;
         c' = (if col_status c = CollectorStatusNone then c\<lparr>col_status := CollectorStatusHealthy\<rparr> else c);
         r1 = r\<lparr>rg_collectors := upsert_row col_instance_uid c' (rg_collectors r)\<rparr>;
         r2 = (case conn of None \<Rightarrow> r1
               | Some cn \<Rightarrow> r1\<lparr>rg_conns := (rg_conns r1)(col_instance_uid c' \<mapsto> cn)\<rparr>)
     in (r2, snd (upsert_collector c' (snd s))))"

definition reg_get :: "string \<Rightarrow> registry \<Rightarrow> collector option" where
  "reg_get uid r = find_row col_instance_uid uid (rg_collectors r)"

definition reg_conn :: "string \<Rightarrow> registry \<Rightarrow> conn_id option" where
  "reg_conn uid r = rg_conns r uid"

definition reg_remove :: "string \<Rightarrow> registry \<Rightarrow> registry" where
  "reg_remove uid r = r\<lparr>rg_conns := (rg_conns r)(uid := None), rg_caps := (rg_caps r)(uid := None),
     rg_rep_hash := (rg_rep_hash r)(uid := None), rg_rep_eff := (rg_rep_eff r)(uid := None)\<rparr>"

definition reg_online :: "string \<Rightarrow> registry \<Rightarrow> bool" where
  "reg_online uid r = (rg_conns r uid \<noteq> None)"

definition set_capabilities :: "string \<Rightarrow> 64 word \<Rightarrow> registry \<Rightarrow> registry" where
  "set_capabilities uid caps r = r\<lparr>rg_caps := (rg_caps r)(uid \<mapsto> caps)\<rparr>"

text \<open>The capability bit \<open>AgentCapabilities_AcceptsRestartCommand\<close>; an absent entry reads as 0.\<close>

definition accepts_restart_bit :: "64 word" where
  "accepts_restart_bit = 1024"

definition accepts_restart :: "string \<Rightarrow> registry \<Rightarrow> bool" where
  "accepts_restart uid r =
    (Bit_Operations.and (case rg_caps r uid of None \<Rightarrow> 0 | Some w \<Rightarrow> w) accepts_restart_bit \<noteq> 0)"

definition set_reported_hash :: "string \<Rightarrow> string \<Rightarrow> registry \<Rightarrow> registry" where
  "set_reported_hash uid hash_hex r =
    (if hash_hex = '''' then r\<lparr>rg_rep_hash := (rg_rep_hash r)(uid := None)\<rparr>
     else r\<lparr>rg_rep_hash := (rg_rep_hash r)(uid \<mapsto> hash_hex)\<rparr>)"

definition reported_hash :: "string \<Rightarrow> registry \<Rightarrow> string option" where
  "reported_hash uid r = rg_rep_hash r uid"

definition set_reported_effective :: "string \<Rightarrow> string \<Rightarrow> registry \<Rightarrow> registry" where
  "set_reported_effective uid content r = r\<lparr>rg_rep_eff := (rg_rep_eff r)(uid \<mapsto> content)\<rparr>"

definition reported_effective :: "string \<Rightarrow> registry \<Rightarrow> string option" where
  "reported_effective uid r = rg_rep_eff r uid"

text \<open>One visit of the sweep, and the sweep over all Collectors in the order \<open>order\<close> gives.\<close>

type_synonym map_order = "string list \<Rightarrow> string list"

definition is_stale :: "time \<Rightarrow> registry \<Rightarrow> collector \<Rightarrow> bool" where
  "is_stale now r c =
    (time_sub now (col_last_seen_at c) > rg_offline_after r \<and> col_status c \<noteq> CollectorStatusOffline)"

definition mark_one :: "time \<Rightarrow> string \<Rightarrow> registry \<times> sql_db \<Rightarrow> registry \<times> sql_db" where
  "mark_one now uid s =
    (case reg_get uid (fst s) of
       None \<Rightarrow> s
     | Some c \<Rightarrow>
         if is_stale now (fst s) c then
           let c' = c\<lparr>col_status := CollectorStatusOffline\<rparr> in
           ((fst s)\<lparr>rg_collectors := upsert_row col_instance_uid c' (rg_collectors (fst s))\<rparr>,
            snd (upsert_collector c' (snd s)))
         else s)"

definition mark_offline :: "map_order \<Rightarrow> time \<Rightarrow> registry \<times> sql_db \<Rightarrow> registry \<times> sql_db" where
  "mark_offline order now s =
    fold (mark_one now) (order (map col_instance_uid (rg_collectors (fst s)))) s"

subsection \<open>Lookups after updates\<close>

lemma reg_get_upsert:
  "reg_get k (fst (reg_upsert c conn s)) =
    (if k = col_instance_uid c
     then Some (if col_status c = CollectorStatusNone then c\<lparr>col_status := CollectorStatusHealthy\<rparr> else c)
     else reg_get k (fst s))"
  by (simp add: reg_upsert_def reg_get_def find_row_upsert_row Let_def split: option.split)

lemma reg_upsert_frame [frame_simps]:
  "rg_caps (fst (reg_upsert c conn s)) = rg_caps (fst s)"
  "rg_rep_hash (fst (reg_upsert c conn s)) = rg_rep_hash (fst s)"
  "rg_rep_eff (fst (reg_upsert c conn s)) = rg_rep_eff (fst s)"
  "rg_offline_after (fst (reg_upsert c conn s)) = rg_offline_after (fst s)"
  "rg_conns (fst (reg_upsert c conn s)) =
    (case conn of None \<Rightarrow> rg_conns (fst s) | Some cn \<Rightarrow> (rg_conns (fst s))(col_instance_uid c \<mapsto> cn))"
  by (simp_all add: reg_upsert_def Let_def split: option.split)

lemma mark_one_frame [frame_simps]:
  "rg_conns (fst (mark_one now k s)) = rg_conns (fst s)"
  "rg_caps (fst (mark_one now k s)) = rg_caps (fst s)"
  "rg_rep_hash (fst (mark_one now k s)) = rg_rep_hash (fst s)"
  "rg_rep_eff (fst (mark_one now k s)) = rg_rep_eff (fst s)"
  "rg_offline_after (fst (mark_one now k s)) = rg_offline_after (fst s)"
  by (simp_all add: mark_one_def Let_def split: option.split)

lemma reg_get_uid: "reg_get k r = Some c \<Longrightarrow> col_instance_uid c = k"
  by (auto simp: reg_get_def dest: find_row_SomeD)

definition swept :: "time \<Rightarrow> registry \<Rightarrow> collector \<Rightarrow> collector" where
  "swept now r c = (if is_stale now r c then c\<lparr>col_status := CollectorStatusOffline\<rparr> else c)"

lemma reg_get_mark_one:
  "reg_get k (fst (mark_one now j s)) =
    (if k = j then map_option (swept now (fst s)) (reg_get k (fst s)) else reg_get k (fst s))"
proof (cases "reg_get j (fst s)")
  case None
  then show ?thesis by (simp add: mark_one_def)
next
  case (Some c)
  with reg_get_uid [OF Some] show ?thesis
    by (auto simp: mark_one_def Let_def reg_get_def find_row_upsert_row swept_def)
qed

lemma swept_same: "rg_offline_after r' = rg_offline_after r \<Longrightarrow> swept now r' = swept now r"
  by (auto simp: swept_def is_stale_def fun_eq_iff)

lemma swept_twice [simp]: "swept now r (swept now r c) = swept now r c"
  by (auto simp: swept_def is_stale_def)

lemma fold_mark_one:
  "reg_get k (fst (fold (mark_one now) ks s)) =
    (if k \<in> set ks then map_option (swept now (fst s)) (reg_get k (fst s)) else reg_get k (fst s)) \<and>
   rg_conns (fst (fold (mark_one now) ks s)) = rg_conns (fst s) \<and>
   rg_caps (fst (fold (mark_one now) ks s)) = rg_caps (fst s) \<and>
   rg_rep_hash (fst (fold (mark_one now) ks s)) = rg_rep_hash (fst s) \<and>
   rg_rep_eff (fst (fold (mark_one now) ks s)) = rg_rep_eff (fst s)"
proof (induction ks arbitrary: s)
  case Nil
  then show ?case by simp
next
  case (Cons j ks)
  have same: "swept now (fst (mark_one now j s)) = swept now (fst s)"
    by (rule swept_same) (simp add: frame_simps)
  show ?case
    using Cons.IH [of "mark_one now j s"]
    by (auto simp: frame_simps reg_get_mark_one same option.map_comp comp_def)
qed

text \<open>The sweep marks exactly the Collectors offline that have been silent for longer than the
  threshold, whatever order the map is iterated in, and leaves every other field, the connections and
  the reports alone.\<close>

theorem mark_offline_marks_stale:
  assumes "\<And>uids. set (order uids) = set uids"
  shows "reg_get k (fst (mark_offline order now s)) =
      map_option (\<lambda>c. if time_sub now (col_last_seen_at c) > rg_offline_after (fst s)
        then c\<lparr>col_status := CollectorStatusOffline\<rparr> else c) (reg_get k (fst s)) \<and>
    rg_conns (fst (mark_offline order now s)) = rg_conns (fst s) \<and>
    rg_rep_hash (fst (mark_offline order now s)) = rg_rep_hash (fst s) \<and>
    rg_rep_eff (fst (mark_offline order now s)) = rg_rep_eff (fst s)"
proof -
  let ?ks = "order (map col_instance_uid (rg_collectors (fst s)))"
  have swept: "swept now (fst s) = (\<lambda>c. if time_sub now (col_last_seen_at c) > rg_offline_after (fst s)
        then c\<lparr>col_status := CollectorStatusOffline\<rparr> else c)"
    by (auto simp: swept_def is_stale_def fun_eq_iff)
  have "k \<notin> set ?ks \<Longrightarrow> reg_get k (fst s) = None"
    using assms by (simp add: reg_get_def find_row_None_iff)
  then show ?thesis
    unfolding mark_offline_def using fold_mark_one [of k now ?ks s] swept by auto
qed

theorem mark_offline_marks_stale_witness:
  "map_option col_status (reg_get ''a'' (fst (mark_offline rev 100
     ((new_registry 10)\<lparr>rg_collectors := [\<lparr>col_instance_uid = ''a'', col_hostname = '''', col_version = '''',
        col_last_seen_at = 50, col_status = CollectorStatusHealthy, col_effective_config = '''',
        col_group_id = ''''\<rparr>]\<rparr>, empty_db)))) = Some CollectorStatusOffline"
  by (subst mark_offline_marks_stale [THEN conjunct1])
    (simp_all add: reg_get_def find_row_def new_registry_def time_sub_def)

end
