(* ===== verification/Opamp_Server.thy ===== *)
theory Opamp_Server
  imports Registry Validator
begin

section \<open>The OpAMP server (internal/opampserver/server.go)\<close>

text \<open>
  The server answers the messages of the agents, keeps the registry current and delivers
  configurations: at once over an open connection, otherwise queued until the agent's next message.
  The protocol library that owns the connections, the hash function and the order a map is iterated
  in are parameters; what was sent is logged in the state.
\<close>

subsection \<open>Messages and state\<close>

record attribute =
  kv_key :: string
  kv_value :: string

datatype rc_status = RcUnset | RcApplied | RcApplying | RcFailed

text \<open>A configuration map lists its files, name and body, in the order it is iterated.\<close>

type_synonym config_map = "(string \<times> string) list"

record agent_to_server =
  am_instance_uid :: "8 word list"
  am_description :: "(attribute list \<times> attribute list) option"
  am_health :: "bool option"
  am_effective :: "config_map option option"
  am_capabilities :: "64 word"
  am_remote_status :: "(rc_status \<times> 8 word list) option"

record remote_config =
  rc_files :: config_map
  rc_hash :: "8 word list"

record server_to_agent =
  sm_instance_uid :: "8 word list"
  sm_capabilities :: "64 word"
  sm_flags :: "64 word"
  sm_remote_config :: "remote_config option"
  sm_restart :: bool

record opamp =
  os_reg :: registry
  os_db :: sql_db
  os_auth_token :: string
  os_pending :: "string \<rightharpoonup> string"
  os_sent :: "(conn_id \<times> server_to_agent) list"

record opamp_env =
  oe_sha :: sha_sum
  oe_send_ok :: "conn_id \<Rightarrow> server_to_agent \<Rightarrow> bool"
  oe_order :: map_order

definition new_opamp :: "registry \<Rightarrow> sql_db \<Rightarrow> string \<Rightarrow> opamp" where
  "new_opamp reg db token = \<lparr>os_reg = reg, os_db = db, os_auth_token = token,
     os_pending = Map.empty, os_sent = []\<rparr>"

text \<open>An operation of the registry and its store, run on the server's state.\<close>

definition on_fleet :: "(registry \<times> sql_db \<Rightarrow> registry \<times> sql_db) \<Rightarrow> opamp \<Rightarrow> opamp" where
  "on_fleet f s = (let (r, d) = f (os_reg s, os_db s) in s\<lparr>os_reg := r, os_db := d\<rparr>)"

definition on_reg :: "(registry \<Rightarrow> registry) \<Rightarrow> opamp \<Rightarrow> opamp" where
  "on_reg f s = s\<lparr>os_reg := f (os_reg s)\<rparr>"

subsection \<open>Connections\<close>

definition bearer_token :: "string \<Rightarrow> string" where
  "bearer_token header =
    (if has_prefix ''Bearer '' header then trim_space (trim_prefix ''Bearer '' header) else '''')"

definition on_connecting :: "string \<Rightarrow> opamp \<Rightarrow> bool" where
  "on_connecting header s =
    (if os_auth_token s = '''' then True
     else let token = bearer_token header in
       if token \<noteq> '''' \<and> token = os_auth_token s then True else False)"

definition uid_for_conn :: "opamp_env \<Rightarrow> conn_id \<Rightarrow> registry \<Rightarrow> string" where
  "uid_for_conn env conn r =
    (case List.find (\<lambda>uid. reg_conn uid r = Some conn)
       (oe_order env (map col_instance_uid (rg_collectors r))) of
       None \<Rightarrow> '''' | Some uid \<Rightarrow> uid)"

definition on_connection_close :: "opamp_env \<Rightarrow> conn_id \<Rightarrow> opamp \<Rightarrow> opamp" where
  "on_connection_close env conn s =
    (let uid = uid_for_conn env conn (os_reg s)
     in if uid \<noteq> '''' then on_reg (reg_remove uid) s else s)"

subsection \<open>Messages of agents\<close>

definition config_map_to_string :: "config_map \<Rightarrow> string" where
  "config_map_to_string cm =
    concat (map (\<lambda>(k, body).
      (if k \<noteq> '''' then ''# '' @ k @ [CHR 0x0A] else '''') @ body @ [CHR 0x0A]) cm)"

definition take_identifying :: "attribute \<Rightarrow> collector \<Rightarrow> collector" where
  "take_identifying kv c =
    (if kv_key kv = ''service.version'' then c\<lparr>col_version := kv_value kv\<rparr>
     else if kv_key kv = ''host.name'' then c\<lparr>col_hostname := kv_value kv\<rparr>
     else c)"

definition take_other :: "attribute \<Rightarrow> collector \<Rightarrow> collector" where
  "take_other kv c =
    (if kv_key kv = ''service.version'' then
       (if col_version c = '''' then c\<lparr>col_version := kv_value kv\<rparr> else c)
     else if kv_key kv = ''host.name'' then
       (if col_hostname c = '''' then c\<lparr>col_hostname := kv_value kv\<rparr> else c)
     else c)"

definition blank_collector :: "string \<Rightarrow> collector" where
  "blank_collector uid = \<lparr>col_instance_uid = uid, col_hostname = '''', col_version = '''',
     col_last_seen_at = zero_time, col_status = CollectorStatusUnknown, col_effective_config = '''',
     col_group_id = ''''\<rparr>"

definition health_status :: "bool option \<Rightarrow> collector_status \<Rightarrow> collector_status" where
  "health_status health prev =
    (case health of
       Some healthy \<Rightarrow> if healthy then CollectorStatusHealthy else CollectorStatusUnhealthy
     | None \<Rightarrow>
         if prev = CollectorStatusNone \<or> prev = CollectorStatusOffline then CollectorStatusUnknown
         else prev)"

definition collector_from_message :: "string \<Rightarrow> agent_to_server \<Rightarrow> registry \<Rightarrow> collector" where
  "collector_from_message uid msg r =
    (let c0 = (case reg_get uid r of Some prev \<Rightarrow> prev | None \<Rightarrow> blank_collector uid);
         c1 = (case am_description msg of
                 None \<Rightarrow> c0
               | Some (identifying, others) \<Rightarrow> fold take_other others (fold take_identifying identifying c0));
         c2 = c1\<lparr>col_status := health_status (am_health msg) (col_status c1)\<rparr>
     in case am_effective msg of
          Some (Some cm) \<Rightarrow> c2\<lparr>col_effective_config := config_map_to_string cm\<rparr>
        | _ \<Rightarrow> c2)"

definition remote_config_of :: "opamp_env \<Rightarrow> string \<Rightarrow> remote_config" where
  "remote_config_of env content = \<lparr>rc_files = [('''', content)], rc_hash = oe_sha env content\<rparr>"

definition server_capabilities :: "64 word" where
  "server_capabilities = 31"

text \<open>The flag \<open>ReportFullState\<close> of the protocol.\<close>

definition report_full_state :: "64 word" where
  "report_full_state = 1"

definition set_pending :: "string \<Rightarrow> string \<Rightarrow> opamp \<Rightarrow> opamp" where
  "set_pending uid content s = s\<lparr>os_pending := (os_pending s)(uid \<mapsto> content)\<rparr>"

definition take_pending :: "string \<Rightarrow> opamp \<Rightarrow> string \<times> opamp" where
  "take_pending uid s =
    (case os_pending s uid of
       None \<Rightarrow> ('''', s)
     | Some cfg \<Rightarrow> (cfg, s\<lparr>os_pending := (os_pending s)(uid := None)\<rparr>))"

text \<open>A Collector the registry does not know is first restored from the store.\<close>

definition restore_known :: "string \<Rightarrow> opamp \<Rightarrow> opamp" where
  "restore_known uid s =
    (case reg_get uid (os_reg s) of
       Some _ \<Rightarrow> s
     | None \<Rightarrow>
         (case get_collector uid (os_db s) of
            (Inr prev, d) \<Rightarrow> on_fleet (reg_upsert prev None) (s\<lparr>os_db := d\<rparr>)
          | (Inl _, d) \<Rightarrow> s\<lparr>os_db := d\<rparr>))"

definition take_remote_status :: "string \<Rightarrow> agent_to_server \<Rightarrow> registry \<Rightarrow> registry" where
  "take_remote_status uid msg r =
    (case am_remote_status msg of
       None \<Rightarrow> r
     | Some (status, hash) \<Rightarrow>
         if hash = [] then r
         else case status of
           RcApplied \<Rightarrow> set_reported_hash uid (hex_encode hash) r
         | RcFailed \<Rightarrow> set_reported_hash uid '''' r
         | _ \<Rightarrow> r)"

definition take_effective :: "string \<Rightarrow> agent_to_server \<Rightarrow> registry \<Rightarrow> registry" where
  "take_effective uid msg r =
    (case am_effective msg of
       Some (Some cm) \<Rightarrow> set_reported_effective uid (config_map_to_string cm) r
     | _ \<Rightarrow> r)"

definition on_message ::
  "opamp_env \<Rightarrow> time \<Rightarrow> conn_id \<Rightarrow> agent_to_server \<Rightarrow> opamp \<Rightarrow> server_to_agent option \<times> opamp" where
  "on_message env now conn msg s =
    (let uid = hex_encode (am_instance_uid msg)
     in if uid = '''' then (None, s)
        else
          let s1 = restore_known uid s;
              c = (collector_from_message uid msg (os_reg s1))\<lparr>col_last_seen_at := now\<rparr>;
              s2 = on_fleet (reg_upsert c (Some conn)) s1;
              s3 = on_reg (set_capabilities uid (am_capabilities msg)) s2;
              s4 = on_reg (take_remote_status uid msg) s3;
              s5 = on_reg (take_effective uid msg) s4;
              flags = (if reported_effective uid (os_reg s5) = None \<or> col_hostname c = '''' \<or>
                          col_version c = '''' then report_full_state else 0);
              (cfg, s6) = take_pending uid s5
          in (Some \<lparr>sm_instance_uid = am_instance_uid msg, sm_capabilities = server_capabilities,
                sm_flags = flags,
                sm_remote_config = (if cfg \<noteq> '''' then Some (remote_config_of env cfg) else None),
                sm_restart = False\<rparr>, s6))"

subsection \<open>Deliveries\<close>

text \<open>A message is sent or the connection refuses it.  How long the transport takes is not modelled: sending
  takes no time.\<close>

definition conn_send ::
  "opamp_env \<Rightarrow> conn_id \<Rightarrow> server_to_agent \<Rightarrow> opamp \<Rightarrow> bool \<times> opamp" where
  "conn_send env conn msg s =
    (if oe_send_ok env conn msg then (True, s\<lparr>os_sent := os_sent s @ [(conn, msg)]\<rparr>) else (False, s))"

definition push_config :: "opamp_env \<Rightarrow> string \<Rightarrow> string \<Rightarrow> (opamp, go_error, unit) op" where
  "push_config env uid content s =
    (case reg_conn uid (os_reg s) of
       None \<Rightarrow> (ok_unit, set_pending uid content s)
     | Some conn \<Rightarrow>
         (case hex_decode uid of
            None \<Rightarrow> (Inl (ErrText MsgIllegalInstanceUid), s)
          | Some uid_bytes \<Rightarrow>
              (case conn_send env conn \<lparr>sm_instance_uid = uid_bytes, sm_capabilities = 0, sm_flags = 0,
                  sm_remote_config = Some (remote_config_of env content), sm_restart = False\<rparr> s of
                 (True, s') \<Rightarrow> (ok_unit, s')
               | (False, s') \<Rightarrow> (ok_unit, set_pending uid content s'))))"

definition send_restart :: "opamp_env \<Rightarrow> string \<Rightarrow> opamp \<Rightarrow> bool \<times> opamp" where
  "send_restart env uid s =
    (if \<not> reg_online uid (os_reg s) \<or> \<not> accepts_restart uid (os_reg s) then (False, s)
     else case hex_decode uid of
       None \<Rightarrow> (False, s)
     | Some uid_bytes \<Rightarrow>
         (case reg_conn uid (os_reg s) of
            None \<Rightarrow> (False, s)
          | Some conn \<Rightarrow> conn_send env conn \<lparr>sm_instance_uid = uid_bytes, sm_capabilities = 0,
              sm_flags = 0, sm_remote_config = None, sm_restart = True\<rparr> s))"

subsection \<open>What an operation leaves alone\<close>

lemma on_fleet_simps [frame_simps]:
  "os_reg (on_fleet f s) = fst (f (os_reg s, os_db s))"
  "os_db (on_fleet f s) = snd (f (os_reg s, os_db s))"
  "os_pending (on_fleet f s) = os_pending s"
  "os_sent (on_fleet f s) = os_sent s"
  "os_auth_token (on_fleet f s) = os_auth_token s"
  by (simp_all add: on_fleet_def case_prod_beta)

lemma on_reg_simps [frame_simps]:
  "os_reg (on_reg g s) = g (os_reg s)"
  "os_db (on_reg g s) = os_db s"
  "os_pending (on_reg g s) = os_pending s"
  "os_sent (on_reg g s) = os_sent s"
  "os_auth_token (on_reg g s) = os_auth_token s"
  by (simp_all add: on_reg_def)

lemma restore_known_frame [frame_simps]:
  "os_pending (restore_known uid s) = os_pending s"
  "os_sent (restore_known uid s) = os_sent s"
  "rg_conns (os_reg (restore_known uid s)) = rg_conns (os_reg s)"
  "rg_caps (os_reg (restore_known uid s)) = rg_caps (os_reg s)"
  "rg_rep_hash (os_reg (restore_known uid s)) = rg_rep_hash (os_reg s)"
  "rg_rep_eff (os_reg (restore_known uid s)) = rg_rep_eff (os_reg s)"
  by (auto simp: restore_known_def frame_simps split: option.split prod.split sum.split)

lemma conn_send_reg [frame_simps]: "conn_send env conn msg s = (b, s') \<Longrightarrow> os_reg s' = os_reg s"
  by (auto simp: conn_send_def split: if_splits)

lemma push_config_reg: "os_reg (snd (push_config env uid content s)) = os_reg s"
  by (auto simp: push_config_def set_pending_def conn_send_def split: option.split)

lemma send_restart_frame:
  "os_reg (snd (send_restart env uid s)) = os_reg s"
  "os_pending (snd (send_restart env uid s)) = os_pending s"
  by (auto simp: send_restart_def conn_send_def split: option.split)

text \<open>
  A message in one record: the registry after it, the collector it leaves and the reply.
\<close>

lemma on_message_pending:
  assumes "hex_encode (am_instance_uid msg) = uid" and "uid \<noteq> ''''"
  shows "os_pending (snd (on_message env now conn msg s)) = (os_pending s)(uid := None)"
    and "(case fst (on_message env now conn msg s) of
        None \<Rightarrow> False
      | Some reply \<Rightarrow> sm_remote_config reply =
          (case os_pending s uid of
             None \<Rightarrow> None | Some cfg \<Rightarrow> if cfg = '''' then None else Some (remote_config_of env cfg)))"
  using assms
  by (auto simp: on_message_def Let_def take_pending_def frame_simps fun_upd_idem_iff split: option.split)

lemma on_message_registry:
  assumes "hex_encode (am_instance_uid msg) = uid" and "uid \<noteq> ''''"
  shows "os_reg (snd (on_message env now conn msg s)) =
    take_effective uid msg (take_remote_status uid msg (set_capabilities uid (am_capabilities msg)
      (fst (reg_upsert ((collector_from_message uid msg (os_reg (restore_known uid s)))\<lparr>col_last_seen_at := now\<rparr>)
        (Some conn) (os_reg (restore_known uid s), os_db (restore_known uid s))))))"
  using assms
  by (auto simp: on_message_def Let_def take_pending_def frame_simps split: option.split)

lemma fold_keeps_uid:
  "col_instance_uid (fold take_identifying kvs c) = col_instance_uid c"
  "col_instance_uid (fold take_other kvs c) = col_instance_uid c"
  by (induction kvs arbitrary: c) (auto simp: take_identifying_def take_other_def)

lemma collector_from_message_uid:
  "col_instance_uid (collector_from_message uid msg r) = uid"
proof -
  have "col_instance_uid (case reg_get uid r of Some prev \<Rightarrow> prev | None \<Rightarrow> blank_collector uid) = uid"
    by (auto simp: blank_collector_def dest: reg_get_uid split: option.split)
  then show ?thesis
    by (auto simp: collector_from_message_def Let_def fold_keeps_uid split: option.split)
qed

lemma take_remote_status_frame [frame_simps]:
  "rg_collectors (take_remote_status uid msg r) = rg_collectors r"
  "rg_conns (take_remote_status uid msg r) = rg_conns r"
  "rg_caps (take_remote_status uid msg r) = rg_caps r"
  "rg_rep_eff (take_remote_status uid msg r) = rg_rep_eff r"
  "k \<noteq> uid \<Longrightarrow> rg_rep_hash (take_remote_status uid msg r) k = rg_rep_hash r k"
  by (auto simp: take_remote_status_def set_reported_hash_def split: option.split rc_status.split)

lemma take_effective_frame [frame_simps]:
  "rg_collectors (take_effective uid msg r) = rg_collectors r"
  "rg_conns (take_effective uid msg r) = rg_conns r"
  "rg_caps (take_effective uid msg r) = rg_caps r"
  "rg_rep_hash (take_effective uid msg r) = rg_rep_hash r"
  "k \<noteq> uid \<Longrightarrow> rg_rep_eff (take_effective uid msg r) k = rg_rep_eff r k"
  by (auto simp: take_effective_def set_reported_effective_def split: option.split)

lemma set_capabilities_frame [frame_simps]:
  "rg_collectors (set_capabilities uid caps r) = rg_collectors r"
  "rg_conns (set_capabilities uid caps r) = rg_conns r"
  "rg_caps (set_capabilities uid caps r) = (rg_caps r)(uid \<mapsto> caps)"
  "rg_rep_hash (set_capabilities uid caps r) = rg_rep_hash r"
  "rg_rep_eff (set_capabilities uid caps r) = rg_rep_eff r"
  by (simp_all add: set_capabilities_def)

subsection \<open>Runs of the server\<close>

text \<open>
  The steps of the server, with the sweep of the registry and the refresh of a record by the tools.
\<close>

inductive opamp_step :: "opamp_env \<Rightarrow> opamp \<Rightarrow> opamp \<Rightarrow> bool" for env where
  message_arrives: "opamp_step env s (snd (on_message env now conn msg s))"
| connection_closes: "opamp_step env s (on_connection_close env conn s)"
| config_pushed: "opamp_step env s (snd (push_config env uid content s))"
| restart_sent: "opamp_step env s (snd (send_restart env uid s))"
| sweep_runs: "opamp_step env s (on_fleet (mark_offline (oe_order env) now) s)"
| record_refreshed: "reg_get uid (os_reg s) = Some c \<Longrightarrow>
    opamp_step env s (on_fleet (reg_upsert (c\<lparr>col_effective_config := content\<rparr>) None) s)"

definition known_uids :: "registry \<Rightarrow> string set" where
  "known_uids r = col_instance_uid ` set (rg_collectors r)"

definition registry_inv :: "registry \<Rightarrow> bool" where
  "registry_inv r \<longleftrightarrow> distinct (map col_instance_uid (rg_collectors r)) \<and> '''' \<notin> known_uids r \<and>
     dom (rg_conns r) \<subseteq> known_uids r \<and>
     dom (rg_caps r) \<subseteq> dom (rg_conns r) \<and> dom (rg_rep_hash r) \<subseteq> dom (rg_conns r) \<and>
     dom (rg_rep_eff r) \<subseteq> dom (rg_conns r)"

lemma known_uids_upsert:
  "known_uids (fst (reg_upsert c conn s)) = insert (col_instance_uid c) (known_uids (fst s))"
proof -
  have "find_row col_instance_uid k (rg_collectors r) \<noteq> None \<longleftrightarrow> k \<in> known_uids r" for k r
    by (simp add: known_uids_def find_row_None_iff)
  then have known: "k \<in> known_uids r \<longleftrightarrow> reg_get k r \<noteq> None" for k r
    by (simp add: reg_get_def)
  show ?thesis by (auto simp: known reg_get_upsert split: if_splits)
qed

lemma distinct_reg_upsert:
  "distinct (map col_instance_uid (rg_collectors (fst s))) \<Longrightarrow>
    distinct (map col_instance_uid (rg_collectors (fst (reg_upsert c conn s))))"
  by (simp add: reg_upsert_def Let_def distinct_upsert_row split: option.split)

lemma registry_inv_upsert:
  "registry_inv (fst s) \<Longrightarrow> col_instance_uid c \<noteq> '''' \<Longrightarrow> registry_inv (fst (reg_upsert c conn s))"
  by (auto simp: registry_inv_def known_uids_upsert distinct_reg_upsert frame_simps split: option.splits)

lemma registry_inv_restore:
  assumes "registry_inv (os_reg s)" and "uid \<noteq> ''''"
  shows "registry_inv (os_reg (restore_known uid s))"
proof -
  have "col_instance_uid c = uid" if "get_collector uid d = (Inr c, d')" for c d d'
    using that by (auto simp: get_collector_def dest!: query_row_effect find_row_SomeD)
  with assms show ?thesis
    by (auto simp: restore_known_def frame_simps intro!: registry_inv_upsert split: option.split prod.split sum.split)
qed

lemma registry_inv_message:
  assumes "registry_inv (os_reg s)"
  shows "registry_inv (os_reg (snd (on_message env now conn msg s)))"
proof (cases "hex_encode (am_instance_uid msg) = ''''")
  case True
  with assms show ?thesis by (simp add: on_message_def)
next
  case False
  define uid where "uid = hex_encode (am_instance_uid msg)"
  define s1 where "s1 = restore_known uid s"
  define r2 where "r2 = fst (reg_upsert ((collector_from_message uid msg (os_reg s1))\<lparr>col_last_seen_at := now\<rparr>)
    (Some conn) (os_reg s1, os_db s1))"
  have "registry_inv (os_reg s1)"
    unfolding s1_def using False assms by (intro registry_inv_restore) (auto simp: uid_def)
  then have inv2: "registry_inv r2"
    unfolding r2_def using False by (intro registry_inv_upsert) (auto simp: uid_def collector_from_message_uid)
  have online: "uid \<in> dom (rg_conns r2)"
    by (simp add: r2_def frame_simps collector_from_message_uid)
  define r5 where "r5 = take_effective uid msg (take_remote_status uid msg
    (set_capabilities uid (am_capabilities msg) r2))"
  have "dom (rg_rep_hash r5) \<subseteq> insert uid (dom (rg_rep_hash r2))"
    and "dom (rg_rep_eff r5) \<subseteq> insert uid (dom (rg_rep_eff r2))"
  proof -
    have "rg_rep_hash r5 k = rg_rep_hash r2 k" "rg_rep_eff r5 k = rg_rep_eff r2 k" if "k \<noteq> uid" for k
      using that by (simp_all add: r5_def frame_simps)
    then show "dom (rg_rep_hash r5) \<subseteq> insert uid (dom (rg_rep_hash r2))"
      "dom (rg_rep_eff r5) \<subseteq> insert uid (dom (rg_rep_eff r2))" by (metis domIff insertCI subsetI)+
  qed
  then have reports: "dom (rg_rep_hash r5) \<subseteq> dom (rg_conns r2)" "dom (rg_rep_eff r5) \<subseteq> dom (rg_conns r2)"
    using inv2 online unfolding registry_inv_def by blast+
  have "rg_collectors r5 = rg_collectors r2" "rg_conns r5 = rg_conns r2"
    "rg_caps r5 = (rg_caps r2)(uid \<mapsto> am_capabilities msg)"
    by (simp_all add: r5_def frame_simps)
  then have "registry_inv r5"
    using inv2 online reports by (auto simp: registry_inv_def known_uids_def)
  then show ?thesis
    using on_message_registry [of msg uid] False by (simp add: r5_def r2_def s1_def uid_def)
qed

lemma registry_inv_remove: "registry_inv r \<Longrightarrow> registry_inv (reg_remove uid r)"
  by (auto simp: registry_inv_def reg_remove_def known_uids_def split: if_splits)

lemma mark_one_upsert:
  "mark_one now uid s =
    (case reg_get uid (fst s) of
       None \<Rightarrow> s
     | Some c \<Rightarrow> if is_stale now (fst s) c then reg_upsert (c\<lparr>col_status := CollectorStatusOffline\<rparr>) None s else s)"
  by (simp add: mark_one_def reg_upsert_def Let_def split: option.split)

lemma known_uid_nonempty: "registry_inv r \<Longrightarrow> reg_get uid r = Some c \<Longrightarrow> col_instance_uid c \<noteq> ''''"
proof -
  assume inv: "registry_inv r" and "reg_get uid r = Some c"
  then have "c \<in> set (rg_collectors r)" by (auto simp: reg_get_def dest!: find_row_SomeD)
  then have "col_instance_uid c \<in> known_uids r" by (simp add: known_uids_def)
  moreover have "'''' \<notin> known_uids r" using inv by (simp add: registry_inv_def)
  ultimately show "col_instance_uid c \<noteq> ''''" by metis
qed

lemma registry_inv_mark_one: "registry_inv (fst s) \<Longrightarrow> registry_inv (fst (mark_one now k s))"
  by (auto simp: mark_one_upsert dest: known_uid_nonempty intro!: registry_inv_upsert split: option.split)

lemma registry_inv_sweep:
  assumes "registry_inv (os_reg s)"
  shows "registry_inv (os_reg (on_fleet (mark_offline order now) s))"
proof -
  let ?ks = "order (map col_instance_uid (rg_collectors (os_reg s)))"
  have "registry_inv (fst (fold (mark_one now) ?ks (os_reg s, os_db s)))"
    by (rule fold_inv [where P = "\<lambda>s. registry_inv (fst s)"]) (simp_all add: assms registry_inv_mark_one)
  then show ?thesis by (simp add: mark_offline_def frame_simps)
qed

lemma opamp_step_inv:
  assumes "opamp_step env s s'" and "registry_inv (os_reg s)"
  shows "registry_inv (os_reg s')"
  using assms
proof cases
  case (record_refreshed uid c content)
  from known_uid_nonempty [OF assms(2) this(2)]
  have "col_instance_uid (c\<lparr>col_effective_config := content\<rparr>) \<noteq> ''''" by simp
  from registry_inv_upsert [OF _ this, of "(os_reg s, os_db s)" None] assms(2) record_refreshed
  show ?thesis by (simp add: frame_simps)
qed (auto simp: registry_inv_message on_connection_close_def Let_def frame_simps registry_inv_remove
    push_config_reg send_restart_frame registry_inv_sweep [simplified frame_simps])

subsection \<open>Properties of the server\<close>

text \<open>In every run of the server each Collector has one record, only known Collectors have a
  connection, and capabilities or reports are kept for connected agents only.\<close>

theorem opamp_run_inv:
  assumes "(opamp_step env)\<^sup>*\<^sup>* (new_opamp (new_registry offline_after) db token) s"
  shows "distinct (map col_instance_uid (rg_collectors (os_reg s))) \<and>
    (reg_online uid (os_reg s) \<longrightarrow> reg_get uid (os_reg s) \<noteq> None) \<and>
    (accepts_restart uid (os_reg s) \<or> reported_hash uid (os_reg s) \<noteq> None \<or>
     reported_effective uid (os_reg s) \<noteq> None \<longrightarrow> reg_online uid (os_reg s))"
proof -
  from assms have inv: "registry_inv (os_reg s)"
  proof (induction rule: rtranclp_induct)
    case base
    show ?case by (simp add: registry_inv_def new_opamp_def new_registry_def known_uids_def)
  next
    case (step s s')
    then show ?case by (blast intro: opamp_step_inv)
  qed
  have "accepts_restart uid (os_reg s) \<Longrightarrow> \<exists>w. rg_caps (os_reg s) uid = Some w"
    by (cases "rg_caps (os_reg s) uid") (simp_all add: accepts_restart_def)
  with inv show ?thesis
    by (auto simp: registry_inv_def reg_online_def reg_get_def find_row_None_iff known_uids_def
        reported_hash_def reported_effective_def subset_iff domIff)
qed

theorem opamp_run_inv_witness:
  "reg_online ''00'' (os_reg (snd (on_message \<lparr>oe_sha = (\<lambda>_. []), oe_send_ok = (\<lambda>_ _. True), oe_order = (\<lambda>us. us)\<rparr> 5 1
     \<lparr>am_instance_uid = [0], am_description = None, am_health = None, am_effective = None,
      am_capabilities = 1024, am_remote_status = None\<rparr> (new_opamp (new_registry 10) empty_db ''''))))"
proof -
  let ?env = "\<lparr>oe_sha = (\<lambda>_. []), oe_send_ok = (\<lambda>_ _. True), oe_order = (\<lambda>us. us)\<rparr>"
  let ?msg = "\<lparr>am_instance_uid = [0], am_description = None, am_health = None, am_effective = None,
      am_capabilities = 1024, am_remote_status = None\<rparr>"
  let ?init = "new_opamp (new_registry 10) empty_db ''''"
  let ?s = "snd (on_message ?env 5 1 ?msg ?init)"
  have "opamp_step ?env ?init ?s" by (rule message_arrives)
  then have "(opamp_step ?env)\<^sup>*\<^sup>* ?init ?s" by (rule r_into_rtranclp)
  note run = opamp_run_inv [OF this, of "''00''"]
  have uid: "hex_encode (am_instance_uid ?msg) = ''00''" by code_simp
  have "rg_caps (os_reg ?s) ''00'' = Some 1024"
    using on_message_registry [OF uid] by (simp add: frame_simps)
  then have "accepts_restart ''00'' (os_reg ?s)"
    by (simp add: accepts_restart_def accepts_restart_bit_def)
  with run show ?thesis by blast
qed

text \<open>Where a report that is new after a step comes from.\<close>

lemma report_origin:
  assumes "opamp_step env s s'"
  shows "(reported_hash uid (os_reg s') = Some h \<longrightarrow> reported_hash uid (os_reg s) = Some h \<or>
      (\<exists>now conn msg hash. s' = snd (on_message env now conn msg s) \<and>
        hex_encode (am_instance_uid msg) = uid \<and> am_remote_status msg = Some (RcApplied, hash) \<and>
        hex_encode hash = h)) \<and>
    (reported_effective uid (os_reg s') = Some eff \<longrightarrow> reported_effective uid (os_reg s) = Some eff \<or>
      (\<exists>now conn msg cm. s' = snd (on_message env now conn msg s) \<and>
        hex_encode (am_instance_uid msg) = uid \<and> am_effective msg = Some (Some cm) \<and>
        config_map_to_string cm = eff))"
  using assms
proof cases
  case (message_arrives now conn msg)
  define u where "u = hex_encode (am_instance_uid msg)"
  show ?thesis
  proof (cases "u = ''''")
    case True
    with message_arrives show ?thesis by (simp add: on_message_def u_def)
  next
    case False
    note reg = on_message_registry [OF u_def [symmetric] False]
    have hash: "rg_rep_hash (os_reg s') = rg_rep_hash (take_remote_status u msg (os_reg s))"
      unfolding message_arrives reg
      by (simp add: take_remote_status_def set_reported_hash_def frame_simps split: option.split rc_status.split)
    have eff: "rg_rep_eff (os_reg s') = rg_rep_eff (take_effective u msg (os_reg s))"
      unfolding message_arrives reg
      by (simp add: take_effective_def set_reported_effective_def frame_simps split: option.split)
    have "reported_hash uid (os_reg s') = Some h \<longrightarrow> reported_hash uid (os_reg s) = Some h \<or>
        u = uid \<and> (\<exists>hash. am_remote_status msg = Some (RcApplied, hash) \<and> hex_encode hash = h)"
      by (auto simp: reported_hash_def hash take_remote_status_def set_reported_hash_def
          split: option.splits rc_status.splits if_splits)
    moreover have "reported_effective uid (os_reg s') = Some eff \<longrightarrow> reported_effective uid (os_reg s) = Some eff \<or>
        u = uid \<and> (\<exists>cm. am_effective msg = Some (Some cm) \<and> config_map_to_string cm = eff)"
      by (auto simp: reported_effective_def eff take_effective_def set_reported_effective_def
          split: option.splits if_splits)
    ultimately show ?thesis using message_arrives u_def by blast
  qed
next
  case (connection_closes conn)
  then show ?thesis
    by (auto simp: on_connection_close_def Let_def frame_simps reg_remove_def reported_hash_def
        reported_effective_def split: if_splits)
next
  case (sweep_runs now)
  then show ?thesis
    by (simp add: frame_simps mark_offline_def fold_mark_one reported_hash_def reported_effective_def)
qed (simp_all add: frame_simps push_config_reg send_restart_frame reported_hash_def reported_effective_def)

text \<open>C21: The evidence a delivery is confirmed by comes from the agent itself: a reported hash or
  effective configuration that is new after a step was carried by a message of that agent, the hash by
  the acknowledgement of an applied configuration.\<close>

theorem reports_come_from_agent:
  assumes "opamp_step env s s'"
  shows "(reported_hash uid (os_reg s') = Some h \<longrightarrow> reported_hash uid (os_reg s) = Some h \<or>
      (\<exists>now conn msg hash. s' = snd (on_message env now conn msg s) \<and>
        hex_encode (am_instance_uid msg) = uid \<and> am_remote_status msg = Some (RcApplied, hash) \<and>
        hex_encode hash = h)) \<and>
    (reported_effective uid (os_reg s') = Some eff \<longrightarrow> reported_effective uid (os_reg s) = Some eff \<or>
      (\<exists>now conn msg cm. s' = snd (on_message env now conn msg s) \<and>
        hex_encode (am_instance_uid msg) = uid \<and> am_effective msg = Some (Some cm) \<and>
        config_map_to_string cm = eff))"
  using assms by (rule report_origin)

theorem reports_come_from_agent_witness:
  "\<exists>now conn msg hash. am_remote_status (msg :: agent_to_server) = Some (RcApplied, hash) \<and>
    hex_encode hash = ''07'' \<and>
    reported_hash ''00'' (os_reg (snd (on_message \<lparr>oe_sha = (\<lambda>_. []), oe_send_ok = (\<lambda>_ _. True), oe_order = rev\<rparr>
      now conn msg (new_opamp (new_registry 10) empty_db '''')))) = Some ''07''"
proof -
  let ?env = "\<lparr>oe_sha = (\<lambda>_. []), oe_send_ok = (\<lambda>_ _. True), oe_order = rev\<rparr>"
  let ?msg = "\<lparr>am_instance_uid = [0], am_description = None, am_health = None, am_effective = None,
      am_capabilities = 0, am_remote_status = Some (RcApplied, [7])\<rparr>"
  let ?init = "new_opamp (new_registry 10) empty_db ''''"
  let ?final = "snd (on_message ?env 5 1 ?msg ?init)"
  have uid: "hex_encode (am_instance_uid ?msg) = ''00''" by code_simp
  have "hex_encode [7] = ''07''" by code_simp
  then have "reported_hash ''00'' (os_reg ?final) = Some ''07''"
    using on_message_registry [OF uid]
    by (simp add: frame_simps take_remote_status_def set_reported_hash_def reported_hash_def)
  moreover have "reported_hash ''00'' (os_reg ?init) = None"
    by (simp add: new_opamp_def new_registry_def reported_hash_def)
  moreover have step: "opamp_step ?env ?init ?final" by (rule message_arrives)
  note origin = reports_come_from_agent [OF step, of "''00''" "''07''", THEN conjunct1]
  ultimately obtain now conn msg hash where "?final = snd (on_message ?env now conn msg ?init)"
    "am_remote_status msg = Some (RcApplied, hash)" "hex_encode hash = ''07''"
    using origin by (metis option.distinct(1))
  with \<open>reported_hash ''00'' (os_reg ?final) = Some ''07''\<close> show ?thesis by metis
qed

text \<open>C28: A configuration pushed to an agent without a connection is queued: the reply to the agent's next
  message carries it, with its hash, the reply after that does not carry it again, and what waits for
  other agents is untouched.  Pushing again before that replaces what is queued.\<close>

theorem pending_delivered_once:
  assumes "reg_conn uid (os_reg s) = None" and "content \<noteq> ''''" and "uid \<noteq> ''''"
    and "hex_encode (am_instance_uid msg) = uid" and "hex_encode (am_instance_uid msg2) = uid"
  shows "let (r, s1) = push_config env uid content s;
      (reply, s2) = on_message env now conn msg s1;
      (reply2, s3) = on_message env later conn2 msg2 s2
    in r = ok_unit \<and> os_sent s1 = os_sent s \<and>
      map_option sm_remote_config reply = Some (Some (remote_config_of env content)) \<and>
      map_option sm_remote_config reply2 = Some None \<and>
      os_pending s3 = (os_pending s)(uid := None) \<and>
      push_config env uid other s1 = push_config env uid other s"
proof -
  let ?s1 = "set_pending uid content s"
  have push: "push_config env uid content s = (ok_unit, ?s1)"
    using assms(1) by (simp add: push_config_def)
  obtain reply s2 where m1: "on_message env now conn msg ?s1 = (reply, s2)"
    by (cases "on_message env now conn msg ?s1")
  obtain reply2 s3 where m2: "on_message env later conn2 msg2 s2 = (reply2, s3)"
    by (cases "on_message env later conn2 msg2 s2")
  have pend1: "os_pending ?s1 uid = Some content" by (simp add: set_pending_def)
  have s2: "os_pending s2 = (os_pending s)(uid := None)"
    using on_message_pending(1) [OF assms(4,3), where env = env and now = now and conn = conn and s = ?s1] m1 by (simp add: set_pending_def)
  have reply: "map_option sm_remote_config reply = Some (Some (remote_config_of env content))"
    using on_message_pending(2) [OF assms(4,3), where env = env and now = now and conn = conn and s = ?s1] m1 pend1 assms(2)
    by (auto split: option.splits)
  have s3: "os_pending s3 = (os_pending s)(uid := None)"
    using on_message_pending(1) [OF assms(5,3), where env = env and now = later and conn = conn2 and s = s2] m2 s2 by simp
  have reply2: "map_option sm_remote_config reply2 = Some None"
    using on_message_pending(2) [OF assms(5,3), where env = env and now = later and conn = conn2 and s = s2] m2 s2
    by (auto split: option.splits)
  have "os_sent ?s1 = os_sent s" "push_config env uid other ?s1 = push_config env uid other s"
    using assms(1) by (simp_all add: set_pending_def push_config_def)
  with push m1 m2 reply reply2 s3 show ?thesis by simp
qed

theorem pending_delivered_once_witness:
  "map_option sm_remote_config (fst (on_message \<lparr>oe_sha = (\<lambda>_. [7]), oe_send_ok = (\<lambda>_ _. True), oe_order = (\<lambda>us. us)\<rparr> 5 1
     \<lparr>am_instance_uid = [0], am_description = None, am_health = None, am_effective = None,
      am_capabilities = 0, am_remote_status = None\<rparr>
     (snd (push_config \<lparr>oe_sha = (\<lambda>_. [7]), oe_send_ok = (\<lambda>_ _. True), oe_order = (\<lambda>us. us)\<rparr> ''00'' ''x''
       (new_opamp (new_registry 10) empty_db '''')))))
   = Some (Some \<lparr>rc_files = [('''', ''x'')], rc_hash = [7]\<rparr>)"
proof -
  let ?env = "\<lparr>oe_sha = (\<lambda>_. [7]), oe_send_ok = (\<lambda>_ _. True), oe_order = (\<lambda>us. us)\<rparr>"
  let ?msg = "\<lparr>am_instance_uid = [0], am_description = None, am_health = None, am_effective = None,
      am_capabilities = 0, am_remote_status = None\<rparr>"
  let ?s = "new_opamp (new_registry 10) empty_db ''''"
  have "reg_conn ''00'' (os_reg ?s) = None" by (simp add: new_opamp_def new_registry_def reg_conn_def)
  moreover have "hex_encode (am_instance_uid ?msg) = ''00''" by code_simp
  ultimately show ?thesis
    using pending_delivered_once [of "''00''" ?s "''x''" ?msg ?msg, where env = ?env and now = 5 and conn = 1]
    by (simp add: case_prod_beta Let_def remote_config_of_def)
qed

text \<open>A message changes only what it carries: for a Collector only the store still knows, a message
  without description, health and configuration keeps host name, version, group and configuration of
  the stored record, refreshes the time it was last seen, and keeps the status unless it was offline.\<close>

theorem message_keeps_unreported:
  assumes "reg_get uid (os_reg s) = None" and "db_faults (os_db s) = []"
    and "find_row col_instance_uid uid (db_collectors (os_db s)) = Some prev"
    and "col_status prev \<noteq> CollectorStatusNone"
    and "hex_encode (am_instance_uid msg) = uid" and "uid \<noteq> ''''"
    and "am_description msg = None" and "am_health msg = None" and "am_effective msg = None"
  shows "reg_get uid (os_reg (snd (on_message env now conn msg s))) =
    Some (prev\<lparr>col_status := (if col_status prev = CollectorStatusOffline then CollectorStatusUnknown
      else col_status prev), col_last_seen_at := now\<rparr>)"
proof -
  let ?s1 = "restore_known uid s"
  have prev: "col_instance_uid prev = uid" using find_row_SomeD [OF assms(3)] by simp
  have "get_collector uid (os_db s) = (Inr prev, os_db s)"
    using assms(2,3) by (simp add: get_collector_def query_row_healthy)
  then have get1: "reg_get uid (os_reg ?s1) = Some prev"
    using assms(1,4) prev by (simp add: restore_known_def frame_simps reg_get_upsert)
  have keep: "reg_get k (take_effective u m (take_remote_status u m (set_capabilities u c r))) = reg_get k r"
    for k u m c r by (simp add: reg_get_def frame_simps)
  show ?thesis
    unfolding on_message_registry [OF assms(5,6)] keep
    using get1 assms(4,7-9) prev
    by (auto simp: reg_get_upsert collector_from_message_def health_status_def)
qed

theorem message_keeps_unreported_witness:
  "map_option col_hostname (reg_get ''00'' (os_reg (snd (on_message
     \<lparr>oe_sha = (\<lambda>_. []), oe_send_ok = (\<lambda>_ _. True), oe_order = (\<lambda>us. us)\<rparr> 5 1
     \<lparr>am_instance_uid = [0], am_description = None, am_health = None, am_effective = None,
      am_capabilities = 0, am_remote_status = None\<rparr>
     (new_opamp (new_registry 10) (empty_db\<lparr>db_collectors :=
       [(blank_collector ''00'')\<lparr>col_hostname := ''h''\<rparr>]\<rparr>) ''''))))) = Some ''h''"
proof -
  let ?env = "\<lparr>oe_sha = (\<lambda>_. []), oe_send_ok = (\<lambda>_ _. True), oe_order = (\<lambda>us. us)\<rparr>"
  let ?msg = "\<lparr>am_instance_uid = [0], am_description = None, am_health = None, am_effective = None,
      am_capabilities = 0, am_remote_status = None\<rparr>"
  let ?prev = "(blank_collector ''00'')\<lparr>col_hostname := ''h''\<rparr>"
  let ?s = "new_opamp (new_registry 10) (empty_db\<lparr>db_collectors := [?prev]\<rparr>) ''''"
  have "reg_get ''00'' (os_reg ?s) = None" "db_faults (os_db ?s) = []"
    "find_row col_instance_uid ''00'' (db_collectors (os_db ?s)) = Some ?prev"
    by (simp_all add: new_opamp_def new_registry_def reg_get_def table_simps empty_db_def blank_collector_def)
  moreover have "hex_encode (am_instance_uid ?msg) = ''00''" by code_simp
  moreover have "col_status ?prev \<noteq> CollectorStatusNone" by (simp add: blank_collector_def)
  ultimately show ?thesis
    using message_keeps_unreported [of "''00''" ?s ?prev ?msg ?env 5 1] by simp
qed

lemma uid_for_conn_found:
  assumes "\<And>uids. set (oe_order env uids) = set uids" and "registry_inv r"
  shows "(case uid_for_conn env conn r of
      [] \<Rightarrow> (\<forall>k. reg_conn k r \<noteq> Some conn)
    | u # us \<Rightarrow> reg_conn (u # us) r = Some conn)"
proof (cases "List.find (\<lambda>uid. reg_conn uid r = Some conn) (oe_order env (map col_instance_uid (rg_collectors r)))")
  case None
  then have "\<forall>k \<in> known_uids r. reg_conn k r \<noteq> Some conn"
    using assms(1) by (simp add: find_None_iff known_uids_def)
  moreover have "reg_conn k r = None" if "k \<notin> known_uids r" for k
    using assms(2) that by (auto simp: registry_inv_def reg_conn_def)
  ultimately show ?thesis using None by (auto simp: uid_for_conn_def)
next
  case (Some uid)
  then have "uid \<in> known_uids r" "reg_conn uid r = Some conn"
    using assms(1) by (auto simp: find_Some_iff known_uids_def dest: nth_mem)
  with assms(2) Some show ?thesis
    by (auto simp: uid_for_conn_def registry_inv_def split: list.split)
qed

text \<open>The close of a connection that was replaced since, or never carried a message, changes nothing.
  The close of a connection one agent uses takes that agent offline and forgets its capabilities and
  reports, and nothing else; when several agents share the connection only one of them goes offline,
  the others stay online on a closed connection.\<close>

theorem connection_close_effect:
  assumes "\<And>uids. set (oe_order env uids) = set uids" and "registry_inv (os_reg s)"
  shows "((\<forall>k. reg_conn k (os_reg s) \<noteq> Some conn) \<longrightarrow> on_connection_close env conn s = s) \<and>
    (reg_conn u (os_reg s) = Some conn \<longrightarrow> (\<forall>k. reg_conn k (os_reg s) = Some conn \<longrightarrow> k = u) \<longrightarrow>
      on_connection_close env conn s = on_reg (reg_remove u) s) \<and>
    (reg_conn u (os_reg s) = Some conn \<longrightarrow> reg_conn v (os_reg s) = Some conn \<longrightarrow> u \<noteq> v \<longrightarrow>
      reg_online u (os_reg (on_connection_close env conn s)) \<or>
      reg_online v (os_reg (on_connection_close env conn s)))"
proof (cases "uid_for_conn env conn (os_reg s)")
  case Nil
  with uid_for_conn_found [OF assms, of conn] show ?thesis
    by (simp add: on_connection_close_def)
next
  case (Cons c cs)
  define w where "w = c # cs"
  have w: "uid_for_conn env conn (os_reg s) = w" "w \<noteq> ''''" "reg_conn w (os_reg s) = Some conn"
    using uid_for_conn_found [OF assms, of conn] Cons by (simp_all add: w_def)
  then have closed: "on_connection_close env conn s = on_reg (reg_remove w) s"
    by (simp add: on_connection_close_def)
  have "reg_online k (os_reg (on_reg (reg_remove w) s))"
    if "reg_conn k (os_reg s) = Some conn" "k \<noteq> w" for k
    using that by (simp add: reg_online_def reg_conn_def reg_remove_def frame_simps)
  with w closed show ?thesis by metis
qed

theorem connection_close_effect_witness:
  "on_connection_close \<lparr>oe_sha = (\<lambda>_. []), oe_send_ok = (\<lambda>_ _. True), oe_order = rev\<rparr> 3
     (new_opamp (new_registry 10) empty_db '''') = new_opamp (new_registry 10) empty_db ''''"
proof -
  let ?s = "new_opamp (new_registry 10) empty_db ''''"
  have "registry_inv (os_reg ?s)"
    by (simp add: new_opamp_def new_registry_def registry_inv_def known_uids_def)
  moreover have "\<forall>k. reg_conn k (os_reg ?s) \<noteq> Some 3"
    by (simp add: new_opamp_def new_registry_def reg_conn_def)
  ultimately show ?thesis
    using connection_close_effect [of "\<lparr>oe_sha = (\<lambda>_. []), oe_send_ok = (\<lambda>_ _. True), oe_order = rev\<rparr>" ?s 3]
    by simp
qed

end
