(* ===== verification/Confirm.thy ===== *)
theory Confirm
  imports Config_Subset Opamp_Server
begin

section \<open>Delivery with confirmation (internal/agent/confirm.go)\<close>

text \<open>
  A delivery pushes a configuration and waits until the agent reports it in effect; if it does not and
  accepts restarts, a restart command follows and a second wait.  The server and the registry appear
  behind the two interfaces of the source, records of functions on a state.  While the loop sleeps
  the rest of the system moves: the surroundings say how late the timer fires, what the state is then,
  or that the context was cancelled.  Time advances by at least the polling interval each round, so
  the loop ends.
\<close>

subsection \<open>Interfaces\<close>

record 's config_pusher =
  cp_push :: "string \<Rightarrow> string \<Rightarrow> ('s, go_error, unit) op"
  cp_restart :: "string \<Rightarrow> 's \<Rightarrow> bool \<times> 's"

record 's registry_view =
  rv_online :: "string \<Rightarrow> 's \<Rightarrow> bool"
  rv_accepts_restart :: "string \<Rightarrow> 's \<Rightarrow> bool"
  rv_hash :: "string \<Rightarrow> 's \<Rightarrow> string option"
  rv_effective :: "string \<Rightarrow> 's \<Rightarrow> string option"

record confirm_env =
  ce_sha :: sha_sum
  ce_decode :: any_decoder

type_synonym 's surroundings = "time \<Rightarrow> 's \<Rightarrow> (nat \<times> 's) option"

definition default_confirm_timeout :: duration where
  "default_confirm_timeout = 12 * nano_per_second"

definition confirm_poll_interval :: duration where
  "confirm_poll_interval = 200 * nano_per_milli"

subsection \<open>Waiting for the report\<close>

definition report_confirms ::
  "confirm_env \<Rightarrow> 's registry_view \<Rightarrow> string \<Rightarrow> string \<Rightarrow> string \<Rightarrow> 's \<Rightarrow> bool" where
  "report_confirms env r uid want pushed s =
    (if (case rv_hash r uid s of None \<Rightarrow> False | Some h \<Rightarrow> h = want) then True
     else case rv_effective r uid s of
       None \<Rightarrow> False | Some eff \<Rightarrow> config_subset (ce_decode env) pushed eff)"

function wait_confirm ::
  "confirm_env \<Rightarrow> 's surroundings \<Rightarrow> 's registry_view \<Rightarrow> string \<Rightarrow> string \<Rightarrow> string \<Rightarrow> time \<Rightarrow> time \<Rightarrow> 's
    \<Rightarrow> bool \<times> time \<times> 's" where
  "wait_confirm env around r uid want pushed deadline now s =
    (if report_confirms env r uid want pushed s then (True, now, s)
     else if \<not> now < deadline then (False, now, s)
     else case around now s of
       None \<Rightarrow> (False, now, s)
     | Some (late, s') \<Rightarrow>
         wait_confirm env around r uid want pushed deadline (now + confirm_poll_interval + int late) s')"
  by pat_completeness auto

termination
  by (relation "measure (\<lambda>(env, around, r, uid, want, pushed, deadline, now, s). nat (deadline - now))")
    (auto simp: confirm_poll_interval_def)

declare wait_confirm.simps [simp del]

definition push_and_confirm ::
  "confirm_env \<Rightarrow> 's surroundings \<Rightarrow> 's config_pusher option \<Rightarrow> 's registry_view option \<Rightarrow>
    string \<Rightarrow> string \<Rightarrow> duration \<Rightarrow> time \<Rightarrow> 's \<Rightarrow> (go_error + bool) \<times> time \<times> 's" where
  "push_and_confirm env around pusher view uid content timeout now s =
    (case pusher of
       None \<Rightarrow> (Inl (ErrText MsgOpampNotInitialised), now, s)
     | Some p \<Rightarrow>
         let online = (case view of None \<Rightarrow> False | Some r \<Rightarrow> rv_online r uid s) in
         (case cp_push p uid content s of
            (Inl err, s1) \<Rightarrow> (Inl err, now, s1)
          | (Inr _, s1) \<Rightarrow>
              (case view of
                 None \<Rightarrow> (Inr True, now, s1)
               | Some r \<Rightarrow>
                   if \<not> online then (Inr True, now, s1)
                   else
                     let want = content_hash (ce_sha env) content; half = quot timeout 2 in
                     (case wait_confirm env around r uid want content (now + half) now s1 of
                        (True, now2, s2) \<Rightarrow> (Inr True, now2, s2)
                      | (False, now2, s2) \<Rightarrow>
                          if rv_accepts_restart r uid s2 then
                            let (sent, s3) = cp_restart p uid s2 in
                            (case wait_confirm env around r uid want content (now2 + half) now2 s3 of
                               (True, now4, s4) \<Rightarrow> (Inr True, now4, s4)
                             | (False, now4, s4) \<Rightarrow> (Inr False, now4, s4))
                          else (Inr False, now2, s2)))))"

subsection \<open>What the loop returns\<close>

lemma wait_confirm_cases:
  assumes "wait_confirm env around r uid want pushed deadline now s = (b, now', s')"
  obtains (stops) "b = report_confirms env r uid want pushed s" "now' = now" "s' = s"
      "b \<or> \<not> now < deadline \<or> around now s = None"
    | (polls) late s1 where "\<not> report_confirms env r uid want pushed s" "now < deadline"
      "around now s = Some (late, s1)"
      "wait_confirm env around r uid want pushed deadline (now + confirm_poll_interval + int late) s1 = (b, now', s')"
  using assms
  by (subst (asm) wait_confirm.simps) (auto split: if_splits option.splits)

text \<open>
  Induction over the rounds: what holds where the loop starts and is kept by a round, with the state
  the round starts in, holds where it ends.
\<close>

lemma wait_confirm_induct:
  assumes run: "wait_confirm env around r uid want pushed deadline now s = (b, now', s')"
    and start: "P now s"
    and round: "\<And>t u late u'. P t u \<Longrightarrow> t < deadline \<Longrightarrow> around t u = Some (late, u') \<Longrightarrow>
      P (t + confirm_poll_interval + int late) u'"
  shows "P now' s' \<and> b = report_confirms env r uid want pushed s' \<and> now \<le> now' \<and>
    (b \<or> \<not> now' < deadline \<or> around now' s' = None)"
  using run start
proof (induction "nat (deadline - now)" arbitrary: now s rule: less_induct)
  case less
  from less.prems(1) show ?case
  proof (cases rule: wait_confirm_cases)
    case stops
    with less.prems(2) show ?thesis by auto
  next
    case (polls late s1)
    have "P (now + confirm_poll_interval + int late) s1" using round less.prems(2) polls by blast
    moreover have "nat (deadline - (now + confirm_poll_interval + int late)) < nat (deadline - now)"
      using polls(2) by (simp add: confirm_poll_interval_def)
    ultimately show ?thesis
      using less.hyps [OF _ polls(4)] by (auto simp: confirm_poll_interval_def)
  qed
qed

lemmas wait_confirm_result = wait_confirm_induct [where P = "\<lambda>_ _. True", simplified]

text \<open>A property of states that the surroundings keep holds in the state the loop ends in.\<close>

lemma wait_confirm_keeps:
  assumes "\<And>t u late u'. around t u = Some (late, u') \<Longrightarrow> P u \<Longrightarrow> P u'"
    and "wait_confirm env around r uid want pushed deadline now s = (b, now', s')" and "P s"
  shows "P s'"
  using wait_confirm_induct [OF assms(2), of "\<lambda>_. P"] assms(1,3) by blast

text \<open>So does a delivery, when pushing and restarting keep it as well.\<close>

lemma push_and_confirm_keeps:
  assumes "push_and_confirm env around pusher view uid content timeout now s = (r, now', s')" and "P s"
    and round: "\<And>t u late u'. around t u = Some (late, u') \<Longrightarrow> P u \<Longrightarrow> P u'"
    and push: "\<And>p u x u'. pusher = Some p \<Longrightarrow> cp_push p uid content u = (x, u') \<Longrightarrow> P u \<Longrightarrow> P u'"
    and restart: "\<And>p u x u'. pusher = Some p \<Longrightarrow> cp_restart p uid u = (x, u') \<Longrightarrow> P u \<Longrightarrow> P u'"
  shows "P s'"
proof (cases pusher)
  case None
  with assms(1,2) show ?thesis by (simp add: push_and_confirm_def)
next
  case (Some p)
  have wait: "P u'" if "wait_confirm env around v uid want content deadline t u = (b, t', u')" "P u"
    for v want deadline t u b t' u'
    using round that(1,2) by (rule wait_confirm_keeps)
  obtain x s1 where s1: "cp_push p uid content s = (x, s1)" by (cases "cp_push p uid content s")
  with push [OF Some s1] assms(2) have "P s1" by blast
  show ?thesis
  proof (cases view)
    case None
    with Some s1 assms(1) \<open>P s1\<close> show ?thesis by (auto simp: push_and_confirm_def split: sum.splits)
  next
    case (Some v)
    define want where "want = content_hash (ce_sha env) content"
    define half where "half = quot timeout 2"
    obtain b2 now2 s2 where w2: "wait_confirm env around v uid want content (now + half) now s1 = (b2, now2, s2)"
      by (metis prod_cases3)
    obtain sent s3 where s3: "cp_restart p uid s2 = (sent, s3)" by (cases "cp_restart p uid s2")
    obtain b4 now4 s4 where w4: "wait_confirm env around v uid want content (now2 + half) now2 s3 = (b4, now4, s4)"
      by (metis prod_cases3)
    have "P s2" using wait [OF w2] \<open>P s1\<close> by blast
    moreover from this have "P s3" using restart [OF \<open>pusher = Some p\<close> s3] by blast
    then have "P s4" using wait [OF w4] by blast
    moreover have "s' = s1 \<or> s' = s2 \<or> s' = s4"
      using assms(1) Some \<open>pusher = Some p\<close> s1 w2 s3 w4
      by (auto simp: push_and_confirm_def Let_def want_def [symmetric] half_def [symmetric]
          split: sum.splits bool.splits if_splits)
    ultimately show ?thesis using \<open>P s1\<close> by blast
  qed
qed

lemma wait_confirm_time:
  assumes "\<And>t u late u'. around t u = Some (late, u') \<Longrightarrow> int late \<le> slack"
    and "wait_confirm env around r uid want pushed deadline now s = (b, now', s')"
  shows "now' \<le> max now (deadline + confirm_poll_interval + slack)"
proof -
  let ?P = "\<lambda>t _. t \<le> max now (deadline + confirm_poll_interval + slack)"
  have "?P now' s' \<and> b = report_confirms env r uid want pushed s' \<and> now \<le> now' \<and>
      (b \<or> \<not> now' < deadline \<or> around now' s' = None)"
    using assms(2) by (rule wait_confirm_induct) (use assms(1) in fastforce)+
  then show ?thesis by blast
qed

text \<open>The wait ends at the first poll that confirms, when the deadline has passed, or when the context
  is cancelled; its answer is what the report says at that last poll, and if the timer is never more
  than \<open>slack\<close> late it ends within one polling interval and \<open>slack\<close> of the deadline.\<close>

theorem wait_confirm_answer:
  assumes "wait_confirm env around r uid want pushed deadline now s = (b, now', s')"
    and "now \<le> deadline" and "\<And>t u late u'. around t u = Some (late, u') \<Longrightarrow> int late \<le> slack"
    and "0 \<le> slack"
  shows "b = report_confirms env r uid want pushed s' \<and>
    (b \<or> deadline \<le> now' \<or> around now' s' = None) \<and>
    now \<le> now' \<and> now' \<le> deadline + confirm_poll_interval + slack"
  using wait_confirm_result [OF assms(1)] wait_confirm_time [OF assms(3,1)] assms(2,4)
  by (auto simp: confirm_poll_interval_def)

theorem wait_confirm_answer_witness:
  "\<exists>b now' s'. wait_confirm \<lparr>ce_sha = (\<lambda>_. []), ce_decode = (\<lambda>_. Inl '''')\<rparr> (\<lambda>t u. Some (0, u + 1))
      \<lparr>rv_online = (\<lambda>_ _. True), rv_accepts_restart = (\<lambda>_ _. False),
       rv_hash = (\<lambda>_ u. if u = (3::nat) then Some ''ab'' else None), rv_effective = (\<lambda>_ _. None)\<rparr>
      ''u'' ''ab'' ''x'' 1000000000 0 0 = (b, now', s') \<and>
    now' \<le> 1000000000 + confirm_poll_interval \<and>
    b = (s' = 3)"
proof -
  let ?env = "\<lparr>ce_sha = (\<lambda>_. []), ce_decode = (\<lambda>_. Inl '''')\<rparr>"
  let ?view = "\<lparr>rv_online = (\<lambda>_ _. True), rv_accepts_restart = (\<lambda>_ _. False),
       rv_hash = (\<lambda>_ u. if u = (3::nat) then Some ''ab'' else None), rv_effective = (\<lambda>_ _. None)\<rparr>"
  obtain b now' s' where run: "wait_confirm ?env (\<lambda>t u. Some (0, u + 1)) ?view ''u'' ''ab'' ''x'' 1000000000 0 0
      = (b, now', s')" by (metis prod_cases3)
  have "report_confirms ?env ?view ''u'' ''ab'' ''x'' s' = (s' = 3)" by (simp add: report_confirms_def)
  with wait_confirm_answer [OF run, of 0] run show ?thesis by auto
qed

subsection \<open>The channel to the agents\<close>

text \<open>
  What a delivery relies on: pushing and restarting do not touch what agents reported or whether they
  are connected, and a push to an agent that is not connected is accepted.
\<close>

locale dispatch_channel =
  fixes pusher :: "'s config_pusher"
    and view :: "'s registry_view"
  assumes push_keeps: "cp_push pusher uid content s = (r, s') \<Longrightarrow>
        rv_hash view k s' = rv_hash view k s \<and> rv_effective view k s' = rv_effective view k s \<and>
        rv_online view k s' = rv_online view k s \<and> rv_accepts_restart view k s' = rv_accepts_restart view k s"
    and restart_keeps: "cp_restart pusher uid s = (b, s') \<Longrightarrow>
        rv_hash view k s' = rv_hash view k s \<and> rv_effective view k s' = rv_effective view k s"
    and push_offline: "\<not> rv_online view uid s \<Longrightarrow> fst (cp_push pusher uid content s) = ok_unit"
begin

lemma report_same:
  "rv_hash view uid s' = rv_hash view uid s \<Longrightarrow> rv_effective view uid s' = rv_effective view uid s \<Longrightarrow>
    report_confirms env view uid want pushed s' = report_confirms env view uid want pushed s"
  by (simp add: report_confirms_def)

lemma offline_accepted:
  assumes "\<not> rv_online view uid s"
  shows "\<exists>s'. push_and_confirm env around (Some pusher) (Some view) uid content timeout now s
      = (Inr True, now, s') \<and> s' = snd (cp_push pusher uid content s)"
  using push_offline [OF assms, of content] assms
  by (cases "cp_push pusher uid content s") (auto simp: push_and_confirm_def Let_def)

text \<open>An agent that reports nothing new is confirmed exactly when its old report confirms already.\<close>

lemma silent_agent:
  assumes "rv_online view uid s" and "cp_push pusher uid content s = (ok_unit, s1)"
    and silent: "\<And>t u late u'. around t u = Some (late, u') \<Longrightarrow>
      rv_hash view uid u' = rv_hash view uid u \<and> rv_effective view uid u' = rv_effective view uid u"
  shows "fst (push_and_confirm env around (Some pusher) (Some view) uid content timeout now s) =
    Inr (report_confirms env view uid (content_hash (ce_sha env) content) content s)"
proof -
  define want where "want = content_hash (ce_sha env) content"
  define half where "half = quot timeout 2"
  define conf where "conf = report_confirms env view uid want content"
  have s1: "conf s1 = conf s"
    unfolding conf_def using push_keeps [OF assms(2), of uid] by (intro report_same) blast+
  have wait: "b = conf u"
    if run: "wait_confirm env around view uid want content deadline t u = (b, t', u')" for deadline t u b t' u'
  proof -
    have "conf u' = conf u"
      using wait_confirm_keeps [OF _ run, of "\<lambda>v. conf v = conf u"] silent report_same
      unfolding conf_def by metis
    with wait_confirm_result [OF run] show ?thesis by (simp add: conf_def)
  qed
  obtain b2 now2 s2 where w2: "wait_confirm env around view uid want content (now + half) now s1 = (b2, now2, s2)"
    by (metis prod_cases3)
  obtain sent s3 where s3: "cp_restart pusher uid s2 = (sent, s3)" by (cases "cp_restart pusher uid s2")
  obtain b4 now4 s4 where w4: "wait_confirm env around view uid want content (now2 + half) now2 s3 = (b4, now4, s4)"
    by (metis prod_cases3)
  have "b2 = conf s" using wait [OF w2] s1 by simp
  moreover have "conf s2 = b2" using wait_confirm_result [OF w2] by (simp add: conf_def)
  moreover have "conf s3 = conf s2"
    unfolding conf_def using restart_keeps [OF s3, of uid] by (intro report_same) blast+
  moreover have "b4 = conf s3" using wait [OF w4] .
  ultimately show ?thesis
    using assms(1,2) w2 s3 w4
    by (auto simp: push_and_confirm_def Let_def want_def [symmetric] half_def [symmetric]
        conf_def [symmetric] split: bool.split)
qed

end

subsection \<open>The server is such a channel\<close>

definition opamp_pusher :: "opamp_env \<Rightarrow> opamp config_pusher" where
  "opamp_pusher env = \<lparr>cp_push = push_config env, cp_restart = send_restart env\<rparr>"

definition opamp_view :: "opamp registry_view" where
  "opamp_view = \<lparr>rv_online = (\<lambda>uid s. reg_online uid (os_reg s)),
     rv_accepts_restart = (\<lambda>uid s. accepts_restart uid (os_reg s)),
     rv_hash = (\<lambda>uid s. reported_hash uid (os_reg s)),
     rv_effective = (\<lambda>uid s. reported_effective uid (os_reg s))\<rparr>"

lemma rv_accepts_opamp: "rv_accepts_restart opamp_view uid s = accepts_restart uid (os_reg s)"
  by (simp add: opamp_view_def)

interpretation opamp_channel: dispatch_channel "opamp_pusher env" opamp_view for env
proof
  fix uid content s r s' k
  assume "cp_push (opamp_pusher env) uid content s = (r, s')"
  then have "os_reg s' = os_reg s"
    using push_config_reg [of env uid content s] by (simp add: opamp_pusher_def)
  then show "rv_hash opamp_view k s' = rv_hash opamp_view k s \<and>
      rv_effective opamp_view k s' = rv_effective opamp_view k s \<and>
      rv_online opamp_view k s' = rv_online opamp_view k s \<and>
      rv_accepts_restart opamp_view k s' = rv_accepts_restart opamp_view k s"
    by (simp add: opamp_view_def)
next
  fix uid s b s' k
  assume "cp_restart (opamp_pusher env) uid s = (b, s')"
  then have "os_reg s' = os_reg s"
    using send_restart_frame(1) [of env uid s] by (simp add: opamp_pusher_def)
  then show "rv_hash opamp_view k s' = rv_hash opamp_view k s \<and>
      rv_effective opamp_view k s' = rv_effective opamp_view k s"
    by (simp add: opamp_view_def)
next
  fix uid s content
  assume "\<not> rv_online opamp_view uid s"
  then show "fst (cp_push (opamp_pusher env) uid content s) = ok_unit"
    by (simp add: opamp_view_def opamp_pusher_def reg_online_def push_config_def reg_conn_def)
qed

subsection \<open>Properties of a delivery\<close>

text \<open>A delivery to an agent without a connection is accepted at once: nothing is sent, no time
  passes, the configuration waits for the agent's next message.  Without a server it is an error, and
  an instance id that is not hexadecimal is refused when the agent is connected.\<close>

theorem delivery_without_connection:
  "(reg_conn uid (os_reg s) = None \<longrightarrow>
      push_and_confirm cenv around (Some (opamp_pusher env)) (Some opamp_view) uid content timeout now s =
        (Inr True, now, set_pending uid content s)) \<and>
   push_and_confirm cenv around None (Some opamp_view) uid content timeout now s =
     (Inl (ErrText MsgOpampNotInitialised), now, s) \<and>
   (reg_conn uid (os_reg s) \<noteq> None \<longrightarrow> hex_decode uid = None \<longrightarrow>
      push_and_confirm cenv around (Some (opamp_pusher env)) (Some opamp_view) uid content timeout now s =
        (Inl (ErrText MsgIllegalInstanceUid), now, s))"
  by (auto simp: push_and_confirm_def opamp_pusher_def opamp_view_def push_config_def reg_online_def
      reg_conn_def Let_def)

theorem delivery_without_connection_witness:
  "push_and_confirm \<lparr>ce_sha = (\<lambda>_. [7]), ce_decode = (\<lambda>_. Inl '''')\<rparr> (\<lambda>t u. None)
     (Some (opamp_pusher \<lparr>oe_sha = (\<lambda>_. [7]), oe_send_ok = (\<lambda>_ _. True), oe_order = rev\<rparr>)) (Some opamp_view)
     ''00'' ''x'' 10 5 (new_opamp (new_registry 10) empty_db '''') =
   (Inr True, 5, set_pending ''00'' ''x'' (new_opamp (new_registry 10) empty_db ''''))"
proof -
  have "reg_conn ''00'' (os_reg (new_opamp (new_registry 10) empty_db '''')) = None"
    by (simp add: new_opamp_def new_registry_def reg_conn_def)
  then show ?thesis using delivery_without_connection by blast
qed

lemma push_config_accepted:
  "hex_decode uid \<noteq> None \<Longrightarrow> \<exists>s1. push_config env uid content s = (ok_unit, s1)"
  by (auto simp: push_config_def conn_send_def split: option.split)

text \<open>A connected agent that reports nothing new during the delivery is not confirmed, whatever else
  happens, unless what it had reported before already confirms the pushed content.\<close>

theorem silent_agent_unconfirmed:
  assumes "reg_online uid (os_reg s)" and "hex_decode uid \<noteq> None"
    and "\<And>t u late u'. around t u = Some (late, u') \<Longrightarrow>
      reported_hash uid (os_reg u') = reported_hash uid (os_reg u) \<and>
      reported_effective uid (os_reg u') = reported_effective uid (os_reg u)"
  shows "fst (push_and_confirm cenv around (Some (opamp_pusher env)) (Some opamp_view) uid content timeout now s) =
    Inr (reported_hash uid (os_reg s) = Some (content_hash (ce_sha cenv) content) \<or>
      (\<exists>eff. reported_effective uid (os_reg s) = Some eff \<and> config_subset (ce_decode cenv) content eff))"
proof -
  obtain s1 where push: "cp_push (opamp_pusher env) uid content s = (ok_unit, s1)"
    using push_config_accepted [OF assms(2), of env content s] by (auto simp: opamp_pusher_def)
  have online: "rv_online opamp_view uid s" using assms(1) by (simp add: opamp_view_def)
  have conf: "report_confirms cenv opamp_view uid want content s \<longleftrightarrow> reported_hash uid (os_reg s) = Some want \<or>
      (\<exists>eff. reported_effective uid (os_reg s) = Some eff \<and> config_subset (ce_decode cenv) content eff)"
    for want by (auto simp: report_confirms_def opamp_view_def split: option.splits)
  have silent: "rv_hash opamp_view uid u' = rv_hash opamp_view uid u \<and>
      rv_effective opamp_view uid u' = rv_effective opamp_view uid u"
    if "around t u = Some (late, u')" for t u late u'
    using assms(3) [OF that] by (simp add: opamp_view_def)
  from opamp_channel.silent_agent [OF online push silent] show ?thesis
    by (simp add: conf)
qed

theorem silent_agent_unconfirmed_witness:
  "fst (push_and_confirm \<lparr>ce_sha = (\<lambda>_. [7]), ce_decode = (\<lambda>_. Inl '''')\<rparr> (\<lambda>t u. Some (0, u))
      (Some (opamp_pusher \<lparr>oe_sha = (\<lambda>_. [7]), oe_send_ok = (\<lambda>_ _. True), oe_order = rev\<rparr>)) (Some opamp_view)
      ''00'' ''x'' default_confirm_timeout 5
      ((new_opamp (new_registry 10) empty_db '''')\<lparr>os_reg := (new_registry 10)\<lparr>rg_conns := [''00'' \<mapsto> 1]\<rparr>\<rparr>))
    = Inr False"
proof -
  let ?s = "(new_opamp (new_registry 10) empty_db '''')\<lparr>os_reg := (new_registry 10)\<lparr>rg_conns := [''00'' \<mapsto> 1]\<rparr>\<rparr>"
  have "reg_online ''00'' (os_reg ?s)" "reported_hash ''00'' (os_reg ?s) = None"
    "reported_effective ''00'' (os_reg ?s) = None"
    by (simp_all add: reg_online_def reported_hash_def reported_effective_def new_registry_def)
  moreover have "hex_decode ''00'' \<noteq> None" by code_simp
  ultimately show ?thesis
    using silent_agent_unconfirmed [of "''00''" ?s "\<lambda>t u. Some (0, u)"] by simp
qed

text \<open>The messages a delivery may send: the configuration, and a restart command on its own.\<close>

definition config_message :: "opamp_env \<Rightarrow> string \<Rightarrow> string \<Rightarrow> server_to_agent \<Rightarrow> bool" where
  "config_message env uid content m \<longleftrightarrow> hex_decode uid = Some (sm_instance_uid m) \<and>
     sm_remote_config m = Some (remote_config_of env content) \<and> \<not> sm_restart m"

definition restart_message :: "string \<Rightarrow> server_to_agent \<Rightarrow> bool" where
  "restart_message uid m \<longleftrightarrow> hex_decode uid = Some (sm_instance_uid m) \<and> sm_remote_config m = None \<and> sm_restart m"

lemma push_config_sent:
  "\<exists>ms. os_sent (snd (push_config env uid content s)) = os_sent s @ ms \<and> length ms \<le> 1 \<and>
    (\<forall>m \<in> set ms. config_message env uid content (snd m))"
  by (auto simp: push_config_def conn_send_def set_pending_def config_message_def split: option.split)

lemma send_restart_sent:
  "\<exists>ms. os_sent (snd (send_restart env uid s)) = os_sent s @ ms \<and> length ms \<le> 1 \<and>
    (\<forall>m \<in> set ms. restart_message uid (snd m)) \<and> (\<not> accepts_restart uid (os_reg s) \<longrightarrow> ms = [])"
  by (auto simp: send_restart_def conn_send_def restart_message_def split: option.split)

text \<open>Apart from what the rest of the system sends meanwhile, a delivery sends the configuration at
  most once and before anything else, then at most one restart command, and never both in one message;
  no restart is sent when the first wait confirmed or the agent does not accept restarts then.\<close>

theorem delivery_messages:
  assumes "\<And>t u late u'. around t u = Some (late, u') \<Longrightarrow> os_sent u' = os_sent u"
  shows "\<exists>cfgs restarts. os_sent (snd (snd (push_and_confirm cenv around (Some (opamp_pusher env))
        (Some opamp_view) uid content timeout now s))) = os_sent s @ cfgs @ restarts \<and>
      length cfgs \<le> 1 \<and> (\<forall>m \<in> set cfgs. config_message env uid content (snd m)) \<and>
      length restarts \<le> 1 \<and> (\<forall>m \<in> set restarts. restart_message uid (snd m)) \<and>
      (case wait_confirm cenv around opamp_view uid (content_hash (ce_sha cenv) content) content
          (now + quot timeout 2) now (snd (push_config env uid content s)) of
        (confirmed, _, s2) \<Rightarrow> confirmed \<or> \<not> accepts_restart uid (os_reg s2) \<longrightarrow> restarts = [])"
proof -
  obtain r s1 where push: "push_config env uid content s = (r, s1)" by (cases "push_config env uid content s")
  obtain cfgs where cfgs: "os_sent s1 = os_sent s @ cfgs" "length cfgs \<le> 1"
    "\<forall>m \<in> set cfgs. config_message env uid content (snd m)"
    using push_config_sent [of env uid content s] push by auto
  define half where "half = quot timeout 2"
  define want where "want = content_hash (ce_sha cenv) content"
  have quiet: "os_sent u' = os_sent u"
    if "wait_confirm cenv around opamp_view uid want content deadline t u = (b, t', u')" for deadline t u b t' u'
    using wait_confirm_keeps [OF _ that, of "\<lambda>v. os_sent v = os_sent u"] assms by metis
  obtain b2 now2 s2 where w2: "wait_confirm cenv around opamp_view uid want content (now + half) now s1 = (b2, now2, s2)"
    by (metis prod_cases3)
  obtain sent s3 where s3: "send_restart env uid s2 = (sent, s3)" by (cases "send_restart env uid s2")
  obtain restarts where restarts: "os_sent s3 = os_sent s2 @ restarts" "length restarts \<le> 1"
    "\<forall>m \<in> set restarts. restart_message uid (snd m)"
    using send_restart_sent [of env uid s2] s3 by auto
  obtain b4 now4 s4 where w4: "wait_confirm cenv around opamp_view uid want content (now2 + half) now2 s3 = (b4, now4, s4)"
    by (metis prod_cases3)
  define final where "final = snd (snd (push_and_confirm cenv around (Some (opamp_pusher env))
        (Some opamp_view) uid content timeout now s))"
  have "final = s1 \<or> final = s2 \<or> final = s4 \<and> \<not> b2 \<and> accepts_restart uid (os_reg s2)"
    using push w2 s3 w4
    by (auto simp: final_def push_and_confirm_def Let_def opamp_pusher_def 
        want_def [symmetric] half_def [symmetric] rv_accepts_opamp split: sum.splits bool.splits)
  moreover have "os_sent s2 = os_sent s @ cfgs" "os_sent s4 = os_sent s @ cfgs @ restarts"
    using quiet [OF w2] quiet [OF w4] cfgs(1) restarts(1) by simp_all
  moreover have "os_sent s1 = os_sent s @ cfgs @ []" using cfgs(1) by simp
  ultimately obtain rs where "os_sent final = os_sent s @ cfgs @ rs"
    "rs = [] \<or> rs = restarts \<and> \<not> b2 \<and> accepts_restart uid (os_reg s2)" by fastforce
  with cfgs restarts push w2 show ?thesis
    unfolding final_def half_def want_def by (intro exI [of _ cfgs] exI [of _ rs]) auto
qed

theorem delivery_messages_witness:
  "length (os_sent (snd (snd (push_and_confirm \<lparr>ce_sha = (\<lambda>_. [7]), ce_decode = (\<lambda>_. Inl '''')\<rparr> (\<lambda>t u. Some (0, u))
      (Some (opamp_pusher \<lparr>oe_sha = (\<lambda>_. [7]), oe_send_ok = (\<lambda>_ _. True), oe_order = rev\<rparr>)) (Some opamp_view)
      ''00'' ''x'' default_confirm_timeout 5 (new_opamp (new_registry 10) empty_db ''''))))) \<le> 2"
proof -
  let ?cenv = "\<lparr>ce_sha = (\<lambda>_. [7]), ce_decode = (\<lambda>_. Inl '''')\<rparr>"
  let ?env = "\<lparr>oe_sha = (\<lambda>_. [7]), oe_send_ok = (\<lambda>_ _. True), oe_order = rev\<rparr>"
  let ?s = "new_opamp (new_registry 10) empty_db ''''"
  have "os_sent ?s = []" by (simp add: new_opamp_def)
  with delivery_messages [of "\<lambda>t u. Some (0, u)" ?cenv ?env "''00''" "''x''" default_confirm_timeout 5 ?s]
  show ?thesis by auto
qed

text \<open>An acknowledgement in the first round.\<close>

lemma acknowledged_first_round:
  assumes "reg_online uid (os_reg s)" and "push_config env uid content s = (ok_unit, s1)"
    and "2 \<le> timeout" and "around now s1 = Some (late, u)"
    and "reported_hash uid (os_reg u) = Some (content_hash (ce_sha cenv) content)"
  shows "\<exists>now' s'. push_and_confirm cenv around (Some (opamp_pusher env)) (Some opamp_view) uid content timeout now s
      = (Inr True, now', s') \<and> (s' = s1 \<or> s' = u)"
proof -
  define want where "want = content_hash (ce_sha cenv) content"
  have half: "now < now + quot timeout 2" using assms(3) by (simp add: quot_nonneg)
  have "report_confirms cenv opamp_view uid want content u"
    using assms(5) by (simp add: report_confirms_def opamp_view_def want_def)
  then have "wait_confirm cenv around opamp_view uid want content (now + quot timeout 2) t u = (True, t, u)" for t
    by (subst wait_confirm.simps) simp
  then have "\<exists>t' s'. wait_confirm cenv around opamp_view uid want content (now + quot timeout 2) now s1
      = (True, t', s') \<and> (s' = s1 \<or> s' = u)"
    using half assms(4) by (subst wait_confirm.simps) auto
  then obtain t' s' where "wait_confirm cenv around opamp_view uid want content (now + quot timeout 2) now s1
      = (True, t', s')" "s' = s1 \<or> s' = u" by blast
  with assms(1,2) show ?thesis
    by (auto simp: push_and_confirm_def opamp_pusher_def opamp_view_def Let_def want_def)
qed

text \<open>C24: A connected agent that acknowledges during the first round is confirmed: if after the push the
  surroundings lead, before the first deadline, to a state whose report confirms the content, the
  delivery succeeds, confirmed, without a restart.\<close>

theorem acknowledged_delivery_confirmed:
  assumes "reg_online uid (os_reg s)" and "push_config env uid content s = (ok_unit, s1)"
    and "2 \<le> timeout" and "around now s1 = Some (late, u)"
    and "reported_hash uid (os_reg u) = Some (content_hash (ce_sha cenv) content)"
  shows "\<exists>now' s'. push_and_confirm cenv around (Some (opamp_pusher env)) (Some opamp_view) uid content timeout now s
      = (Inr True, now', s') \<and> (s' = s1 \<or> s' = u)"
  using assms by (rule acknowledged_first_round)

theorem acknowledged_delivery_confirmed_witness:
  "\<exists>now' s'. push_and_confirm \<lparr>ce_sha = (\<lambda>_. [7]), ce_decode = (\<lambda>_. Inl '''')\<rparr>
      (\<lambda>t u. Some (0, on_reg (set_reported_hash ''00'' ''07'') u))
      (Some (opamp_pusher \<lparr>oe_sha = (\<lambda>_. [7]), oe_send_ok = (\<lambda>_ _. True), oe_order = rev\<rparr>)) (Some opamp_view)
      ''00'' ''x'' default_confirm_timeout 5
      ((new_opamp (new_registry 10) empty_db '''')\<lparr>os_reg := (new_registry 10)\<lparr>rg_conns := [''00'' \<mapsto> 1]\<rparr>\<rparr>)
    = (Inr True, now', s')"
proof -
  let ?env = "\<lparr>oe_sha = (\<lambda>_. [7]), oe_send_ok = (\<lambda>_ _. True), oe_order = rev\<rparr>"
  let ?s = "(new_opamp (new_registry 10) empty_db '''')\<lparr>os_reg := (new_registry 10)\<lparr>rg_conns := [''00'' \<mapsto> 1]\<rparr>\<rparr>"
  have "hex_decode ''00'' \<noteq> None" by code_simp
  then obtain s1 where s1: "push_config ?env ''00'' ''x'' ?s = (ok_unit, s1)"
    using push_config_accepted by blast
  have online: "reg_online ''00'' (os_reg ?s)" by (simp add: reg_online_def)
  have "content_hash (\<lambda>_. [7]) ''x'' = ''07''" by code_simp
  then have "reported_hash ''00'' (os_reg (on_reg (set_reported_hash ''00'' ''07'') s1)) =
      Some (content_hash (ce_sha \<lparr>ce_sha = (\<lambda>_. [7]), ce_decode = (\<lambda>_. Inl '''')\<rparr>) ''x'')"
    by (simp add: on_reg_def set_reported_hash_def reported_hash_def)
  from acknowledged_delivery_confirmed [OF online s1 _ _ this, of default_confirm_timeout
      "\<lambda>t u. Some (0, on_reg (set_reported_hash ''00'' ''07'') u)" 5 0]
  show ?thesis by (auto simp: default_confirm_timeout_def)
qed

end
