(* ===== verification/Git_Source.thy ===== *)
theory Git_Source
  imports Store_Models
begin

section \<open>Reading a git repository (internal/gitsource/gitsource.go)\<close>

text \<open>
  Read-only access to a local repository through the git command.  The command and the file system
  are parameters: a run takes the arguments after the fixed ones and yields its output, a failure or
  a timeout.  The model has the checks of references and paths, the parsing of the output and the
  short-lived cache of the status.  The lemmas show that an accepted path stays inside the repository,
  that an accepted reference is no option, and that the listing of commits reads back what git prints.
\<close>

subsection \<open>Data\<close>

record git_commit =
  gc_sha :: string
  gc_short_sha :: string
  gc_author :: string
  gc_date :: string
  gc_subject :: string
  gc_path :: string

record git_status =
  gs_dir :: string
  gs_ref :: string
  gs_sha :: string
  gs_short_sha :: string
  gs_author :: string
  gs_subject :: string
  gs_committed_at :: string
  gs_dirty :: bool

record git_repo =
  gr_dir :: string
  gr_timeout :: duration
  gr_cached_at :: time
  gr_cached :: "git_status option"

definition git_default_timeout :: duration where
  "git_default_timeout = 10 * nano_per_second"

definition git_cache_ttl :: duration where
  "git_cache_ttl = 10 * nano_per_second"

datatype git_outcome = GitOutput string | GitTimeout | GitError string

type_synonym git_command = "string list \<Rightarrow> git_outcome"

subsection \<open>Checks of references and paths\<close>

definition is_alnum :: "char \<Rightarrow> bool" where
  "is_alnum c \<longleftrightarrow> CHR ''A'' \<le> c \<and> c \<le> CHR ''Z'' \<or> CHR ''a'' \<le> c \<and> c \<le> CHR ''z'' \<or>
     CHR ''0'' \<le> c \<and> c \<le> CHR ''9''"

definition is_ref_char :: "char \<Rightarrow> bool" where
  "is_ref_char c \<longleftrightarrow> is_alnum c \<or> c \<in> set ''._/@^~{}-''"

definition ref_pattern :: "string \<Rightarrow> bool" where
  "ref_pattern ref = (case ref of [] \<Rightarrow> False | c # cs \<Rightarrow> is_alnum c \<and> list_all is_ref_char cs)"

definition validate_ref :: "string \<Rightarrow> go_error + unit" where
  "validate_ref ref =
    (if ref = '''' then Inl (ErrText MsgRefEmpty)
     else if length ref > 256 then Inl (ErrText MsgRefTooLong)
     else if contains ''..'' ref \<or> contains_any [CHR '' '', CHR 0x09, CHR 0x0A] ref
       then Inl (ErrText MsgRefIllegalChars)
     else if \<not> ref_pattern ref then Inl (ErrText MsgRefMalformed)
     else ok_unit)"

text \<open>
  \<open>filepath.Clean\<close>: empty and \<open>.\<close> elements are dropped, \<open>..\<close> removes the element before it, unless
  that is \<open>..\<close> as well or there is none; in a rooted path it is dropped at the root.
\<close>

fun clean_elements :: "bool \<Rightarrow> string list \<Rightarrow> string list \<Rightarrow> string list" where
  "clean_elements rooted acc [] = rev acc"
| "clean_elements rooted acc (e # es) =
     (if e = '''' \<or> e = ''.'' then clean_elements rooted acc es
      else if e = ''..'' then
        (case acc of
           [] \<Rightarrow> clean_elements rooted (if rooted then [] else [''..'']) es
         | a # as \<Rightarrow> if a = ''..'' then clean_elements rooted (''..'' # acc) es
                     else clean_elements rooted as es)
      else clean_elements rooted (e # acc) es)"

definition clean_path :: "string \<Rightarrow> string" where
  "clean_path path =
    (let rooted = has_prefix ''/'' path;
         body = join ''/'' (clean_elements rooted [] (split_on (CHR ''/'') path))
     in if rooted then ''/'' @ body else if body = '''' then ''.'' else body)"

definition is_abs_path :: "string \<Rightarrow> bool" where
  "is_abs_path path = has_prefix ''/'' path"

definition validate_pathspec :: "string \<Rightarrow> go_error + unit" where
  "validate_pathspec path =
    (if path = '''' then ok_unit
     else if length path > 512 then Inl (ErrText MsgPathTooLong)
     else if is_abs_path path \<or> has_prefix ''/'' path then Inl (ErrText MsgPathNotRelative)
     else if contains_any [CHR 0x0A, CHR 0x09] path then Inl (ErrText MsgPathIllegalChars)
     else let cleaned = clean_path path in
       if cleaned = ''..'' \<or> has_prefix ''..'' cleaned then Inl (ErrText MsgPathEscapes)
       else if contains '':'' path then Inl (ErrText MsgPathColon)
       else ok_unit)"

definition expand_pathspec :: "string \<Rightarrow> string \<Rightarrow> go_error + string" where
  "expand_pathspec tmpl uid =
    (if trim_space tmpl = '''' then Inl (ErrText MsgPathspecMissing)
     else let p = replace_all ''%s'' uid (replace_all ''{uid}'' uid tmpl) in
       case validate_pathspec p of Inl err \<Rightarrow> Inl err | Inr _ \<Rightarrow> Inr p)"

definition parse_limit :: "string \<Rightarrow> int \<Rightarrow> go_error + int" where
  "parse_limit v0 def_limit =
    (let v = trim_space v0 in
     if v = '''' then Inr def_limit
     else case parse_int v of
         None \<Rightarrow> Inl (ErrText MsgLimitRange)
       | Some n \<Rightarrow> if n < 1 \<or> n > 200 then Inl (ErrText MsgLimitRange) else Inr n)"

subsection \<open>Commands\<close>

definition git_run :: "git_command \<Rightarrow> string list \<Rightarrow> go_error + string" where
  "git_run git args =
    (case git args of
       GitOutput out \<Rightarrow> Inr out
     | GitTimeout \<Rightarrow> Inl (ErrText MsgGitTimeout)
     | GitError msg \<Rightarrow> Inl (ErrCmd MsgGitFailed msg))"

text \<open>What the file system says of the directory: its absolute path and whether it is a directory.\<close>

datatype dir_outcome = DirOk string | DirNotDirectory string | DirError string

definition open_repo :: "(string \<Rightarrow> dir_outcome) \<Rightarrow> git_command \<Rightarrow> string \<Rightarrow> go_error + git_repo" where
  "open_repo look git dir =
    (if trim_space dir = '''' then Inl (ErrText MsgGitDirEmpty)
     else case look dir of
         DirError msg \<Rightarrow> Inl (ErrCmd MsgGitDirInvalid msg)
       | DirNotDirectory p \<Rightarrow> Inl (ErrCmd MsgGitDirInvalid p)
       | DirOk p \<Rightarrow>
           (case git_run git [''rev-parse'', ''--git-dir''] of
              Inl err \<Rightarrow> Inl (ErrWrap MsgGitNotRepository err)
            | Inr out \<Rightarrow>
                if trim_space out = '''' then Inl (ErrText MsgGitNotRepository)
                else Inr \<lparr>gr_dir = p, gr_timeout = git_default_timeout, gr_cached_at = zero_time,
                  gr_cached = None\<rparr>))"

definition git_resolve :: "git_command \<Rightarrow> string \<Rightarrow> go_error + string" where
  "git_resolve git ref =
    (case validate_ref ref of
       Inl err \<Rightarrow> Inl err
     | Inr _ \<Rightarrow>
         (case git_run git [''rev-parse'', ''--verify'', ref @ ''^{commit}''] of
            Inl err \<Rightarrow> Inl (ErrWrap MsgGitRefUnresolved err)
          | Inr out \<Rightarrow> Inr (trim_space out)))"

definition unit_separator :: char where
  "unit_separator = CHR 0x1F"

definition log_format :: string where
  "log_format = ''--format=%H%x1f%h%x1f%an%x1f%aI%x1f%s''"

text \<open>\<open>strings.SplitN\<close> with five parts: the last part keeps further separators.\<close>

fun split_n :: "char \<Rightarrow> nat \<Rightarrow> string \<Rightarrow> string list" where
  "split_n sep n s =
    (let parts = split_on sep s in
     if length parts \<le> n then parts else take (n - 1) parts @ [join [sep] (drop (n - 1) parts)])"

definition trim_right_newlines :: "string \<Rightarrow> string" where
  "trim_right_newlines s = rev (dropWhile (\<lambda>c. c = CHR 0x0A) (rev s))"

definition status_of :: "git_command \<Rightarrow> time \<Rightarrow> string \<Rightarrow> (git_repo, go_error, git_status) op" where
  "status_of git now ref0 repo =
    (let ref = (if ref0 = '''' then ''HEAD'' else ref0) in
     case validate_ref ref of
       Inl err \<Rightarrow> (Inl err, repo)
     | Inr _ \<Rightarrow>
         if ref = ''HEAD'' \<and> gr_cached repo \<noteq> None \<and> time_sub now (gr_cached_at repo) < git_cache_ttl
         then (Inr (the (gr_cached repo)), repo)
         else case git_resolve git ref of
             Inl err \<Rightarrow> (Inl err, repo)
           | Inr sha \<Rightarrow>
               (case git_run git [''log'', ''-1'', ''--no-color'', log_format, sha] of
                  Inl err \<Rightarrow> (Inl err, repo)
                | Inr out \<Rightarrow>
                    (case split_n unit_separator 5 (trim_right_newlines out) of
                       [h, short, author, date, subject] \<Rightarrow>
                         (case git_run git [''status'', ''--porcelain''] of
                            Inl err \<Rightarrow> (Inl err, repo)
                          | Inr porcelain \<Rightarrow>
                              let st = \<lparr>gs_dir = gr_dir repo, gs_ref = ref, gs_sha = h, gs_short_sha = short,
                                gs_author = author, gs_subject = subject, gs_committed_at = date,
                                gs_dirty = (trim_space porcelain \<noteq> '''')\<rparr>
                              in (Inr st, if ref = ''HEAD''
                                  then repo\<lparr>gr_cached := Some st, gr_cached_at := now\<rparr> else repo))
                     | _ \<Rightarrow> (Inl (ErrText MsgGitLogUnexpected), repo))))"

definition parse_commit_line :: "string \<Rightarrow> string \<Rightarrow> git_commit list" where
  "parse_commit_line path line =
    (if trim_space line = '''' then []
     else case split_n unit_separator 5 line of
         [h, short, author, date, subject] \<Rightarrow>
           [\<lparr>gc_sha = h, gc_short_sha = short, gc_author = author, gc_date = date, gc_subject = subject,
             gc_path = path\<rparr>]
       | _ \<Rightarrow> [])"

definition parse_commits :: "string \<Rightarrow> string \<Rightarrow> git_commit list" where
  "parse_commits path out =
    concat (map (parse_commit_line path) (split_on (CHR 0x0A) (trim_right_newlines out)))"

definition commit_limit :: "int \<Rightarrow> int" where
  "commit_limit limit0 =
    (let limit = (if limit0 \<le> 0 then 20 else limit0) in if limit > 200 then 200 else limit)"

definition git_commits :: "git_command \<Rightarrow> string \<Rightarrow> string \<Rightarrow> int \<Rightarrow> go_error + git_commit list" where
  "git_commits git ref0 path limit0 =
    (let ref = (if ref0 = '''' then ''HEAD'' else ref0);
         args = [''log'', ''--no-color'', ''-n'' @ itoa (commit_limit limit0), log_format, ref];
         run = (\<lambda>args. case git_run git args of Inl err \<Rightarrow> Inl err | Inr out \<Rightarrow> Inr (parse_commits path out))
     in if path \<noteq> '''' then
          (case validate_pathspec path of
             Inl err \<Rightarrow> Inl err | Inr _ \<Rightarrow> run (args @ [''--'', path]))
        else run args)"

definition show_file :: "git_command \<Rightarrow> string \<Rightarrow> string \<Rightarrow> go_error + string" where
  "show_file git ref0 path =
    (let ref = (if ref0 = '''' then ''HEAD'' else ref0) in
     case validate_ref ref of
       Inl err \<Rightarrow> Inl err
     | Inr _ \<Rightarrow>
         (case validate_pathspec path of
            Inl err \<Rightarrow> Inl err
          | Inr _ \<Rightarrow>
              if path = '''' then Inl (ErrText MsgGitPathRequired)
              else case git_run git [''show'', ref @ '':'' @ path] of
                  Inl err \<Rightarrow> Inl (ErrWrap MsgGitReadFailed err)
                | Inr out \<Rightarrow> Inr out))"

subsection \<open>Accepted paths stay inside the repository\<close>

text \<open>Walking down the elements of a path from depth \<open>d\<close> never leaves the root.\<close>

fun stays_inside :: "nat \<Rightarrow> string list \<Rightarrow> bool" where
  "stays_inside d [] \<longleftrightarrow> True"
| "stays_inside d (e # es) \<longleftrightarrow>
     (if e = '''' \<or> e = ''.'' then stays_inside d es
      else if e = ''..'' then 0 < d \<and> stays_inside (d - 1) es
      else stays_inside (d + 1) es)"

lemma clean_elements_stuck:
  "acc \<noteq> [] \<Longrightarrow> last acc = ''..'' \<Longrightarrow>
    clean_elements False acc es \<noteq> [] \<and> hd (clean_elements False acc es) = ''..''"
proof (induction es arbitrary: acc)
  case Nil
  then show ?case by (simp add: hd_rev)
next
  case (Cons e es)
  then obtain a as where acc: "acc = a # as" by (cases acc) auto
  show ?case
  proof (cases "as = []")
    case True
    with Cons.prems acc have "a = ''..''" by simp
    with Cons.IH [of acc] Cons.IH [of "''..'' # acc"] Cons.IH [of "e # acc"] Cons.prems acc
    show ?thesis by simp
  next
    case False
    with Cons.IH [of acc] Cons.IH [of "''..'' # acc"] Cons.IH [of "e # acc"] Cons.IH [of as] Cons.prems acc
    show ?thesis by (cases "a = ''..''") simp_all
  qed
qed

lemma clean_elements_escape:
  "''..'' \<notin> set acc \<Longrightarrow> \<not> stays_inside (length acc) es \<Longrightarrow>
    clean_elements False acc es \<noteq> [] \<and> hd (clean_elements False acc es) = ''..''"
proof (induction es arbitrary: acc)
  case Nil
  then show ?case by simp
next
  case (Cons e es)
  show ?case
  proof (cases "e = '''' \<or> e = ''.'' \<or> e \<noteq> ''..''")
    case True
    with Cons show ?thesis by (auto split: if_splits)
  next
    case False
    show ?thesis
    proof (cases acc)
      case Nil
      with False show ?thesis using clean_elements_stuck [of "[''..'']" es] by simp
    next
      case (Cons a as)
      with False Cons.prems Cons.IH [of as] show ?thesis by auto
    qed
  qed
qed

lemma join_hd_prefix: "ws \<noteq> [] \<Longrightarrow> has_prefix (hd ws) (join sep ws)"
  by (cases ws) (auto simp: join_Cons has_prefix_iff)

lemma validate_pathspec_inside:
  assumes "validate_pathspec path = ok_unit" and "path \<noteq> ''''"
  shows "stays_inside 0 (split_on (CHR ''/'') path) \<and> \<not> has_prefix ''/'' path \<and> \<not> contains '':'' path"
proof -
  have rel: "\<not> has_prefix ''/'' path" and noup: "\<not> has_prefix ''..'' (clean_path path)"
    and colon: "\<not> contains '':'' path"
    using assms by (auto simp: validate_pathspec_def Let_def split: if_splits)
  have "stays_inside 0 (split_on (CHR ''/'') path)"
  proof (rule ccontr)
    let ?es = "clean_elements False [] (split_on (CHR ''/'') path)"
    assume "\<not> stays_inside 0 (split_on (CHR ''/'') path)"
    then have "?es \<noteq> []" "hd ?es = ''..''"
      using clean_elements_escape [of "[]" "split_on (CHR ''/'') path"] by simp_all
    then have "has_prefix ''..'' (join ''/'' ?es)" using join_hd_prefix [of ?es "''/''"] by simp
    moreover from this have "join ''/'' ?es \<noteq> ''''" by (auto simp: has_prefix_iff)
    ultimately have "has_prefix ''..'' (clean_path path)" using rel by (simp add: clean_path_def Let_def)
    with noup show False by simp
  qed
  with rel colon show ?thesis by simp
qed

text \<open>Whatever instance id is put into the configured template, a path that is accepted never climbs
  above the root of the repository at any of its elements, is relative and has no colon; a path with a
  leading \<open>..\<close> in a file name is refused with those that escape.\<close>

theorem expanded_path_stays_inside:
  "(expand_pathspec tmpl uid = Inr p \<longrightarrow> p \<noteq> '''' \<longrightarrow>
      stays_inside 0 (split_on (CHR ''/'') p) \<and> \<not> has_prefix ''/'' p \<and> \<not> contains '':'' p) \<and>
   validate_pathspec ''..data'' = Inl (ErrText MsgPathEscapes)"
proof -
  have "validate_pathspec ''..data'' = Inl (ErrText MsgPathEscapes)" by code_simp
  moreover have "validate_pathspec p = ok_unit" if "expand_pathspec tmpl uid = Inr p"
    using that by (auto simp: expand_pathspec_def Let_def split: if_splits sum.splits)
  ultimately show ?thesis using validate_pathspec_inside by blast
qed

theorem expanded_path_stays_inside_witness:
  "stays_inside 0 (split_on (CHR ''/'') ''cfg/a/../b.yaml'')"
proof -
  have "expand_pathspec ''cfg/{uid}.yaml'' ''a/../b'' = Inr ''cfg/a/../b.yaml''" by code_simp
  then show ?thesis using expanded_path_stays_inside [of "''cfg/{uid}.yaml''" "''a/../b''"] by simp
qed

subsection \<open>References\<close>

text \<open>An accepted reference begins with a letter or digit, so it is no option, and has no space and no
  range; resolving, reading and the status run git on accepted references only.  The listing of commits
  hands its reference to git unchecked: an option given as the reference reaches the command.\<close>

theorem references_checked:
  "(validate_ref ref = ok_unit \<longrightarrow> (\<exists>c cs. ref = c # cs \<and> is_alnum c) \<and> \<not> contains ''..'' ref) \<and>
   (validate_ref ref \<noteq> ok_unit \<longrightarrow> ref \<noteq> '''' \<longrightarrow>
      \<not> is_ok (git_resolve git ref) \<and> \<not> is_ok (show_file git ref path) \<and>
      snd (status_of git now ref repo) = repo \<and> \<not> is_ok (fst (status_of git now ref repo))) \<and>
   validate_ref ''--output=f'' \<noteq> ok_unit \<and>
   git_commits git ''--output=f'' '''' 5 =
     (case git [''log'', ''--no-color'', ''-n5'', log_format, ''--output=f''] of
        GitOutput out \<Rightarrow> Inr (parse_commits '''' out)
      | GitTimeout \<Rightarrow> Inl (ErrText MsgGitTimeout)
      | GitError msg \<Rightarrow> Inl (ErrCmd MsgGitFailed msg))"
proof -
  have "(\<exists>c cs. ref = c # cs \<and> is_alnum c) \<and> \<not> contains ''..'' ref" if "validate_ref ref = ok_unit"
    using that by (auto simp: validate_ref_def ref_pattern_def split: if_splits list.splits)
  moreover have "\<not> is_ok (git_resolve git ref) \<and> \<not> is_ok (show_file git ref path) \<and>
      snd (status_of git now ref repo) = repo \<and> \<not> is_ok (fst (status_of git now ref repo))"
    if "validate_ref ref \<noteq> ok_unit" "ref \<noteq> ''''"
    using that by (cases "validate_ref ref")
      (auto simp: git_resolve_def show_file_def status_of_def Let_def)
  moreover have "validate_ref ''--output=f'' \<noteq> ok_unit" by code_simp
  moreover have "itoa 5 = ''5''" by code_simp
  ultimately show ?thesis
    by (auto simp: git_commits_def commit_limit_def git_run_def Let_def split: git_outcome.split)
qed

theorem references_checked_witness:
  "\<not> is_ok (git_resolve (\<lambda>_. GitOutput ''abc'') ''-x'') \<and> (\<exists>c cs. ''main'' = c # cs \<and> is_alnum c)"
proof -
  have "validate_ref ''-x'' \<noteq> ok_unit" and "validate_ref ''main'' = ok_unit" by code_simp+
  then show ?thesis
    using references_checked [of "''-x''" "\<lambda>_. GitOutput ''abc''"]
      references_checked [of "''main''" "\<lambda>_. GitOutput ''abc''"] by simp
qed

subsection \<open>The listing of commits\<close>

text \<open>What git prints for the format of the listing: one line for each commit.\<close>

definition commit_line :: "git_commit \<Rightarrow> string" where
  "commit_line c = join [unit_separator] [gc_sha c, gc_short_sha c, gc_author c, gc_date c, gc_subject c]"

definition log_output :: "git_commit list \<Rightarrow> string" where
  "log_output cs = concat (map (\<lambda>c. commit_line c @ [CHR 0x0A]) cs)"

definition printable_commit :: "git_commit \<Rightarrow> bool" where
  "printable_commit c \<longleftrightarrow>
     (case gc_sha c of [] \<Rightarrow> False | x # xs \<Rightarrow> is_alnum x) \<and>
     (\<forall>f \<in> {gc_sha c, gc_short_sha c, gc_author c, gc_date c}. unit_separator \<notin> set f \<and> CHR 0x0A \<notin> set f) \<and>
     CHR 0x0A \<notin> set (gc_subject c)"

lemma trim_left_keeps:
  assumes "\<not> is_ascii_space c" and "c < CHR 0x80"
  shows "\<forall>w \<in> set ws. c \<notin> set w \<Longrightarrow> c \<in> set s \<Longrightarrow> c \<in> set (trim_left ws s)"
proof (induction ws s rule: trim_left.induct)
  case (1 ws)
  then show ?case by simp
next
  case (2 ws d ds)
  show ?case
  proof (cases "is_ascii_space d \<or> d < CHR 0x80")
    case True
    with 2 assms show ?thesis by auto
  next
    case False
    show ?thesis
    proof (cases "List.find (\<lambda>w. w \<noteq> [] \<and> has_prefix w (d # ds)) ws")
      case None
      with False "2.prems" show ?thesis by simp
    next
      case (Some w)
      then have w: "w \<in> set ws" and "has_prefix w (d # ds)" by (auto simp: find_Some_iff)
      then obtain r where r: "d # ds = w @ r" by (auto simp: has_prefix_iff)
      have "c \<in> set (w @ r)" using "2.prems"(2) by (simp only: r)
      with "2.prems"(1) w have "c \<in> set r" by auto
      moreover have "drop (length w) (d # ds) = r" by (simp only: r) simp
      ultimately have "c \<in> set (trim_left ws (drop (length w) (d # ds)))"
        using "2.IH"(2) [OF _ _ Some] False "2.prems"(1) by simp
      with False Some show ?thesis by simp
    qed
  qed
qed

lemma trim_space_keeps:
  assumes "is_alnum c" and "c \<in> set s"
  shows "trim_space s \<noteq> ''''"
proof -
  have plain: "\<not> is_ascii_space c" "c < CHR 0x80"
    using assms(1) by (auto simp: is_alnum_def is_ascii_space_def less_eq_char_def less_char_def)
  moreover have "\<forall>w \<in> set wide_spaces. c \<notin> set w"
    using plain(2) by (auto simp: wide_spaces_def less_char_def)
  ultimately have "c \<in> set (trim_left wide_spaces s)"
    and "c \<in> set (rev (trim_left wide_spaces s)) \<Longrightarrow> c \<in> set (trim_left (map rev wide_spaces) (rev (trim_left wide_spaces s)))"
    using trim_left_keeps [of c wide_spaces s] trim_left_keeps [of c "map rev wide_spaces"] assms(2) by auto
  then show ?thesis by (auto simp: trim_space_def)
qed

lemma split_n_commit_line:
  assumes "printable_commit c"
  shows "split_n unit_separator 5 (commit_line c) =
    [gc_sha c, gc_short_sha c, gc_author c, gc_date c, gc_subject c]"
proof -
  let ?sub = "gc_subject c"
  obtain w ws where sub: "split_on unit_separator ?sub = w # ws"
    using split_on_nonempty [of unit_separator ?sub] by (cases "split_on unit_separator ?sub") auto
  then have subj: "join [unit_separator] (w # ws) = ?sub" using join_split_on [of unit_separator ?sub] by simp
  have "split_on unit_separator (commit_line c) =
      [gc_sha c, gc_short_sha c, gc_author c, gc_date c] @ split_on unit_separator ?sub"
    using assms by (simp add: commit_line_def printable_commit_def split_on_append_sep)
  then show ?thesis using sub subj by (cases ws) (simp_all add: Let_def eval_nat_numeral)
qed

lemma parse_commit_line_round:
  assumes "printable_commit c"
  shows "parse_commit_line path (commit_line c) = [c\<lparr>gc_path := path\<rparr>]"
proof -
  obtain x xs where sha: "gc_sha c = x # xs" "is_alnum x"
    using assms by (auto simp: printable_commit_def split: list.splits)
  then have "x \<in> set (commit_line c)" by (simp add: commit_line_def)
  then have "trim_space (commit_line c) \<noteq> ''''" using trim_space_keeps sha(2) by blast
  then show ?thesis
    by (simp add: parse_commit_line_def split_n_commit_line [OF assms] del: split_n.simps)
qed

lemma log_output_split:
  "cs \<noteq> [] \<Longrightarrow> \<forall>c \<in> set cs. printable_commit c \<Longrightarrow>
    split_on (CHR 0x0A) (trim_right_newlines (log_output cs)) = map commit_line cs"
proof -
  assume cs: "cs \<noteq> []" "\<forall>c \<in> set cs. printable_commit c"
  have nonl: "CHR 0x0A \<notin> set (commit_line c) \<and> commit_line c \<noteq> []" if "c \<in> set cs" for c
    using cs(2) that by (auto simp: printable_commit_def commit_line_def unit_separator_def split: list.splits)
  have out: "log_output cs = join [CHR 0x0A] (map commit_line cs) @ [CHR 0x0A]"
    using cs(1) by (induction cs) (auto simp: log_output_def join_Cons)
  obtain ds d where ds: "cs = ds @ [d]" using cs(1) by (cases cs rule: rev_cases) auto
  have "\<exists>pre. join [CHR 0x0A] (map commit_line (ds @ [d])) = pre @ commit_line d" for d
    by (induction ds) (auto simp: join_Cons)
  then obtain pre where pre: "join [CHR 0x0A] (map commit_line cs) = pre @ commit_line d"
    using ds by blast
  obtain x xs where x: "rev (commit_line d) = x # xs" "x \<noteq> CHR 0x0A"
    using nonl [of d] ds by (metis in_set_conv_decomp list.set_intros(1) rev_is_Nil_conv set_rev neq_Nil_conv)
  then have "commit_line d = rev xs @ [x]" by (metis rev.simps(2) rev_rev_ident)
  then have "trim_right_newlines (log_output cs) = join [CHR 0x0A] (map commit_line cs)"
    using x(2) by (simp add: trim_right_newlines_def out pre)
  moreover have "split_on (CHR 0x0A) (join [CHR 0x0A] (map commit_line cs)) = map commit_line cs"
    using nonl cs(1) by (intro split_on_join) auto
  ultimately show ?thesis by simp
qed

text \<open>The listing reads back every commit git prints, whatever its subject holds beside a line break,
  with the path that was asked for, in the order of the output.\<close>

theorem commits_read_back:
  assumes "\<forall>c \<in> set cs. printable_commit c"
  shows "parse_commits path (log_output cs) = map (\<lambda>c. c\<lparr>gc_path := path\<rparr>) cs"
proof (cases "cs = []")
  case True
  then show ?thesis
    by (simp add: parse_commits_def log_output_def trim_right_newlines_def parse_commit_line_def)
next
  case False
  have "concat (map (parse_commit_line path) (map commit_line cs)) = map (\<lambda>c. c\<lparr>gc_path := path\<rparr>) cs"
    using assms by (induction cs) (simp_all add: parse_commit_line_round)
  with False assms show ?thesis by (simp add: parse_commits_def log_output_split)
qed

theorem commits_read_back_witness:
  "parse_commits ''a.yaml'' (log_output
     [\<lparr>gc_sha = ''ab1'', gc_short_sha = ''ab'', gc_author = ''me'', gc_date = ''today'',
       gc_subject = ''fix '' @ [unit_separator] @ ''it'', gc_path = ''''\<rparr>]) =
   [\<lparr>gc_sha = ''ab1'', gc_short_sha = ''ab'', gc_author = ''me'', gc_date = ''today'',
       gc_subject = ''fix '' @ [unit_separator] @ ''it'', gc_path = ''a.yaml''\<rparr>]"
proof -
  let ?cs = "[\<lparr>gc_sha = ''ab1'', gc_short_sha = ''ab'', gc_author = ''me'', gc_date = ''today'',
       gc_subject = ''fix '' @ [unit_separator] @ ''it'', gc_path = ''''\<rparr>]"
  have "\<forall>c \<in> set ?cs. printable_commit c" by code_simp
  from commits_read_back [OF this, of "''a.yaml''"] show ?thesis by simp
qed

end
