(* ===== verification/Runtime_Config.thy ===== *)
theory Runtime_Config
  imports Go_Strings
begin

section \<open>Runtime configuration (internal/config/config.go)\<close>

text \<open>
  The configuration is read from environment variables, with a default for each, and checked once at
  start-up.  The environment is a map from names to values.  The model has every variable, the
  parsers of the standard library it uses (\<open>strconv.ParseBool\<close>, \<open>time.ParseDuration\<close>), and the checks
  in their order, with the two fields they fill in.  The lemmas show what an accepted configuration
  guarantees, exactly when the start is refused, and that the login protection is off only when the
  environment asks for it.
\<close>

subsection \<open>Data\<close>

text \<open>\<open>WebAuthMode\<close> is a string type; \<open>validateWeb\<close> admits the two constants.\<close>

type_synonym web_auth_mode = string

definition web_auth_simple :: web_auth_mode where
  "web_auth_simple = ''simple''"

definition web_auth_off :: web_auth_mode where
  "web_auth_off = ''off''"

record web_config =
  web_disable :: bool
  web_dir :: string
  web_auth_mode :: web_auth_mode
  web_admin_user :: string
  web_admin_hash :: string
  web_cors_origins :: "string list"
  web_demo_mode :: bool

record llm_config =
  llm_base_url :: string
  llm_api_key :: string
  llm_model :: string
  llm_backup_base_url :: string
  llm_backup_api_key :: string
  llm_backup_model :: string
  llm_local_base_url :: string
  llm_local_model :: string
  llm_timeout :: duration
  llm_retry :: int
  llm_retry_base :: duration
  llm_circuit_threshold :: int
  llm_circuit_cooldown :: duration
  llm_cache_ttl :: duration

record config =
  cfg_http_addr :: string
  cfg_db_driver :: string
  cfg_db_dsn :: string
  cfg_db_sqlite_path :: string
  cfg_opamp_auth_token :: string
  cfg_mcp_auth_token :: string
  cfg_otelcol_bin :: string
  cfg_strict_validate :: bool
  cfg_llm :: llm_config
  cfg_require_approval :: bool
  cfg_config_source :: string
  cfg_git_repo_dir :: string
  cfg_git_config_pathspec :: string
  cfg_git_ref :: string
  cfg_web :: web_config

datatype config_error =
    CeDbDriver string
  | CeDbDsnRequired
  | CeLlmKeyRequired
  | CeLlmBaseUrlRequired
  | CeAdminUserEmpty
  | CePasswordHashRequired
  | CeAuthMode string
  | CeGitDirRequired
  | CeGitPathspecRequired
  | CeConfigSource string

type_synonym environment = "string \<rightharpoonup> string"

subsection \<open>Parsers of the standard library\<close>

definition parse_bool :: "string \<Rightarrow> bool option" where
  "parse_bool s =
    (if s \<in> set [''1'', ''t'', ''T'', ''TRUE'', ''true'', ''True''] then Some True
     else if s \<in> set [''0'', ''f'', ''F'', ''FALSE'', ''false'', ''False''] then Some False
     else None)"

text \<open>
  \<open>time.ParseDuration\<close> reads a sequence of decimal numbers with units.  The value of a fraction is
  computed in floating point by the library; the model rounds the exact value down.
\<close>

definition unit_nanos :: "string \<Rightarrow> nat option" where
  "unit_nanos u =
    (if u = ''ns'' then Some 1
     else if u \<in> set [''us'', [CHR 0xC2, CHR 0xB5, CHR ''s''], [CHR 0xCE, CHR 0xBC, CHR ''s'']] then Some 1000
     else if u = ''ms'' then Some 1000000
     else if u = ''s'' then Some 1000000000
     else if u = ''m'' then Some 60000000000
     else if u = ''h'' then Some 3600000000000
     else None)"

fun leading_int :: "nat \<Rightarrow> string \<Rightarrow> (nat \<times> string) option" where
  "leading_int x [] = Some (x, [])"
| "leading_int x (c # cs) =
     (case digit_value c of
        None \<Rightarrow> Some (x, c # cs)
      | Some d \<Rightarrow>
          if x > 2 ^ 63 div 10 then None
          else if 10 * x + d > 2 ^ 63 then None
          else leading_int (10 * x + d) cs)"

fun leading_fraction :: "bool \<Rightarrow> nat \<Rightarrow> nat \<Rightarrow> string \<Rightarrow> nat \<times> nat \<times> string" where
  "leading_fraction over x scale [] = (x, scale, [])"
| "leading_fraction over x scale (c # cs) =
     (case digit_value c of
        None \<Rightarrow> (x, scale, c # cs)
      | Some d \<Rightarrow>
          if over \<or> x > (2 ^ 63 - 1) div 10 \<or> 10 * x + d > 2 ^ 63 then leading_fraction True x scale cs
          else leading_fraction False (10 * x + d) (10 * scale) cs)"

definition fraction_part :: "string \<Rightarrow> nat \<times> nat \<times> string \<times> bool" where
  "fraction_part s =
    (case s of
       [] \<Rightarrow> (0, 1, s, False)
     | c # cs \<Rightarrow>
         if c = CHR ''.'' then
           (case leading_fraction False 0 1 cs of (f, scale, r) \<Rightarrow> (f, scale, r, length r \<noteq> length cs))
         else (0, 1, s, False))"

definition is_unit_char :: "char \<Rightarrow> bool" where
  "is_unit_char c \<longleftrightarrow> c \<noteq> CHR ''.'' \<and> digit_value c = None"

definition with_unit :: "nat \<Rightarrow> nat \<Rightarrow> nat \<Rightarrow> string \<Rightarrow> (nat \<times> string) option" where
  "with_unit v f scale s =
    (case (if takeWhile is_unit_char s = [] then None else unit_nanos (takeWhile is_unit_char s)) of
       None \<Rightarrow> None
     | Some n \<Rightarrow>
         if v > 2 ^ 63 div n then None
         else if f > 0 \<and> v * n + f * n div scale > 2 ^ 63 then None
         else Some (v * n + f * n div scale, dropWhile is_unit_char s))"

definition duration_part :: "string \<Rightarrow> (nat \<times> string) option" where
  "duration_part s =
    (case leading_int 0 s of
       None \<Rightarrow> None
     | Some (v, s1) \<Rightarrow>
         (case fraction_part s1 of (f, scale, s2, post) \<Rightarrow>
            if length s1 = length s \<and> \<not> post then None else with_unit v f scale s2))"

lemma leading_int_shorter: "leading_int x s = Some (v, r) \<Longrightarrow> length r \<le> length s"
  by (induction x s rule: leading_int.induct) (fastforce split: option.splits if_splits)+

lemma leading_fraction_shorter: "leading_fraction ov x sc s = (f, sc', r) \<Longrightarrow> length r \<le> length s"
  by (induction ov x sc s rule: leading_fraction.induct) (fastforce split: option.splits if_splits)+

lemma fraction_part_shorter: "fraction_part s = (f, scale, r, post) \<Longrightarrow> length r \<le> length s"
  by (auto simp: fraction_part_def split: list.splits if_splits prod.splits
      dest: leading_fraction_shorter)

lemma with_unit_shorter: "with_unit v f scale s = Some (n, r) \<Longrightarrow> length r < length s"
proof -
  assume "with_unit v f scale s = Some (n, r)"
  then have "takeWhile is_unit_char s \<noteq> []" "r = dropWhile is_unit_char s"
    by (auto simp: with_unit_def split: option.splits if_splits)
  then show ?thesis
    using takeWhile_dropWhile_id [of is_unit_char s]
    by (metis length_append length_greater_0_conv less_add_same_cancel2)
qed

lemma duration_part_shorter: "duration_part s = Some (n, r) \<Longrightarrow> length r < length s"
  by (fastforce simp: duration_part_def split: option.splits prod.splits if_splits
      dest: leading_int_shorter fraction_part_shorter with_unit_shorter)

text \<open>The sum is kept in an unsigned 64-bit integer.\<close>

function sum_parts :: "nat \<Rightarrow> string \<Rightarrow> nat option" where
  "sum_parts d s =
    (if s = [] then Some d
     else case duration_part s of
            None \<Rightarrow> None
          | Some (v, r) \<Rightarrow>
              if (d + v) mod 2 ^ 64 > 2 ^ 63 then None else sum_parts ((d + v) mod 2 ^ 64) r)"
  by pat_completeness auto
termination
  by (relation "measure (\<lambda>(d, s). length s)") (auto dest: duration_part_shorter)

declare sum_parts.simps [simp del]

definition parse_duration :: "string \<Rightarrow> duration option" where
  "parse_duration s0 =
    (let neg = has_prefix ''-'' s0;
         s = (if neg \<or> has_prefix ''+'' s0 then tl s0 else s0)
     in if s = ''0'' then Some 0
        else if s = '''' then None
        else case sum_parts 0 s of
            None \<Rightarrow> None
          | Some d \<Rightarrow> if neg then Some (- int d) else if d > 2 ^ 63 - 1 then None else Some (int d))"

subsection \<open>Reading a variable\<close>

definition getenv :: "environment \<Rightarrow> string \<Rightarrow> string" where
  "getenv env key = (case env key of Some v \<Rightarrow> v | None \<Rightarrow> '''')"

definition get_env :: "environment \<Rightarrow> string \<Rightarrow> string \<Rightarrow> string" where
  "get_env env key def_value = (case env key of Some v \<Rightarrow> if v \<noteq> '''' then v else def_value | None \<Rightarrow> def_value)"

definition get_parsed :: "(string \<Rightarrow> 'a option) \<Rightarrow> environment \<Rightarrow> string \<Rightarrow> 'a \<Rightarrow> 'a" where
  "get_parsed parse env key def_value =
    (case env key of
       Some v \<Rightarrow> (case parse v of Some x \<Rightarrow> x | None \<Rightarrow> def_value)
     | None \<Rightarrow> def_value)"

definition get_int :: "environment \<Rightarrow> string \<Rightarrow> int \<Rightarrow> int" where
  "get_int = get_parsed parse_int"

definition get_bool :: "environment \<Rightarrow> string \<Rightarrow> bool \<Rightarrow> bool" where
  "get_bool = get_parsed parse_bool"

definition get_duration :: "environment \<Rightarrow> string \<Rightarrow> duration \<Rightarrow> duration" where
  "get_duration = get_parsed parse_duration"

definition split_csv :: "string \<Rightarrow> string list" where
  "split_csv s =
    (if s = '''' then [] else filter (\<lambda>p. p \<noteq> '''') (map trim_space (split_on (CHR '','') s)))"

subsection \<open>Checks\<close>

definition validate_web :: "config \<Rightarrow> config_error + unit" where
  "validate_web c =
    (let w = cfg_web c in
     if web_auth_mode w = web_auth_simple then
       (if web_disable w then ok_unit
        else if web_admin_user w = '''' then Inl CeAdminUserEmpty
        else if web_admin_hash w = '''' then Inl CePasswordHashRequired
        else ok_unit)
     else if web_auth_mode w = web_auth_off then ok_unit
     else Inl (CeAuthMode (web_auth_mode w)))"

definition validate_gitops :: "config \<Rightarrow> config_error + config" where
  "validate_gitops c =
    (if cfg_config_source c = '''' then Inr (c\<lparr>cfg_config_source := ''builtin''\<rparr>)
     else if cfg_config_source c = ''builtin'' then Inr c
     else if cfg_config_source c = ''git'' then
       (if trim_space (cfg_git_repo_dir c) = '''' then Inl CeGitDirRequired
        else if trim_space (cfg_git_config_pathspec c) = '''' then Inl CeGitPathspecRequired
        else if cfg_git_ref c = '''' then Inr (c\<lparr>cfg_git_ref := ''HEAD''\<rparr>)
        else Inr c)
     else Inl (CeConfigSource (cfg_config_source c)))"

definition validate_config :: "config \<Rightarrow> config_error + config" where
  "validate_config c =
    (if cfg_db_driver c \<noteq> ''mysql'' \<and> cfg_db_driver c \<noteq> ''sqlite'' then Inl (CeDbDriver (cfg_db_driver c))
     else if cfg_db_driver c = ''mysql'' \<and> cfg_db_dsn c = '''' then Inl CeDbDsnRequired
     else if llm_api_key (cfg_llm c) = '''' \<and> llm_backup_api_key (cfg_llm c) = '''' then Inl CeLlmKeyRequired
     else if llm_base_url (cfg_llm c) = '''' then Inl CeLlmBaseUrlRequired
     else case validate_web c of
            Inl e \<Rightarrow> Inl e
          | Inr _ \<Rightarrow> validate_gitops c)"

subsection \<open>Loading\<close>

definition read_web :: "environment \<Rightarrow> web_config" where
  "read_web env =
    \<lparr>web_disable = get_bool env ''DISABLE_WEB'' False,
     web_dir = getenv env ''WEB_DIR'',
     web_auth_mode = get_env env ''WEB_AUTH_MODE'' web_auth_simple,
     web_admin_user = get_env env ''WEB_ADMIN_USER'' ''admin'',
     web_admin_hash = getenv env ''WEB_ADMIN_PASSWORD_HASH'',
     web_cors_origins = split_csv (getenv env ''CORS_ALLOWED_ORIGINS''),
     web_demo_mode = get_bool env ''DEMO_MODE'' False\<rparr>"

definition read_llm :: "environment \<Rightarrow> llm_config" where
  "read_llm env =
    \<lparr>llm_base_url = get_env env ''LLM_BASE_URL'' ''https://api.deepseek.com'',
     llm_api_key = getenv env ''LLM_API_KEY'',
     llm_model = get_env env ''LLM_MODEL'' ''deepseek-chat'',
     llm_backup_base_url = getenv env ''LLM_BACKUP_BASE_URL'',
     llm_backup_api_key = getenv env ''LLM_BACKUP_API_KEY'',
     llm_backup_model = getenv env ''LLM_BACKUP_MODEL'',
     llm_local_base_url = getenv env ''LLM_LOCAL_BASE_URL'',
     llm_local_model = getenv env ''LLM_LOCAL_MODEL'',
     llm_timeout = get_duration env ''LLM_TIMEOUT'' (60 * nano_per_second),
     llm_retry = get_int env ''LLM_RETRY'' 3,
     llm_retry_base = get_duration env ''LLM_RETRY_BASE'' nano_per_second,
     llm_circuit_threshold = get_int env ''LLM_CIRCUIT_THRESHOLD'' 5,
     llm_circuit_cooldown = get_duration env ''LLM_CIRCUIT_COOLDOWN'' (30 * nano_per_second),
     llm_cache_ttl = get_duration env ''LLM_CACHE_TTL'' (10 * 60 * nano_per_second)\<rparr>"

definition read_config :: "environment \<Rightarrow> config" where
  "read_config env =
    \<lparr>cfg_http_addr = get_env env ''HTTP_ADDR'' '':8080'',
     cfg_db_driver = get_env env ''DB_DRIVER'' ''sqlite'',
     cfg_db_dsn = get_env env ''DB_DSN'' '''',
     cfg_db_sqlite_path = get_env env ''DB_SQLITE_PATH'' ''./data/opamp.db'',
     cfg_opamp_auth_token = getenv env ''OPAMP_AUTH_TOKEN'',
     cfg_mcp_auth_token = getenv env ''MCP_AUTH_TOKEN'',
     cfg_otelcol_bin = get_env env ''OTELCOL_BIN'' ''/usr/local/bin/otelcol-contrib'',
     cfg_strict_validate = get_bool env ''STRICT_VALIDATE'' False,
     cfg_llm = read_llm env,
     cfg_require_approval = get_bool env ''REQUIRE_APPROVAL'' True,
     cfg_config_source = get_env env ''CONFIG_SOURCE'' ''builtin'',
     cfg_git_repo_dir = getenv env ''GIT_REPO_DIR'',
     cfg_git_config_pathspec = getenv env ''GIT_CONFIG_PATHSPEC'',
     cfg_git_ref = get_env env ''GIT_REF'' ''HEAD'',
     cfg_web = read_web env\<rparr>"

definition load_config :: "environment \<Rightarrow> config_error + config" where
  "load_config env = validate_config (read_config env)"

section \<open>Lemmas\<close>

lemma get_env_default [simp]: "get_env env key def_value = '''' \<longleftrightarrow> def_value = '''' \<and> env key \<in> {None, Some ''''}"
  by (auto simp: get_env_def split: option.splits)

lemma get_env_value:
  "get_env env key def_value = v \<Longrightarrow> v \<noteq> def_value \<Longrightarrow> env key = Some v \<and> v \<noteq> ''''"
  by (auto simp: get_env_def split: option.splits if_splits)

lemma sum_parts_bound: "sum_parts d s = Some n \<Longrightarrow> d \<le> 2 ^ 63 \<Longrightarrow> n \<le> 2 ^ 63"
proof (induction d s rule: sum_parts.induct)
  case (1 d s)
  from "1.prems" show ?case
    by (subst (asm) sum_parts.simps)
      (auto split: if_splits option.splits prod.splits dest!: "1.IH" simp: not_less)
qed

lemma get_parsed_cases: "get_parsed parse env key x = x \<or> (\<exists>v. env key = Some v \<and> parse v = Some (get_parsed parse env key x))"
  by (auto simp: get_parsed_def split: option.splits)

lemma parse_bool_false: "parse_bool v = Some False \<Longrightarrow> v \<in> {''0'', ''f'', ''F'', ''FALSE'', ''false'', ''False''}"
  by (auto simp: parse_bool_def split: if_splits)

lemma get_bool_false:
  "\<not> get_bool env key True \<Longrightarrow>
    \<exists>v. env key = Some v \<and> v \<in> {''0'', ''f'', ''F'', ''FALSE'', ''false'', ''False''}"
  using get_parsed_cases [of parse_bool env key True] parse_bool_false by (fastforce simp: get_bool_def)

text \<open>The values the checks look at are those of the environment.\<close>

lemma read_config_fields:
  "cfg_web (read_config env) = read_web env" "cfg_llm (read_config env) = read_llm env"
  "cfg_db_driver (read_config env) = get_env env ''DB_DRIVER'' ''sqlite''"
  "cfg_config_source (read_config env) = get_env env ''CONFIG_SOURCE'' ''builtin''"
  "cfg_git_ref (read_config env) = get_env env ''GIT_REF'' ''HEAD''"
  "cfg_git_repo_dir (read_config env) = getenv env ''GIT_REPO_DIR''"
  "cfg_git_config_pathspec (read_config env) = getenv env ''GIT_CONFIG_PATHSPEC''"
  "cfg_db_dsn (read_config env) = get_env env ''DB_DSN'' ''''"
  by (simp_all add: read_config_def)

lemma validate_gitops_ok:
  assumes "validate_gitops c = Inr c'"
  shows "cfg_web c' = cfg_web c \<and> cfg_llm c' = cfg_llm c \<and> cfg_db_driver c' = cfg_db_driver c \<and>
    cfg_db_dsn c' = cfg_db_dsn c \<and> cfg_git_repo_dir c' = cfg_git_repo_dir c \<and>
    cfg_git_config_pathspec c' = cfg_git_config_pathspec c \<and>
    (cfg_config_source c' = ''builtin'' \<or> cfg_config_source c' = ''git'' \<and>
      trim_space (cfg_git_repo_dir c) \<noteq> '''' \<and> trim_space (cfg_git_config_pathspec c) \<noteq> '''' \<and>
      cfg_git_ref c' \<noteq> '''')"
  using assms by (auto simp: validate_gitops_def split: if_splits)

text \<open>The environment of a start that succeeds: the fields of the configuration it returns.\<close>

lemma load_config_read: "load_config env = Inr c \<Longrightarrow> c = read_config env"
proof -
  assume "load_config env = Inr c"
  then have "validate_gitops (read_config env) = Inr c"
    by (auto simp: load_config_def validate_config_def split: if_splits sum.splits)
  moreover have "cfg_config_source (read_config env) \<noteq> ''''" "cfg_git_ref (read_config env) \<noteq> ''''"
    by (simp_all add: read_config_fields)
  ultimately show ?thesis
    by (auto simp: validate_gitops_def split: if_splits)
qed

definition git_environment :: environment where
  "git_environment = [''LLM_API_KEY'' \<mapsto> ''sk-1'', ''WEB_ADMIN_PASSWORD_HASH'' \<mapsto> ''$2y$10$abc'',
    ''CONFIG_SOURCE'' \<mapsto> ''git'', ''GIT_REPO_DIR'' \<mapsto> ''/srv/conf'',
    ''GIT_CONFIG_PATHSPEC'' \<mapsto> ''agents/{uid}.yaml'', ''LLM_TIMEOUT'' \<mapsto> ''1m30.5s'']"

lemma loaded_config_usable_modes:
  assumes "load_config env = Inr c"
  shows "web_auth_mode (cfg_web c) = web_auth_off \<or> web_auth_mode (cfg_web c) = web_auth_simple \<and>
    (web_disable (cfg_web c) \<or> web_admin_user (cfg_web c) \<noteq> '''' \<and> web_admin_hash (cfg_web c) \<noteq> '''')"
proof -
  from assms have "validate_web c = ok_unit"
    unfolding load_config_read [OF assms, symmetric]
    by (auto simp: load_config_read [OF assms] load_config_def validate_config_def split: if_splits sum.splits)
  then show ?thesis
    by (auto simp: validate_web_def Let_def split: if_splits)
qed

text \<open>C32: A configuration that loads is usable: the driver is one of the two, a key and an address of a model
  are there, the authentication mode is one of the two and a protected web interface has a user and a
  password hash, and the source of configurations is the built-in one or a repository with a directory,
  a path template and a reference.\<close>

theorem loaded_config_usable:
  assumes "load_config env = Inr c"
  shows "(cfg_db_driver c = ''sqlite'' \<or> cfg_db_driver c = ''mysql'' \<and> cfg_db_dsn c \<noteq> '''') \<and>
    (llm_api_key (cfg_llm c) \<noteq> '''' \<or> llm_backup_api_key (cfg_llm c) \<noteq> '''') \<and>
    llm_base_url (cfg_llm c) \<noteq> '''' \<and>
    (web_auth_mode (cfg_web c) = web_auth_off \<or> web_auth_mode (cfg_web c) = web_auth_simple \<and>
      (web_disable (cfg_web c) \<or> web_admin_user (cfg_web c) \<noteq> '''' \<and> web_admin_hash (cfg_web c) \<noteq> '''')) \<and>
    (cfg_config_source c = ''builtin'' \<or> cfg_config_source c = ''git'' \<and> cfg_git_ref c \<noteq> '''' \<and>
      trim_space (cfg_git_repo_dir c) \<noteq> '''' \<and> trim_space (cfg_git_config_pathspec c) \<noteq> '''')"
proof -
  from assms have git: "validate_gitops (read_config env) = Inr c"
    and db: "cfg_db_driver (read_config env) = ''sqlite'' \<or>
      cfg_db_driver (read_config env) = ''mysql'' \<and> cfg_db_dsn (read_config env) \<noteq> ''''"
      "llm_api_key (cfg_llm (read_config env)) \<noteq> '''' \<or> llm_backup_api_key (cfg_llm (read_config env)) \<noteq> ''''"
      "llm_base_url (cfg_llm (read_config env)) \<noteq> ''''"
    by (auto simp: load_config_def validate_config_def split: if_splits sum.splits)
  from validate_gitops_ok [OF git] db loaded_config_usable_modes [OF assms] show ?thesis
    by auto
qed

lemma git_environment_loads: "load_config git_environment = Inr (read_config git_environment)"
proof -
  have "llm_api_key (read_llm git_environment) = ''sk-1''"
    "llm_base_url (read_llm git_environment) = ''https://api.deepseek.com''"
    "web_auth_mode (read_web git_environment) = web_auth_simple"
    "web_admin_user (read_web git_environment) = ''admin''"
    "web_admin_hash (read_web git_environment) = ''$2y$10$abc''"
    by (simp_all add: read_llm_def read_web_def get_env_def getenv_def git_environment_def)
  moreover have "trim_space ''/srv/conf'' \<noteq> ''''" "trim_space ''agents/{uid}.yaml'' \<noteq> ''''"
    by code_simp+
  ultimately show ?thesis
    by (simp add: load_config_def validate_config_def validate_web_def validate_gitops_def Let_def
        read_config_fields) (simp add: get_env_def getenv_def git_environment_def)
qed

theorem loaded_config_usable_witness:
  "trim_space (cfg_git_repo_dir (read_config git_environment)) \<noteq> '''' \<and>
    web_admin_hash (cfg_web (read_config git_environment)) \<noteq> ''''"
  using loaded_config_usable [OF git_environment_loads]
  by (auto simp: read_config_def read_web_def get_env_def getenv_def get_bool_def get_parsed_def
      git_environment_def web_auth_simple_def web_auth_off_def)

text \<open>The start is refused for exactly these reasons, read off the environment: an unknown driver, a missing
  MySQL address, no key of a model, a protected web interface without a password hash, an unknown
  authentication mode, an unknown source of configurations, or a git source without directory or path.\<close>

theorem load_refused_iff:
  "(\<exists>e. load_config env = Inl e) \<longleftrightarrow>
    (let driver = get_env env ''DB_DRIVER'' ''sqlite''; mode = get_env env ''WEB_AUTH_MODE'' ''simple'';
         source = get_env env ''CONFIG_SOURCE'' ''builtin''
     in driver \<notin> {''mysql'', ''sqlite''} \<or> (driver = ''mysql'' \<and> getenv env ''DB_DSN'' = '''') \<or>
        (getenv env ''LLM_API_KEY'' = '''' \<and> getenv env ''LLM_BACKUP_API_KEY'' = '''') \<or>
        mode \<notin> {''simple'', ''off''} \<or>
        (mode = ''simple'' \<and> \<not> get_bool env ''DISABLE_WEB'' False \<and> getenv env ''WEB_ADMIN_PASSWORD_HASH'' = '''') \<or>
        source \<notin> {''builtin'', ''git''} \<or>
        (source = ''git'' \<and> (trim_space (getenv env ''GIT_REPO_DIR'') = '''' \<or>
           trim_space (getenv env ''GIT_CONFIG_PATHSPEC'') = '''')))"
proof -
  have dsn: "get_env env ''DB_DSN'' '''' = getenv env ''DB_DSN''"
    by (auto simp: get_env_def getenv_def split: option.splits)
  have web: "(\<exists>e. validate_web (read_config env) = Inl e) \<longleftrightarrow>
      (let mode = get_env env ''WEB_AUTH_MODE'' ''simple'' in mode \<notin> {''simple'', ''off''} \<or>
        (mode = ''simple'' \<and> \<not> get_bool env ''DISABLE_WEB'' False \<and> getenv env ''WEB_ADMIN_PASSWORD_HASH'' = ''''))"
    by (auto simp: validate_web_def read_config_fields read_web_def web_auth_simple_def web_auth_off_def Let_def)
  have git: "(\<exists>e. validate_gitops (read_config env) = Inl e) \<longleftrightarrow>
      (let source = get_env env ''CONFIG_SOURCE'' ''builtin'' in source \<notin> {''builtin'', ''git''} \<or>
        (source = ''git'' \<and> (trim_space (getenv env ''GIT_REPO_DIR'') = '''' \<or>
           trim_space (getenv env ''GIT_CONFIG_PATHSPEC'') = '''')))"
    using get_env_default [of env "''CONFIG_SOURCE''" "''builtin''"]
    by (auto simp: validate_gitops_def read_config_fields Let_def)
  show ?thesis
  proof (cases "validate_web (read_config env)")
    case (Inl e)
    with web show ?thesis
      by (auto simp: load_config_def validate_config_def Let_def)
  next
    case (Inr u)
    with web git dsn show ?thesis
      by (auto simp: load_config_def validate_config_def Let_def read_config_fields read_llm_def)
  qed
qed

text \<open>The protection of the web interface is off, or the approval of changes is, only when the environment
  says so in so many words.\<close>

theorem protection_off_is_explicit:
  assumes "load_config env = Inr c"
  shows "(web_auth_mode (cfg_web c) \<noteq> web_auth_simple \<longrightarrow> env ''WEB_AUTH_MODE'' = Some web_auth_off) \<and>
    (\<not> cfg_require_approval c \<longrightarrow>
      (\<exists>v. env ''REQUIRE_APPROVAL'' = Some v \<and> v \<in> {''0'', ''f'', ''F'', ''FALSE'', ''false'', ''False''}))"
proof -
  have c: "c = read_config env"
    by (rule load_config_read [OF assms])
  have "web_auth_mode (cfg_web c) \<in> {web_auth_simple, web_auth_off}"
    using loaded_config_usable_modes [OF assms] by auto
  moreover have "web_auth_mode (cfg_web c) = get_env env ''WEB_AUTH_MODE'' web_auth_simple"
    "cfg_require_approval c = get_bool env ''REQUIRE_APPROVAL'' True"
    by (simp_all add: c read_config_def read_web_def)
  ultimately show ?thesis
    using get_env_value [of env "''WEB_AUTH_MODE''" web_auth_simple] get_bool_false [of env "''REQUIRE_APPROVAL''"]
    by auto
qed

definition open_environment :: environment where
  "open_environment = [''LLM_API_KEY'' \<mapsto> ''sk-1'', ''WEB_AUTH_MODE'' \<mapsto> ''off'', ''REQUIRE_APPROVAL'' \<mapsto> ''f'']"

lemma open_environment_loads: "load_config open_environment = Inr (read_config open_environment)"
proof -
  have "llm_api_key (read_llm open_environment) = ''sk-1''"
    "llm_base_url (read_llm open_environment) = ''https://api.deepseek.com''"
    "web_auth_mode (read_web open_environment) = web_auth_off"
    by (simp_all add: read_llm_def read_web_def get_env_def getenv_def open_environment_def web_auth_off_def)
  then show ?thesis
    by (simp add: load_config_def validate_config_def validate_web_def validate_gitops_def Let_def
        read_config_fields web_auth_off_def web_auth_simple_def)
      (simp add: get_env_def getenv_def open_environment_def)
qed

theorem protection_off_is_explicit_witness:
  "\<exists>v. open_environment ''REQUIRE_APPROVAL'' = Some v \<and> v \<in> {''0'', ''f'', ''F'', ''FALSE'', ''false'', ''False''}"
proof -
  have "\<not> cfg_require_approval (read_config open_environment)"
    by (simp add: read_config_def get_bool_def get_parsed_def open_environment_def parse_bool_def)
  with protection_off_is_explicit [OF open_environment_loads] show ?thesis
    by blast
qed

text \<open>A parsed duration fits in 64 bits; the texts of the defaults read as the defaults.\<close>

theorem parse_duration_range:
  "parse_duration s = Some d \<Longrightarrow> - (2 ^ 63) \<le> d \<and> d < 2 ^ 63"
  by (auto simp: parse_duration_def Let_def split: if_splits option.splits dest!: sum_parts_bound)

lemma parse_duration_samples:
  "parse_duration ''1m30.5s'' = Some (90 * nano_per_second + 500 * nano_per_milli)"
  "parse_duration ''-1.5h'' = Some (- 90 * 60 * nano_per_second)"
  "parse_duration ''10'' = None" "parse_duration ''.s'' = None" "parse_duration ''0'' = Some 0"
  by (simp_all add: parse_duration_def sum_parts.simps duration_part_def fraction_part_def with_unit_def
      unit_nanos_def is_unit_char_def digit_value_def has_prefix_def Let_def)

end
