(* ===== verification/Texts.thy ===== *)
theory Texts
  imports Go_Strings
begin

section \<open>Message texts\<close>

text \<open>
  The texts of the program that it stores or hands on.  They are written in Chinese; a constant gives
  the UTF-8 bytes of the literal, the comment before it the meaning.
\<close>

definition utf8 :: "nat list \<Rightarrow> string" where
  "utf8 bytes = map (\<lambda>n. char_of n) bytes"

text \<open>Dispatched to.\<close>

definition txt_pushed_to :: string where
  "txt_pushed_to = utf8
    [229, 183, 178, 228, 184, 139, 229, 143, 145, 229, 136, 176, 32]"

text \<open>Collectors.\<close>

definition txt_collectors :: string where
  "txt_collectors = utf8
    [32, 228, 184, 170, 32, 67, 111, 108, 108, 101, 99, 116, 111, 114]"

text \<open>Generated and validated, dispatched after approval.\<close>

definition txt_generated :: string where
  "txt_generated = utf8
    [233, 133, 141, 231, 189, 174, 229, 183, 178, 231, 148, 159, 230, 136, 144, 229, 185, 182,
     233, 128, 154, 232, 191, 135, 230, 160, 161, 233, 170, 140, 239, 188, 140, 231, 173,
     137, 229, 190, 133, 229, 174, 161, 230, 137, 185, 229, 144, 142, 228, 184, 139, 229,
     143, 145]"

text \<open>Optimisation generated, waiting for approval.\<close>

definition txt_optimized :: string where
  "txt_optimized = utf8
    [228, 188, 152, 229, 140, 150, 230, 150, 185, 230, 161, 136, 229, 183, 178, 231, 148, 159,
     230, 136, 144, 239, 188, 140, 231, 173, 137, 229, 190, 133, 229, 174, 161, 230, 137,
     185]"

text \<open>Upgrade task created, package distribution is beta.\<close>

definition txt_upgrade_created :: string where
  "txt_upgrade_created = utf8
    [229, 141, 135, 231, 186, 167, 228, 187, 187, 229, 138, 161, 229, 183, 178, 229, 136, 155,
     229, 187, 186, 239, 188, 136, 229, 140, 133, 229, 136, 134, 229, 143, 145, 232, 131,
     189, 229, 138, 155, 228, 184, 186, 32, 66, 101, 116, 97, 239, 188, 140, 233, 156, 128,
     32, 67, 111, 108, 108, 101, 99, 116, 111, 114, 32, 230, 148, 175, 230, 140, 129, 32,
     80, 97, 99, 107, 97, 103, 101, 115, 65, 118, 97, 105, 108, 97, 98, 108, 101, 239, 188,
     137]"

text \<open>Upgrade task approved.\<close>

definition txt_upgrade_approved :: string where
  "txt_upgrade_approved = utf8
    [229, 141, 135, 231, 186, 167, 228, 187, 187, 229, 138, 161, 229, 183, 178, 229, 174, 161,
     230, 137, 185, 239, 188, 136, 66, 101, 116, 97, 32, 232, 131, 189, 229, 138, 155, 239,
     188, 140, 233, 156, 128, 32, 67, 111, 108, 108, 101, 99, 116, 111, 114, 32, 230, 148,
     175, 230, 140, 129, 229, 140, 133, 229, 136, 134, 229, 143, 145, 239, 188, 137]"

text \<open>Rolled back to the given version.\<close>

definition txt_rolled_back :: string where
  "txt_rolled_back = utf8
    [229, 183, 178, 229, 155, 158, 230, 187, 154, 229, 136, 176, 230, 140, 135, 229, 174, 154,
     231, 137, 136, 230, 156, 172]"

text \<open>Dispatched without confirmation.\<close>

definition txt_unconfirmed :: string where
  "txt_unconfirmed = utf8
    [229, 183, 178, 228, 184, 139, 229, 143, 145, 239, 188, 140, 228, 189, 134, 230, 156, 170,
     230, 148, 182, 229, 136, 176, 231, 148, 159, 230, 149, 136, 231, 161, 174, 232, 174,
     164, 239, 188, 136, 65, 103, 101, 110, 116, 32, 230, 156, 170, 229, 155, 158, 230,
     138, 165, 230, 150, 176, 233, 133, 141, 231, 189, 174, 239, 188, 137, 58, 32]"

text \<open>Rolled back without confirmation.\<close>

definition txt_rollback_unconfirmed :: string where
  "txt_rollback_unconfirmed = utf8
    [229, 183, 178, 229, 155, 158, 230, 187, 154, 228, 184, 139, 229, 143, 145, 239, 188, 140,
     228, 189, 134, 230, 156, 170, 230, 148, 182, 229, 136, 176, 231, 148, 159, 230, 149,
     136, 231, 161, 174, 232, 174, 164, 239, 188, 136, 65, 103, 101, 110, 116, 32, 230,
     156, 170, 229, 155, 158, 230, 138, 165, 230, 150, 176, 233, 133, 141, 231, 189, 174,
     239, 188, 137]"

text \<open>Confirmation timed out.\<close>

definition txt_confirm_timeout :: string where
  "txt_confirm_timeout = utf8
    [231, 148, 159, 230, 149, 136, 231, 161, 174, 232, 174, 164, 232, 182, 133, 230, 151, 182]"

text \<open>The final status could not be stored.\<close>

definition txt_done_not_stored :: string where
  "txt_done_not_stored = utf8
    [229, 174, 140, 230, 136, 144, 228, 187, 187, 229, 138, 161, 231, 138, 182, 230, 128, 129,
     229, 134, 153, 229, 133, 165, 229, 164, 177, 232, 180, 165]"

text \<open>The final status of the rollback could not be stored.\<close>

definition txt_rollback_not_stored :: string where
  "txt_rollback_not_stored = utf8
    [229, 174, 140, 230, 136, 144, 229, 155, 158, 230, 187, 154, 231, 138, 182, 230, 128, 129,
     229, 134, 153, 229, 133, 165, 229, 164, 177, 232, 180, 165]"

text \<open>Generate configuration for target.\<close>

definition txt_generate_target :: string where
  "txt_generate_target = utf8
    [231, 148, 159, 230, 136, 144, 233, 133, 141, 231, 189, 174, 32, 116, 97, 114, 103, 101,
     116, 61]"

text \<open>Upgrade target.\<close>

definition txt_upgrade_target :: string where
  "txt_upgrade_target = utf8
    [229, 141, 135, 231, 186, 167, 32, 116, 97, 114, 103, 101, 116, 61]"

text \<open>To version.\<close>

definition txt_to_version :: string where
  "txt_to_version = utf8
    [32, 229, 136, 176, 231, 137, 136, 230, 156, 172, 32]"

text \<open>Analyse and optimise the configuration above.\<close>

definition txt_optimize_above :: string where
  "txt_optimize_above = utf8
    [232, 175, 183, 229, 136, 134, 230, 158, 144, 229, 185, 182, 228, 188, 152, 229, 140, 150,
     228, 184, 138, 232, 191, 176, 233, 133, 141, 231, 189, 174]"

text \<open>Optimise for the goal.\<close>

definition txt_optimize_for :: string where
  "txt_optimize_for = utf8
    [232, 175, 183, 233, 146, 136, 229, 175, 185, 231, 155, 174, 230, 160, 135, 228, 188, 152,
     229, 140, 150, 239, 188, 154]"

text \<open>Collector version.\<close>

definition txt_collector_version :: string where
  "txt_collector_version = utf8
    [67, 111, 108, 108, 101, 99, 116, 111, 114, 32, 231, 137, 136, 230, 156, 172, 32]"

text \<open>Status.\<close>

definition txt_status :: string where
  "txt_status = utf8
    [239, 188, 140, 231, 138, 182, 230, 128, 129, 32]"

text \<open>Current configuration.\<close>

definition txt_current_config :: string where
  "txt_current_config = utf8
    [227, 128, 130, 10, 229, 189, 147, 229, 137, 141, 231, 148, 159, 230, 149, 136, 233, 133,
     141, 231, 189, 174, 239, 188, 154, 10]"

text \<open>You are an expert of Collector configurations.\<close>

definition txt_expert_1 :: string where
  "txt_expert_1 = utf8
    [228, 189, 160, 230, 152, 175, 32, 79, 112, 101, 110, 84, 101, 108, 101, 109, 101, 116,
     114, 121, 32, 67, 111, 108, 108, 101, 99, 116, 111, 114, 32, 233, 133, 141, 231, 189,
     174, 228, 184, 147, 229, 174, 182, 227, 128, 130]"

text \<open>Generate a YAML configuration from the description.\<close>

definition txt_expert_2 :: string where
  "txt_expert_2 = utf8
    [230, 160, 185, 230, 141, 174, 231, 148, 168, 230, 136, 183, 230, 143, 143, 232, 191, 176,
     231, 148, 159, 230, 136, 144, 32, 111, 116, 101, 108, 99, 111, 108, 45, 99, 111, 110,
     116, 114, 105, 98, 32, 231, 154, 132, 32, 89, 65, 77, 76, 32, 233, 133, 141, 231, 189,
     174, 227, 128, 130]"

text \<open>Only the YAML block, with service.pipelines.\<close>

definition txt_expert_3 :: string where
  "txt_expert_3 = utf8
    [229, 143, 170, 232, 190, 147, 229, 135, 186, 32, 89, 65, 77, 76, 32, 228, 187, 163, 231,
     160, 129, 229, 157, 151, 229, 134, 133, 229, 174, 185, 239, 188, 140, 228, 184, 141,
     232, 166, 129, 228, 187, 187, 228, 189, 149, 232, 167, 163, 233, 135, 138, 230, 150,
     135, 229, 173, 151, 227, 128, 130, 229, 191, 133, 233, 161, 187, 229, 140, 133, 229,
     144, 171, 32, 115, 101, 114, 118, 105, 99, 101, 46, 112, 105, 112, 101, 108, 105, 110,
     101, 115, 32, 232, 138, 130, 227, 128, 130]"

text \<open>The context follows.\<close>

definition txt_context :: string where
  "txt_context = utf8
    [10, 228, 187, 165, 228, 184, 139, 230, 152, 175, 231, 155, 184, 229, 133, 179, 228, 184,
     138, 228, 184, 139, 230, 150, 135, 239, 188, 154, 10]"

text \<open>The circuit is open.\<close>

definition txt_circuit_open :: string where
  "txt_circuit_open = utf8
    [97, 103, 101, 110, 116, 58, 32, 76, 76, 77, 32, 231, 134, 148, 230, 150, 173, 229, 153,
     168, 229, 183, 178, 230, 137, 147, 229, 188, 128, 239, 188, 140, 233, 147, 190, 232,
     183, 175, 230, 154, 130, 228, 184, 141, 229, 143, 175, 231, 148, 168]"

text \<open>The stream of responses was closed early.\<close>

definition txt_stream_closed :: string where
  "txt_stream_closed = utf8
    [97, 103, 101, 110, 116, 58, 32, 229, 147, 141, 229, 186, 148, 230, 181, 129, 230, 143,
     144, 229, 137, 141, 229, 133, 179, 233, 151, 173]"

text \<open>The stream of responses was closed early.\<close>

definition txt_llm_stream_closed :: string where
  "txt_llm_stream_closed = utf8
    [97, 103, 101, 110, 116, 58, 32, 76, 76, 77, 32, 229, 147, 141, 229, 186, 148, 230, 181,
     129, 230, 143, 144, 229, 137, 141, 229, 133, 179, 233, 151, 173]"

text \<open>LLM retried.\<close>

definition txt_retries_1 :: string where
  "txt_retries_1 = utf8
    [97, 103, 101, 110, 116, 58, 32, 76, 76, 77, 32, 233, 135, 141, 232, 175, 149, 32]"

text \<open>Times and still fails.\<close>

definition txt_retries_2 :: string where
  "txt_retries_2 = utf8
    [32, 230, 172, 161, 229, 144, 142, 228, 187, 141, 229, 164, 177, 232, 180, 165, 58, 32]"

text \<open>Git provenance.\<close>

definition txt_git_trace :: string where
  "txt_git_trace = utf8
    [103, 105, 116, 32, 230, 186, 175, 230, 186, 144, 32, 99, 111, 109, 109, 105, 116, 61]"

text \<open>Logged out.\<close>

definition txt_logged_out :: string where
  "txt_logged_out = utf8
    [229, 183, 178, 233, 128, 128, 229, 135, 186, 231, 153, 187, 229, 189, 149]"

text \<open>Configuration sent directly to.\<close>

definition txt_apply_to :: string where
  "txt_apply_to = utf8
    [231, 155, 180, 230, 142, 165, 228, 184, 139, 229, 143, 145, 233, 133, 141, 231, 189, 174,
     229, 136, 176, 32]"

text \<open>Roll back by git commit.\<close>

definition txt_git_rollback :: string where
  "txt_git_rollback = utf8
    [230, 140, 137, 32, 103, 105, 116, 32, 230, 143, 144, 228, 186, 164, 229, 155, 158, 233,
     128, 128, 32]"

text \<open>To.\<close>

definition txt_to :: string where
  "txt_to = utf8
    [32, 229, 136, 176, 32]"

text \<open>Roll back.\<close>

definition txt_rollback :: string where
  "txt_rollback = utf8
    [229, 155, 158, 230, 187, 154, 32]"

text \<open>You are an operations assistant for a fleet of Collectors.\<close>

definition txt_assistant_1 :: string where
  "txt_assistant_1 = utf8
    [228, 189, 160, 230, 152, 175, 32, 79, 112, 65, 77, 80, 32, 232, 191, 144, 231, 187, 180,
     229, 138, 169, 230, 137, 139, 239, 188, 140, 232, 180, 159, 232, 180, 163, 231, 174,
     161, 231, 144, 134, 32, 79, 112, 101, 110, 84, 101, 108, 101, 109, 101, 116, 114, 121,
     32, 67, 111, 108, 108, 101, 99, 116, 111, 114, 32, 233, 155, 134, 231, 190, 164, 227,
     128, 130]"

text \<open>You can use tools to query, generate, optimise, dispatch and approve.\<close>

definition txt_assistant_2 :: string where
  "txt_assistant_2 = utf8
    [228, 189, 160, 229, 143, 175, 228, 187, 165, 228, 189, 191, 231, 148, 168, 229, 183, 165,
     229, 133, 183, 230, 159, 165, 232, 175, 162, 233, 155, 134, 231, 190, 164, 231, 138,
     182, 230, 128, 129, 227, 128, 129, 231, 148, 159, 230, 136, 144, 47, 228, 188, 152,
     229, 140, 150, 47, 228, 184, 139, 229, 143, 145, 233, 133, 141, 231, 189, 174, 227,
     128, 129, 229, 174, 161, 230, 137, 185, 228, 187, 187, 229, 138, 161, 227, 128, 130]"

text \<open>Generate with generate_config, remind the user of approve_task.\<close>

definition txt_assistant_3 :: string where
  "txt_assistant_3 = utf8
    [231, 148, 159, 230, 136, 144, 233, 133, 141, 231, 189, 174, 230, 151, 182, 232, 175, 183,
     229, 133, 136, 232, 176, 131, 231, 148, 168, 32, 103, 101, 110, 101, 114, 97, 116,
     101, 95, 99, 111, 110, 102, 105, 103, 239, 188, 155, 233, 156, 128, 232, 166, 129,
     229, 174, 161, 230, 137, 185, 230, 151, 182, 230, 143, 144, 233, 134, 146, 231, 148,
     168, 230, 136, 183, 232, 176, 131, 231, 148, 168, 32, 97, 112, 112, 114, 111, 118,
     101, 95, 116, 97, 115, 107, 227, 128, 130]"

text \<open>Answer in Chinese.\<close>

definition txt_assistant_4 :: string where
  "txt_assistant_4 = utf8
    [229, 155, 158, 231, 173, 148, 228, 189, 191, 231, 148, 168, 228, 184, 173, 230, 150, 135,
     227, 128, 130]"

text \<open>The tool call failed.\<close>

definition txt_tool_failed :: string where
  "txt_tool_failed = utf8
    [229, 183, 165, 229, 133, 183, 232, 176, 131, 231, 148, 168, 229, 164, 177, 232, 180, 165,
     58, 32]"

text \<open>Truncated.\<close>

definition txt_truncated :: string where
  "txt_truncated = utf8
    [46, 46, 46, 40, 230, 136, 170, 230, 150, 173, 41]"

text \<open>The number of tool rounds is exhausted.\<close>

definition txt_max_iterations :: string where
  "txt_max_iterations = utf8
    [229, 183, 178, 232, 190, 190, 229, 136, 176, 230, 156, 128, 229, 164, 167, 229, 183, 165,
     229, 133, 183, 232, 191, 173, 228, 187, 163, 230, 172, 161, 230, 149, 176, 239, 188,
     140, 232, 175, 183, 231, 174, 128, 229, 140, 150, 230, 140, 135, 228, 187, 164, 230,
     136, 150, 230, 139, 134, 229, 136, 134, 230, 173, 165, 233, 170, 164, 229, 144, 142,
     233, 135, 141, 232, 175, 149, 227, 128, 130]"

text \<open>The arguments cannot be encoded.\<close>

definition txt_arguments_unserializable :: string where
  "txt_arguments_unserializable = utf8
    [229, 143, 130, 230, 149, 176, 229, 186, 143, 229, 136, 151, 229, 140, 150, 229, 164, 177,
     232, 180, 165, 58, 32]"

text \<open>The result cannot be encoded.\<close>

definition txt_result_unserializable :: string where
  "txt_result_unserializable = utf8
    [231, 187, 147, 230, 158, 156, 229, 186, 143, 229, 136, 151, 229, 140, 150, 229, 164, 177,
     232, 180, 165, 58, 32]"

text \<open>Configuration submitted by the editor.\<close>

definition txt_editor_submitted :: string where
  "txt_editor_submitted = utf8
    [231, 188, 150, 232, 190, 145, 229, 153, 168, 230, 143, 144, 228, 186, 164, 233, 133, 141,
     231, 189, 174, 32, 117, 105, 100, 61]"

end
