(* ===== verification/Llm_Chain.thy ===== *)
theory Llm_Chain
  imports Runtime_Config Texts
begin

section \<open>The decorators of the language model (internal/agent/llm.go)\<close>

text \<open>
  The client of the language model is wrapped, from the inside out, in a retry with exponential
  backoff, a circuit breaker and a cache of single responses.  Every layer has the interface of the
  model: a request gives an error or a stream of responses, and changes a state.  The innermost model
  (the protocol client and its failover), the clock and the digest of a request are parameters.
  A stream is the list of what it delivers before it closes; \<open>LlmNilStream\<close> is the nil channel
  returned without an error, \<open>LlmBlocked\<close> a call that never returns because it reads from one.
\<close>

subsection \<open>Requests, responses and errors\<close>

text \<open>
  A message carries the tool calls an assistant asks for, or the name and id of the call that it answers.
  Of a response, the error, the messages of its choices and the name of the model are used.
\<close>

record tool_request =
  tq_id :: string
  tq_name :: string
  tq_arguments :: string

record llm_message =
  lm_role :: string
  lm_content :: string
  lm_tool_calls :: "tool_request list"
  lm_tool_id :: string
  lm_tool_name :: string

definition text_message :: "string \<Rightarrow> string \<Rightarrow> llm_message" where
  "text_message role content =
    \<lparr>lm_role = role, lm_content = content, lm_tool_calls = [], lm_tool_id = '''', lm_tool_name = ''''\<rparr>"

record llm_request =
  lq_messages :: "llm_message list"
  lq_tools :: "string list"

record llm_response =
  lr_error :: "string option"
  lr_choices :: "llm_message list"
  lr_model :: string

datatype llm_error =
    LlmText string
  | LlmContext string
  | LlmCircuitOpen
  | LlmStreamClosed
  | LlmRetryStreamClosed
  | LlmRetriesFailed int llm_error

fun llm_error_text :: "llm_error \<Rightarrow> string" where
  "llm_error_text (LlmText m) = m"
| "llm_error_text (LlmContext m) = m"
| "llm_error_text LlmCircuitOpen = txt_circuit_open"
| "llm_error_text LlmStreamClosed = txt_stream_closed"
| "llm_error_text LlmRetryStreamClosed = txt_llm_stream_closed"
| "llm_error_text (LlmRetriesFailed n e) = txt_retries_1 @ itoa n @ txt_retries_2 @ llm_error_text e"

datatype llm_outcome =
    LlmError llm_error
  | LlmStream "llm_response list"
  | LlmNilStream
  | LlmBlocked

type_synonym 's llm_model = "llm_request \<Rightarrow> 's \<Rightarrow> llm_outcome \<times> 's"

text \<open>
  The surroundings of a layer: the clock, a sleep that answers whether it ended before the context was
  cancelled, and the error of a cancelled context.
\<close>

record 's llm_env =
  le_now :: "'s \<Rightarrow> time"
  le_sleep :: "duration \<Rightarrow> 's \<Rightarrow> bool \<times> 's"
  le_ctx_err :: "'s \<Rightarrow> string"

definition env_below :: "'s llm_env \<Rightarrow> ('t \<times> 's) llm_env" where
  "env_below env = \<lparr>le_now = (\<lambda>(t, s). le_now env s),
     le_sleep = (\<lambda>d (t, s). let (b, s') = le_sleep env d s in (b, (t, s'))),
     le_ctx_err = (\<lambda>(t, s). le_ctx_err env s)\<rparr>"

subsection \<open>Retry\<close>

definition retry_keywords :: "string list" where
  "retry_keywords =
    [''timeout'', ''connection'', ''temporary'', ''rate limit'', ''429'',
     ''500'', ''502'', ''503'', ''504'', ''overloaded'', ''unavailable'']"

definition retryable_error :: "string \<Rightarrow> bool" where
  "retryable_error text = (let msg = to_lower text in list_ex (\<lambda>keyword. contains keyword msg) retry_keywords)"

text \<open>
  What one attempt gives: the answer if no further attempt is made, and whether one is wanted.
\<close>

definition attempt_verdict :: "int \<Rightarrow> llm_outcome \<Rightarrow> llm_outcome \<times> bool" where
  "attempt_verdict max_retries out =
    (case out of
       LlmError err \<Rightarrow>
         if \<not> retryable_error (llm_error_text err) then (LlmError err, False)
         else (LlmError (LlmRetriesFailed max_retries err), True)
     | LlmStream [] \<Rightarrow> (LlmError LlmRetryStreamClosed, False)
     | LlmStream (first # rest) \<Rightarrow>
         (case lr_error first of
            Some msg \<Rightarrow> (LlmStream [first], retryable_error msg)
          | None \<Rightarrow> (LlmStream (first # rest), False))
     | LlmNilStream \<Rightarrow> (LlmBlocked, False)
     | LlmBlocked \<Rightarrow> (LlmBlocked, False))"

primrec retry_attempts ::
  "'s llm_env \<Rightarrow> 's llm_model \<Rightarrow> int \<Rightarrow> nat \<Rightarrow> duration \<Rightarrow> 's llm_model" where
  "retry_attempts env inner max_retries 0 delay request s =
     (let (out, s1) = inner request s in (fst (attempt_verdict max_retries out), s1))"
| "retry_attempts env inner max_retries (Suc left) delay request s =
     (let (out, s1) = inner request s; (answer, again) = attempt_verdict max_retries out
      in if again then
           (case le_sleep env delay s1 of
              (False, s2) \<Rightarrow> (LlmError (LlmContext (le_ctx_err env s2)), s2)
            | (True, s2) \<Rightarrow> retry_attempts env inner max_retries left (wrap64 (delay * 2)) request s2)
         else (answer, s1))"

definition retry_generate :: "'s llm_env \<Rightarrow> 's llm_model \<Rightarrow> int \<Rightarrow> duration \<Rightarrow> 's llm_model" where
  "retry_generate env inner max_retries base_delay request s =
    (if max_retries < 0 then (LlmNilStream, s)
     else retry_attempts env inner max_retries (nat max_retries) base_delay request s)"

subsection \<open>Circuit breaker\<close>

record circuit =
  ci_threshold :: int
  ci_cooldown :: duration
  ci_failures :: int
  ci_open :: bool
  ci_until :: time

definition new_circuit :: "int \<Rightarrow> duration \<Rightarrow> circuit" where
  "new_circuit threshold cooldown = \<lparr>ci_threshold = threshold, ci_cooldown = cooldown, ci_failures = 0,
     ci_open = False, ci_until = zero_time\<rparr>"

text \<open>The locked section at the start of a call: admitted or refused.\<close>

definition circuit_admit :: "time \<Rightarrow> circuit \<Rightarrow> bool \<times> circuit" where
  "circuit_admit now c =
    (if ci_open c then
       (if now > ci_until c then (True, c\<lparr>ci_open := False, ci_failures := 0\<rparr>) else (False, c))
     else (True, c))"

definition record_failure :: "time \<Rightarrow> circuit \<Rightarrow> circuit" where
  "record_failure now c =
    (let c1 = c\<lparr>ci_failures := ci_failures c + 1\<rparr>
     in if ci_failures c1 \<ge> ci_threshold c1
        then c1\<lparr>ci_open := True, ci_until := now + ci_cooldown c1\<rparr> else c1)"

definition record_success :: "circuit \<Rightarrow> circuit" where
  "record_success c = (if ci_open c then c\<lparr>ci_open := False, ci_failures := 0\<rparr> else c\<lparr>ci_failures := 0\<rparr>)"

definition circuit_generate :: "'s llm_env \<Rightarrow> 's llm_model \<Rightarrow> (circuit \<times> 's) llm_model" where
  "circuit_generate env inner request cs =
    (let (c, s) = cs; (admitted, c1) = circuit_admit (le_now env s) c
     in if \<not> admitted then (LlmError LlmCircuitOpen, (c1, s))
        else let (out, s1) = inner request s in
          (case out of
             LlmError err \<Rightarrow> (LlmError err, (record_failure (le_now env s1) c1, s1))
           | LlmStream [] \<Rightarrow> (LlmError LlmStreamClosed, (record_failure (le_now env s1) c1, s1))
           | LlmStream (first # rest) \<Rightarrow>
               (LlmStream (first # rest),
                 (if lr_error first \<noteq> None then record_failure (le_now env s1) c1 else record_success c1, s1))
           | LlmNilStream \<Rightarrow> (LlmBlocked, (c1, s1))
           | LlmBlocked \<Rightarrow> (LlmBlocked, (c1, s1))))"

subsection \<open>Cache\<close>

record cache_entry =
  ca_resp :: llm_response
  ca_expire_at :: time

type_synonym cache = "string \<rightharpoonup> cache_entry"

text \<open>The digest of the messages, or nothing when they cannot be encoded.\<close>

type_synonym digest = "llm_message list \<Rightarrow> string option"

definition cache_key :: "digest \<Rightarrow> llm_request \<Rightarrow> string option" where
  "cache_key digest request = digest (lq_messages request)"

definition cache_get :: "time \<Rightarrow> string \<Rightarrow> cache \<Rightarrow> cache_entry option \<times> cache" where
  "cache_get now key m =
    (case m key of
       None \<Rightarrow> (None, m)
     | Some e \<Rightarrow> if now > ca_expire_at e then (None, m(key := None)) else (Some e, m))"

definition cache_put :: "time \<Rightarrow> duration \<Rightarrow> string \<Rightarrow> llm_response \<Rightarrow> cache \<Rightarrow> cache" where
  "cache_put now ttl key resp m = m(key \<mapsto> \<lparr>ca_resp = resp, ca_expire_at = now + ttl\<rparr>)"

definition cache_generate :: "'s llm_env \<Rightarrow> digest \<Rightarrow> duration \<Rightarrow> 's llm_model \<Rightarrow> (cache \<times> 's) llm_model" where
  "cache_generate env digest ttl inner request cs =
    (let (m, s) = cs in
     case cache_key digest request of
       None \<Rightarrow> (let (out, s1) = inner request s in (out, (m, s1)))
     | Some key \<Rightarrow>
         let (hit, m1) = cache_get (le_now env s) key m in
         (case hit of
            Some entry \<Rightarrow> (LlmStream [ca_resp entry], (m1, s))
          | None \<Rightarrow>
              let (out, s1) = inner request s in
              (case out of
                 LlmError err \<Rightarrow> (LlmError err, (m1, s1))
               | LlmStream [] \<Rightarrow> (LlmError LlmStreamClosed, (m1, s1))
               | LlmStream (first # rest) \<Rightarrow>
                   if lr_error first = None \<and> rest = []
                   then (LlmStream [first], (cache_put (le_now env s1) ttl key first m1, s1))
                   else (LlmStream (first # rest), (m1, s1))
               | LlmNilStream \<Rightarrow> (LlmBlocked, (m1, s1))
               | LlmBlocked \<Rightarrow> (LlmBlocked, (m1, s1)))))"

subsection \<open>The chain\<close>

text \<open>The candidates of the failover, as the runtime configuration names them.\<close>

record candidate =
  cand_name :: string
  cand_base_url :: string
  cand_api_key :: "string option"
  cand_timeout :: duration

definition llm_candidates :: "llm_config \<Rightarrow> candidate list" where
  "llm_candidates cfg =
    [\<lparr>cand_name = llm_model cfg, cand_base_url = llm_base_url cfg, cand_api_key = Some (llm_api_key cfg),
       cand_timeout = llm_timeout cfg\<rparr>] @
    (if llm_backup_base_url cfg \<noteq> '''' \<and> llm_backup_api_key cfg \<noteq> ''''
     then [\<lparr>cand_name = (if llm_backup_model cfg = '''' then llm_model cfg else llm_backup_model cfg),
       cand_base_url = llm_backup_base_url cfg, cand_api_key = Some (llm_backup_api_key cfg),
       cand_timeout = llm_timeout cfg\<rparr>] else []) @
    (if llm_local_base_url cfg \<noteq> ''''
     then [\<lparr>cand_name = (if llm_local_model cfg = '''' then ''local-model'' else llm_local_model cfg),
       cand_base_url = llm_local_base_url cfg, cand_api_key = None, cand_timeout = llm_timeout cfg\<rparr>] else [])"

definition llm_chain ::
  "'s llm_env \<Rightarrow> digest \<Rightarrow> llm_config \<Rightarrow> 's llm_model \<Rightarrow> (cache \<times> circuit \<times> 's) llm_model" where
  "llm_chain env digest cfg inner =
    (let guarded = circuit_generate env (retry_generate env inner (llm_retry cfg) (llm_retry_base cfg))
     in if llm_cache_ttl cfg > 0 then cache_generate (env_below env) digest (llm_cache_ttl cfg) guarded
        else (\<lambda>request (m, cs). let (out, cs') = guarded request cs in (out, (m, cs'))))"

definition new_stable_model ::
  "(candidate \<Rightarrow> 's llm_model) \<Rightarrow> (candidate list \<Rightarrow> string + 's llm_model) \<Rightarrow> 's llm_env \<Rightarrow> digest \<Rightarrow>
    llm_config \<Rightarrow> string + (cache \<times> circuit \<times> 's) llm_model \<times> cache \<times> circuit" where
  "new_stable_model client failover env digest cfg =
    (let start = (Map.empty, new_circuit (llm_circuit_threshold cfg) (llm_circuit_cooldown cfg)) in
     case llm_candidates cfg of
       [c] \<Rightarrow> Inr (llm_chain env digest cfg (client c), start)
     | cs \<Rightarrow>
         (case failover cs of
            Inl err \<Rightarrow> Inl err
          | Inr fo \<Rightarrow> Inr (llm_chain env digest cfg fo, start)))"

subsection \<open>The interface of a layer\<close>

text \<open>
  A layer hands on a stream only after it has read its first response, so what it returns is never an
  empty stream.  A layer above such a source never reports a stream that was closed early by itself.
\<close>

locale stream_source =
  fixes gen :: "'s llm_model"
  assumes not_empty: "fst (gen request s) \<noteq> LlmStream []"
begin

lemma circuit_no_early_close:
  "fst (circuit_generate env gen request (c, s)) = LlmError LlmStreamClosed \<Longrightarrow>
    fst (gen request s) = LlmError LlmStreamClosed"
  using not_empty [of request s]
  by (auto simp: circuit_generate_def Let_def split: prod.splits if_splits llm_outcome.splits list.splits)

lemma cache_no_early_close:
  "fst (cache_generate env digest ttl gen request (m, s)) = LlmError LlmStreamClosed \<Longrightarrow>
    fst (gen request s) = LlmError LlmStreamClosed"
  using not_empty [of request s]
  by (auto simp: cache_generate_def Let_def
      split: option.splits prod.splits if_splits llm_outcome.splits list.splits)

lemma cached_stream_source: "stream_source (cache_generate env digest ttl gen)"
proof
  fix request and ms :: "cache \<times> 's"
  show "fst (cache_generate env digest ttl gen request ms) \<noteq> LlmStream []"
    using not_empty [of request "snd ms"]
    by (auto simp: cache_generate_def Let_def
        split: option.split prod.split llm_outcome.split list.split)
qed

lemma cached_stores_success:
  assumes "\<forall>k e. m k = Some e \<longrightarrow> lr_error (ca_resp e) = None"
    and "cache_generate env digest ttl gen request (m, s) = (out, (m', s'))"
  shows "\<forall>k e. m' k = Some e \<longrightarrow> lr_error (ca_resp e) = None"
  using assms
  by (auto simp: cache_generate_def Let_def cache_get_def cache_put_def
      split: option.splits prod.splits if_splits llm_outcome.splits list.splits)

end

lemma attempt_verdict_proper:
  "fst (attempt_verdict n out) \<noteq> LlmStream [] \<and> fst (attempt_verdict n out) \<noteq> LlmNilStream"
  by (auto simp: attempt_verdict_def split: llm_outcome.split list.split option.split)

lemma retry_attempts_proper:
  "fst (retry_attempts env inner n left delay request s) \<noteq> LlmStream [] \<and>
   fst (retry_attempts env inner n left delay request s) \<noteq> LlmNilStream"
proof (induction left arbitrary: delay s)
  case 0
  then show ?case using attempt_verdict_proper [of n "fst (inner request s)"] by (simp add: case_prod_unfold Let_def)
next
  case (Suc left)
  show ?case
    using attempt_verdict_proper [of n "fst (inner request s)"] Suc
    by (auto simp: Let_def case_prod_unfold split: prod.split bool.split)
qed

interpretation retry: stream_source "retry_generate env inner n base" for env inner n base
  by unfold_locales (auto simp: retry_generate_def retry_attempts_proper)

interpretation circuit: stream_source "circuit_generate env inner" for env inner
  by unfold_locales (auto simp: circuit_generate_def Let_def split: prod.split llm_outcome.split list.split)

interpretation chain: stream_source "cache_generate (env_below env) digest ttl (circuit_generate env inner)"
  for env digest ttl inner
  by (rule circuit.cached_stream_source)

subsection \<open>Retry\<close>

text \<open>
  A model that answers with given outcomes, one for each call, and a clock that notes every sleep: what
  a retry does depends on the outcomes of the model below it only.
\<close>

record script =
  sc_next :: "llm_outcome list"
  sc_calls :: nat
  sc_slept :: "duration list"

definition scripted_model :: "script llm_model" where
  "scripted_model request s =
    (case sc_next s of
       [] \<Rightarrow> (LlmBlocked, s)
     | out # outs \<Rightarrow> (out, s\<lparr>sc_next := outs, sc_calls := sc_calls s + 1\<rparr>))"

definition ok_response :: llm_response where
  "ok_response = \<lparr>lr_error = None, lr_choices = [text_message ''assistant'' ''ok''], lr_model = ''m''\<rparr>"

lemma ok_response_error [simp]: "lr_error ok_response = None"
  by (simp add: ok_response_def)

definition script_env :: "script llm_env" where
  "script_env = \<lparr>le_now = (\<lambda>s. sum_list (sc_slept s)),
     le_sleep = (\<lambda>d s. (True, s\<lparr>sc_slept := sc_slept s @ [d]\<rparr>)), le_ctx_err = (\<lambda>s. ''context canceled'')\<rparr>"

definition wants_retry :: "llm_outcome \<Rightarrow> bool" where
  "wants_retry out = snd (attempt_verdict 0 out)"

lemma wants_retry_eq: "snd (attempt_verdict n out) = wants_retry out"
  by (simp add: wants_retry_def attempt_verdict_def split: llm_outcome.split list.split option.split)

lemma retry_attempts_script:
  assumes "\<forall>out \<in> set fails. wants_retry out" and "length fails \<le> left"
    and "length fails = left \<or> \<not> wants_retry out"
    and "0 \<le> delay" and "delay * 2 ^ length fails < 2 ^ 63" and "sc_next s = fails @ out # rest"
  shows "retry_attempts script_env scripted_model n left delay request s =
    (fst (attempt_verdict n out), s\<lparr>sc_next := rest, sc_calls := sc_calls s + length fails + 1,
       sc_slept := sc_slept s @ map (\<lambda>i. delay * 2 ^ i) [0..<length fails]\<rparr>)"
  using assms
proof (induction fails arbitrary: left delay s)
  case Nil
  obtain answer again where v: "attempt_verdict n out = (answer, again)" by (cases "attempt_verdict n out")
  then have "again = wants_retry out" using wants_retry_eq [of n out] by simp
  with Nil v show ?case by (cases left) (auto simp: scripted_model_def Let_def)
next
  case (Cons o1 fails)
  then obtain more where left: "left = Suc more" by (cases left) auto
  obtain answer where v: "attempt_verdict n o1 = (answer, True)"
    using Cons.prems(1) wants_retry_eq [of n o1] by (cases "attempt_verdict n o1") auto
  let ?s1 = "s\<lparr>sc_next := fails @ out # rest, sc_calls := sc_calls s + 1\<rparr>"
  let ?s2 = "?s1\<lparr>sc_slept := sc_slept s @ [delay]\<rparr>"
  have "delay * 2 \<le> delay * 2 ^ length (o1 # fails)"
    using Cons.prems(4) by (intro mult_left_mono) (auto simp: self_le_power)
  then have small: "wrap64 (delay * 2) = delay * 2"
    using Cons.prems(4,5) by (intro wrap64_id) auto
  have "retry_attempts script_env scripted_model n left delay request s =
      retry_attempts script_env scripted_model n more (delay * 2) request ?s2"
    using left v Cons.prems(6) by (simp add: scripted_model_def script_env_def Let_def small)
  also have "\<dots> = (fst (attempt_verdict n out), ?s2\<lparr>sc_next := rest, sc_calls := sc_calls ?s2 + length fails + 1,
       sc_slept := sc_slept ?s2 @ map (\<lambda>i. delay * 2 * 2 ^ i) [0..<length fails]\<rparr>)"
    using Cons.prems left by (intro Cons.IH) (auto simp: mult.assoc)
  finally show ?case by (simp add: map_upt_Suc mult.assoc del: upt_Suc)
qed

lemma retry_generate_script:
  assumes "0 \<le> n" and "\<forall>out \<in> set fails. wants_retry out" and "int (length fails) \<le> n"
    and "int (length fails) = n \<or> \<not> wants_retry out"
    and "0 \<le> base" and "base * 2 ^ length fails < 2 ^ 63"
  shows "retry_generate script_env scripted_model n base request
      \<lparr>sc_next = fails @ out # rest, sc_calls = 0, sc_slept = []\<rparr> =
    (fst (attempt_verdict n out), \<lparr>sc_next = rest, sc_calls = length fails + 1,
       sc_slept = map (\<lambda>i. base * 2 ^ i) [0..<length fails]\<rparr>)"
  using assms retry_attempts_script [of fails "nat n" out base
      "\<lparr>sc_next = fails @ out # rest, sc_calls = 0, sc_slept = []\<rparr>" rest n request]
  by (auto simp: retry_generate_def)

text \<open>The model is called again after every outcome that is worth a retry, until one is not or the
  retries are used up: the answer is that of the last outcome, the number of calls is one more than
  that of the retried outcomes, and the waits double from the base.  With a negative number of retries
  the model is not called and neither an error nor a stream is returned.\<close>

theorem retry_follows_outcomes:
  assumes "\<forall>out \<in> set fails. wants_retry out" and "int (length fails) \<le> n"
    and "int (length fails) = n \<or> \<not> wants_retry out"
    and "0 \<le> base" and "base * 2 ^ length fails < 2 ^ 63"
  shows "retry_generate script_env scripted_model n base request
      \<lparr>sc_next = fails @ out # rest, sc_calls = 0, sc_slept = []\<rparr> =
    (fst (attempt_verdict n out), \<lparr>sc_next = rest, sc_calls = length fails + 1,
       sc_slept = map (\<lambda>i. base * 2 ^ i) [0..<length fails]\<rparr>) \<and>
    retry_generate env inner (- 1) base request s = (LlmNilStream, s)"
  using retry_generate_script [OF _ assms] assms(2) by (simp add: retry_generate_def)

theorem retry_follows_outcomes_witness:
  "retry_generate script_env scripted_model 3 1000000000 \<lparr>lq_messages = [], lq_tools = []\<rparr>
      \<lparr>sc_next = [LlmError (LlmText ''Timeout''), LlmError (LlmText ''HTTP 503''), LlmStream [ok_response]],
        sc_calls = 0, sc_slept = []\<rparr> =
    (LlmStream [ok_response],
      \<lparr>sc_next = [], sc_calls = 3, sc_slept = [1000000000, 2000000000]\<rparr>)"
proof -
  let ?fails = "[LlmError (LlmText ''Timeout''), LlmError (LlmText ''HTTP 503'')]"
  let ?out = "LlmStream [ok_response]"
  have "\<forall>out \<in> set ?fails. wants_retry out" and "\<not> wants_retry ?out" by code_simp+
  moreover have "fst (attempt_verdict 3 ?out) = ?out" by code_simp
  ultimately show ?thesis
    using retry_follows_outcomes [of ?fails 3 ?out 1000000000 "\<lparr>lq_messages = [], lq_tools = []\<rparr>" "[]"
        script_env scripted_model "\<lparr>sc_next = [], sc_calls = 0, sc_slept = []\<rparr>"]
    by (simp add: upt_rec)
qed

subsection \<open>Circuit breaker\<close>

text \<open>
  Several calls run at a time and lock the breaker only for its three sections, so its state moves by
  any interleaving of admissions and results.
\<close>

inductive circuit_step :: "circuit \<Rightarrow> circuit \<Rightarrow> bool" where
  admits: "circuit_step c (snd (circuit_admit now c))"
| fails: "circuit_step c (record_failure now c)"
| succeeds: "circuit_step c (record_success c)"

lemma circuit_step_inv:
  assumes "circuit_step c c'" and "1 \<le> ci_threshold c" and "0 \<le> ci_failures c"
    and "ci_open c \<longleftrightarrow> ci_threshold c \<le> ci_failures c"
  shows "ci_threshold c' = ci_threshold c \<and> ci_cooldown c' = ci_cooldown c \<and> 0 \<le> ci_failures c' \<and>
    (ci_open c' \<longleftrightarrow> ci_threshold c' \<le> ci_failures c')"
  using assms
  by (cases rule: circuit_step.cases)
    (auto simp: circuit_admit_def record_failure_def record_success_def Let_def)

lemma circuit_run_inv:
  assumes "circuit_step\<^sup>*\<^sup>* (new_circuit n cooldown) c" and "1 \<le> n"
  shows "ci_threshold c = n \<and> ci_cooldown c = cooldown \<and> 0 \<le> ci_failures c \<and>
    (ci_open c \<longleftrightarrow> n \<le> ci_failures c)"
  using assms
proof (induction rule: rtranclp_induct)
  case base
  then show ?case by (simp add: new_circuit_def)
next
  case (step c c')
  with circuit_step_inv [OF step(2)] show ?case by simp
qed

lemma failures_count:
  "ci_failures (fold record_failure nows c) = ci_failures c + int (length nows)"
  by (induction nows arbitrary: c) (auto simp: record_failure_def Let_def)

lemma failures_run: "circuit_step\<^sup>*\<^sup>* c (fold record_failure nows c)"
proof (induction nows arbitrary: c)
  case Nil
  show ?case by simp
next
  case (Cons now nows)
  have "circuit_step c (record_failure now c)" by (rule fails)
  with Cons show ?case by (simp add: converse_rtranclp_into_rtranclp)
qed

text \<open>However the calls interleave, the breaker is open exactly while the failures counted since the
  last success or reopening have reached the threshold; as many failures in a row as the threshold open
  it from any state.\<close>

theorem circuit_open_iff:
  assumes "circuit_step\<^sup>*\<^sup>* (new_circuit n cooldown) c" and "1 \<le> n"
  shows "(ci_open c \<longleftrightarrow> n \<le> ci_failures c) \<and> 0 \<le> ci_failures c \<and>
    (n \<le> int (length nows) \<longrightarrow> ci_open (fold record_failure nows c))"
proof -
  have "circuit_step\<^sup>*\<^sup>* (new_circuit n cooldown) (fold record_failure nows c)"
    using assms(1) failures_run rtranclp_trans by metis
  from circuit_run_inv [OF this assms(2)] circuit_run_inv [OF assms] show ?thesis
    by (auto simp: failures_count)
qed

theorem circuit_open_iff_witness:
  "ci_open (fold record_failure [4, 5] (record_failure 3 (new_circuit 2 30)))"
proof -
  have "circuit_step\<^sup>*\<^sup>* (new_circuit 2 30) (record_failure 3 (new_circuit 2 30))"
    by (rule r_into_rtranclp) (rule fails)
  from circuit_open_iff [OF this, of "[4, 5]"] show ?thesis by simp
qed

text \<open>An open breaker refuses a call until its cooldown has passed, without calling the model.  After
  that it is closed again with no failure counted: not a single trial but every call is admitted, and a
  failing first call does not open it again unless the threshold is one.\<close>

theorem open_circuit_refuses:
  assumes "ci_open c"
  shows "(le_now env s \<le> ci_until c \<longrightarrow>
      circuit_generate env inner request (c, s) = (LlmError LlmCircuitOpen, (c, s))) \<and>
    (ci_until c < le_now env s \<longrightarrow>
      circuit_generate env inner request (c, s) =
        circuit_generate env inner request (c\<lparr>ci_open := False, ci_failures := 0\<rparr>, s) \<and>
      (\<forall>err s1. inner request s = (LlmError err, s1) \<longrightarrow>
        (\<exists>c1. circuit_generate env inner request (c, s) = (LlmError err, (c1, s1)) \<and>
          (ci_open c1 \<longleftrightarrow> ci_threshold c \<le> 1) \<and> ci_failures c1 = 1)))"
  using assms
  by (auto simp: circuit_generate_def circuit_admit_def record_failure_def Let_def)

theorem open_circuit_refuses_witness:
  "let c = record_failure 3 (new_circuit 1 30) in
   circuit_generate script_env scripted_model \<lparr>lq_messages = [], lq_tools = []\<rparr>
     (c, \<lparr>sc_next = [LlmNilStream], sc_calls = 0, sc_slept = [33]\<rparr>) =
   (LlmError LlmCircuitOpen, (c, \<lparr>sc_next = [LlmNilStream], sc_calls = 0, sc_slept = [33]\<rparr>))"
proof -
  have "ci_open (record_failure 3 (new_circuit 1 30))" and "ci_until (record_failure 3 (new_circuit 1 30)) = 33"
    by code_simp+
  then show ?thesis
    using open_circuit_refuses [of "record_failure 3 (new_circuit 1 30)" script_env
        "\<lparr>sc_next = [LlmNilStream], sc_calls = 0, sc_slept = [33]\<rparr>" scripted_model
        "\<lparr>lq_messages = [], lq_tools = []\<rparr>"]
    by (simp add: Let_def script_env_def)
qed

subsection \<open>Cache\<close>

text \<open>A successful single answer is given again, without a call of the model, to every request with the
  same messages until its time is over, also to one that declares other tools; an error or an answer of
  several responses is handed on and not kept.\<close>

theorem cached_answer_repeated:
  assumes "cache_generate env digest ttl inner q1 (m, s) = (out, (m1, s1))"
    and "digest (lq_messages q1) = Some k" and "fst (cache_get (le_now env s) k m) = None"
    and "lq_messages q2 = lq_messages q1" and "le_now env s2 \<le> le_now env s1 + ttl"
  shows "case inner q1 s of
      (LlmStream [r], _) \<Rightarrow> lr_error r = None \<longrightarrow>
        out = LlmStream [r] \<and> cache_generate env digest ttl inner q2 (m1, s2) = (LlmStream [r], (m1, s2))
    | (LlmStream (first # rest), _) \<Rightarrow> out = LlmStream (first # rest) \<and> m1 k = None
    | (LlmError err, _) \<Rightarrow> out = LlmError err \<and> m1 k = None
    | _ \<Rightarrow> True"
proof -
  obtain m0 where get: "cache_get (le_now env s) k m = (None, m0)" and m0: "m0 k = None"
    using assms(3) by (cases "cache_get (le_now env s) k m")
      (auto simp: cache_get_def split: option.splits if_splits)
  show ?thesis
    using assms get m0
    by (auto simp: cache_generate_def cache_key_def cache_put_def cache_get_def [of "le_now env s2"] Let_def
        split: prod.splits llm_outcome.splits list.splits if_splits)
qed

theorem cached_answer_repeated_witness:
  "cache_generate script_env (\<lambda>ms. Some ''key'') 60 scripted_model \<lparr>lq_messages = [], lq_tools = [''t'']\<rparr>
     (snd (cache_generate script_env (\<lambda>ms. Some ''key'') 60 scripted_model \<lparr>lq_messages = [], lq_tools = []\<rparr>
       (Map.empty, \<lparr>sc_next = [LlmStream [ok_response]], sc_calls = 0, sc_slept = []\<rparr>))) =
   (LlmStream [ok_response],
     ([''key'' \<mapsto> \<lparr>ca_resp = ok_response, ca_expire_at = 60\<rparr>],
      \<lparr>sc_next = [], sc_calls = 1, sc_slept = []\<rparr>))"
proof -
  let ?r = "ok_response"
  let ?s = "\<lparr>sc_next = [LlmStream [?r]], sc_calls = 0, sc_slept = []\<rparr>"
  let ?s1 = "\<lparr>sc_next = [], sc_calls = 1, sc_slept = []\<rparr>"
  have "cache_generate script_env (\<lambda>ms. Some ''key'') 60 scripted_model \<lparr>lq_messages = [], lq_tools = []\<rparr> (Map.empty, ?s)
      = (LlmStream [?r], ([''key'' \<mapsto> \<lparr>ca_resp = ?r, ca_expire_at = 60\<rparr>], ?s1))"
    by (simp add: cache_generate_def cache_key_def cache_get_def cache_put_def scripted_model_def script_env_def)
  from cached_answer_repeated [OF this, of "''key''" "\<lparr>lq_messages = [], lq_tools = [''t'']\<rparr>" ?s1] this
  show ?thesis by (simp add: cache_get_def scripted_model_def script_env_def)
qed

subsection \<open>The whole chain\<close>

lemma retry_never_blocks:
  assumes "\<forall>q t. fst (inner q t) \<noteq> LlmNilStream \<and> fst (inner q t) \<noteq> LlmBlocked"
  shows "fst (retry_attempts env inner n left delay request s) \<noteq> LlmBlocked"
proof -
  have one: "fst (attempt_verdict n (fst (inner q t))) \<noteq> LlmBlocked" for q t
    using assms by (auto simp: attempt_verdict_def split: llm_outcome.split list.split option.split)
  show ?thesis
  proof (induction left arbitrary: delay s)
    case 0
    then show ?case using one [of request s] by (simp add: case_prod_unfold Let_def)
  next
    case (Suc left)
    then show ?case using one [of request s]
      by (auto simp: Let_def case_prod_unfold split: prod.split bool.split)
  qed
qed

lemma circuit_outcome:
  "fst (circuit_generate env inner request (c, s)) \<noteq> LlmNilStream \<and>
   (fst (circuit_generate env inner request (c, s)) = LlmBlocked \<longrightarrow> fst (inner request s) \<in> {LlmNilStream, LlmBlocked})"
  by (auto simp: circuit_generate_def Let_def split: prod.split llm_outcome.split list.split)

lemma chain_outcome:
  "fst (llm_chain env digest cfg inner request (m, c, s)) \<noteq> LlmStream [] \<and>
   fst (llm_chain env digest cfg inner request (m, c, s)) \<noteq> LlmNilStream \<and>
   (fst (llm_chain env digest cfg inner request (m, c, s)) = LlmBlocked \<longrightarrow>
      fst (retry_generate env inner (llm_retry cfg) (llm_retry_base cfg) request s) \<in> {LlmNilStream, LlmBlocked})"
proof -
  let ?guarded = "circuit_generate env (retry_generate env inner (llm_retry cfg) (llm_retry_base cfg))"
  have "fst (?guarded request (c, s)) \<noteq> LlmStream []" by (rule circuit.not_empty)
  with circuit_outcome [of env "retry_generate env inner (llm_retry cfg) (llm_retry_base cfg)" request c s]
  show ?thesis
    by (auto simp: llm_chain_def cache_generate_def Let_def case_prod_unfold
        split: llm_outcome.split list.split option.split)
qed

text \<open>C38: When the model below the decorators returns errors or streams, a call of the whole chain with a
  retry count of zero or more returns, with an error or a stream that has a response.  With a negative
  count, which the configuration does not refuse, the first call never returns.\<close>

theorem chain_answers:
  assumes "\<forall>q t. fst (inner q t) \<noteq> LlmNilStream \<and> fst (inner q t) \<noteq> LlmBlocked"
  shows "(0 \<le> llm_retry cfg \<longrightarrow>
      (case fst (llm_chain env digest cfg inner request (m, c, s)) of
         LlmError err \<Rightarrow> True | LlmStream rs \<Rightarrow> rs \<noteq> [] | _ \<Rightarrow> False)) \<and>
    (llm_retry cfg < 0 \<longrightarrow>
      fst (llm_chain env digest cfg inner request
        (Map.empty, new_circuit (llm_circuit_threshold cfg) (llm_circuit_cooldown cfg), s)) = LlmBlocked)"
proof -
  let ?retry = "retry_generate env inner (llm_retry cfg) (llm_retry_base cfg)"
  have "fst (?retry request s) \<noteq> LlmNilStream \<and> fst (?retry request s) \<noteq> LlmBlocked" if "0 \<le> llm_retry cfg"
    using that retry_never_blocks [OF assms] by (simp add: retry_generate_def retry_attempts_proper)
  with chain_outcome [of env digest cfg inner request m c s]
  have "0 \<le> llm_retry cfg \<Longrightarrow> (case fst (llm_chain env digest cfg inner request (m, c, s)) of
      LlmError err \<Rightarrow> True | LlmStream rs \<Rightarrow> rs \<noteq> [] | _ \<Rightarrow> False)"
    by (cases "fst (llm_chain env digest cfg inner request (m, c, s))") auto
  moreover have "fst (llm_chain env digest cfg inner request (Map.empty, new_circuit x y, s)) = LlmBlocked"
    if "llm_retry cfg < 0" for x y
    using that
    by (auto simp: llm_chain_def circuit_generate_def cache_generate_def retry_generate_def circuit_admit_def
        new_circuit_def cache_get_def env_below_def Let_def split: option.split)
  ultimately show ?thesis by blast
qed

definition sample_llm_config :: "int \<Rightarrow> llm_config" where
  "sample_llm_config retries = \<lparr>llm_base_url = ''https://api'', llm_api_key = ''k'', llm_model = ''deepseek'',
     llm_backup_base_url = '''', llm_backup_api_key = '''', llm_backup_model = '''', llm_local_base_url = '''',
     llm_local_model = '''', llm_timeout = 60, llm_retry = retries, llm_retry_base = 1, llm_circuit_threshold = 5,
     llm_circuit_cooldown = 30, llm_cache_ttl = 600\<rparr>"

theorem chain_answers_witness:
  "fst (llm_chain script_env (\<lambda>ms. Some ''key'') (sample_llm_config (- 1))
     (\<lambda>q t. (LlmError (LlmText ''down''), t)) \<lparr>lq_messages = [], lq_tools = []\<rparr>
     (Map.empty, new_circuit 5 30, \<lparr>sc_next = [], sc_calls = 0, sc_slept = []\<rparr>)) = LlmBlocked"
  using chain_answers [of "\<lambda>q t. (LlmError (LlmText ''down''), t)" "sample_llm_config (- 1)" script_env
      "\<lambda>ms. Some ''key''" "\<lparr>lq_messages = [], lq_tools = []\<rparr>" Map.empty "new_circuit 5 30"
      "\<lparr>sc_next = [], sc_calls = 0, sc_slept = []\<rparr>"]
  by (simp add: sample_llm_config_def)

end
