(* ===== verification/Tool_Env.thy ===== *)
theory Tool_Env
  imports Task_Service Unified_Diff Confirm Git_Source Llm_Chain
begin

section \<open>What the tools work with (internal/agent/tools.go)\<close>

text \<open>
  The dependencies of the tools, the state they run on, and the helpers they share: reading the
  configuration a change starts from, resolving a target to Collectors, calling the language model for
  a configuration, and the best-effort records of audit, version and error.
\<close>

subsection \<open>Arguments and results\<close>

text \<open>A decoded JSON value; a number is kept as its text.\<close>

datatype json =
    JNull
  | JBool bool
  | JNum string
  | JStr string
  | JArr "json list"
  | JObj "(string \<times> json) list"

type_synonym args = "string \<rightharpoonup> json"

record collector_view =
  v_instance_uid :: string
  v_hostname :: string
  v_version :: string
  v_status :: string
  v_group_id :: string

datatype tool_result =
    ResFields "(string \<times> json) list"
  | ResCollectors "collector_view list"
  | ResTasks "task list"

definition get_string :: "args \<Rightarrow> string \<Rightarrow> string" where
  "get_string args key = (case args key of Some (JStr s) \<Rightarrow> s | _ \<Rightarrow> '''')"

subsection \<open>Dependencies and state\<close>

text \<open>
  The state holds the OpAMP server with its registry and store, the clock, the number of ids and of
  model calls made so far.  The call of the model takes the number of the call, the request and the
  state, and gives the outcome, the time it took and the state the rest of the system left meanwhile;
  that a call of the decorated model returns is \<open>chain_answers\<close> of \<open>Llm_Chain\<close>.
\<close>

record tool_state =
  ts_opamp :: opamp
  ts_now :: time
  ts_ids :: nat
  ts_calls :: nat

record deps =
  dp_confirm :: confirm_env
  dp_opamp_env :: opamp_env
  dp_around :: "opamp surroundings"
  dp_has_opamp :: bool
  dp_has_registry :: bool
  dp_decode :: map_decoder
  dp_otelcol :: otelcol_env
  dp_model :: "nat \<Rightarrow> llm_request \<Rightarrow> time \<Rightarrow> opamp \<Rightarrow> (llm_error + llm_response list) \<times> nat \<times> opamp"
  dp_ulid :: "nat \<Rightarrow> string"
  dp_require_approval :: bool
  dp_otelcol_bin :: string
  dp_strict_validate :: bool
  dp_config_source :: string
  dp_git_ref :: string
  dp_git_pathspec :: string
  dp_git :: "git_command option"

type_synonym 'a tool_op = "(tool_state, go_error, 'a) op"

definition on_opamp :: "(opamp \<Rightarrow> opamp) \<Rightarrow> tool_state \<Rightarrow> tool_state" where
  "on_opamp f s = s\<lparr>ts_opamp := f (ts_opamp s)\<rparr>"

definition on_db :: "'a db_op \<Rightarrow> 'a tool_op" where
  "on_db m s = (let (r, d) = m (os_db (ts_opamp s)) in (r, on_opamp (os_db_update (\<lambda>_. d)) s))"

definition dp_sha :: "deps \<Rightarrow> sha_sum" where
  "dp_sha dp = ce_sha (dp_confirm dp)"

definition new_ulid :: "deps \<Rightarrow> tool_state \<Rightarrow> string \<times> tool_state" where
  "new_ulid dp s = (dp_ulid dp (ts_ids s), s\<lparr>ts_ids := ts_ids s + 1\<rparr>)"

definition check_config :: "deps \<Rightarrow> string \<Rightarrow> val_result" where
  "check_config dp content =
    validate (dp_decode dp) (dp_otelcol dp) content (dp_otelcol_bin dp) (dp_strict_validate dp)"

definition set_status :: "string \<Rightarrow> task_status \<Rightarrow> task tool_op" where
  "set_status tid to s = on_db (svc_set_status (ts_now s) tid to) s"

text \<open>A write to the audit log, whose result is ignored.\<close>

definition audit :: "string \<Rightarrow> audit_action \<Rightarrow> string \<Rightarrow> string \<Rightarrow> tool_state \<Rightarrow> tool_state" where
  "audit actor action subject detail s =
    snd (on_db (append_audit \<lparr>au_id = 0, au_actor = actor, au_action = action, au_subject = subject,
      au_detail = detail, au_created_at = ts_now s\<rparr>) s)"

definition set_task_error :: "string \<Rightarrow> string \<Rightarrow> tool_state \<Rightarrow> tool_state" where
  "set_task_error tid msg s =
    (case on_db (get_task tid) s of
       (Inl _, s1) \<Rightarrow> s1
     | (Inr t, s1) \<Rightarrow> snd (on_db (update_task (ts_now s1) (t\<lparr>t_error := msg\<rparr>)) s1))"

definition mark_task_failed :: "string \<Rightarrow> string \<Rightarrow> tool_state \<Rightarrow> tool_state" where
  "mark_task_failed tid reason s =
    (case set_status tid TaskStatusFailed s of
       (Inl _, s1) \<Rightarrow> s1
     | (Inr _, s1) \<Rightarrow> set_task_error tid reason s1)"

subsection \<open>The configuration a change starts from\<close>

definition base_for_instance :: "deps \<Rightarrow> string \<Rightarrow> tool_state \<Rightarrow> (string \<times> string) \<times> tool_state" where
  "base_for_instance dp uid s =
    (case (if dp_has_registry dp then reported_effective uid (os_reg (ts_opamp s)) else None) of
       Some (c # cs) \<Rightarrow> ((c # cs, ''reported''), s)
     | _ \<Rightarrow>
         (case on_db (get_collector uid) s of
            (Inr c, s1) \<Rightarrow> (if col_effective_config c \<noteq> '''' then ((col_effective_config c, ''store''), s1)
                          else (('''', ''''), s1))
          | (Inl _, s1) \<Rightarrow> (('''', ''''), s1)))"

primrec first_base :: "deps \<Rightarrow> string \<Rightarrow> collector list \<Rightarrow> tool_state \<Rightarrow> (string \<times> string) \<times> tool_state" where
  "first_base dp target [] s = (('''', ''''), s)"
| "first_base dp target (c # cs) s =
     (if col_group_id c = target then
        (let ((yaml, src), s1) = base_for_instance dp (col_instance_uid c) s
         in if yaml \<noteq> '''' then ((yaml, src), s1) else first_base dp target cs s1)
      else first_base dp target cs s)"

definition base_config_for :: "deps \<Rightarrow> string \<Rightarrow> tool_state \<Rightarrow> (string \<times> string) \<times> tool_state" where
  "base_config_for dp target s =
    (if target = '''' then (('''', ''''), s)
     else let ((yaml, src), s1) = base_for_instance dp target s in
       if yaml \<noteq> '''' then ((yaml, src), s1)
       else case on_db (list_collectors 0 0) s1 of
           (Inl _, s2) \<Rightarrow> (('''', ''''), s2)
         | (Inr (cs, _), s2) \<Rightarrow> first_base dp target cs s2)"

definition task_base_source :: "task \<Rightarrow> string" where
  "task_base_source t = (if t_base_yaml t = '''' then '''' else t_base_source t)"

definition targets :: "string \<Rightarrow> collector \<Rightarrow> bool" where
  "targets target c \<longleftrightarrow> col_instance_uid c = target \<or> col_group_id c = target"

definition target_collectors :: "string \<Rightarrow> collector list tool_op" where
  "target_collectors target s =
    (if target = '''' then (Inl (ErrText MsgTargetEmpty), s)
     else case on_db (list_collectors 0 0) s of
         (Inl err, s1) \<Rightarrow> (Inl (ErrWrap MsgQueryCollectorsFailed err), s1)
       | (Inr (cs, _), s1) \<Rightarrow>
           (let out = filter (targets target) cs
            in if out = [] then (Inl (ErrCmd MsgNoMatchingCollector target), s1) else (Inr out, s1)))"

subsection \<open>Calling the model\<close>

definition code_fence :: string where
  "code_fence = ''```''"

definition strip_code_fence :: "string \<Rightarrow> string" where
  "strip_code_fence content0 =
    (let content = trim_space content0 in
     case index_of code_fence content of
       None \<Rightarrow> content
     | Some start \<Rightarrow>
         let after0 = drop (start + 3) content;
             after = (case index_of [CHR 0x0A] after0 of None \<Rightarrow> after0 | Some nl \<Rightarrow> drop (nl + 1) after0)
         in case index_of code_fence after of
              Some stop \<Rightarrow> trim_space (take stop after)
            | None \<Rightarrow> trim_space after)"

text \<open>The contents of a stream, or the first error it delivers.\<close>

primrec collect_stream :: "llm_response list \<Rightarrow> string \<Rightarrow> go_error + string" where
  "collect_stream [] acc = Inr acc"
| "collect_stream (r # rs) acc =
     (case lr_error r of
        Some msg \<Rightarrow> Inl (ErrCmd MsgLlmReturnedError msg)
      | None \<Rightarrow> collect_stream rs (acc @ concat (map lm_content (lr_choices r))))"

definition config_request :: "string \<Rightarrow> string \<Rightarrow> llm_request" where
  "config_request desc context_info =
    (let prompt = txt_expert_1 @ txt_expert_2 @ txt_expert_3 @
           (if context_info \<noteq> '''' then txt_context @ context_info else '''')
     in \<lparr>lq_messages = [text_message ''system'' prompt, text_message ''user'' desc], lq_tools = []\<rparr>)"

definition call_model :: "deps \<Rightarrow> llm_request \<Rightarrow> tool_state \<Rightarrow> (llm_error + llm_response list) \<times> tool_state" where
  "call_model dp request s =
    (let (out, elapsed, o') = dp_model dp (ts_calls s) request (ts_now s) (ts_opamp s)
     in (out, s\<lparr>ts_opamp := o', ts_now := ts_now s + int elapsed, ts_calls := ts_calls s + 1\<rparr>))"

definition call_config_llm :: "deps \<Rightarrow> string \<Rightarrow> string \<Rightarrow> string tool_op" where
  "call_config_llm dp desc context_info s =
    (let (out, s1) = call_model dp (config_request desc context_info) s in
     case out of
       Inl err \<Rightarrow> (Inl (ErrCmd MsgLlmCallFailed (llm_error_text err)), s1)
     | Inr rs \<Rightarrow>
         (case collect_stream rs '''' of
            Inl err \<Rightarrow> (Inl err, s1)
          | Inr text \<Rightarrow>
              (let content = strip_code_fence (trim_space text)
               in if content = '''' then (Inl (ErrText MsgLlmEmptyConfig), s1) else (Inr content, s1))))"

primrec generate_attempts ::
  "deps \<Rightarrow> string \<Rightarrow> string \<Rightarrow> nat \<Rightarrow> go_error \<Rightarrow> (string \<times> string) tool_op" where
  "generate_attempts dp desc context_info 0 last_err s =
     (Inl (ErrWrap MsgGenerateRetriesExhausted last_err), s)"
| "generate_attempts dp desc context_info (Suc left) last_err s =
     (case call_config_llm dp desc context_info s of
        (Inl err, s1) \<Rightarrow> generate_attempts dp desc context_info left err s1
      | (Inr content, s1) \<Rightarrow>
          (let res = check_config dp content
           in if vr_valid res then (Inr (content, ''deepseek''), s1)
              else generate_attempts dp desc context_info left (ErrTexts MsgConfigInvalid (vr_errors res)) s1))"

text \<open>Three attempts; the error they start from is never shown.\<close>

definition generate_yaml :: "deps \<Rightarrow> string \<Rightarrow> string \<Rightarrow> (string \<times> string) tool_op" where
  "generate_yaml dp desc context_info =
    generate_attempts dp desc context_info 3 (ErrText MsgGenerateRetriesExhausted)"

end
