(* ===== verification/Fleet_Steps.thy ===== *)
theory Fleet_Steps
  imports Opamp_Server
begin

section \<open>What the fleet does on its own (internal/opampserver/server.go, registry.go)\<close>

text \<open>
  The steps of the OpAMP server that no request and no tool starts: an agent reports, a connection closes,
  the sweep marks silent Collectors.  Waiting operations of the server run among these steps.  The lemmas show
  that they send nothing of their own: a queued configuration may leave the queue, with the reply to its
  agent, and nothing enters it.
\<close>

inductive fleet_step :: "opamp_env \<Rightarrow> opamp \<Rightarrow> opamp \<Rightarrow> bool" for env where
  agent_reports: "fleet_step env s (snd (on_message env now conn msg s))"
| agent_leaves: "fleet_step env s (on_connection_close env conn s)"
| sweep_marks: "fleet_step env s (on_fleet (mark_offline order now) s)"

text \<open>The queue has only lost entries.\<close>

definition fleet_drained :: "opamp \<Rightarrow> opamp \<Rightarrow> bool" where
  "fleet_drained u u' \<longleftrightarrow> os_sent u' = os_sent u \<and>
    (\<forall>uid. os_pending u' uid = None \<or> os_pending u' uid = os_pending u uid)"

definition fleet_untouched :: "opamp \<Rightarrow> opamp \<Rightarrow> bool" where
  "fleet_untouched u u' \<longleftrightarrow> os_sent u' = os_sent u \<and> os_pending u' = os_pending u"

lemma fleet_drained_refl [simp]: "fleet_drained u u"
  by (simp add: fleet_drained_def)

lemma fleet_drained_trans: "fleet_drained u v \<Longrightarrow> fleet_drained v w \<Longrightarrow> fleet_drained u w"
  unfolding fleet_drained_def by metis

lemma fleet_untouched_drained: "fleet_untouched u u' \<Longrightarrow> fleet_drained u u'"
  by (simp add: fleet_untouched_def fleet_drained_def)

subsection \<open>The tasks are left alone\<close>

lemma upsert_collector_tasks: "db_tasks (snd (upsert_collector c d)) = db_tasks d"
proof -
  obtain r d' where run: "upsert_collector c d = (r, d')" by (cases "upsert_collector c d")
  from exec_direct_effect [OF run [unfolded upsert_collector_def]] show ?thesis
    unfolding run by (cases r) (auto simp: Let_def)
qed

lemma reg_upsert_tasks: "db_tasks (snd (reg_upsert c conn s)) = db_tasks (snd s)"
  by (simp add: reg_upsert_def Let_def upsert_collector_tasks)

lemma mark_one_tasks: "db_tasks (snd (mark_one now uid s)) = db_tasks (snd s)"
  by (simp add: mark_one_def Let_def upsert_collector_tasks split: option.split)

lemma mark_offline_tasks: "db_tasks (snd (mark_offline order now s)) = db_tasks (snd s)"
proof -
  have "db_tasks (snd (fold (mark_one now) uids s)) = db_tasks (snd s)" for uids
    by (induction uids arbitrary: s) (simp_all add: mark_one_tasks)
  then show ?thesis by (simp add: mark_offline_def)
qed

lemma restore_known_tasks: "db_tasks (os_db (restore_known uid s)) = db_tasks (os_db s)"
proof -
  have "db_tasks d' = db_tasks (os_db s)" if "get_collector uid (os_db s) = (r, d')" for r d'
    using query_row_effect [OF that [unfolded get_collector_def]] by auto
  then show ?thesis
    by (auto simp: restore_known_def frame_simps reg_upsert_tasks split: option.split prod.split sum.split)
qed

lemma on_message_tasks: "db_tasks (os_db (snd (on_message env now conn msg s))) = db_tasks (os_db s)"
  by (simp add: on_message_def Let_def take_pending_def frame_simps reg_upsert_tasks restore_known_tasks split: option.split)

subsection \<open>A run of the fleet\<close>

lemma fleet_step_drained:
  "fleet_step env s s' \<Longrightarrow> fleet_drained s s' \<and> db_tasks (os_db s') = db_tasks (os_db s)"
proof (induction rule: fleet_step.induct)
  case (agent_reports s now conn msg)
  have "fleet_drained s (snd (on_message env now conn msg s))"
  proof (cases "hex_encode (am_instance_uid msg) = ''''")
    case True
    then show ?thesis by (simp add: on_message_def)
  next
    case False
    moreover have "os_sent (snd (on_message env now conn msg s)) = os_sent s"
      by (simp add: on_message_def Let_def take_pending_def frame_simps split: option.split)
    ultimately show ?thesis by (simp add: fleet_drained_def on_message_pending(1) [OF refl])
  qed
  then show ?case by (simp add: on_message_tasks)
next
  case (agent_leaves s conn)
  then show ?case by (simp add: on_connection_close_def Let_def fleet_drained_def frame_simps)
next
  case (sweep_marks s order now)
  then show ?case by (simp add: fleet_drained_def frame_simps mark_offline_tasks)
qed

lemma fleet_run_drained:
  "(fleet_step env)\<^sup>*\<^sup>* s s' \<Longrightarrow> fleet_drained s s' \<and> db_tasks (os_db s') = db_tasks (os_db s)"
  by (induction rule: rtranclp_induct) (auto dest: fleet_step_drained intro: fleet_drained_trans)

text \<open>A reply carries the configuration that was queued for its agent, or none.\<close>

lemma reply_was_queued:
  assumes "fst (on_message env now conn msg s) = Some reply" and "sm_remote_config reply = Some rc"
  shows "\<exists>content. os_pending s (hex_encode (am_instance_uid msg)) = Some content \<and> rc = remote_config_of env content"
proof -
  have uid: "hex_encode (am_instance_uid msg) \<noteq> ''''" using assms(1) by (auto simp: on_message_def)
  show ?thesis
    using on_message_pending(2) [where env = env and now = now and conn = conn and s = s, OF refl uid] assms by (auto split: option.splits if_splits)
qed

end
