(* ===== verification/Dispatch.thy ===== *)
theory Dispatch
  imports Tool_Env Fleet_Steps
begin

section \<open>Approval and delivery (DispatchApprove in internal/agent/tools.go)\<close>

text \<open>
  The step from an approved task to the agents: the delivery of the configuration to every Collector of
  the target with confirmation, the record of the version, and the last status, audit and error of the
  task; the same for a rollback to a stored version or to the content of a commit.
\<close>

subsection \<open>Operations\<close>

text \<open>The effective configuration of a Collector, in the registry and in the store.\<close>

definition sync_registry :: "deps \<Rightarrow> string \<Rightarrow> string \<Rightarrow> tool_state \<Rightarrow> tool_state" where
  "sync_registry dp uid content s =
    (case (if dp_has_registry dp then reg_get uid (os_reg (ts_opamp s)) else None) of
       None \<Rightarrow> s
     | Some c \<Rightarrow> on_opamp (on_fleet (reg_upsert (c\<lparr>col_effective_config := content\<rparr>) None)) s)"

definition sync_store :: "string \<Rightarrow> string \<Rightarrow> tool_state \<Rightarrow> tool_state" where
  "sync_store uid content s =
    (case on_db (get_collector uid) s of
       (Inl _, s1) \<Rightarrow> s1
     | (Inr c, s1) \<Rightarrow> snd (on_db (upsert_collector (c\<lparr>col_effective_config := content\<rparr>)) s1))"

text \<open>The version a Collector was given.  What the database takes for the three writes, retries and waits for a
  lock included, is not modelled: \<open>ts_now\<close> stays.\<close>

definition record_config_version :: "deps \<Rightarrow> string \<Rightarrow> string \<Rightarrow> tool_state \<Rightarrow> tool_state" where
  "record_config_version dp uid content s =
    (case on_db (create_config_version \<lparr>cv_id = 0, cv_collector_instance_uid = uid, cv_yaml = content,
         cv_hash = content_hash (dp_sha dp) content, cv_validated = True, cv_created_at = ts_now s\<rparr>) s of
       (Inl _, s1) \<Rightarrow> s1
     | (Inr _, s1) \<Rightarrow> sync_store uid content (sync_registry dp uid content s1))"

definition deliver :: "deps \<Rightarrow> string \<Rightarrow> string \<Rightarrow> bool tool_op" where
  "deliver dp uid content s =
    (let (r, now', o') = push_and_confirm (dp_confirm dp) (dp_around dp)
         (if dp_has_opamp dp then Some (opamp_pusher (dp_opamp_env dp)) else None)
         (if dp_has_registry dp then Some opamp_view else None)
         uid content default_confirm_timeout (ts_now s) (ts_opamp s)
     in (r, s\<lparr>ts_opamp := o', ts_now := now'\<rparr>))"

text \<open>The loop over the Collectors of a target; the answer lists those that did not confirm.\<close>

primrec deliver_all :: "deps \<Rightarrow> string \<Rightarrow> collector list \<Rightarrow> tool_state \<Rightarrow> string list \<times> tool_state" where
  "deliver_all dp content [] s = ([], s)"
| "deliver_all dp content (c # cs) s =
     (case deliver dp (col_instance_uid c) content s of
        (Inl _, s1) \<Rightarrow> deliver_all dp content cs s1
      | (Inr confirmed, s1) \<Rightarrow>
          (let (rest, s2) = deliver_all dp content cs (record_config_version dp (col_instance_uid c) content s1)
           in (if confirmed then rest else col_instance_uid c # rest, s2)))"

definition done_fields :: "string \<Rightarrow> string \<Rightarrow> tool_result" where
  "done_fields tid message = ResFields
    [(''task_id'', JStr tid), (''status'', JStr (task_status_text TaskStatusDone)), (''message'', JStr message)]"

definition pushed_message :: "collector list \<Rightarrow> string" where
  "pushed_message cs = txt_pushed_to @ itoa (int (length cs)) @ txt_collectors"

definition dispatch_regular :: "deps \<Rightarrow> string \<Rightarrow> task \<Rightarrow> string \<Rightarrow> tool_result tool_op" where
  "dispatch_regular dp tid t approver s =
    (if t_generated_yaml t = '''' then (Inl (ErrCmd MsgNothingToDispatch tid), s)
     else case target_collectors (t_target_group_id t) s of
         (Inl err, s1) \<Rightarrow> (Inl err, snd (set_status tid TaskStatusFailed s1))
       | (Inr cs, s1) \<Rightarrow>
           (let (unconfirmed, s2) = deliver_all dp (t_generated_yaml t) cs s1 in
            case set_status tid TaskStatusDone s2 of
              (Inl err, s3) \<Rightarrow> (Inl err, mark_task_failed tid txt_done_not_stored s3)
            | (Inr _, s3) \<Rightarrow>
                let s4 = audit approver AuditActionApply tid (content_hash (dp_sha dp) (t_generated_yaml t)) s3;
                    s5 = (if unconfirmed \<noteq> [] then
                            audit approver AuditActionApply tid
                              (txt_confirm_timeout @ '': '' @ join '','' unconfirmed)
                              (set_task_error tid (txt_unconfirmed @ join '','' unconfirmed) s4)
                          else s4)
                in (Inr (done_fields tid (pushed_message cs)), s5)))"

definition dispatch_rollback_content :: "deps \<Rightarrow> task \<Rightarrow> string \<Rightarrow> string \<Rightarrow> tool_result tool_op" where
  "dispatch_rollback_content dp t content approver s =
    (case deliver dp (t_target_instance_uid t) content s of
       (Inl err, s1) \<Rightarrow> (Inl (ErrWrap MsgRollbackDispatchFailed err), snd (set_status (t_id t) TaskStatusFailed s1))
     | (Inr confirmed, s1) \<Rightarrow>
         let s2 = record_config_version dp (t_target_instance_uid t) content s1 in
         (case set_status (t_id t) TaskStatusDone s2 of
            (Inl err, s3) \<Rightarrow> (Inl err, mark_task_failed (t_id t) txt_rollback_not_stored s3)
          | (Inr _, s3) \<Rightarrow>
              let hash = content_hash (dp_sha dp) content;
                  detail = (if t_git_commit t \<noteq> '''' then
                      txt_git_trace @ t_git_commit t @ '' path='' @ t_git_path t @ '' ref='' @ t_git_ref t
                        @ ''; hash='' @ hash
                    else hash);
                  s4 = audit approver AuditActionRollback (t_id t) detail s3;
                  s5 = (if \<not> confirmed then
                          audit approver AuditActionRollback (t_id t) txt_confirm_timeout
                            (set_task_error (t_id t) txt_rollback_unconfirmed s4)
                        else s4)
              in (Inr (done_fields (t_id t) txt_rolled_back), s5)))"

definition dispatch_rollback :: "deps \<Rightarrow> task \<Rightarrow> string \<Rightarrow> tool_result tool_op" where
  "dispatch_rollback dp t approver s =
    (if t_target_instance_uid t = '''' then (Inl (ErrText MsgRollbackNoTarget), s)
     else if t_rollback_version_id t = 0 then
       (if t_generated_yaml t = '''' then (Inl (ErrText MsgRollbackNoContent), s)
        else dispatch_rollback_content dp t (t_generated_yaml t) approver s)
     else case on_db (list_config_versions (t_target_instance_uid t) 0 0) s of
         (Inl err, s1) \<Rightarrow> (Inl (ErrWrap MsgQueryVersionsFailed err), s1)
       | (Inr (versions, _), s1) \<Rightarrow>
           (case List.find (\<lambda>v. cv_id v = t_rollback_version_id t) versions of
              None \<Rightarrow> (Inl (ErrCmd MsgRollbackVersionMissing (itoa (t_rollback_version_id t))), s1)
            | Some v \<Rightarrow>
                if cv_collector_instance_uid v \<noteq> t_target_instance_uid t
                then (Inl (ErrCmd MsgRollbackVersionForeign (itoa (t_rollback_version_id t))), s1)
                else dispatch_rollback_content dp t (cv_yaml v) approver s1))"

definition dispatch_upgrade :: "string \<Rightarrow> tool_result tool_op" where
  "dispatch_upgrade tid s =
    (case set_status tid TaskStatusDone s of
       (Inl err, s1) \<Rightarrow> (Inl err, s1)
     | (Inr _, s1) \<Rightarrow> (Inr (done_fields tid txt_upgrade_approved), s1))"

definition dispatch_approve :: "deps \<Rightarrow> string \<Rightarrow> string \<Rightarrow> tool_result tool_op" where
  "dispatch_approve dp tid approver s =
    (case on_db (svc_approve (ts_now s) tid approver) s of
       (Inl err, s1) \<Rightarrow> (Inl err, s1)
     | (Inr t, s1) \<Rightarrow>
         let s2 = audit approver AuditActionApprove tid '''' s1 in
         if t_type t = TaskTypeUpgrade then dispatch_upgrade tid s2
         else if t_type t = TaskTypeRollback then dispatch_rollback dp t approver s2
         else dispatch_regular dp tid t approver s2)"

subsection \<open>Steps on the state\<close>

abbreviation tdb :: "tool_state \<Rightarrow> sql_db" where
  "tdb s \<equiv> os_db (ts_opamp s)"

lemma on_db_eq: "on_db m s = (fst (m (tdb s)), on_opamp (os_db_update (\<lambda>_. snd (m (tdb s)))) s)"
  by (simp add: on_db_def case_prod_beta)

lemma on_opamp_simps [simp]:
  "ts_opamp (on_opamp f s) = f (ts_opamp s)"
  "ts_now (on_opamp f s) = ts_now s" "ts_ids (on_opamp f s) = ts_ids s" "ts_calls (on_opamp f s) = ts_calls s"
  by (simp_all add: on_opamp_def)

lemma on_db_same [simp]: "on_opamp (os_db_update (\<lambda>_. tdb s)) s = s"
  by (simp add: on_opamp_def)

text \<open>What the agents see of a state: the messages sent and queued, and the registry.\<close>

definition fleet_view :: "tool_state \<Rightarrow> (conn_id \<times> server_to_agent) list \<times> (string \<rightharpoonup> string) \<times> registry" where
  "fleet_view s = (os_sent (ts_opamp s), os_pending (ts_opamp s), os_reg (ts_opamp s))"

lemma fleet_view_on_db: "on_db m s = (r, s') \<Longrightarrow> fleet_view s' = fleet_view s"
  by (auto simp: on_db_eq fleet_view_def)

lemma fleet_view_audit: "fleet_view (audit actor action subject detail s) = fleet_view s"
  by (simp add: audit_def on_db_eq fleet_view_def)

text \<open>A concrete system for the witnesses: one model answer, a parser that accepts everything.\<close>

definition sample_deps :: deps where
  "sample_deps = \<lparr>dp_confirm = \<lparr>ce_sha = (\<lambda>_. [7]), ce_decode = (\<lambda>_. Inl '''')\<rparr>,
     dp_opamp_env = \<lparr>oe_sha = (\<lambda>_. [7]), oe_send_ok = (\<lambda>_ _. True), oe_order = (\<lambda>ks. ks)\<rparr>,
     dp_around = (\<lambda>t u. Some (0, u)), dp_has_opamp = True, dp_has_registry = True,
     dp_decode = (\<lambda>_. Inr (Some [(''service'', YMap [(''pipelines'', YMap [(''traces'', YMap [])])]),
       (''receivers'', YMap []), (''exporters'', YMap [])])),
     dp_otelcol = \<lparr>oc_tmp = (\<lambda>_. TmpOk ''/tmp/x''), oc_run = (\<lambda>_ _. RunOk)\<rparr>,
     dp_model = (\<lambda>n q t u. (Inr [\<lparr>lr_error = None, lr_choices = [text_message ''assistant'' ''cfg''], lr_model = ''deepseek-chat''\<rparr>], 5, u)),
     dp_ulid = (\<lambda>n. replicate (n + 1) (CHR ''A'')), dp_require_approval = True, dp_otelcol_bin = '''',
     dp_strict_validate = False, dp_config_source = ''builtin'', dp_git_ref = ''HEAD'', dp_git_pathspec = '''',
     dp_git = None\<rparr>"

definition sample_state :: "sql_db \<Rightarrow> tool_state" where
  "sample_state d = \<lparr>ts_opamp = new_opamp (new_registry 90) d '''', ts_now = 100, ts_ids = 0, ts_calls = 0\<rparr>"

definition waiting_db :: "task \<Rightarrow> sql_db" where
  "waiting_db t = empty_db\<lparr>db_tasks := [t\<lparr>t_id := ''t'', t_status := TaskStatusAwaitingApproval\<rparr>]\<rparr>"

lemma sample_simps [simp]:
  "tdb (sample_state d) = d" "db_faults (waiting_db t) = []"
  "stored_task (waiting_db t) k =
    (if k = ''t'' then Some (t\<lparr>t_id := ''t'', t_status := TaskStatusAwaitingApproval\<rparr>) else None)"
  by (simp_all add: sample_state_def new_opamp_def waiting_db_def empty_db_def stored_task_def table_simps)

text \<open>Only a task that waits for approval can be dispatched: otherwise the call is refused, nothing is
  sent or queued, the registry stays as it is, and no task and no event changes.\<close>

theorem dispatch_needs_waiting_task:
  assumes "dispatch_approve dp k who s = (r, s')"
    and "\<forall>t. stored_task (tdb s) k = Some t \<longrightarrow> t_status t \<noteq> TaskStatusAwaitingApproval"
  shows "\<not> is_ok r \<and> fleet_view s' = fleet_view s \<and> stored_task (tdb s') = stored_task (tdb s) \<and>
    event_links (tdb s') = event_links (tdb s)"
proof -
  obtain ra da where run: "svc_approve (ts_now s) k who (tdb s) = (ra, da)"
    by (cases "svc_approve (ts_now s) k who (tdb s)")
  from approve_effect [OF run] assms(2) obtain e where "ra = Inl e"
    and "stored_task da = stored_task (tdb s)" "event_links da = event_links (tdb s)"
    by (cases ra) (auto simp: can_transition_def)
  with assms(1) run show ?thesis by (auto simp: dispatch_approve_def on_db_eq fleet_view_def)
qed

theorem dispatch_needs_waiting_task_witness:
  "\<not> is_ok (fst (dispatch_approve sample_deps ''x'' ''ann'' (sample_state (waiting_db empty_task)))) \<and>
   fleet_view (snd (dispatch_approve sample_deps ''x'' ''ann'' (sample_state (waiting_db empty_task)))) =
     fleet_view (sample_state (waiting_db empty_task))"
  using dispatch_needs_waiting_task [OF surjective_pairing, of "sample_state (waiting_db empty_task)" "''x''"
      sample_deps "''ann''"] by simp

subsection \<open>A dispatch on a healthy system\<close>

text \<open>
  A system is calm when its database works and what the rest of the system does while a delivery waits
  touches neither tasks nor the audit log.
\<close>

definition calm :: "opamp surroundings \<Rightarrow> bool" where
  "calm around \<longleftrightarrow> (\<forall>t u late u'. around t u = Some (late, u') \<longrightarrow> db_faults (os_db u) = [] \<longrightarrow>
     db_faults (os_db u') = [] \<and> db_tasks (os_db u') = db_tasks (os_db u) \<and>
     db_audit (os_db u') = db_audit (os_db u))"

definition db_holding :: "string \<Rightarrow> task \<Rightarrow> audit_log list \<Rightarrow> sql_db \<Rightarrow> bool" where
  "db_holding k t log d \<longleftrightarrow> db_faults d = [] \<and> stored_task d k = Some t \<and> db_audit d = log"

abbreviation holding :: "string \<Rightarrow> task \<Rightarrow> audit_log list \<Rightarrow> tool_state \<Rightarrow> bool" where
  "holding k t log s \<equiv> db_holding k t log (tdb s)"

lemma push_config_db: "os_db (snd (push_config env uid content u)) = os_db u"
  by (auto simp: push_config_def set_pending_def conn_send_def split: option.split)

lemma send_restart_db: "os_db (snd (send_restart env uid u)) = os_db u"
  by (auto simp: send_restart_def conn_send_def split: option.split)

lemma upsert_collector_holding:
  "db_holding k t log d \<Longrightarrow> db_holding k t log (snd (upsert_collector c d))"
  by (simp add: db_holding_def upsert_collector_def exec_direct_healthy stored_task_def)

lemma deliver_holding:
  assumes "deliver dp uid content s = (r, s')" and "calm (dp_around dp)" and "holding k t log s"
  shows "holding k t log s'"
proof -
  obtain o' now' where run: "push_and_confirm (dp_confirm dp) (dp_around dp)
        (if dp_has_opamp dp then Some (opamp_pusher (dp_opamp_env dp)) else None)
        (if dp_has_registry dp then Some opamp_view else None)
        uid content default_confirm_timeout (ts_now s) (ts_opamp s) = (r, now', o')"
    and s': "s' = s\<lparr>ts_opamp := o', ts_now := now'\<rparr>"
    using assms(1) by (auto simp: deliver_def split: prod.splits)
  have "db_holding k t log (os_db o')"
  proof (rule push_and_confirm_keeps [OF run, where P = "\<lambda>u. db_holding k t log (os_db u)"])
    show "db_holding k t log (os_db (ts_opamp s))" by (rule assms(3))
  next
    fix now u late u' assume "dp_around dp now u = Some (late, u')" "db_holding k t log (os_db u)"
    then show "db_holding k t log (os_db u')"
      using assms(2) unfolding calm_def db_holding_def stored_task_def by metis
  next
    fix p u x u' assume "(if dp_has_opamp dp then Some (opamp_pusher (dp_opamp_env dp)) else None) = Some p"
      "cp_push p uid content u = (x, u')" "db_holding k t log (os_db u)"
    then show "db_holding k t log (os_db u')"
      using push_config_db [of "dp_opamp_env dp" uid content u] by (auto simp: opamp_pusher_def split: if_splits)
  next
    fix p u x u' assume "(if dp_has_opamp dp then Some (opamp_pusher (dp_opamp_env dp)) else None) = Some p"
      "cp_restart p uid u = (x, u')" "db_holding k t log (os_db u)"
    then show "db_holding k t log (os_db u')"
      using send_restart_db [of "dp_opamp_env dp" uid u] by (auto simp: opamp_pusher_def split: if_splits)
  qed
  with s' show ?thesis by simp
qed

lemma create_config_version_holding:
  "db_holding k t log d \<Longrightarrow> create_config_version v d = (r, d') \<Longrightarrow> db_holding k t log d'"
  by (auto simp: db_holding_def create_config_version_def and_then_def exec_direct_healthy stored_task_def Let_def)

lemma get_collector_healthy:
  "db_faults d = [] \<Longrightarrow> get_collector uid d =
    (case find_row col_instance_uid uid (db_collectors d) of None \<Rightarrow> (Inl ErrNotFound, d) | Some c \<Rightarrow> (Inr c, d))"
  by (simp add: get_collector_def query_row_healthy)

lemma sync_holding:
  assumes "holding k t log s"
  shows "holding k t log (sync_registry dp uid content s)" and "holding k t log (sync_store uid content s)"
proof -
  show "holding k t log (sync_registry dp uid content s)"
    using assms
    by (auto simp: sync_registry_def frame_simps reg_upsert_def Let_def upsert_collector_holding split: option.split)
  have "on_db (get_collector uid) s = (fst (get_collector uid (tdb s)), s)"
    using assms by (auto simp: db_holding_def on_db_eq get_collector_healthy split: option.split)
  with assms show "holding k t log (sync_store uid content s)"
    by (auto simp: sync_store_def on_db_eq upsert_collector_holding split: sum.split)
qed

lemma record_config_version_holding:
  assumes "holding k t log s"
  shows "holding k t log (record_config_version dp uid content s)"
proof -
  have "holding k t log s1" if "on_db (create_config_version v) s = (r, s1)" for v r s1
    using that create_config_version_holding [OF assms, of v] by (auto simp: on_db_eq prod_eq_iff)
  then show ?thesis
    by (auto simp: record_config_version_def intro!: sync_holding split: prod.split sum.split)
qed

lemma deliver_all_holding:
  "calm (dp_around dp) \<Longrightarrow> holding k t log s \<Longrightarrow> holding k t log (snd (deliver_all dp content cs s))"
proof (induction cs arbitrary: s)
  case Nil
  then show ?case by simp
next
  case (Cons c cs)
  obtain r s1 where s1: "deliver dp (col_instance_uid c) content s = (r, s1)"
    by (cases "deliver dp (col_instance_uid c) content s")
  have h1: "holding k t log s1" using deliver_holding [OF s1 Cons.prems] .
  show ?case
    using s1 Cons.IH [OF Cons.prems(1) h1]
      Cons.IH [OF Cons.prems(1) record_config_version_holding [OF h1, of dp "col_instance_uid c" content]]
    by (auto simp: case_prod_beta Let_def split: sum.split)
qed

lemma set_status_holding:
  assumes "holding k t log s" and "can_transition (t_status t) to"
  shows "\<exists>s'. set_status k to s = (Inr (t\<lparr>t_status := to, t_updated_at := ts_now s\<rparr>), s') \<and>
    holding k (t\<lparr>t_status := to, t_updated_at := ts_now s\<rparr>) log s'"
proof -
  let ?t = "t\<lparr>t_status := to, t_updated_at := ts_now s\<rparr>"
  obtain d' where run: "svc_set_status (ts_now s) k to (tdb s) = (Inr ?t, d')" "db_faults d' = []"
    using set_status_healthy [of "tdb s" "ts_now s" k to] assms by (auto simp: db_holding_def)
  have "db_audit d' = log"
    by (rule svc_keeps(4) [OF _ _ _ run(1), where P = "\<lambda>d. db_audit d = log"])
      (use assms(1) in \<open>auto simp: fault_blind_def db_holding_def\<close>)
  moreover have "stored_task d' k = Some ?t" using set_status_effect [OF run(1)] by auto
  ultimately show ?thesis using run by (auto simp: set_status_def on_db_eq db_holding_def)
qed

lemma set_task_error_holding:
  assumes "holding k t log s"
  shows "holding k (t\<lparr>t_error := msg, t_updated_at := ts_now s\<rparr>) log (set_task_error k msg s)"
proof -
  have id: "t_id t = k" using assms by (auto simp: db_holding_def stored_task_def dest: find_row_SomeD)
  have read: "on_db (get_task k) s = (Inr t, s)"
    using assms by (simp add: on_db_eq db_holding_def stored_task_def get_task_healthy)
  obtain d' where run: "update_task (ts_now s) (t\<lparr>t_error := msg\<rparr>) (tdb s) =
      (Inr (t\<lparr>t_error := msg, t_updated_at := ts_now s\<rparr>), d')" and ok: "db_faults d' = []"
    using sql_repo.save_healthy [of "tdb s" "ts_now s" "t\<lparr>t_error := msg\<rparr>"] assms by (auto simp: db_holding_def)
  have "db_audit d' = log"
    by (rule task_writes_keep(3) [OF _ _ _ run, where P = "\<lambda>d. db_audit d = log"])
      (use assms in \<open>auto simp: fault_blind_def db_holding_def\<close>)
  moreover have "stored_task d' k = Some (t\<lparr>t_error := msg, t_updated_at := ts_now s\<rparr>)"
    using sql_repo.save_ok [OF run] id assms by (auto simp: db_holding_def)
  ultimately show ?thesis using run ok read by (simp add: set_task_error_def on_db_eq db_holding_def)
qed

definition log_entry :: "audit_log \<Rightarrow> string \<times> audit_action \<times> string" where
  "log_entry a = (au_actor a, au_action a, au_subject a)"

lemma audit_holding:
  assumes "holding k t log s"
  shows "\<exists>a. holding k t (log @ [a]) (audit who act sub det s) \<and> log_entry a = (who, act, sub) \<and> au_detail a = det"
  using assms
  by (auto simp: audit_def on_db_eq append_audit_def exec_direct_healthy Let_def db_holding_def stored_task_def
      log_entry_def)

lemma target_collectors_same:
  "db_faults (tdb s) = [] \<Longrightarrow> snd (target_collectors target s) = s"
  by (auto simp: target_collectors_def on_db_eq list_collectors_def and_then_def query_healthy ret_def Let_def)

text \<open>The approved tasks that have nothing to send.\<close>

definition lacks_content :: "sql_db \<Rightarrow> task \<Rightarrow> bool" where
  "lacks_content d t \<longleftrightarrow>
    (if t_type t = TaskTypeUpgrade then False
     else if t_type t = TaskTypeRollback then
       t_target_instance_uid t = '''' \<or>
       (if t_rollback_version_id t = 0 then t_generated_yaml t = ''''
        else \<not> (\<exists>v \<in> set (db_versions d). cv_id v = t_rollback_version_id t \<and>
          cv_collector_instance_uid v = t_target_instance_uid t))
     else t_generated_yaml t = '''')"

text \<open>
  How a dispatch ends: with the last status, and the audit records of the delivery and, if a Collector
  did not confirm, of the missing confirmation.
\<close>

definition ends_well :: "string \<Rightarrow> audit_action \<Rightarrow> string \<Rightarrow> task \<Rightarrow> audit_log list \<Rightarrow> tool_state \<Rightarrow> bool" where
  "ends_well who act k t log s \<longleftrightarrow> (\<exists>t' entries. holding k t' (log @ entries) s \<and>
     t_status t' = TaskStatusDone \<and> t_approver t' = t_approver t \<and>
     (map log_entry entries = [(who, act, k)] \<and> t_error t' = t_error t \<or>
      map log_entry entries = [(who, act, k), (who, act, k)] \<and> t_error t' \<noteq> ''''))"

definition ends_in :: "string \<Rightarrow> task_status \<Rightarrow> task \<Rightarrow> audit_log list \<Rightarrow> tool_state \<Rightarrow> bool" where
  "ends_in k st t log s \<longleftrightarrow> (\<exists>t'. holding k t' log s \<and> t_status t' = st \<and> t_approver t' = t_approver t)"

lemma ends_well_plain:
  assumes "holding k t0 log s" and "t_status t0 = TaskStatusDone" and "t_approver t0 = t_approver t"
    and "t_error t0 = t_error t"
  shows "ends_well who act k t log (audit who act k det s)"
proof -
  obtain a where "holding k t0 (log @ [a]) (audit who act k det s)" "log_entry a = (who, act, k)"
    using audit_holding [OF assms(1)] by blast
  with assms(2-4) show ?thesis unfolding ends_well_def by (intro exI [of _ t0] exI [of _ "[a]"]) simp
qed

lemma ends_well_unconfirmed:
  assumes "holding k t0 log s" and "t_status t0 = TaskStatusDone" and "t_approver t0 = t_approver t"
    and "msg \<noteq> ''''"
  shows "ends_well who act k t log (audit who act k det2 (set_task_error k msg (audit who act k det s)))"
proof -
  let ?s1 = "audit who act k det s"
  let ?t1 = "t0\<lparr>t_error := msg, t_updated_at := ts_now ?s1\<rparr>"
  obtain a where a: "holding k t0 (log @ [a]) ?s1" "log_entry a = (who, act, k)"
    using audit_holding [OF assms(1)] by blast
  obtain b where "holding k ?t1 ((log @ [a]) @ [b]) (audit who act k det2 (set_task_error k msg ?s1))"
      "log_entry b = (who, act, k)"
    using audit_holding [OF set_task_error_holding [OF a(1)]] by blast
  with a assms show ?thesis unfolding ends_well_def by (intro exI [of _ ?t1] exI [of _ "[a, b]"]) simp
qed

lemma set_failed:
  assumes "holding k t log s" and "t_status t = TaskStatusApplying"
  shows "ends_in k TaskStatusFailed t log (snd (set_status k TaskStatusFailed s))"
proof -
  have "can_transition (t_status t) TaskStatusFailed" by (simp add: assms(2) can_transition_def)
  from set_status_holding [OF assms(1) this] show ?thesis by (auto simp: ends_in_def)
qed

lemma txt_not_empty: "txt_unconfirmed \<noteq> ''''" "txt_rollback_unconfirmed \<noteq> ''''"
  by (simp_all add: txt_unconfirmed_def txt_rollback_unconfirmed_def utf8_def)

lemma regular_outcome:
  assumes "holding k t log s" and "t_status t = TaskStatusApplying" and "calm (dp_around dp)"
    and run: "dispatch_regular dp k t who s = (r, s')"
  shows "case r of Inl _ \<Rightarrow> ends_in k (if t_generated_yaml t = '''' then TaskStatusApplying else TaskStatusFailed) t log s'
    | Inr _ \<Rightarrow> t_generated_yaml t \<noteq> '''' \<and> ends_well who AuditActionApply k t log s'"
proof (cases "t_generated_yaml t = ''''")
  case True
  with run assms(1,2) show ?thesis by (auto simp: dispatch_regular_def ends_in_def)
next
  case False
  obtain x where x: "target_collectors (t_target_group_id t) s = (x, s)"
    using target_collectors_same [of s "t_target_group_id t"] assms(1)
    by (cases "target_collectors (t_target_group_id t) s") (auto simp: db_holding_def)
  show ?thesis
  proof (cases x)
    case (Inl e)
    with run x False set_failed [OF assms(1,2)] show ?thesis by (auto simp: dispatch_regular_def)
  next
    case (Inr cs)
    obtain un s2 where s2: "deliver_all dp (t_generated_yaml t) cs s = (un, s2)"
      by (cases "deliver_all dp (t_generated_yaml t) cs s")
    have h2: "holding k t log s2" using deliver_all_holding [OF assms(3,1), of "t_generated_yaml t" cs] s2 by simp
    have "can_transition (t_status t) TaskStatusDone" by (simp add: assms(2) can_transition_def)
    from set_status_holding [OF h2 this] obtain s3 t3 where
      s3: "set_status k TaskStatusDone s2 = (Inr t3, s3)" and h3: "holding k t3 log s3"
      and t3: "t3 = t\<lparr>t_status := TaskStatusDone, t_updated_at := ts_now s2\<rparr>" by blast
    show ?thesis
      using run x Inr s2 s3 False h3 t3 txt_not_empty(1)
      by (auto simp: dispatch_regular_def Let_def split: if_splits
          intro!: ends_well_plain [OF h3] ends_well_unconfirmed [OF h3])
  qed
qed

lemma rollback_content_outcome:
  assumes "holding k t log s" and "t_status t = TaskStatusApplying" and "calm (dp_around dp)" and "t_id t = k"
    and run: "dispatch_rollback_content dp t content who s = (r, s')"
  shows "case r of Inl _ \<Rightarrow> ends_in k TaskStatusFailed t log s'
    | Inr _ \<Rightarrow> ends_well who AuditActionRollback k t log s'"
proof -
  obtain x s1 where s1: "deliver dp (t_target_instance_uid t) content s = (x, s1)"
    by (cases "deliver dp (t_target_instance_uid t) content s")
  have h1: "holding k t log s1" using deliver_holding [OF s1 assms(3,1)] .
  show ?thesis
  proof (cases x)
    case (Inl e)
    with run s1 assms(4) set_failed [OF h1 assms(2)] show ?thesis by (auto simp: dispatch_rollback_content_def)
  next
    case (Inr confirmed)
    define s2 where "s2 = record_config_version dp (t_target_instance_uid t) content s1"
    have h2: "holding k t log s2" unfolding s2_def by (rule record_config_version_holding [OF h1])
    have "can_transition (t_status t) TaskStatusDone" by (simp add: assms(2) can_transition_def)
    from set_status_holding [OF h2 this] obtain s3 t3 where
      s3: "set_status k TaskStatusDone s2 = (Inr t3, s3)" and h3: "holding k t3 log s3"
      and t3: "t3 = t\<lparr>t_status := TaskStatusDone, t_updated_at := ts_now s2\<rparr>" by blast
    have "r = Inr (done_fields k txt_rolled_back) \<and>
        (\<exists>det. s' = audit who AuditActionRollback k det s3 \<or>
          s' = audit who AuditActionRollback k txt_confirm_timeout
            (set_task_error k txt_rollback_unconfirmed (audit who AuditActionRollback k det s3)))"
      using run s1 Inr s3 assms(4)
      by (auto simp: dispatch_rollback_content_def Let_def s2_def [symmetric] split: if_splits)
    then show ?thesis
      using t3 txt_not_empty(2)
      by (auto intro!: ends_well_plain [OF h3] ends_well_unconfirmed [OF h3])
  qed
qed

lemma rollback_outcome:
  assumes "holding k t log s" and "t_status t = TaskStatusApplying" and "calm (dp_around dp)" and "t_id t = k"
    and "t_type t = TaskTypeRollback" and run: "dispatch_rollback dp t who s = (r, s')"
  shows "case r of Inl _ \<Rightarrow> ends_in k (if lacks_content (tdb s) t then TaskStatusApplying else TaskStatusFailed) t log s'
    | Inr _ \<Rightarrow> \<not> lacks_content (tdb s) t \<and> ends_well who AuditActionRollback k t log s'"
proof -
  have stays: "ends_in k TaskStatusApplying t log s" using assms(1,2) by (auto simp: ends_in_def)
  have content: "dispatch_rollback_content dp t c who s = (Inl e, s') \<Longrightarrow> ends_in k TaskStatusFailed t log s'"
    "dispatch_rollback_content dp t c who s = (Inr x, s') \<Longrightarrow> ends_well who AuditActionRollback k t log s'" for c e x
    using rollback_content_outcome [OF assms(1-4)] by fastforce+
  consider (target) "t_target_instance_uid t = ''''" | (git) "t_target_instance_uid t \<noteq> ''''" "t_rollback_version_id t = 0"
    | (version) "t_target_instance_uid t \<noteq> ''''" "t_rollback_version_id t \<noteq> 0" by blast
  then show ?thesis
  proof cases
    case target
    with run stays assms(5) show ?thesis by (auto simp: dispatch_rollback_def lacks_content_def)
  next
    case git
    with run stays assms(5) content show ?thesis
      by (auto simp: dispatch_rollback_def lacks_content_def split: if_splits sum.splits)
  next
    case version
    let ?rows = "rev (sort_key cv_id (versions_of (t_target_instance_uid t) (tdb s)))"
    have rows: "on_db (list_config_versions (t_target_instance_uid t) 0 0) s = (Inr (?rows, int (length ?rows)), s)"
      using assms(1)
      by (simp add: on_db_eq list_config_versions_def and_then_def query_healthy ret_def paged_def db_holding_def)
    have member: "v \<in> set ?rows \<longleftrightarrow>
        v \<in> set (db_versions (tdb s)) \<and> cv_collector_instance_uid v = t_target_instance_uid t" for v
      by (auto simp: versions_of_def)
    have lacks: "lacks_content (tdb s) t \<longleftrightarrow> List.find (\<lambda>v. cv_id v = t_rollback_version_id t) ?rows = None"
      unfolding find_None_iff member using version assms(5) by (auto simp: lacks_content_def)
    have own: "List.find (\<lambda>v. cv_id v = t_rollback_version_id t) ?rows = Some v \<Longrightarrow>
        cv_collector_instance_uid v = t_target_instance_uid t" for v
      using member by (metis find_Some_iff nth_mem)
    show ?thesis
      using run rows version own lacks content stays
      by (auto simp: dispatch_rollback_def split: option.splits if_splits sum.splits)
  qed
qed

text \<open>C9: On a calm system the dispatch of a waiting task ends with the task done and approved by the
  caller, and with the audit records of the approval, of the delivery and of a missing confirmation; or
  with an error, the task failed and only the approval recorded.  It stays in \<open>applying\<close>, from where no
  further approval is accepted, exactly when there was nothing to send: no generated configuration, or a
  rollback without a target, content or stored version.\<close>

theorem dispatch_outcome:
  assumes "db_faults (tdb s) = []" and "calm (dp_around dp)" and "stored_task (tdb s) k = Some t"
    and "t_status t = TaskStatusAwaitingApproval" and "dispatch_approve dp k who s = (r, s')"
  shows "\<exists>t' entries. stored_task (tdb s') k = Some t' \<and> t_approver t' = who \<and>
    map log_entry (db_audit (tdb s')) = map log_entry (db_audit (tdb s)) @ (who, AuditActionApprove, k) # entries \<and>
    (case r of
       Inl _ \<Rightarrow> entries = [] \<and>
         t_status t' = (if lacks_content (tdb s) t then TaskStatusApplying else TaskStatusFailed)
     | Inr _ \<Rightarrow> \<not> lacks_content (tdb s) t \<and> t_status t' = TaskStatusDone \<and>
         (let act = (if t_type t = TaskTypeRollback then AuditActionRollback else AuditActionApply) in
          if t_type t = TaskTypeUpgrade then entries = []
          else entries = [(who, act, k)] \<and> t_error t' = t_error t \<or>
            entries = [(who, act, k), (who, act, k)] \<and> t_error t' \<noteq> ''''))"
proof -
  let ?log = "db_audit (tdb s)"
  let ?ta = "t\<lparr>t_status := TaskStatusApplying, t_approver := who, t_updated_at := ts_now s\<rparr>"
  have id: "t_id t = k" using assms(3) by (auto simp: stored_task_def dest: find_row_SomeD)
  obtain da where run: "svc_approve (ts_now s) k who (tdb s) = (Inr ?ta, da)" "db_faults da = []"
    using approve_healthy [OF assms(1), of "ts_now s" k who] assms(3,4) by (auto simp: can_transition_def)
  have keeps: "db_audit da = ?log" "db_versions da = db_versions (tdb s)"
    by (rule svc_keeps(2) [OF _ _ _ run(1), where P = "\<lambda>d. db_audit d = ?log"],
        auto simp: fault_blind_def)
      (rule svc_keeps(2) [OF _ _ _ run(1), where P = "\<lambda>d. db_versions d = db_versions (tdb s)"],
        auto simp: fault_blind_def)
  define s1 where "s1 = on_opamp (os_db_update (\<lambda>_. da)) s"
  have h1: "holding k ?ta ?log s1"
    using approve_effect [OF run(1)] run(2) keeps(1) by (auto simp: s1_def db_holding_def)
  define s2 where "s2 = audit who AuditActionApprove k '''' s1"
  obtain a where h2: "holding k ?ta (?log @ [a]) s2" and a: "log_entry a = (who, AuditActionApprove, k)"
    unfolding s2_def using audit_holding [OF h1] by blast
  have versions: "db_versions (tdb s2) = db_versions (tdb s)"
    using run(2) keeps(2) by (simp add: s2_def s1_def audit_def on_db_eq append_audit_def exec_direct_healthy Let_def)
  have lacks: "lacks_content (tdb s2) ?ta = lacks_content (tdb s) t"
    using versions by (simp add: lacks_content_def)
  have go: "(if t_type t = TaskTypeUpgrade then dispatch_upgrade k s2
      else if t_type t = TaskTypeRollback then dispatch_rollback dp ?ta who s2
      else dispatch_regular dp k ?ta who s2) = (r, s')"
    using assms(5) run(1) by (auto simp: dispatch_approve_def on_db_eq s1_def s2_def Let_def split: if_splits)
  have applying: "t_status ?ta = TaskStatusApplying" "t_id ?ta = k" by (simp_all add: id)
  consider (upgrade) "t_type t = TaskTypeUpgrade" | (rollback) "t_type t = TaskTypeRollback"
    | (regular) "t_type t \<noteq> TaskTypeUpgrade" "t_type t \<noteq> TaskTypeRollback" by blast
  then show ?thesis
  proof cases
    case upgrade
    have "can_transition (t_status ?ta) TaskStatusDone" by (simp add: can_transition_def)
    from set_status_holding [OF h2 this] go upgrade a show ?thesis
      by (auto simp: dispatch_upgrade_def db_holding_def lacks_content_def Let_def)
  next
    case rollback
    then have "dispatch_rollback dp ?ta who s2 = (r, s')" using go by simp
    from rollback_outcome [OF h2 applying(1) assms(2) applying(2) _ this] rollback lacks a show ?thesis
      by (auto simp: ends_in_def ends_well_def db_holding_def Let_def split: sum.splits)
  next
    case regular
    then have "dispatch_regular dp k ?ta who s2 = (r, s')" using go by simp
    from regular_outcome [OF h2 applying(1) assms(2) this] regular a show ?thesis
      by (auto simp: ends_in_def ends_well_def db_holding_def Let_def lacks_content_def split: sum.splits if_splits)
  qed
qed

theorem dispatch_outcome_witness:
  "\<exists>t'. stored_task (tdb (snd (dispatch_approve sample_deps ''t'' ''ann''
      (sample_state (waiting_db (empty_task\<lparr>t_type := TaskTypeGenerate\<rparr>)))))) ''t'' = Some t' \<and>
    t_approver t' = ''ann'' \<and> t_status t' = TaskStatusApplying"
proof -
  let ?s = "sample_state (waiting_db (empty_task\<lparr>t_type := TaskTypeGenerate\<rparr>))"
  have "calm (dp_around sample_deps)" by (simp add: calm_def sample_deps_def)
  moreover have "lacks_content (tdb ?s)
      (empty_task\<lparr>t_type := TaskTypeGenerate, t_id := ''t'', t_status := TaskStatusAwaitingApproval\<rparr>)"
    by (simp add: lacks_content_def empty_task_def)
  ultimately show ?thesis
    using dispatch_outcome [OF _ _ _ _ surjective_pairing, of ?s sample_deps "''t''" _ "''ann''"]
    by (cases "fst (dispatch_approve sample_deps ''t'' ''ann'' ?s)") auto
qed

subsection \<open>What reaches the agents\<close>

text \<open>The Collectors and configurations an approved task stands for.\<close>

definition approved_for :: "sql_db \<Rightarrow> task \<Rightarrow> string \<Rightarrow> string \<Rightarrow> bool" where
  "approved_for d t uid content \<longleftrightarrow>
    (if t_type t = TaskTypeUpgrade then False
     else if t_type t = TaskTypeRollback then
       uid = t_target_instance_uid t \<and>
       (if t_rollback_version_id t = 0 then content = t_generated_yaml t
        else \<exists>v \<in> set (db_versions d). cv_id v = t_rollback_version_id t \<and>
          cv_collector_instance_uid v = t_target_instance_uid t \<and> content = cv_yaml v)
     else content = t_generated_yaml t \<and>
       (\<exists>c \<in> set (db_collectors d). targets (t_target_group_id t) c \<and> uid = col_instance_uid c))"

definition sends_only :: "opamp_env \<Rightarrow> (string \<Rightarrow> string \<Rightarrow> bool) \<Rightarrow> opamp \<Rightarrow> opamp \<Rightarrow> bool" where
  "sends_only env allowed o0 u \<longleftrightarrow>
    (\<exists>ms. os_sent u = os_sent o0 @ ms \<and> (\<forall>m \<in> set ms. \<exists>uid content. allowed uid content \<and>
       (config_message env uid content (snd m) \<or> restart_message uid (snd m)))) \<and>
    (\<forall>uid. os_pending u uid = None \<or> os_pending u uid = os_pending o0 uid \<or>
       (\<exists>content. allowed uid content \<and> os_pending u uid = Some content))"

text \<open>While the dispatch waits, agents report, connections close and the sweep runs.\<close>

definition fleet_around :: "opamp_env \<Rightarrow> opamp surroundings \<Rightarrow> bool" where
  "fleet_around env around \<longleftrightarrow> (\<forall>t u late u'. around t u = Some (late, u') \<longrightarrow> (fleet_step env)\<^sup>*\<^sup>* u u')"

lemma sends_only_refl: "sends_only env allowed u u"
  by (simp add: sends_only_def)

lemma sends_only_same:
  "os_sent u' = os_sent u \<Longrightarrow> os_pending u' = os_pending u \<Longrightarrow> sends_only env allowed o0 u' = sends_only env allowed o0 u"
  by (simp add: sends_only_def)

lemma sends_only_drained:
  assumes "fleet_drained u u'" and "sends_only env allowed o0 u"
  shows "sends_only env allowed o0 u'"
  using assms unfolding sends_only_def fleet_drained_def by metis

lemma sends_only_step:
  assumes "sends_only env allowed o0 u" and "os_sent u' = os_sent u @ ms" and "allowed uid content"
    and "\<forall>m \<in> set ms. config_message env uid content (snd m) \<or> restart_message uid (snd m)"
    and "os_pending u' = os_pending u \<or> os_pending u' = (os_pending u)(uid \<mapsto> content)"
  shows "sends_only env allowed o0 u'"
proof -
  obtain ns where ns: "os_sent u = os_sent o0 @ ns" "\<forall>m \<in> set ns. \<exists>uid content. allowed uid content \<and>
      (config_message env uid content (snd m) \<or> restart_message uid (snd m))"
    using assms(1) by (auto simp: sends_only_def)
  have "os_sent u' = os_sent o0 @ ns @ ms" using ns(1) assms(2) by simp
  moreover have "\<forall>m \<in> set (ns @ ms). \<exists>uid content. allowed uid content \<and>
      (config_message env uid content (snd m) \<or> restart_message uid (snd m))"
    using ns(2) assms(3,4) by auto
  moreover have "os_pending u' j = None \<or> os_pending u' j = os_pending o0 j \<or>
      (\<exists>content. allowed j content \<and> os_pending u' j = Some content)" for j
  proof -
    have "os_pending u j = None \<or> os_pending u j = os_pending o0 j \<or>
        (\<exists>content. allowed j content \<and> os_pending u j = Some content)"
      using assms(1) by (simp add: sends_only_def)
    then show ?thesis using assms(3,5) by (cases "j = uid") auto
  qed
  ultimately show ?thesis unfolding sends_only_def by blast
qed

lemma push_config_pending:
  "os_pending (snd (push_config env uid content u)) = os_pending u \<or>
   os_pending (snd (push_config env uid content u)) = (os_pending u)(uid \<mapsto> content)"
  by (auto simp: push_config_def set_pending_def conn_send_def split: option.split)

lemma push_sends_only:
  assumes "push_config env uid content u = (x, u')" and "sends_only env allowed o0 u" and "allowed uid content"
  shows "sends_only env allowed o0 u'"
proof -
  obtain ms where "os_sent u' = os_sent u @ ms" "\<forall>m \<in> set ms. config_message env uid content (snd m)"
    using push_config_sent [of env uid content u] assms(1) by auto
  with push_config_pending [of env uid content u] assms show ?thesis
    by (intro sends_only_step [OF assms(2) _ assms(3)]) auto
qed

lemma restart_sends_only:
  assumes "send_restart env uid u = (x, u')" and "sends_only env allowed o0 u" and "allowed uid content"
  shows "sends_only env allowed o0 u'"
proof -
  obtain ms where "os_sent u' = os_sent u @ ms" "\<forall>m \<in> set ms. restart_message uid (snd m)"
    using send_restart_sent [of env uid u] assms(1) by auto
  with send_restart_frame(2) [of env uid u] assms show ?thesis
    by (intro sends_only_step [OF assms(2) _ assms(3)]) auto
qed

abbreviation task_sends :: "deps \<Rightarrow> (string \<Rightarrow> string \<Rightarrow> bool) \<Rightarrow> tool_state \<Rightarrow> tool_state \<Rightarrow> bool" where
  "task_sends dp allowed s0 s \<equiv> sends_only (dp_opamp_env dp) allowed (ts_opamp s0) (ts_opamp s)"

lemma task_sends_same:
  "fleet_view s' = fleet_view s \<Longrightarrow> task_sends dp allowed s0 s' = task_sends dp allowed s0 s"
  by (intro sends_only_same) (simp_all add: fleet_view_def)

lemma deliver_sends:
  assumes "deliver dp uid content s = (r, s')" and "fleet_around (dp_opamp_env dp) (dp_around dp)" and "allowed uid content"
    and "task_sends dp allowed s0 s"
  shows "task_sends dp allowed s0 s'"
proof -
  obtain o' now' where run: "push_and_confirm (dp_confirm dp) (dp_around dp)
        (if dp_has_opamp dp then Some (opamp_pusher (dp_opamp_env dp)) else None)
        (if dp_has_registry dp then Some opamp_view else None)
        uid content default_confirm_timeout (ts_now s) (ts_opamp s) = (r, now', o')"
    and s': "s' = s\<lparr>ts_opamp := o', ts_now := now'\<rparr>"
    using assms(1) by (auto simp: deliver_def split: prod.splits)
  let ?P = "sends_only (dp_opamp_env dp) allowed (ts_opamp s0)"
  have "?P o'"
  proof (rule push_and_confirm_keeps [OF run, where P = ?P])
    show "?P (ts_opamp s)" by (rule assms(4))
  next
    fix now u late u' assume "dp_around dp now u = Some (late, u')" "?P u"
    then show "?P u'" using assms(2) fleet_run_drained sends_only_drained unfolding fleet_around_def by blast
  next
    fix p u x u' assume "(if dp_has_opamp dp then Some (opamp_pusher (dp_opamp_env dp)) else None) = Some p"
      "cp_push p uid content u = (x, u')" "?P u"
    then have "push_config (dp_opamp_env dp) uid content u = (x, u')" by (auto simp: opamp_pusher_def split: if_splits)
    then show "?P u'" using \<open>?P u\<close> assms(3) by (rule push_sends_only)
  next
    fix p u x u' assume "(if dp_has_opamp dp then Some (opamp_pusher (dp_opamp_env dp)) else None) = Some p"
      "cp_restart p uid u = (x, u')" "?P u"
    then have "send_restart (dp_opamp_env dp) uid u = (x, u')" by (auto simp: opamp_pusher_def split: if_splits)
    then show "?P u'" using \<open>?P u\<close> assms(3) by (rule restart_sends_only)
  qed
  with s' show ?thesis by simp
qed

lemma record_config_version_sends:
  "os_sent (ts_opamp (record_config_version dp uid content s)) = os_sent (ts_opamp s) \<and>
   os_pending (ts_opamp (record_config_version dp uid content s)) = os_pending (ts_opamp s)"
  by (auto simp: record_config_version_def sync_store_def sync_registry_def on_db_eq frame_simps
      split: prod.split sum.split option.split)

lemma deliver_all_sends:
  "fleet_around (dp_opamp_env dp) (dp_around dp) \<Longrightarrow> \<forall>c \<in> set cs. allowed (col_instance_uid c) content \<Longrightarrow>
    task_sends dp allowed s0 s \<Longrightarrow> task_sends dp allowed s0 (snd (deliver_all dp content cs s))"
proof (induction cs arbitrary: s)
  case Nil
  then show ?case by simp
next
  case (Cons c cs)
  obtain r s1 where s1: "deliver dp (col_instance_uid c) content s = (r, s1)"
    by (cases "deliver dp (col_instance_uid c) content s")
  have h1: "task_sends dp allowed s0 s1" using deliver_sends [OF s1 Cons.prems(1) _ Cons.prems(3)] Cons.prems(2) by simp
  have h2: "task_sends dp allowed s0 (record_config_version dp (col_instance_uid c) content s1)"
    using h1 record_config_version_sends by (subst sends_only_same [of _ "ts_opamp s1"]) auto
  show ?case
    using s1 Cons.IH [OF Cons.prems(1) _ h1] Cons.IH [OF Cons.prems(1) _ h2] Cons.prems(2)
    by (auto simp: case_prod_beta Let_def split: sum.split)
qed

text \<open>What a listing returns comes from the table, whatever the database answers.\<close>

lemma list_collectors_rows:
  assumes "list_collectors 0 0 d = (Inr (rows, n), d')"
  shows "set rows = set (db_collectors d)"
proof -
  have "rows = paged 0 0 (sort_key col_instance_uid (db_collectors d))"
    using assms unfolding list_collectors_def
    by (auto elim!: and_then_cases simp: ret_def dest!: query_effect)
  then show ?thesis by (simp add: paged_def)
qed

lemma list_config_versions_rows:
  assumes "list_config_versions uid 0 0 d = (Inr (rows, n), d')"
  shows "set rows = set (versions_of uid d)"
proof -
  have "versions_of uid (d\<lparr>db_faults := xs\<rparr>) = versions_of uid d" for d xs by (simp add: versions_of_def)
  then have "rows = paged 0 0 (rev (sort_key cv_id (versions_of uid d)))"
    using assms unfolding list_config_versions_def
    by (auto elim!: and_then_cases simp: ret_def dest!: query_effect)
  then show ?thesis by (simp add: paged_def)
qed

lemma target_collectors_rows:
  assumes "target_collectors target s = (r, s')"
  shows "fleet_view s' = fleet_view s \<and>
    (\<forall>cs. r = Inr cs \<longrightarrow> set cs = {c \<in> set (db_collectors (tdb s)). targets target c})"
proof (cases "target = ''''")
  case True
  with assms show ?thesis by (auto simp: target_collectors_def)
next
  case False
  obtain x d' where x: "list_collectors 0 0 (tdb s) = (x, d')" by (cases "list_collectors 0 0 (tdb s)")
  show ?thesis
  proof (cases x)
    case (Inl e)
    with assms False x show ?thesis by (auto simp: target_collectors_def on_db_eq fleet_view_def)
  next
    case (Inr p)
    obtain rows n where p: "p = (rows, n)" by (cases p)
    have rows: "set rows = set (db_collectors (tdb s))" using list_collectors_rows x Inr p by blast
    define s2 where "s2 = on_opamp (os_db_update (\<lambda>_. d')) s"
    have "target_collectors target s = (let out = filter (targets target) rows
        in if out = [] then (Inl (ErrCmd MsgNoMatchingCollector target), s2) else (Inr out, s2))"
      using False x Inr p by (simp add: target_collectors_def on_db_eq s2_def Let_def)
    then have "s' = s2" and "\<forall>cs. r = Inr cs \<longrightarrow> cs = filter (targets target) rows"
      using assms by (simp_all add: Let_def split: if_splits)
    moreover have "fleet_view s2 = fleet_view s" by (simp add: s2_def fleet_view_def)
    ultimately show ?thesis using rows by auto
  qed
qed

lemma set_status_fleet: "fleet_view (snd (set_status k to s)) = fleet_view s"
  by (simp add: set_status_def on_db_eq fleet_view_def)

lemma set_status_run_fleet: "set_status k to s = (r, s') \<Longrightarrow> fleet_view s' = fleet_view s"
  using set_status_fleet [of k to s] by simp

lemma set_task_error_fleet: "fleet_view (set_task_error k msg s) = fleet_view s"
  by (auto simp: set_task_error_def on_db_eq fleet_view_def split: sum.split)

lemma mark_task_failed_fleet: "fleet_view (mark_task_failed k why s) = fleet_view s"
  using set_status_fleet [of k TaskStatusFailed s]
  by (auto simp: mark_task_failed_def set_task_error_fleet split: prod.split sum.split)

lemmas fleet_kept = set_status_fleet set_task_error_fleet mark_task_failed_fleet fleet_view_audit

lemma dispatch_regular_sends:
  assumes "dispatch_regular dp k t who s = (r, s')" and "fleet_around (dp_opamp_env dp) (dp_around dp)"
    and "\<forall>c \<in> set (db_collectors (tdb s)). targets (t_target_group_id t) c \<longrightarrow>
      allowed (col_instance_uid c) (t_generated_yaml t)"
    and "task_sends dp allowed s0 s"
  shows "task_sends dp allowed s0 s'"
proof (cases "t_generated_yaml t = ''''")
  case True
  with assms(1,4) show ?thesis by (simp add: dispatch_regular_def)
next
  case False
  obtain x s1 where x: "target_collectors (t_target_group_id t) s = (x, s1)"
    by (cases "target_collectors (t_target_group_id t) s")
  note rows = target_collectors_rows [OF x]
  with assms(4) have h1: "task_sends dp allowed s0 s1" using task_sends_same by blast
  show ?thesis
  proof (cases x)
    case (Inl e)
    with assms(1) x False have "s' = snd (set_status k TaskStatusFailed s1)" by (auto simp: dispatch_regular_def)
    with h1 show ?thesis using task_sends_same [OF set_status_fleet] by simp
  next
    case (Inr cs)
    obtain un s2 where s2: "deliver_all dp (t_generated_yaml t) cs s1 = (un, s2)"
      by (cases "deliver_all dp (t_generated_yaml t) cs s1")
    have "task_sends dp allowed s0 s2"
      using deliver_all_sends [OF assms(2) _ h1, of cs "t_generated_yaml t"] rows Inr assms(3) s2 by simp
    moreover have "fleet_view s' = fleet_view s2"
      using assms(1) x Inr s2 False
      by (auto simp: dispatch_regular_def Let_def fleet_kept dest: set_status_run_fleet
          split: prod.splits sum.splits if_splits)
    ultimately show ?thesis using task_sends_same by blast
  qed
qed

lemma dispatch_rollback_content_sends:
  assumes "dispatch_rollback_content dp t content who s = (r, s')" and "fleet_around (dp_opamp_env dp) (dp_around dp)"
    and "allowed (t_target_instance_uid t) content" and "task_sends dp allowed s0 s"
  shows "task_sends dp allowed s0 s'"
proof -
  obtain x s1 where s1: "deliver dp (t_target_instance_uid t) content s = (x, s1)"
    by (cases "deliver dp (t_target_instance_uid t) content s")
  define s2 where "s2 = record_config_version dp (t_target_instance_uid t) content s1"
  have h1: "task_sends dp allowed s0 s1" using deliver_sends [where allowed = allowed, OF s1 assms(2-4)] .
  then have h2: "task_sends dp allowed s0 s2"
    using record_config_version_sends unfolding s2_def by (subst sends_only_same [of _ "ts_opamp s1"]) auto
  have "fleet_view s' = fleet_view s1 \<or> fleet_view s' = fleet_view s2"
    using assms(1) s1
    by (auto simp: dispatch_rollback_content_def Let_def fleet_kept s2_def [symmetric]
        dest: set_status_run_fleet split: prod.splits sum.splits if_splits)
  with h1 h2 show ?thesis using task_sends_same by blast
qed

lemma dispatch_rollback_sends:
  assumes "dispatch_rollback dp t who s = (r, s')" and "fleet_around (dp_opamp_env dp) (dp_around dp)" and "t_type t = TaskTypeRollback"
    and allowed: "\<And>content. approved_for (tdb s) t (t_target_instance_uid t) content \<Longrightarrow>
      allowed (t_target_instance_uid t) content"
    and "task_sends dp allowed s0 s"
  shows "task_sends dp allowed s0 s'"
proof -
  note content = dispatch_rollback_content_sends [where allowed = allowed and dp = dp, OF _ assms(2)]
  consider (unchanged) "s' = s" | (git) "t_rollback_version_id t = 0"
      "dispatch_rollback_content dp t (t_generated_yaml t) who s = (r, s')"
    | (version) x s1 where "t_rollback_version_id t \<noteq> 0"
      "on_db (list_config_versions (t_target_instance_uid t) 0 0) s = (x, s1)"
      "s' = s1 \<or> (\<exists>rows n v. x = Inr (rows, n) \<and> v \<in> set rows \<and> cv_id v = t_rollback_version_id t \<and>
        dispatch_rollback_content dp t (cv_yaml v) who s1 = (r, s'))"
  proof (cases "t_target_instance_uid t = '''' \<or> t_rollback_version_id t = 0")
    case True
    with assms(1) have "s' = s \<or> t_rollback_version_id t = 0 \<and>
        dispatch_rollback_content dp t (t_generated_yaml t) who s = (r, s')"
      by (auto simp: dispatch_rollback_def split: if_splits)
    with unchanged git show ?thesis by blast
  next
    case False
    obtain x s1 where x: "on_db (list_config_versions (t_target_instance_uid t) 0 0) s = (x, s1)"
      by (cases "on_db (list_config_versions (t_target_instance_uid t) 0 0) s")
    have found: "v \<in> set rows \<and> cv_id v = t_rollback_version_id t"
      if "List.find (\<lambda>v. cv_id v = t_rollback_version_id t) rows = Some v" for v rows
      using that by (auto simp: find_Some_iff)
    have "s' = s1 \<or> (\<exists>rows n v. x = Inr (rows, n) \<and> v \<in> set rows \<and> cv_id v = t_rollback_version_id t \<and>
        dispatch_rollback_content dp t (cv_yaml v) who s1 = (r, s'))"
    proof (cases x)
      case (Inl e)
      with assms(1) False x show ?thesis by (simp add: dispatch_rollback_def)
    next
      case (Inr p)
      obtain rows n where "p = (rows, n)" by (cases p)
      with assms(1) False x Inr found show ?thesis
        by (auto simp: dispatch_rollback_def split: option.splits if_splits)
    qed
    with version x False show ?thesis by blast
  qed
  then show ?thesis
  proof cases
    case unchanged
    with assms(5) show ?thesis by simp
  next
    case git
    then show ?thesis using content [OF git(2) allowed assms(5)] assms(3) by (simp add: approved_for_def)
  next
    case version
    have h1: "task_sends dp allowed s0 s1" using assms(5) task_sends_same [OF fleet_view_on_db [OF version(2)]] by simp
    have "allowed (t_target_instance_uid t) (cv_yaml v)"
      if "x = Inr (rows, n)" "v \<in> set rows" "cv_id v = t_rollback_version_id t" for rows n v
    proof -
      note answer = that(1)
      obtain d' where "list_config_versions (t_target_instance_uid t) 0 0 (tdb s) = (Inr (rows, n), d')"
        using version(2) answer
        by (cases "list_config_versions (t_target_instance_uid t) 0 0 (tdb s)") (auto simp: on_db_eq)
      from list_config_versions_rows [OF this] that(2)
      have "v \<in> set (db_versions (tdb s))" "cv_collector_instance_uid v = t_target_instance_uid t"
        by (auto simp: versions_of_def)
      with version(1) that(3) assms(3) show ?thesis by (intro allowed) (auto simp: approved_for_def)
    qed
    with version(3) h1 content show ?thesis by blast
  qed
qed

lemma approve_on_db:
  assumes "on_db (svc_approve (ts_now s) k who) s = (Inr t1, s1)" and "stored_task (tdb s) k = Some t"
  shows "t1 = t\<lparr>t_status := TaskStatusApplying, t_approver := who, t_updated_at := ts_now s\<rparr> \<and>
    fleet_view s1 = fleet_view s \<and> db_collectors (tdb s1) = db_collectors (tdb s) \<and>
    db_versions (tdb s1) = db_versions (tdb s)"
proof -
  obtain da where run: "svc_approve (ts_now s) k who (tdb s) = (Inr t1, da)"
    and s1: "s1 = on_opamp (os_db_update (\<lambda>_. da)) s"
    using assms(1) by (cases "svc_approve (ts_now s) k who (tdb s)") (auto simp: on_db_eq)
  have "db_collectors da = db_collectors (tdb s)"
    by (rule svc_keeps(2) [OF _ _ _ run, where P = "\<lambda>d. db_collectors d = db_collectors (tdb s)"])
      (auto simp: fault_blind_def)
  moreover have "db_versions da = db_versions (tdb s)"
    by (rule svc_keeps(2) [OF _ _ _ run, where P = "\<lambda>d. db_versions d = db_versions (tdb s)"])
      (auto simp: fault_blind_def)
  ultimately show ?thesis
    using approve_effect [OF run] assms(2) fleet_view_on_db [OF assms(1)] s1 by auto
qed

lemma audit_tables:
  "db_collectors (tdb (audit who act sub det s)) = db_collectors (tdb s) \<and>
   db_versions (tdb (audit who act sub det s)) = db_versions (tdb s)"
proof -
  define e where "e = \<lparr>au_id = 0, au_actor = who, au_action = act, au_subject = sub, au_detail = det,
    au_created_at = ts_now s\<rparr>"
  obtain r d' where run: "append_audit e (tdb s) = (r, d')" by (cases "append_audit e (tdb s)")
  then have "exec_direct (\<lambda>d. let i = db_seq_audit d + 1 in
      Inr (d\<lparr>db_audit := db_audit d @ [e\<lparr>au_id := i\<rparr>], db_seq_audit := i\<rparr>)) (tdb s) = (r, d')"
    by (simp add: append_audit_def)
  from exec_direct_effect [OF this] run show ?thesis
    by (auto simp: audit_def on_db_eq e_def [symmetric] Let_def split: sum.splits)
qed

lemma dispatch_sends_only:
  assumes "dispatch_approve dp k who s = (r, s')" and "fleet_around (dp_opamp_env dp) (dp_around dp)"
    and "stored_task (tdb s) k = Some t"
  shows "sends_only (dp_opamp_env dp) (approved_for (tdb s) t) (ts_opamp s) (ts_opamp s')"
proof -
  let ?allowed = "approved_for (tdb s) t"
  obtain x s1 where x: "on_db (svc_approve (ts_now s) k who) s = (x, s1)"
    by (cases "on_db (svc_approve (ts_now s) k who) s")
  show ?thesis
  proof (cases x)
    case (Inl e)
    with assms(1) x have "s' = s1" by (simp add: dispatch_approve_def)
    with fleet_view_on_db [OF x] show ?thesis
      using task_sends_same sends_only_refl by blast
  next
    case (Inr t1)
    define s2 where "s2 = audit who AuditActionApprove k '''' s1"
    note t1 = approve_on_db [OF x [unfolded Inr] assms(3)]
    have h2: "task_sends dp ?allowed s s2"
      using task_sends_same [of s2 s dp ?allowed s] t1 sends_only_refl by (simp add: s2_def fleet_view_audit)
    have same: "approved_for (tdb s2) t1 = ?allowed"
      using t1 audit_tables [of who AuditActionApprove k "''''" s1]
      by (auto simp: fun_eq_iff approved_for_def s2_def)
    consider (upgrade) "t_type t1 = TaskTypeUpgrade" "dispatch_upgrade k s2 = (r, s')"
      | (rollback) "t_type t1 = TaskTypeRollback" "dispatch_rollback dp t1 who s2 = (r, s')"
      | (regular) "t_type t1 \<noteq> TaskTypeUpgrade" "t_type t1 \<noteq> TaskTypeRollback" "dispatch_regular dp k t1 who s2 = (r, s')"
      using assms(1) x Inr by (auto simp: dispatch_approve_def Let_def s2_def split: if_splits)
    then show ?thesis
    proof cases
      case upgrade
      then have "fleet_view s' = fleet_view s2"
        by (auto simp: dispatch_upgrade_def dest: set_status_run_fleet split: prod.splits sum.splits)
      with h2 show ?thesis using task_sends_same by blast
    next
      case rollback
      show ?thesis
        by (rule dispatch_rollback_sends [OF rollback(2) assms(2) rollback(1) _ h2]) (simp add: same)
    next
      case regular
      show ?thesis
        by (rule dispatch_regular_sends [OF regular(3) assms(2) _ h2])
          (use regular same [symmetric] in \<open>auto simp: approved_for_def\<close>)
    qed
  qed
qed

text \<open>C8: Whatever the database answers and whatever fails on the way, while agents report, connections
  close and the sweep runs during the waits (requests of others being handled before or after): all that a
  dispatch sends or queues is the approved content for the Collectors of the target (the generated
  configuration for the Collectors whose id or group is the target, or the rolled back version or commit
  content for the one Collector of a rollback), and restarts of these; an upgrade task sends nothing.  A
  configuration that leaves the queue does so in a reply to its agent, and the reply to any agent then
  carries nothing but approved content for that agent or what was queued for it before the dispatch.\<close>

theorem only_approved_content_sent:
  assumes "dispatch_approve dp k who s = (r, s')" and "fleet_around (dp_opamp_env dp) (dp_around dp)"
    and "stored_task (tdb s) k = Some t"
  shows "sends_only (dp_opamp_env dp) (approved_for (tdb s) t) (ts_opamp s) (ts_opamp s') \<and>
    (\<forall>now conn msg reply rc. fst (on_message (dp_opamp_env dp) now conn msg (ts_opamp s')) = Some reply \<longrightarrow>
      sm_remote_config reply = Some rc \<longrightarrow>
      (\<exists>content. rc = remote_config_of (dp_opamp_env dp) content \<and>
        (approved_for (tdb s) t (hex_encode (am_instance_uid msg)) content \<or>
         os_pending (ts_opamp s) (hex_encode (am_instance_uid msg)) = Some content)))"
proof -
  note sent = dispatch_sends_only [OF assms]
  then have "os_pending (ts_opamp s) uid = Some content \<or> approved_for (tdb s) t uid content"
    if "os_pending (ts_opamp s') uid = Some content" for uid content
    using that unfolding sends_only_def by (metis option.distinct(1) option.inject)
  with sent show ?thesis using reply_was_queued by blast
qed

text \<open>A rollback to a connected Collector, which acknowledges the configuration while the dispatch waits.\<close>

definition acknowledging_agent :: agent_to_server where
  "acknowledging_agent = \<lparr>am_instance_uid = [0], am_description = None, am_health = Some True, am_effective = None,
     am_capabilities = 4, am_remote_status = Some (RcApplied, [7])\<rparr>"

definition acknowledging_deps :: deps where
  "acknowledging_deps = sample_deps\<lparr>dp_around :=
     (\<lambda>t u. Some (0, snd (on_message (dp_opamp_env sample_deps) t 1 acknowledging_agent u)))\<rparr>"

definition approved_rollback :: task where
  "approved_rollback = empty_task\<lparr>t_type := TaskTypeRollback, t_generated_yaml := ''cfg'', t_target_instance_uid := ''00''\<rparr>"

definition acknowledging_state :: tool_state where
  "acknowledging_state = (sample_state empty_db)\<lparr>ts_opamp := (new_opamp (new_registry 90)
     ((waiting_db approved_rollback)\<lparr>db_collectors := [blank_collector ''00'']\<rparr>) '''')
     \<lparr>os_reg := (new_registry 90)\<lparr>rg_conns := [''00'' \<mapsto> 1]\<rparr>\<rparr>\<rparr>"

lemma acknowledging_deps_simps [simp]:
  "dp_opamp_env acknowledging_deps = dp_opamp_env sample_deps" "dp_has_opamp acknowledging_deps"
  "dp_has_registry acknowledging_deps" "dp_confirm acknowledging_deps = dp_confirm sample_deps"
  "dp_around acknowledging_deps t u = Some (0, snd (on_message (dp_opamp_env sample_deps) t 1 acknowledging_agent u))"
  by (simp_all add: acknowledging_deps_def sample_deps_def)

lemma acknowledged_delivery_sent:
  assumes "deliver acknowledging_deps ''00'' content s = (r, s')" and "reg_conn ''00'' (os_reg (ts_opamp s)) = Some 1"
  shows "\<exists>m. os_sent (ts_opamp s') = os_sent (ts_opamp s) @ [(1, m)]"
proof -
  let ?env = "dp_opamp_env sample_deps"
  obtain bytes where "hex_decode ''00'' = Some bytes" by (cases "hex_decode ''00''") (simp, code_simp)
  then obtain m o1 where push: "push_config ?env ''00'' content (ts_opamp s) = (ok_unit, o1)"
    and sent: "os_sent o1 = os_sent (ts_opamp s) @ [(1, m)]"
    using assms(2) by (auto simp: push_config_def conn_send_def sample_deps_def)
  define u where "u = snd (on_message ?env (ts_now s) 1 acknowledging_agent o1)"
  have uid: "hex_encode (am_instance_uid acknowledging_agent) = ''00''"
    unfolding acknowledging_agent_def by code_simp
  have "reported_hash ''00'' (os_reg u) = Some (hex_encode [7])"
    using on_message_registry [OF uid]
    by (simp add: u_def frame_simps reported_hash_def take_remote_status_def set_reported_hash_def acknowledging_agent_def
        hex_encode_eq_Nil_iff)
  then have "reported_hash ''00'' (os_reg u) = Some (content_hash (ce_sha (dp_confirm sample_deps)) content)"
    by (simp add: content_hash_def sample_deps_def)
  moreover have "fleet_drained o1 u" using fleet_step_drained [OF agent_reports] by (simp add: u_def)
  then have "os_sent u = os_sent o1" by (simp add: fleet_drained_def)
  moreover have "reg_online ''00'' (os_reg (ts_opamp s))" using assms(2) by (simp add: reg_online_def reg_conn_def)
  ultimately have "\<exists>now' o'. push_and_confirm (dp_confirm sample_deps) (dp_around acknowledging_deps) (Some (opamp_pusher ?env))
      (Some opamp_view) ''00'' content default_confirm_timeout (ts_now s) (ts_opamp s) = (Inr True, now', o') \<and> (o' = o1 \<or> o' = u)"
    using push by (intro acknowledged_first_round) (auto simp: u_def default_confirm_timeout_def)
  with assms(1) sent \<open>os_sent u = os_sent o1\<close> show ?thesis
    by (auto simp: deliver_def)
qed

lemma acknowledging_sent:
  "\<exists>m. os_sent (ts_opamp (snd (dispatch_approve acknowledging_deps ''t'' ''ann'' acknowledging_state))) = [(1, m)]"
proof -
  let ?s = "acknowledging_state" and ?dp = "acknowledging_deps"
  define t where "t = approved_rollback\<lparr>t_id := ''t'', t_status := TaskStatusAwaitingApproval\<rparr>"
  have stored: "stored_task (tdb ?s) ''t'' = Some t" "db_faults (tdb ?s) = []"
    by (simp_all add: acknowledging_state_def new_opamp_def stored_task_def waiting_db_def empty_db_def t_def table_simps)
  have "can_transition (t_status t) TaskStatusApplying" by (simp add: t_def can_transition_def)
  with approve_healthy [OF stored(2), of "ts_now ?s" "''t''" "''ann''"] stored(1)
  obtain t1 s1 where approve: "on_db (svc_approve (ts_now ?s) ''t'' ''ann'') ?s = (Inr t1, s1)"
    by (auto simp: on_db_eq)
  note t1 = approve_on_db [OF approve stored(1)]
  define s2 where "s2 = audit ''ann'' AuditActionApprove ''t'' '''' s1"
  have view: "fleet_view s2 = fleet_view ?s" using t1 by (simp add: s2_def fleet_view_audit)
  obtain r s3 where d: "deliver ?dp ''00'' ''cfg'' s2 = (r, s3)" by (cases "deliver ?dp ''00'' ''cfg'' s2")
  have conn: "reg_conn ''00'' (os_reg (ts_opamp s2)) = Some 1" "os_sent (ts_opamp s2) = []"
    using view by (auto simp: fleet_view_def acknowledging_state_def new_opamp_def reg_conn_def)
  define s4 where "s4 = record_config_version ?dp ''00'' ''cfg'' s3"
  have sent4: "os_sent (ts_opamp s4) = os_sent (ts_opamp s3)"
    unfolding s4_def using record_config_version_sends by blast
  obtain q s' where run: "dispatch_approve ?dp ''t'' ''ann'' ?s = (q, s')" by (cases "dispatch_approve ?dp ''t'' ''ann'' ?s")
  have fields: "t_type t1 = TaskTypeRollback" "t_target_instance_uid t1 = ''00''" "t_rollback_version_id t1 = 0"
    "t_generated_yaml t1 = ''cfg''"
    using t1 by (simp_all add: t_def approved_rollback_def empty_task_def)
  then have "dispatch_rollback_content ?dp t1 ''cfg'' ''ann'' s2 = (q, s')"
    using run approve by (auto simp: dispatch_approve_def dispatch_rollback_def Let_def s2_def)
  then have "fleet_view s' = fleet_view s3 \<or> fleet_view s' = fleet_view s4"
    using d fields
    by (auto simp: dispatch_rollback_content_def Let_def fleet_kept s4_def [symmetric]
        dest: set_status_run_fleet split: prod.splits sum.splits if_splits)
  then have "os_sent (ts_opamp s') = os_sent (ts_opamp s3)" using sent4 by (auto simp: fleet_view_def)
  with acknowledged_delivery_sent [OF d conn(1)] conn(2) run show ?thesis by simp
qed

theorem only_approved_content_sent_witness:
  "\<exists>m. os_sent (ts_opamp (snd (dispatch_approve acknowledging_deps ''t'' ''ann'' acknowledging_state))) = [(1, m)] \<and>
    (config_message (dp_opamp_env sample_deps) ''00'' ''cfg'' m \<or> restart_message ''00'' m)"
proof -
  let ?s = acknowledging_state and ?dp = acknowledging_deps
  obtain m where m: "os_sent (ts_opamp (snd (dispatch_approve ?dp ''t'' ''ann'' ?s))) = [(1, m)]"
    using acknowledging_sent by blast
  have around: "fleet_around (dp_opamp_env ?dp) (dp_around ?dp)"
    by (auto simp: fleet_around_def intro: agent_reports)
  have "stored_task (tdb ?s) ''t'' = Some (approved_rollback\<lparr>t_id := ''t'', t_status := TaskStatusAwaitingApproval\<rparr>)"
    by (simp add: acknowledging_state_def new_opamp_def stored_task_def waiting_db_def empty_db_def table_simps)
  note sent = only_approved_content_sent [where who = "''ann''", OF surjective_pairing around this]
  have "os_sent (ts_opamp ?s) = []" by (simp add: acknowledging_state_def new_opamp_def)
  with m conjunct1 [OF sent] have "config_message (dp_opamp_env sample_deps) ''00'' ''cfg'' m \<or> restart_message ''00'' m"
    by (auto simp: sends_only_def approved_for_def approved_rollback_def empty_task_def)
  with m show ?thesis by blast
qed

end
