(* ===== verification/Agent_Tools.thy ===== *)
theory Agent_Tools
  imports Dispatch
begin

section \<open>The tools (internal/agent/tools.go)\<close>

text \<open>
  The eleven tools that the built-in agent and the MCP server share.  A handler takes the dependencies,
  the id of the session and the decoded arguments, and is an operation on the state.  The lemmas show
  the approval gate (no tool but the approval reaches an agent while approval is required), what a
  generated task looks like when it waits for approval, and the bounds of the calls of the model.
\<close>

subsection \<open>Reading\<close>

type_synonym tool = "deps \<Rightarrow> string \<Rightarrow> args \<Rightarrow> tool_result tool_op"

definition view_of :: "collector \<Rightarrow> collector_view" where
  "view_of c = \<lparr>v_instance_uid = col_instance_uid c, v_hostname = col_hostname c, v_version = col_version c,
     v_status = collector_status_text (col_status c), v_group_id = col_group_id c\<rparr>"

definition handle_list_collectors :: tool where
  "handle_list_collectors dp sid args s =
    (let group = get_string args ''group'' in
     case on_db (list_collectors 0 0) s of
       (Inl err, s1) \<Rightarrow> (Inl (ErrWrap MsgQueryCollectorsFailed err), s1)
     | (Inr (cs, _), s1) \<Rightarrow>
         (Inr (ResCollectors (map view_of (filter (\<lambda>c. \<not> (group \<noteq> '''' \<and> col_group_id c \<noteq> group)) cs))), s1))"

definition handle_get_config :: tool where
  "handle_get_config dp sid args s =
    (let uid = get_string args ''instance_uid'' in
     if uid = '''' then (Inl (ErrText MsgInstanceUidRequired), s)
     else case on_db (get_collector uid) s of
         (Inl err, s1) \<Rightarrow> (Inl (ErrWrap MsgGetCollectorFailed err), s1)
       | (Inr c, s1) \<Rightarrow>
           (Inr (ResFields [(''instance_uid'', JStr (col_instance_uid c)), (''version'', JStr (col_version c)),
              (''status'', JStr (collector_status_text (col_status c))),
              (''effective_config'', JStr (col_effective_config c))]), s1))"

definition handle_get_task_diff :: tool where
  "handle_get_task_diff dp sid args s =
    (let tid = get_string args ''task_id'' in
     if tid = '''' then (Inl (ErrText MsgTaskIdRequired), s)
     else case on_db (get_task tid) s of
         (Inl err, s1) \<Rightarrow> (Inl (ErrWrap MsgTaskMissing err), s1)
       | (Inr t, s1) \<Rightarrow>
           if t_generated_yaml t = '''' then (Inl (ErrCmd MsgNothingToCompare tid), s1)
           else (Inr (ResFields [(''task_id'', JStr (t_id t)), (''base_yaml'', JStr (t_base_yaml t)),
                (''base_source'', JStr (task_base_source t)), (''generated_yaml'', JStr (t_generated_yaml t)),
                (''diff'', JStr (unified (t_base_yaml t) (t_generated_yaml t))),
                (''has_base'', JBool (t_base_yaml t \<noteq> ''''))]), s1))"

definition handle_get_git_config :: tool where
  "handle_get_git_config dp sid args s =
    (let uid = get_string args ''instance_uid'' in
     if uid = '''' then (Inl (ErrText MsgInstanceUidRequired), s)
     else case dp_git dp of
         None \<Rightarrow> (Inl (ErrText MsgGitDisabled), s)
       | Some git \<Rightarrow>
           if dp_config_source dp \<noteq> ''git'' then (Inl (ErrText MsgGitDisabled), s)
           else
             let ref0 = get_string args ''ref''; ref = (if ref0 = '''' then dp_git_ref dp else ref0) in
             (case expand_pathspec (dp_git_pathspec dp) uid of
                Inl err \<Rightarrow> (Inl err, s)
              | Inr path \<Rightarrow>
                  (case show_file git ref path of
                     Inl err \<Rightarrow> (Inl err, s)
                   | Inr content \<Rightarrow>
                       (case git_resolve git ref of
                          Inl err \<Rightarrow> (Inl err, s)
                        | Inr sha \<Rightarrow>
                            (Inr (ResFields [(''instance_uid'', JStr uid), (''ref'', JStr ref),
                               (''git_commit'', JStr sha), (''git_path'', JStr path), (''yaml'', JStr content)]), s)))))"

definition handle_list_pending :: tool where
  "handle_list_pending dp sid args s =
    (case on_db (list_tasks (no_task_filter\<lparr>tf_status := TaskStatusAwaitingApproval\<rparr>) 0 0) s of
       (Inl err, s1) \<Rightarrow> (Inl (ErrWrap MsgQueryTasksFailed err), s1)
     | (Inr (ts, _), s1) \<Rightarrow> (Inr (ResTasks ts), s1))"

subsection \<open>Generating\<close>

definition create_task_op :: "task \<Rightarrow> task tool_op" where
  "create_task_op t s =
    (case on_db (svc_create (ts_now s) t) s of
       (Inl err, s1) \<Rightarrow> (Inl (ErrWrap MsgCreateTaskFailed err), s1)
     | (Inr t1, s1) \<Rightarrow> (Inr t1, s1))"

text \<open>The error of a failed step, after the task has been marked as failed as far as that succeeds.\<close>

definition fail_task :: "string \<Rightarrow> go_error \<Rightarrow> 'a tool_op" where
  "fail_task tid err s = (Inl err, snd (set_status tid TaskStatusFailed s))"

text \<open>
  The last steps of both generating tools: the task waits for approval with its configuration, or is
  dispatched at once when approval is off.
\<close>

definition offer_task :: "deps \<Rightarrow> string \<Rightarrow> string \<Rightarrow> string \<Rightarrow> string \<Rightarrow> tool_result tool_op" where
  "offer_task dp tid content model_used message =
    and_then (set_status tid TaskStatusAwaitingApproval) (\<lambda>t s.
      let s1 = snd (on_db (update_task (ts_now s) (t\<lparr>t_generated_yaml := content\<rparr>)) s)
      in if \<not> dp_require_approval dp then dispatch_approve dp tid ''agent'' s1
         else (Inr (ResFields [(''task_id'', JStr tid), (''status'', JStr (task_status_text (t_status t))),
                (''message'', JStr message), (''model_used'', JStr model_used)]), s1))"

definition generate_steps :: "deps \<Rightarrow> string \<Rightarrow> string \<Rightarrow> tool_result tool_op" where
  "generate_steps dp tid desc s =
    (case generate_yaml dp desc '''' s of
       (Inl err, s1) \<Rightarrow> fail_task tid err s1
     | (Inr (content, model_used), s1) \<Rightarrow>
         and_then (set_status tid TaskStatusValidating) (\<lambda>_ s2.
           let res = check_config dp content
           in if \<not> vr_valid res then fail_task tid (ErrTexts MsgConfigInvalid (vr_errors res)) s2
              else offer_task dp tid content model_used txt_generated s2) s1)"

definition handle_generate_config :: tool where
  "handle_generate_config dp sid args s =
    (let target = get_string args ''target''; desc = get_string args ''description'' in
     if target = '''' \<or> desc = '''' then (Inl (ErrText MsgTargetDescriptionRequired), s)
     else
       let (tid, s1) = new_ulid dp s;
           ((base, src), s2) = base_config_for dp target s1;
           t = empty_task\<lparr>t_id := tid, t_type := TaskTypeGenerate, t_status := TaskStatusPending,
             t_require_approval := dp_require_approval dp, t_input := desc, t_session_id := sid,
             t_target_group_id := target, t_base_yaml := base, t_base_source := src\<rparr>
       in and_then (create_task_op t) (\<lambda>_ s3.
            and_then (set_status tid TaskStatusGenerating) (\<lambda>_. generate_steps dp tid desc)
              (audit ''agent'' AuditActionGenerate tid (txt_generate_target @ target) s3)) s2)"

definition optimize_context :: "collector \<Rightarrow> string" where
  "optimize_context c = txt_collector_version @ col_version c @ txt_status @
     collector_status_text (col_status c) @ txt_current_config @ col_effective_config c"

definition optimize_desc :: "string \<Rightarrow> string" where
  "optimize_desc goal = (if goal \<noteq> '''' then txt_optimize_for @ goal @ [CHR 0x0A] @ txt_optimize_above
     else txt_optimize_above)"

definition optimize_steps :: "deps \<Rightarrow> string \<Rightarrow> string \<Rightarrow> string \<Rightarrow> tool_result tool_op" where
  "optimize_steps dp tid desc context_info s =
    (case generate_yaml dp desc context_info s of
       (Inl err, s1) \<Rightarrow> fail_task tid err s1
     | (Inr (content, model_used), s1) \<Rightarrow>
         and_then (set_status tid TaskStatusValidating) (\<lambda>_. offer_task dp tid content model_used txt_optimized) s1)"

definition handle_optimize_config :: tool where
  "handle_optimize_config dp sid args s =
    (let uid = get_string args ''instance_uid'' in
     if uid = '''' then (Inl (ErrText MsgInstanceUidRequired), s)
     else
       let goal = get_string args ''goal'' in
       case on_db (get_collector uid) s of
         (Inl err, s1) \<Rightarrow> (Inl (ErrWrap MsgGetCollectorFailed err), s1)
       | (Inr c, s1) \<Rightarrow>
           let ((base, src), s2) = base_for_instance dp uid s1;
               desc = optimize_desc goal;
               (tid, s3) = new_ulid dp s2;
               t = empty_task\<lparr>t_id := tid, t_type := TaskTypeOptimize, t_status := TaskStatusPending,
                 t_require_approval := dp_require_approval dp, t_input := desc, t_session_id := sid,
                 t_target_group_id := uid, t_base_yaml := base, t_base_source := src\<rparr>
           in and_then (create_task_op t) (\<lambda>_.
                and_then (set_status tid TaskStatusGenerating) (\<lambda>_.
                  optimize_steps dp tid desc (optimize_context c))) s3)"

subsection \<open>Applying, upgrading and deciding\<close>

text \<open>The loop of a direct application; a failed push is only logged.\<close>

primrec apply_all :: "deps \<Rightarrow> string \<Rightarrow> collector list \<Rightarrow> tool_state \<Rightarrow> tool_state" where
  "apply_all dp content [] s = s"
| "apply_all dp content (c # cs) s =
     (let s1 = on_opamp (\<lambda>u. snd (push_config (dp_opamp_env dp) (col_instance_uid c) content u)) s
      in apply_all dp content cs (record_config_version dp (col_instance_uid c) content s1))"

definition handle_apply_config :: tool where
  "handle_apply_config dp sid args s =
    (if dp_require_approval dp then (Inl (ErrText MsgApprovalRequired), s)
     else
       let target = get_string args ''target''; content = get_string args ''yaml'' in
       if target = '''' \<or> content = '''' then (Inl (ErrText MsgTargetYamlRequired), s)
       else
         let res = check_config dp content in
         if \<not> vr_valid res then (Inl (ErrTexts MsgConfigInvalid (vr_errors res)), s)
         else case target_collectors target s of
             (Inl err, s1) \<Rightarrow> (Inl err, s1)
           | (Inr cs, s1) \<Rightarrow>
               (Inr (ResFields [(''message'', JStr (pushed_message cs))]),
                audit ''agent'' AuditActionApply target (content_hash (dp_sha dp) content)
                  (apply_all dp content cs s1)))"

definition handle_upgrade :: tool where
  "handle_upgrade dp sid args s =
    (let target = get_string args ''target''; version = get_string args ''version'' in
     if target = '''' \<or> version = '''' then (Inl (ErrText MsgTargetVersionRequired), s)
     else
       let (tid, s1) = new_ulid dp s;
           t = empty_task\<lparr>t_id := tid, t_type := TaskTypeUpgrade, t_status := TaskStatusAwaitingApproval,
             t_require_approval := True, t_input := txt_upgrade_target @ target @ txt_to_version @ version,
             t_session_id := sid, t_target_group_id := target\<rparr>
       in and_then (create_task_op t) (\<lambda>t1 s2.
            (Inr (ResFields [(''task_id'', JStr (t_id t1)), (''status'', JStr (task_status_text (t_status t1))),
               (''message'', JStr txt_upgrade_created)]), s2)) s1)"

definition handle_approve :: tool where
  "handle_approve dp sid args s =
    (let tid = get_string args ''task_id''; approver0 = get_string args ''approver'';
         approver = (if approver0 = '''' then ''user'' else approver0)
     in if tid = '''' then (Inl (ErrText MsgTaskIdRequired), s) else dispatch_approve dp tid approver s)"

definition handle_reject :: tool where
  "handle_reject dp sid args s =
    (let tid = get_string args ''task_id''; approver0 = get_string args ''approver'';
         reason = get_string args ''reason''; approver = (if approver0 = '''' then ''user'' else approver0)
     in if tid = '''' then (Inl (ErrText MsgTaskIdRequired), s)
        else and_then (\<lambda>s0. on_db (svc_reject (ts_now s0) tid approver reason) s0) (\<lambda>t s1.
          (Inr (ResFields [(''task_id'', JStr (t_id t)), (''status'', JStr (task_status_text (t_status t))),
             (''reason'', JStr reason)]), audit approver AuditActionReject tid reason s1)) s)"

subsection \<open>The table of tools\<close>

definition new_tools :: "(string \<times> tool) list" where
  "new_tools =
    [(''list_collectors'', handle_list_collectors), (''get_collector_config'', handle_get_config),
     (''generate_config'', handle_generate_config), (''optimize_config'', handle_optimize_config),
     (''apply_config'', handle_apply_config), (''upgrade_collector'', handle_upgrade),
     (''approve_task'', handle_approve), (''reject_task'', handle_reject),
     (''list_pending_tasks'', handle_list_pending), (''get_task_diff'', handle_get_task_diff),
     (''get_git_config'', handle_get_git_config)]"

text \<open>The declared arguments of each tool, all of type string, and those that are required.\<close>

record tool_schema =
  sch_tool :: string
  sch_props :: "string list"
  sch_required :: "string list"

definition tool_schemas :: "tool_schema list" where
  "tool_schemas =
    [\<lparr>sch_tool = ''list_collectors'', sch_props = [''group''], sch_required = []\<rparr>,
     \<lparr>sch_tool = ''get_collector_config'', sch_props = [''instance_uid''], sch_required = [''instance_uid'']\<rparr>,
     \<lparr>sch_tool = ''generate_config'', sch_props = [''target'', ''description''],
       sch_required = [''target'', ''description'']\<rparr>,
     \<lparr>sch_tool = ''optimize_config'', sch_props = [''instance_uid'', ''goal''], sch_required = [''instance_uid'']\<rparr>,
     \<lparr>sch_tool = ''apply_config'', sch_props = [''target'', ''yaml''], sch_required = [''target'', ''yaml'']\<rparr>,
     \<lparr>sch_tool = ''upgrade_collector'', sch_props = [''target'', ''version''],
       sch_required = [''target'', ''version'']\<rparr>,
     \<lparr>sch_tool = ''approve_task'', sch_props = [''task_id'', ''approver''], sch_required = [''task_id'']\<rparr>,
     \<lparr>sch_tool = ''reject_task'', sch_props = [''task_id'', ''approver'', ''reason''], sch_required = [''task_id'']\<rparr>,
     \<lparr>sch_tool = ''list_pending_tasks'', sch_props = [], sch_required = []\<rparr>,
     \<lparr>sch_tool = ''get_task_diff'', sch_props = [''task_id''], sch_required = [''task_id'']\<rparr>,
     \<lparr>sch_tool = ''get_git_config'', sch_props = [''instance_uid'', ''ref''], sch_required = [''instance_uid'']\<rparr>]"

text \<open>Every tool has a schema, and what a schema requires it declares.\<close>

lemma tool_schemas_match:
  "map sch_tool tool_schemas = map fst new_tools \<and> list_all (\<lambda>sc. set (sch_required sc) \<subseteq> set (sch_props sc)) tool_schemas"
  by (simp add: tool_schemas_def new_tools_def)

text \<open>
  A call decodes its arguments first; no arguments and \<open>null\<close> are the empty map.  The JSON decoder is
  a parameter: it gives an error text or the map.
\<close>

definition tool_call_json :: "(string \<Rightarrow> string + args) \<Rightarrow> tool \<Rightarrow> deps \<Rightarrow> string \<Rightarrow> string \<Rightarrow> tool_result tool_op" where
  "tool_call_json unmarshal handle dp sid json_args s =
    (if json_args \<noteq> '''' \<and> json_args \<noteq> ''null'' then
       (case unmarshal json_args of
          Inl err \<Rightarrow> (Inl (ErrCmd MsgToolArgsInvalid err), s)
        | Inr args \<Rightarrow> handle dp sid args s)
     else handle dp sid Map.empty s)"

subsection \<open>The approval gate\<close>

text \<open>
  Two states are gated when the agents got nothing in between and no task began to be applied.
\<close>

definition gated :: "tool_state \<Rightarrow> tool_state \<Rightarrow> bool" where
  "gated s s' \<longleftrightarrow> os_sent (ts_opamp s') = os_sent (ts_opamp s) \<and> os_pending (ts_opamp s') = os_pending (ts_opamp s) \<and>
    (\<forall>k t'. stored_task (tdb s') k = Some t' \<longrightarrow> t_status t' \<in> {TaskStatusApplying, TaskStatusDone} \<longrightarrow>
      (\<exists>t. stored_task (tdb s) k = Some t \<and> t_status t = t_status t'))"

definition gated_op :: "'a tool_op \<Rightarrow> bool" where
  "gated_op m \<longleftrightarrow> (\<forall>s. gated s (snd (m s)))"

lemma gated_refl [simp]: "gated s s"
  by (auto simp: gated_def)

lemma gated_trans: "gated s s1 \<Longrightarrow> gated s1 s2 \<Longrightarrow> gated s s2"
  unfolding gated_def by metis

lemma gated_opD: "gated_op m \<Longrightarrow> m s = (r, s') \<Longrightarrow> gated s s'"
  by (auto simp: gated_op_def dest: spec [of _ s])

lemma gated_and_then:
  assumes "gated_op m" and "\<And>x. gated_op (k x)"
  shows "gated_op (and_then m k)"
proof -
  have "gated s (snd (and_then m k s))" for s
  proof (cases "m s")
    case (Pair r s1)
    have "gated s s1" by (rule gated_opD [OF assms(1) Pair])
    moreover have "gated s1 (snd (k x s1))" for x using assms(2) [of x] by (simp add: gated_op_def)
    ultimately show ?thesis using Pair by (cases r) (auto intro: gated_trans)
  qed
  then show ?thesis by (simp add: gated_op_def)
qed

lemma gated_same_tasks:
  "fleet_view s' = fleet_view s \<Longrightarrow> stored_task (tdb s') = stored_task (tdb s) \<Longrightarrow> gated s s'"
  by (auto simp: gated_def fleet_view_def)

lemma stored_task_fault_blind: "fault_blind (\<lambda>d. stored_task d = m)"
  by (simp add: fault_blind_def stored_task_def [abs_def])

text \<open>Reads, and the writes of other tables.\<close>

lemma gated_on_db:
  assumes "\<And>r d'. m (tdb s) = (r, d') \<Longrightarrow> stored_task d' = stored_task (tdb s)"
  shows "gated s (snd (on_db m s))"
  using assms by (cases "m (tdb s)") (auto intro!: gated_same_tasks simp: on_db_eq fleet_view_def)

lemma query_gated: "query f d = (r, d') \<Longrightarrow> stored_task d' = stored_task d"
  by (rule query_keeps [OF stored_task_fault_blind]) (rule refl, assumption)

lemma listing_gated:
  "list_collectors a b d = (rc, d') \<Longrightarrow> stored_task d' = stored_task d"
  "list_tasks f a b d = (rt, d') \<Longrightarrow> stored_task d' = stored_task d"
  "get_collector k d = (rg, d') \<Longrightarrow> stored_task d' = stored_task d"
  "get_task k d = (rk, d') \<Longrightarrow> stored_task d' = stored_task d"
  "append_audit e d = (ra, d') \<Longrightarrow> stored_task d' = stored_task d"
proof -
  show "list_collectors a b d = (rc, d') \<Longrightarrow> stored_task d' = stored_task d"
    unfolding list_collectors_def by (auto elim!: and_then_cases simp: ret_def dest!: query_gated)
  show "list_tasks f a b d = (rt, d') \<Longrightarrow> stored_task d' = stored_task d"
    unfolding list_tasks_def by (auto elim!: and_then_cases simp: ret_def dest!: query_gated)
  show "get_collector k d = (rg, d') \<Longrightarrow> stored_task d' = stored_task d"
    unfolding get_collector_def by (rule query_row_keeps [OF stored_task_fault_blind]) (rule refl, assumption)
  show "get_task k d = (rk, d') \<Longrightarrow> stored_task d' = stored_task d"
    using sql_repo.load_keeps by blast
  show "append_audit e d = (ra, d') \<Longrightarrow> stored_task d' = stored_task d"
    unfolding append_audit_def
    by (rule exec_direct_keeps [OF stored_task_fault_blind], rule refl)
      (auto simp: Let_def stored_task_def [abs_def])
qed

lemma gated_audit: "gated s (audit who act sub det s)"
  unfolding audit_def by (rule gated_on_db) (rule listing_gated(5))

lemma gated_set_status:
  assumes "to \<notin> {TaskStatusApplying, TaskStatusDone}"
  shows "gated s (snd (set_status k to s))"
proof -
  obtain r d' where run: "svc_set_status (ts_now s) k to (tdb s) = (r, d')"
    by (cases "svc_set_status (ts_now s) k to (tdb s)")
  from set_status_effect [OF run] assms show ?thesis
    by (cases r) (auto simp: set_status_def on_db_eq run gated_def split: if_splits)
qed

lemma set_status_result: "set_status k to s = (Inr t, s') \<Longrightarrow> t_status t = to \<and> t_id t = k"
proof -
  assume "set_status k to s = (Inr t, s')"
  then obtain d' where run: "svc_set_status (ts_now s) k to (tdb s) = (Inr t, d')"
    by (cases "svc_set_status (ts_now s) k to (tdb s)") (auto simp: set_status_def on_db_eq)
  from set_status_effect [OF run] show ?thesis by (auto simp: stored_task_def dest: find_row_SomeD)
qed

lemma gated_update_task:
  assumes "t_status t \<notin> {TaskStatusApplying, TaskStatusDone}"
  shows "gated s (snd (on_db (update_task now t) s))"
proof -
  obtain r d' where run: "update_task now t (tdb s) = (r, d')" by (cases "update_task now t (tdb s)")
  show ?thesis
  proof (cases r)
    case (Inl e)
    with sql_repo.save_err [of now t "tdb s" e d'] run show ?thesis
      by (intro gated_same_tasks) (simp_all add: on_db_eq fleet_view_def)
  next
    case (Inr t')
    with sql_repo.save_ok [of now t "tdb s" t' d'] run assms show ?thesis
      by (auto simp: gated_def on_db_eq split: if_splits)
  qed
qed

lemma gated_create:
  assumes "t_status t \<in> {TaskStatusPending, TaskStatusAwaitingApproval}"
  shows "gated_op (create_task_op t)"
proof -
  have "gated s (snd (create_task_op t s))" for s
  proof -
    obtain r d' where run: "svc_create (ts_now s) t (tdb s) = (r, d')" by (cases "svc_create (ts_now s) t (tdb s)")
    from create_effect [OF run] assms show ?thesis
      by (cases r) (auto simp: create_task_op_def on_db_eq run gated_def split: if_splits)
  qed
  then show ?thesis by (simp add: gated_op_def)
qed

text \<open>What the rest of the system does during a call of the model neither sends nor touches tasks.\<close>

definition idle_model :: "deps \<Rightarrow> bool" where
  "idle_model dp \<longleftrightarrow> (\<forall>n q t u. case dp_model dp n q t u of (_, _, u') \<Rightarrow>
     os_sent u' = os_sent u \<and> os_pending u' = os_pending u \<and> db_tasks (os_db u') = db_tasks (os_db u))"

lemma gated_base_for_instance: "gated s (snd (base_for_instance dp uid s))"
proof -
  have "gated s s1" if "on_db (get_collector uid) s = (r, s1)" for r s1
    using gated_on_db [of "get_collector uid" s] listing_gated(3) that by fastforce
  then show ?thesis
    by (auto simp: base_for_instance_def split: option.split list.split prod.split sum.split)
qed

lemma gated_first_base: "gated s (snd (first_base dp target cs s))"
proof (induction cs arbitrary: s)
  case Nil
  show ?case by simp
next
  case (Cons c cs)
  show ?case
    using Cons gated_base_for_instance [of s dp "col_instance_uid c"]
    by (auto simp: Let_def case_prod_beta intro: gated_trans)
qed

lemma gated_base_config_for: "gated s (snd (base_config_for dp target s))"
proof -
  have list: "gated s1 s2" if "on_db (list_collectors 0 0) s1 = (r, s2)" for r s1 s2
    using gated_on_db [of "list_collectors 0 0" s1] listing_gated(1) that by fastforce
  obtain yaml src s1 where base: "base_for_instance dp target s = ((yaml, src), s1)"
    by (metis prod.exhaust)
  have "gated s s1" using gated_base_for_instance [of s dp target] base by simp
  moreover have "gated s1 (snd (case on_db (list_collectors 0 0) s1 of
      (Inl _, s2) \<Rightarrow> (('''', ''''), s2) | (Inr (cs, _), s2) \<Rightarrow> first_base dp target cs s2))"
    using list [of s1] by (auto split: prod.split sum.split intro: gated_trans gated_first_base)
  ultimately show ?thesis using base by (auto simp: base_config_for_def intro: gated_trans)
qed

lemma gated_fail_task: "gated_op (fail_task tid err)"
  by (simp add: gated_op_def fail_task_def gated_set_status)

lemma gated_offer_task:
  assumes "dp_require_approval dp"
  shows "gated_op (offer_task dp tid content model_used message)"
proof -
  have "gated s (snd (offer_task dp tid content model_used message s))" for s
  proof (cases "set_status tid TaskStatusAwaitingApproval s")
    case (Pair r s1)
    have s1: "gated s s1" using gated_set_status [of TaskStatusAwaitingApproval s tid] Pair by simp
    show ?thesis
    proof (cases r)
      case (Inl e)
      with Pair s1 show ?thesis by (simp add: offer_task_def)
    next
      case (Inr t)
      then have "t_status t = TaskStatusAwaitingApproval" using set_status_result Pair by blast
      then have "gated s1 (snd (on_db (update_task (ts_now s1) (t\<lparr>t_generated_yaml := content\<rparr>)) s1))"
        by (intro gated_update_task) simp
      with Pair Inr s1 assms show ?thesis by (auto simp: offer_task_def Let_def intro: gated_trans)
    qed
  qed
  then show ?thesis by (simp add: gated_op_def)
qed

lemma gated_target_collectors: "gated s (snd (target_collectors target s))"
proof -
  have "gated s s1" if "on_db (list_collectors 0 0) s = (r, s1)" for r s1
    using gated_on_db [of "list_collectors 0 0" s] listing_gated(1) that by fastforce
  then show ?thesis by (auto simp: target_collectors_def Let_def split: prod.split sum.split)
qed

lemma gated_reads:
  "gated_op (handle_list_collectors dp sid args)" "gated_op (handle_get_config dp sid args)"
  "gated_op (handle_get_task_diff dp sid args)" "gated_op (handle_get_git_config dp sid args)"
  "gated_op (handle_list_pending dp sid args)"
proof -
  have read: "gated s s1" if "on_db m s = (r, s1)"
      "\<And>x d'. m (tdb s) = (x, d') \<Longrightarrow> stored_task d' = stored_task (tdb s)"
    for m :: "'a db_op" and s r s1 using gated_on_db [of m s] that by auto
  have cs: "gated s s1" if "on_db (list_collectors 0 0) s = (r, s1)" for s r s1
    using gated_on_db [of "list_collectors 0 0" s] listing_gated(1) that by fastforce
  have c: "gated s s1" if "on_db (get_collector k) s = (r, s1)" for s r s1 k
    using gated_on_db [of "get_collector k" s] listing_gated(3) that by fastforce
  have t: "gated s s1" if "on_db (get_task k) s = (r, s1)" for s r s1 k
    using gated_on_db [of "get_task k" s] listing_gated(4) that by fastforce
  have ts: "gated s s1" if "on_db (list_tasks f 0 0) s = (r, s1)" for s r s1 f
    using gated_on_db [of "list_tasks f 0 0" s] listing_gated(2) that by fastforce
  show "gated_op (handle_list_collectors dp sid args)"
    by (auto simp: gated_op_def handle_list_collectors_def Let_def split: prod.split sum.split dest: cs)
  show "gated_op (handle_get_config dp sid args)"
    by (auto simp: gated_op_def handle_get_config_def Let_def split: prod.split sum.split dest: c)
  show "gated_op (handle_get_task_diff dp sid args)"
    by (auto simp: gated_op_def handle_get_task_diff_def Let_def split: prod.split sum.split dest: t)
  show "gated_op (handle_list_pending dp sid args)"
    by (auto simp: gated_op_def handle_list_pending_def Let_def split: prod.split sum.split dest: ts)
  show "gated_op (handle_get_git_config dp sid args)"
    by (simp add: gated_op_def handle_get_git_config_def Let_def split: option.split sum.split)
qed

lemma gated_new_ulid: "new_ulid dp s = (tid, s') \<Longrightarrow> gated s s'"
  by (auto simp: new_ulid_def intro: gated_same_tasks simp: fleet_view_def)

lemma gated_opI: "gated s s1 \<Longrightarrow> gated_op m \<Longrightarrow> gated s (snd (m s1))"
  by (auto simp: gated_op_def intro: gated_trans)

lemma gated_decisions:
  "dp_require_approval dp \<Longrightarrow> gated_op (handle_apply_config dp sid args)"
  "gated_op (handle_upgrade dp sid args)" "gated_op (handle_reject dp sid args)"
proof -
  show "dp_require_approval dp \<Longrightarrow> gated_op (handle_apply_config dp sid args)"
    by (simp add: gated_op_def handle_apply_config_def)
  have "gated s (snd (handle_upgrade dp sid args s))" for s
  proof -
    obtain tid s1 where ids: "new_ulid dp s = (tid, s1)" by (cases "new_ulid dp s")
    have "gated_op (Pair x)" for x :: "go_error + tool_result" by (simp add: gated_op_def)
    with gated_new_ulid [OF ids] ids show ?thesis
      by (auto simp: handle_upgrade_def Let_def intro!: gated_opI gated_and_then gated_create)
  qed
  then show "gated_op (handle_upgrade dp sid args)" by (simp add: gated_op_def)
  have rejected: "gated_op (\<lambda>s0. on_db (svc_reject (ts_now s0) tid who why) s0)" for tid who why
  proof -
    have "gated s (snd (on_db (svc_reject (ts_now s) tid who why) s))" for s
    proof -
      obtain r d' where run: "svc_reject (ts_now s) tid who why (tdb s) = (r, d')"
        by (cases "svc_reject (ts_now s) tid who why (tdb s)")
      from reject_effect [OF run] show ?thesis
        by (cases r) (auto simp: on_db_eq run gated_def split: if_splits)
    qed
    then show ?thesis by (simp add: gated_op_def)
  qed
  have noted: "gated_op (\<lambda>s1. (x, audit who act sub det s1))" for x :: "go_error + tool_result" and who act sub det
    by (simp add: gated_op_def gated_audit)
  have "gated s (snd (handle_reject dp sid args s))" for s
    by (auto simp: handle_reject_def Let_def intro!: gated_opI [OF gated_refl] gated_and_then rejected noted)
  then show "gated_op (handle_reject dp sid args)" by (simp add: gated_op_def)
qed

subsection \<open>The gate while the model is called\<close>

text \<open>
  During a call of the model the fleet goes on.  What the tools and the conversation keep is stated for any relation \<open>R\<close>
  between the states of the OpAMP server that holds of states with the same messages sent and queued and
  chains; the rest of the system is to keep it during a call of the model.  Two relations are of interest:
  nothing was sent or queued at all, and the queue was only drained by its agents.
\<close>

definition held :: "(opamp \<Rightarrow> opamp \<Rightarrow> bool) \<Rightarrow> tool_state \<Rightarrow> tool_state \<Rightarrow> bool" where
  "held R s s' \<longleftrightarrow> R (ts_opamp s) (ts_opamp s') \<and>
    (\<forall>k t'. stored_task (tdb s') k = Some t' \<longrightarrow> t_status t' \<in> {TaskStatusApplying, TaskStatusDone} \<longrightarrow>
      (\<exists>t. stored_task (tdb s) k = Some t \<and> t_status t = t_status t'))"

definition held_op :: "(opamp \<Rightarrow> opamp \<Rightarrow> bool) \<Rightarrow> 'a tool_op \<Rightarrow> bool" where
  "held_op R m \<longleftrightarrow> (\<forall>s. held R s (snd (m s)))"

definition model_keeps :: "(opamp \<Rightarrow> opamp \<Rightarrow> bool) \<Rightarrow> deps \<Rightarrow> bool" where
  "model_keeps R dp \<longleftrightarrow> (\<forall>n q t u. case dp_model dp n q t u of (_, _, u') \<Rightarrow>
     R u u' \<and> db_tasks (os_db u') = db_tasks (os_db u))"

locale delivery_gate =
  fixes R :: "opamp \<Rightarrow> opamp \<Rightarrow> bool"
  assumes untouched: "fleet_untouched u u' \<Longrightarrow> R u u'"
    and chained: "R u v \<Longrightarrow> R v w \<Longrightarrow> R u w"
begin

lemma held_gated: "gated s s' \<Longrightarrow> held R s s'"
  by (auto simp: gated_def held_def fleet_untouched_def intro: untouched)

lemma held_refl [simp]: "held R s s"
  by (simp add: held_gated)

lemma held_trans: "held R s s1 \<Longrightarrow> held R s1 s2 \<Longrightarrow> held R s s2"
  unfolding held_def by (metis chained)

lemma held_op_gated: "gated_op m \<Longrightarrow> held_op R m"
  by (simp add: gated_op_def held_op_def held_gated)

lemma held_opD: "held_op R m \<Longrightarrow> m s = (r, s') \<Longrightarrow> held R s s'"
  by (auto simp: held_op_def dest: spec [of _ s])

lemma held_opI: "held R s s1 \<Longrightarrow> held_op R m \<Longrightarrow> held R s (snd (m s1))"
  by (auto simp: held_op_def intro: held_trans)

lemma held_and_then:
  assumes "held_op R m" and "\<And>x. held_op R (k x)"
  shows "held_op R (and_then m k)"
proof -
  have "held R s (snd (and_then m k s))" for s
  proof (cases "m s")
    case (Pair r s1)
    have "held R s s1" by (rule held_opD [OF assms(1) Pair])
    moreover have "held R s1 (snd (k x s1))" for x using assms(2) [of x] by (simp add: held_op_def)
    ultimately show ?thesis using Pair by (cases r) (auto intro: held_trans)
  qed
  then show ?thesis by (simp add: held_op_def)
qed

lemma held_sum_case:
  assumes "held R s (snd (m s))" and "\<And>e. held_op R (f e)" and "\<And>a b. held_op R (g a b)"
  shows "held R s (snd (case m s of (Inl e, s1) \<Rightarrow> f e s1 | (Inr (a, b), s1) \<Rightarrow> g a b s1))"
proof (cases "m s")
  case (Pair r s1)
  have "held R s s1" using assms(1) Pair by simp
  moreover have "held R s1 (snd (f e s1))" "held R s1 (snd (g a b s1))" for e a b
    using assms(2,3) by (simp_all add: held_op_def)
  ultimately show ?thesis using Pair by (cases r) (auto intro: held_trans)
qed

lemma held_call_model:
  assumes "model_keeps R dp" and "call_model dp request s = (out, s')"
  shows "held R s s'"
proof -
  obtain elapsed u' where call: "dp_model dp (ts_calls s) request (ts_now s) (ts_opamp s) = (out, elapsed, u')"
    and s': "s' = s\<lparr>ts_opamp := u', ts_now := ts_now s + int elapsed, ts_calls := ts_calls s + 1\<rparr>"
    using assms(2) by (auto simp: call_model_def split: prod.splits)
  have "R (ts_opamp s) u' \<and> db_tasks (os_db u') = db_tasks (tdb s)"
    using assms(1) call unfolding model_keeps_def by (metis (mono_tags, lifting) case_prod_conv)
  with s' show ?thesis by (simp add: held_def stored_task_def)
qed

lemma held_call_config_llm:
  assumes "model_keeps R dp"
  shows "held R s (snd (call_config_llm dp desc context_info s))"
proof -
  obtain out s1 where call: "call_model dp (config_request desc context_info) s = (out, s1)"
    by (cases "call_model dp (config_request desc context_info) s")
  then have "snd (call_config_llm dp desc context_info s) = s1"
    by (auto simp: call_config_llm_def Let_def split: sum.split)
  with held_call_model [OF assms call] show ?thesis by simp
qed

lemma held_generate_attempts:
  "model_keeps R dp \<Longrightarrow> held R s (snd (generate_attempts dp desc context_info n err s))"
proof (induction n arbitrary: err s)
  case 0
  then show ?case by simp
next
  case (Suc n)
  obtain r s1 where call: "call_config_llm dp desc context_info s = (r, s1)"
    by (cases "call_config_llm dp desc context_info s")
  have "held R s s1" using held_call_config_llm [OF Suc.prems, of s desc context_info] call by simp
  with call Suc.IH [OF Suc.prems, of s1] show ?case
    by (auto simp: Let_def split: sum.split intro: held_trans)
qed

lemma held_steps:
  assumes "dp_require_approval dp" and "model_keeps R dp"
  shows "held_op R (generate_steps dp tid desc)" and "held_op R (optimize_steps dp tid desc context_info)"
proof -
  have valid: "held_op R (and_then (set_status tid TaskStatusValidating) (\<lambda>_ s2. let res = check_config dp content
      in if \<not> vr_valid res then fail_task tid (ErrTexts MsgConfigInvalid (vr_errors res)) s2
         else offer_task dp tid content model_used txt_generated s2))" for content model_used
    using gated_fail_task gated_offer_task [OF assms(1)]
    by (intro held_op_gated gated_and_then) (auto simp: gated_op_def gated_set_status Let_def)
  have attempt: "held R s (snd (generate_yaml dp d c s))" for d c s
    by (simp add: generate_yaml_def held_generate_attempts [OF assms(2)])
  have failed: "held_op R (fail_task tid err)" for err by (rule held_op_gated [OF gated_fail_task])
  show "held_op R (generate_steps dp tid desc)"
    unfolding held_op_def generate_steps_def
    by (intro allI held_sum_case attempt failed valid)
  have offered: "held_op R (and_then (set_status tid TaskStatusValidating)
      (\<lambda>_. offer_task dp tid content model_used txt_optimized))" for content model_used
    using gated_offer_task [OF assms(1)]
    by (intro held_op_gated gated_and_then) (auto simp: gated_op_def gated_set_status)
  show "held_op R (optimize_steps dp tid desc context_info)"
    unfolding held_op_def optimize_steps_def
    by (intro allI held_sum_case attempt failed offered)
qed

lemma held_set_status: "to \<notin> {TaskStatusApplying, TaskStatusDone} \<Longrightarrow> held_op R (set_status k to)"
  by (simp add: held_op_def held_gated gated_set_status)

lemma held_audit_then: "held_op R m \<Longrightarrow> held_op R (\<lambda>s. m (audit who act sub det s))"
  unfolding held_op_def by (blast intro: held_trans held_gated gated_audit)

lemma held_generate:
  assumes "dp_require_approval dp" and "model_keeps R dp"
  shows "held_op R (handle_generate_config dp sid args)"
proof -
  have steps: "held_op R (\<lambda>s3. and_then (set_status tid TaskStatusGenerating) (\<lambda>_. generate_steps dp tid desc)
      (audit ''agent'' AuditActionGenerate tid det s3))" for tid desc det
    by (intro held_audit_then held_and_then held_steps [OF assms] held_set_status) simp
  have "held R s (snd (handle_generate_config dp sid args s))" for s
  proof -
    obtain tid s1 where ids: "new_ulid dp s = (tid, s1)" by (cases "new_ulid dp s")
    obtain base src s2 where based: "base_config_for dp (get_string args ''target'') s1 = ((base, src), s2)"
      by (metis prod.exhaust)
    have "held R s s2"
      using gated_new_ulid [OF ids] gated_base_config_for [of s1 dp "get_string args ''target''"] based
      by (auto intro: held_gated gated_trans)
    moreover have "held_op R (and_then (create_task_op (empty_task\<lparr>t_id := tid, t_type := TaskTypeGenerate,
        t_status := TaskStatusPending, t_require_approval := dp_require_approval dp,
        t_input := get_string args ''description'', t_session_id := sid, t_target_group_id := get_string args ''target'',
        t_base_yaml := base, t_base_source := src\<rparr>))
      (\<lambda>_ s3. and_then (set_status tid TaskStatusGenerating) (\<lambda>_. generate_steps dp tid (get_string args ''description''))
        (audit ''agent'' AuditActionGenerate tid (txt_generate_target @ get_string args ''target'') s3)))"
      by (rule held_and_then [OF held_op_gated [OF gated_create] steps]) simp
    ultimately show ?thesis
      using ids based by (auto simp: handle_generate_config_def Let_def intro: held_opI)
  qed
  then show ?thesis by (simp add: held_op_def)
qed

lemma held_optimize:
  assumes "dp_require_approval dp" and "model_keeps R dp"
  shows "held_op R (handle_optimize_config dp sid args)"
proof -
  have steps: "held_op R (and_then (set_status tid TaskStatusGenerating) (\<lambda>_. optimize_steps dp tid desc ci))" for tid desc ci
    by (intro held_and_then held_steps [OF assms] held_set_status) simp
  have c: "gated s s1" if "on_db (get_collector k) s = (r, s1)" for s r s1 k
    using gated_on_db [of "get_collector k" s] listing_gated(3) that by fastforce
  have "held R s (snd (handle_optimize_config dp sid args s))" for s
  proof -
    let ?uid = "get_string args ''instance_uid''"
    obtain r s1 where got: "on_db (get_collector ?uid) s = (r, s1)" by (cases "on_db (get_collector ?uid) s")
    obtain base src s2 where based: "base_for_instance dp ?uid s1 = ((base, src), s2)" by (metis prod.exhaust)
    obtain tid s3 where ids: "new_ulid dp s2 = (tid, s3)" by (cases "new_ulid dp s2")
    have "gated s s1" using c got by blast
    moreover from this have "gated s s3"
      using gated_new_ulid [OF ids] gated_base_for_instance [of s1 dp ?uid] based by (auto intro: gated_trans)
    moreover have "held_op R (and_then (create_task_op (empty_task\<lparr>t_id := tid, t_type := TaskTypeOptimize,
        t_status := TaskStatusPending, t_require_approval := dp_require_approval dp, t_input := desc,
        t_session_id := sid, t_target_group_id := ?uid, t_base_yaml := base, t_base_source := src\<rparr>))
      (\<lambda>_. and_then (set_status tid TaskStatusGenerating) (\<lambda>_. optimize_steps dp tid desc ci)))" for desc ci
      by (rule held_and_then [OF held_op_gated [OF gated_create] steps]) simp
    ultimately show ?thesis
      using got based ids by (cases r) (auto simp: handle_optimize_config_def Let_def intro: held_opI held_gated)
  qed
  then show ?thesis by (simp add: held_op_def)
qed

lemma held_tool_call:
  assumes "dp_require_approval dp" and "model_keeps R dp"
    and "(name, handle) \<in> set new_tools" and "name \<noteq> ''approve_task''"
  shows "held_op R (tool_call_json unmarshal handle dp sid json_args)"
proof -
  have "held_op R (handle dp sid args)" for args
    using assms(3,4) gated_reads [THEN held_op_gated] held_generate [OF assms(1,2)] held_optimize [OF assms(1,2)]
      gated_decisions [of dp sid args, THEN held_op_gated] assms(1)
    by (auto simp: new_tools_def)
  then show ?thesis
    by (auto simp: tool_call_json_def held_op_def split: sum.split)
qed

end

interpretation strict: delivery_gate fleet_untouched
  by unfold_locales (auto simp: fleet_untouched_def)

interpretation draining: delivery_gate fleet_drained
  by unfold_locales (auto intro: fleet_untouched_drained fleet_drained_trans)

lemma held_strict: "held fleet_untouched s s' \<longleftrightarrow> gated s s'"
  by (auto simp: held_def gated_def fleet_untouched_def)

lemma idle_model_keeps: "idle_model dp \<longleftrightarrow> model_keeps fleet_untouched dp"
  by (simp add: idle_model_def model_keeps_def fleet_untouched_def case_prod_beta)

text \<open>C3: While approval is required, a call of any tool but \<open>approve_task\<close> sends nothing to an agent and
  queues nothing for one, and moves no task to \<open>applying\<close> or \<open>done\<close>: whatever its arguments, its session and
  the answers of the model and the database.\<close>

theorem approval_gate:
  assumes "dp_require_approval dp" and "idle_model dp"
    and "(name, handle) \<in> set new_tools" and "name \<noteq> ''approve_task''"
    and "tool_call_json unmarshal handle dp sid json_args s = (r, s')"
  shows "os_sent (ts_opamp s') = os_sent (ts_opamp s) \<and> os_pending (ts_opamp s') = os_pending (ts_opamp s) \<and>
    (\<forall>k t'. stored_task (tdb s') k = Some t' \<longrightarrow> t_status t' \<in> {TaskStatusApplying, TaskStatusDone} \<longrightarrow>
      (\<exists>t. stored_task (tdb s) k = Some t \<and> t_status t = t_status t'))"
proof -
  have "gated s s'"
    using strict.held_opD [OF strict.held_tool_call [OF assms(1) _ assms(3,4)] assms(5)] assms(2)
    by (simp add: idle_model_keeps held_strict)
  then show ?thesis by (simp add: gated_def)
qed

theorem approval_gate_witness:
  "os_sent (ts_opamp (snd (tool_call_json (\<lambda>_. Inr [''target'' \<mapsto> JStr ''g'', ''yaml'' \<mapsto> JStr ''cfg'']) handle_apply_config
     sample_deps '''' ''{}'' (sample_state (waiting_db empty_task))))) = []"
proof -
  have "idle_model sample_deps" by (simp add: idle_model_def sample_deps_def)
  moreover have "dp_require_approval sample_deps" by (simp add: sample_deps_def)
  moreover have "(''apply_config'', handle_apply_config) \<in> set new_tools" by (simp add: new_tools_def)
  ultimately show ?thesis
    using approval_gate [OF _ _ _ _ surjective_pairing, of sample_deps "''apply_config''" handle_apply_config
        "\<lambda>_. Inr [''target'' \<mapsto> JStr ''g'', ''yaml'' \<mapsto> JStr ''cfg'']" "''''" "''{}''" "sample_state (waiting_db empty_task)"]
    by (simp add: sample_state_def new_opamp_def)
qed

subsection \<open>What the model is asked and what is taken from its answer\<close>

lemma index_of_first:
  "\<not> contains sub (a @ butlast sub) \<Longrightarrow> sub \<noteq> [] \<Longrightarrow> index_of sub (a @ sub @ b) = Some (length a)"
proof (induction a)
  case Nil
  have "has_prefix sub (sub @ b)" by (auto simp: has_prefix_iff)
  with Nil show ?case by (cases "sub @ b") auto
next
  case (Cons c a)
  have "\<not> has_prefix sub (c # a @ sub @ b)"
  proof
    assume "has_prefix sub (c # a @ sub @ b)"
    then have "take (length sub) ((c # a) @ sub @ b) = sub" by (auto simp: has_prefix_iff)
    moreover have "take (length sub) ((c # a) @ sub @ b) = take (length sub) ((c # a) @ butlast sub)"
      using Cons.prems(2) by (cases sub rule: rev_cases) (auto simp: take_Cons')
    ultimately have "has_prefix sub ((c # a) @ butlast sub)"
      unfolding has_prefix_iff by (metis append_take_drop_id)
    then have "contains sub ((c # a) @ butlast sub)" unfolding contains_iff has_prefix_iff by (metis append_Nil)
    with Cons.prems(1) show False by simp
  qed
  moreover have "\<not> contains sub (a @ butlast sub)"
    using Cons.prems(1) contains_append_right [of sub "a @ butlast sub" "[c]"] by auto
  ultimately show ?case using Cons by simp
qed

text \<open>From an answer with a code block the text between the first fence, with the rest of its line, and
  the next fence is taken, trimmed; an answer without a fence is taken as it is, trimmed.\<close>

theorem code_fence_extracted:
  assumes "trim_space content = pre @ ''```'' @ lang @ [CHR 0x0A] @ body @ ''```'' @ post"
    and "\<not> contains ''```'' (pre @ ''``'')" and "CHR 0x0A \<notin> set lang" and "\<not> contains ''```'' (body @ ''``'')"
  shows "strip_code_fence content = trim_space body \<and>
    (\<not> contains ''```'' (trim_space other) \<longrightarrow> strip_code_fence other = trim_space other)"
proof -
  have fence: "index_of ''```'' (a @ ''```'' @ b) = Some (length a)" if "\<not> contains ''```'' (a @ ''``'')" for a b
    using index_of_first [of "''```''" a b] that by simp
  have nl: "index_of [CHR 0x0A] (lang @ [CHR 0x0A] @ b) = Some (length lang)" for b
    using index_of_first [of "[CHR 0x0A]" lang b] assms(3)
    by (auto simp: contains_iff append_eq_append_conv2 in_set_conv_decomp)
  have "drop (length pre + 3) (trim_space content) = lang @ [CHR 0x0A] @ body @ ''```'' @ post"
    by (simp add: assms(1))
  moreover have "index_of ''```'' (trim_space content) = Some (length pre)"
    unfolding assms(1) by (rule fence [OF assms(2)])
  moreover have "index_of ''```'' (body @ ''```'' @ post) = Some (length body)"
    by (rule fence [OF assms(4)])
  ultimately have "strip_code_fence content = trim_space body"
    using nl [of "body @ ''```'' @ post"] by (simp add: strip_code_fence_def code_fence_def Let_def del: append_Cons)
  then show ?thesis by (simp add: strip_code_fence_def code_fence_def contains_def)
qed

theorem code_fence_extracted_witness:
  "strip_code_fence (''Here: ```yaml'' @ [CHR 0x0A] @ ''a: b```.'') = ''a: b''"
proof -
  have "trim_space (''Here: ```yaml'' @ [CHR 0x0A] @ ''a: b```.'') =
      ''Here: '' @ ''```'' @ ''yaml'' @ [CHR 0x0A] @ ''a: b'' @ ''```'' @ ''.''" by code_simp
  moreover have "\<not> contains ''```'' (''Here: '' @ ''``'')" "\<not> contains ''```'' (''a: b'' @ ''``'')" by code_simp+
  moreover have "trim_space ''a: b'' = ''a: b''" by code_simp
  ultimately show ?thesis
    using code_fence_extracted [of "''Here: ```yaml'' @ [CHR 0x0A] @ ''a: b```.''" "''Here: ''" "''yaml''" "''a: b''" "''.''" "''''"]
    by simp
qed

text \<open>A call of the model on a calm system.\<close>

definition calm_model :: "deps \<Rightarrow> bool" where
  "calm_model dp \<longleftrightarrow> (\<forall>n q t u. case dp_model dp n q t u of (_, _, u') \<Rightarrow> db_faults (os_db u) = [] \<longrightarrow>
     db_faults (os_db u') = [] \<and> db_tasks (os_db u') = db_tasks (os_db u) \<and> db_audit (os_db u') = db_audit (os_db u))"

lemma call_config_llm_holding:
  assumes "call_config_llm dp desc ci s = (r, s')" and "calm_model dp" and "holding k t log s"
  shows "holding k t log s' \<and> ts_calls s' = ts_calls s + 1"
proof -
  obtain out elapsed u' where call: "dp_model dp (ts_calls s) (config_request desc ci) (ts_now s) (ts_opamp s) =
      (out, elapsed, u')" by (metis prod_cases3)
  have "db_holding k t log (os_db u')"
    using assms(2,3) call unfolding calm_model_def db_holding_def stored_task_def
    by (metis (mono_tags, lifting) case_prod_conv)
  then show ?thesis
    using assms(1) call by (auto simp: call_config_llm_def call_model_def Let_def split: sum.splits if_splits)
qed

lemma generate_attempts_holding:
  "generate_attempts dp desc ci n err s = (r, s') \<Longrightarrow> calm_model dp \<Longrightarrow> holding k t log s \<Longrightarrow>
    holding k t log s' \<and> ts_calls s' \<le> ts_calls s + n \<and>
    (\<forall>content m. r = Inr (content, m) \<longrightarrow> vr_valid (check_config dp content) \<and> m = ''deepseek'')"
proof (induction n arbitrary: err s)
  case 0
  then show ?case by auto
next
  case (Suc n)
  obtain x s1 where call: "call_config_llm dp desc ci s = (x, s1)" by (cases "call_config_llm dp desc ci s")
  note h1 = call_config_llm_holding [OF call Suc.prems(2,3)]
  have rest: "generate_attempts dp desc ci n e s1 = (r, s') \<Longrightarrow> holding k t log s' \<and> ts_calls s' \<le> ts_calls s1 + n \<and>
    (\<forall>content m. r = Inr (content, m) \<longrightarrow> vr_valid (check_config dp content) \<and> m = ''deepseek'')" for e
    using Suc.IH [OF _ Suc.prems(2)] h1 by blast
  show ?case
  proof (cases x)
    case (Inl e)
    with call Suc.prems(1) rest [of e] h1 show ?thesis by auto
  next
    case (Inr content)
    show ?thesis
    proof (cases "vr_valid (check_config dp content)")
      case True
      with call Inr Suc.prems(1) h1 show ?thesis by (auto simp: Let_def)
    next
      case False
      with call Inr Suc.prems(1) rest h1 show ?thesis by (fastforce simp: Let_def)
    qed
  qed
qed

lemma create_holding:
  assumes "db_faults (tdb s) = []" and "stored_task (tdb s) (t_id t) = None" and "t_status t \<noteq> TaskStatusNone"
  shows "\<exists>s'. create_task_op t s = (Inr (t\<lparr>t_created_at := ts_now s, t_updated_at := ts_now s\<rparr>), s') \<and>
    holding (t_id t) (t\<lparr>t_created_at := ts_now s, t_updated_at := ts_now s\<rparr>) (db_audit (tdb s)) s' \<and>
    ts_now s' = ts_now s \<and> ts_calls s' = ts_calls s"
proof -
  obtain r d' where run: "svc_create (ts_now s) t (tdb s) = (r, d')" by (cases "svc_create (ts_now s) t (tdb s)")
  note created = create_healthy [OF assms(1) run] create_effect [OF run]
  then obtain t2 where r: "r = Inr t2" using assms(2) by (cases r) auto
  have "db_audit d' = db_audit (tdb s)"
    by (rule svc_keeps(1) [OF _ _ _ run, where P = "\<lambda>d. db_audit d = db_audit (tdb s)"])
      (auto simp: fault_blind_def)
  with created r assms(3) run show ?thesis
    by (auto simp: create_task_op_def on_db_eq db_holding_def)
qed

lemma base_config_for_same:
  assumes "db_faults (tdb s) = []"
  shows "snd (base_config_for dp target s) = s"
proof -
  have one: "snd (base_for_instance dp k s) = s" for k
    using assms
    by (auto simp: base_for_instance_def on_db_eq get_collector_healthy split: option.split list.split)
  have all: "snd (first_base dp target cs s) = s" for cs
  proof (induction cs)
    case Nil
    show ?case by simp
  next
    case (Cons c cs)
    with one [of "col_instance_uid c"] show ?case by (auto simp: Let_def case_prod_beta)
  qed
  have "on_db (list_collectors 0 0) s = (fst (list_collectors 0 0 (tdb s)), s)"
    using assms by (simp add: on_db_eq list_collectors_def and_then_def query_healthy ret_def)
  with one [of target] all show ?thesis
    by (auto simp: base_config_for_def Let_def case_prod_beta split: sum.split)
qed

text \<open>The record of a task that the tool has offered for approval or given up.\<close>

definition offered :: "deps \<Rightarrow> string \<Rightarrow> (go_error + tool_result) \<Rightarrow> task \<Rightarrow> task \<Rightarrow> bool" where
  "offered dp message r t t' \<longleftrightarrow>
    (case r of
       Inl _ \<Rightarrow> t' = t\<lparr>t_status := TaskStatusFailed, t_updated_at := t_updated_at t'\<rparr>
     | Inr res \<Rightarrow> (\<exists>content. vr_valid (check_config dp content) \<and>
         t' = t\<lparr>t_status := TaskStatusAwaitingApproval, t_generated_yaml := content, t_updated_at := t_updated_at t'\<rparr> \<and>
         res = ResFields [(''task_id'', JStr (t_id t)), (''status'', JStr ''awaiting_approval''),
           (''message'', JStr message), (''model_used'', JStr ''deepseek'')]))"

lemma offer_task_holding:
  assumes "offer_task dp k content ''deepseek'' message s = (r, s')" and "dp_require_approval dp"
    and "holding k t log s" and "t_status t = TaskStatusValidating" and "vr_valid (check_config dp content)"
  shows "\<exists>t'. stored_task (tdb s') k = Some t' \<and> offered dp message r t t' \<and> ts_calls s' = ts_calls s"
proof -
  let ?t1 = "t\<lparr>t_status := TaskStatusAwaitingApproval, t_updated_at := ts_now s\<rparr>"
  have id: "t_id t = k" using assms(3) by (auto simp: db_holding_def stored_task_def dest: find_row_SomeD)
  obtain s1 where s1: "set_status k TaskStatusAwaitingApproval s = (Inr ?t1, s1)" and h1: "holding k ?t1 log s1"
    using set_status_holding [OF assms(3), of TaskStatusAwaitingApproval] assms(4) by (auto simp: can_transition_def)
  have calls: "ts_calls s1 = ts_calls s" using s1 by (auto simp: set_status_def on_db_eq)
  let ?t2 = "?t1\<lparr>t_generated_yaml := content\<rparr>"
  obtain d' where run: "update_task (ts_now s1) ?t2 (tdb s1) = (Inr (?t2\<lparr>t_updated_at := ts_now s1\<rparr>), d')"
    using sql_repo.save_healthy [of "tdb s1" "ts_now s1" ?t2] h1 by (auto simp: db_holding_def)
  have "stored_task d' k = Some (?t2\<lparr>t_updated_at := ts_now s1\<rparr>)"
    using sql_repo.save_ok [OF run] id h1 by (auto simp: db_holding_def)
  then show ?thesis
    using assms(1,2,5) s1 run id calls by (auto simp: offer_task_def on_db_eq Let_def offered_def)
qed

lemma fail_task_holding:
  assumes "fail_task k e s = (r, s')" and "holding k t log s" and "can_transition (t_status t) TaskStatusFailed"
  shows "\<exists>t'. stored_task (tdb s') k = Some t' \<and> (\<exists>e. r = Inl e) \<and>
    t' = t\<lparr>t_status := TaskStatusFailed, t_updated_at := t_updated_at t'\<rparr> \<and> ts_calls s' = ts_calls s"
proof -
  obtain s1 where s1: "set_status k TaskStatusFailed s = (Inr (t\<lparr>t_status := TaskStatusFailed, t_updated_at := ts_now s\<rparr>), s1)"
      and h1: "holding k (t\<lparr>t_status := TaskStatusFailed, t_updated_at := ts_now s\<rparr>) log s1"
    using set_status_holding [OF assms(2,3)] by auto
  moreover from s1 have "ts_calls s1 = ts_calls s" by (auto simp: set_status_def on_db_eq)
  ultimately show ?thesis using assms(1) by (auto simp: fail_task_def db_holding_def)
qed

lemma generate_steps_holding:
  assumes run: "generate_steps dp k desc s = (r, s')" and "dp_require_approval dp" and "calm_model dp"
    and h: "holding k t log s" and gen: "t_status t = TaskStatusGenerating"
  shows "\<exists>t'. stored_task (tdb s') k = Some t' \<and> offered dp txt_generated r t t' \<and> ts_calls s' \<le> ts_calls s + 3"
proof -
  obtain x s1 where x: "generate_yaml dp desc '''' s = (x, s1)" by (cases "generate_yaml dp desc '''' s")
  then have "generate_attempts dp desc '''' 3 (ErrText MsgGenerateRetriesExhausted) s = (x, s1)"
    by (simp add: generate_yaml_def)
  note h1 = generate_attempts_holding [OF this assms(3) h]
  show ?thesis
  proof (cases x)
    case (Inl e)
    with run x have "fail_task k e s1 = (r, s')" by (simp add: generate_steps_def)
    from fail_task_holding [OF this] h1 gen show ?thesis by (fastforce simp: can_transition_def offered_def)
  next
    case (Inr p)
    obtain content where p: "p = (content, ''deepseek'')" and ok: "vr_valid (check_config dp content)"
      using h1 Inr by (cases p) auto
    let ?t2 = "t\<lparr>t_status := TaskStatusValidating, t_updated_at := ts_now s1\<rparr>"
    obtain s2 where s2: "set_status k TaskStatusValidating s1 = (Inr ?t2, s2)" and h2: "holding k ?t2 log s2"
      using set_status_holding [of k t log s1 TaskStatusValidating] h1 gen by (auto simp: can_transition_def)
    have calls: "ts_calls s2 = ts_calls s1" using s2 by (auto simp: set_status_def on_db_eq)
    have "offer_task dp k content ''deepseek'' txt_generated s2 = (r, s')"
      using run x Inr p ok s2 by (simp add: generate_steps_def Let_def)
    from offer_task_holding [OF this assms(2) h2 _ ok] calls h1 show ?thesis
      by (fastforce simp: offered_def split: sum.splits)
  qed
qed

text \<open>C11: On a calm system with approval required, a request to generate a configuration for a target leaves
  one new task with the request, the session and the base configuration of the target.  It ends waiting for
  approval with a configuration that passed the validation, or failed without one, after at most three calls
  of the model.  The answer names the model; the stored task does not.\<close>

theorem generated_task_validated:
  assumes "db_faults (tdb s) = []" and "calm_model dp" and "dp_require_approval dp"
    and "get_string args ''target'' \<noteq> ''''" and "get_string args ''description'' \<noteq> ''''"
    and "stored_task (tdb s) (dp_ulid dp (ts_ids s)) = None"
    and "handle_generate_config dp sid args s = (r, s')"
  shows "\<exists>t'. stored_task (tdb s') (dp_ulid dp (ts_ids s)) = Some t' \<and> ts_calls s' \<le> ts_calls s + 3 \<and>
    t_type t' = TaskTypeGenerate \<and> t_input t' = get_string args ''description'' \<and> t_session_id t' = sid \<and>
    t_target_group_id t' = get_string args ''target'' \<and> t_approver t' = '''' \<and> t_model_used t' = '''' \<and>
    (t_base_yaml t', t_base_source t') =
      fst (base_config_for dp (get_string args ''target'') (s\<lparr>ts_ids := ts_ids s + 1\<rparr>)) \<and>
    (case r of
       Inl _ \<Rightarrow> t_status t' = TaskStatusFailed \<and> t_generated_yaml t' = ''''
     | Inr res \<Rightarrow> t_status t' = TaskStatusAwaitingApproval \<and> vr_valid (check_config dp (t_generated_yaml t')) \<and>
         res = ResFields [(''task_id'', JStr (t_id t')), (''status'', JStr ''awaiting_approval''),
           (''message'', JStr txt_generated), (''model_used'', JStr ''deepseek'')])"
proof -
  define k where "k = dp_ulid dp (ts_ids s)"
  let ?s1 = "s\<lparr>ts_ids := ts_ids s + 1\<rparr>"
  let ?target = "get_string args ''target''" and ?desc = "get_string args ''description''"
  obtain base src where base: "base_config_for dp ?target ?s1 = ((base, src), ?s1)"
    using base_config_for_same [of ?s1 dp ?target] assms(1) by (cases "base_config_for dp ?target ?s1") auto
  let ?t = "empty_task\<lparr>t_id := k, t_type := TaskTypeGenerate, t_status := TaskStatusPending,
    t_require_approval := dp_require_approval dp, t_input := ?desc, t_session_id := sid,
    t_target_group_id := ?target, t_base_yaml := base, t_base_source := src\<rparr>"
  define t1 where "t1 = ?t\<lparr>t_created_at := ts_now s, t_updated_at := ts_now s\<rparr>"
  obtain s3 where s3: "create_task_op ?t ?s1 = (Inr t1, s3)" and h3: "holding k t1 (db_audit (tdb s)) s3"
    and calls3: "ts_calls s3 = ts_calls s"
    using create_holding [of ?s1 ?t] assms(1,6) by (auto simp: k_def t1_def)
  define s4 where "s4 = audit ''agent'' AuditActionGenerate k (txt_generate_target @ ?target) s3"
  obtain log where h4: "holding k t1 log s4" unfolding s4_def using audit_holding [OF h3] by blast
  have calls4: "ts_calls s4 = ts_calls s" using calls3 by (simp add: s4_def audit_def on_db_eq)
  let ?t5 = "t1\<lparr>t_status := TaskStatusGenerating, t_updated_at := ts_now s4\<rparr>"
  obtain s5 where s5: "set_status k TaskStatusGenerating s4 = (Inr ?t5, s5)" and h5: "holding k ?t5 log s5"
    using set_status_holding [OF h4, of TaskStatusGenerating] by (auto simp: t1_def can_transition_def)
  have calls5: "ts_calls s5 = ts_calls s" using s5 calls4 by (auto simp: set_status_def on_db_eq)
  have "generate_steps dp k ?desc s5 = (r, s')"
    using assms(4,5,7) base s3 s5 by (simp add: handle_generate_config_def Let_def new_ulid_def k_def s4_def)
  from generate_steps_holding [OF this assms(3,2) h5] obtain t' where
    t': "stored_task (tdb s') k = Some t'" "offered dp txt_generated r ?t5 t'" "ts_calls s' \<le> ts_calls s + 3"
    using calls5 by auto
  show ?thesis
  proof (intro exI [of _ t'] conjI)
    show "stored_task (tdb s') (dp_ulid dp (ts_ids s)) = Some t'" using t'(1) by (simp add: k_def)
    show "ts_calls s' \<le> ts_calls s + 3" by (rule t'(3))
  qed (use t'(2) base in \<open>auto simp: offered_def t1_def empty_task_def split: sum.splits elim!: ssubst [of t']\<close>)
qed

theorem generated_task_validated_witness:
  "\<exists>t'. stored_task (tdb (snd (handle_generate_config sample_deps ''s1''
      [''target'' \<mapsto> JStr ''g'', ''description'' \<mapsto> JStr ''logs''] (sample_state empty_db)))) ''A'' = Some t' \<and>
    t_input t' = ''logs'' \<and> t_model_used t' = ''''"
proof -
  have "calm_model sample_deps" by (simp add: calm_model_def sample_deps_def)
  moreover have "dp_require_approval sample_deps" "dp_ulid sample_deps (ts_ids (sample_state empty_db)) = ''A''"
    by (simp_all add: sample_deps_def sample_state_def)
  moreover have "db_faults empty_db = []" "stored_task empty_db ''A'' = None"
    by (simp_all add: empty_db_def stored_task_def table_simps)
  ultimately show ?thesis
    using generated_task_validated [OF _ _ _ _ _ _ surjective_pairing, of "sample_state empty_db" sample_deps
        "[''target'' \<mapsto> JStr ''g'', ''description'' \<mapsto> JStr ''logs'']" "''s1''"]
    by (auto simp: get_string_def)
qed

end
