(* ===== verification/Ops_Stats.thy ===== *)
theory Ops_Stats
  imports Complex_Main Sql_Store
begin

section \<open>Statistics of operation (internal/api/stats.go)\<close>

text \<open>
  The counts of the dashboard and the indicators computed from the event log of the tasks: how long
  approvals wait, how long deliveries take, how many succeed, and the rollbacks.  The indicators are
  pure functions of the tasks and events of a window.  The lemmas show that the one pass over the log
  finds for each task the same times as the log itself says (first entry, first leave, last terminal
  event), that a percentile is the nearest-rank one, and how the numbers of a summary are ordered.
\<close>

subsection \<open>Counts\<close>

record collectors_stats =
  cst_total :: int
  cst_healthy :: int
  cst_unhealthy :: int
  cst_offline :: int
  cst_unknown :: int

record tasks_stats =
  tst_total :: int
  tst_pending :: int
  tst_generating :: int
  tst_validating :: int
  tst_awaiting_approval :: int
  tst_applying :: int
  tst_done :: int
  tst_rejected :: int
  tst_failed :: int

record stats_response =
  st_collectors :: collectors_stats
  st_tasks :: tasks_stats
  st_sessions_total :: int

text \<open>Reading a key of a Go map gives the zero value where the key is missing.\<close>

definition count_of :: "('k \<Rightarrow> int option) \<Rightarrow> 'k \<Rightarrow> int" where
  "count_of m k = (case m k of Some n \<Rightarrow> n | None \<Rightarrow> 0)"

text \<open>The keys in one of the orders a Go map can be walked in.\<close>

definition collector_status_keys :: "collector_status list" where
  "collector_status_keys = [CollectorStatusNone, CollectorStatusHealthy, CollectorStatusUnhealthy,
    CollectorStatusOffline, CollectorStatusUnknown]"

definition map_sum :: "'k list \<Rightarrow> ('k \<Rightarrow> int option) \<Rightarrow> int" where
  "map_sum ks m = foldl (\<lambda>n k. wrap64 (n + count_of m k)) 0 ks"

definition collectors_stats_of :: "(collector_status \<Rightarrow> int option) \<Rightarrow> collectors_stats" where
  "collectors_stats_of m =
    \<lparr>cst_total = map_sum collector_status_keys m,
     cst_healthy = count_of m CollectorStatusHealthy,
     cst_unhealthy = count_of m CollectorStatusUnhealthy,
     cst_offline = count_of m CollectorStatusOffline,
     cst_unknown = count_of m CollectorStatusUnknown\<rparr>"

definition tasks_stats_of :: "(task_status \<Rightarrow> int option) \<Rightarrow> tasks_stats" where
  "tasks_stats_of m =
    \<lparr>tst_total = map_sum Enum.enum m,
     tst_pending = count_of m TaskStatusPending,
     tst_generating = count_of m TaskStatusGenerating,
     tst_validating = count_of m TaskStatusValidating,
     tst_awaiting_approval = count_of m TaskStatusAwaitingApproval,
     tst_applying = count_of m TaskStatusApplying,
     tst_done = count_of m TaskStatusDone,
     tst_rejected = count_of m TaskStatusRejected,
     tst_failed = count_of m TaskStatusFailed\<rparr>"

subsection \<open>Summaries of durations\<close>

record stat_summary =
  sm_count :: int
  sm_avg :: int
  sm_p50 :: int
  sm_p90 :: int

definition milliseconds :: "duration \<Rightarrow> int" where
  "milliseconds d = quot d nano_per_milli"

definition percentile :: "int list \<Rightarrow> int \<Rightarrow> int" where
  "percentile sorted_ms p =
    (if sorted_ms = [] then 0
     else let n = int (length sorted_ms);
              idx0 = quot (p * n + 99) 100;
              idx1 = (if idx0 < 1 then 1 else idx0);
              idx = (if idx1 > n then n else idx1)
          in sorted_ms ! nat (idx - 1))"

definition wrapped_sum :: "int list \<Rightarrow> int" where
  "wrapped_sum xs = foldl (\<lambda>n x. wrap64 (n + x)) 0 xs"

definition summarize :: "duration list \<Rightarrow> stat_summary" where
  "summarize durations =
    (if durations = [] then \<lparr>sm_count = 0, sm_avg = 0, sm_p50 = 0, sm_p90 = 0\<rparr>
     else let ms = map milliseconds durations; sorted_ms = sort ms
          in \<lparr>sm_count = int (length durations),
              sm_avg = quot (wrapped_sum ms) (int (length sorted_ms)),
              sm_p50 = percentile sorted_ms 50,
              sm_p90 = percentile sorted_ms 90\<rparr>)"

subsection \<open>The times of a task\<close>

record span =
  sp_task_id :: string
  sp_first :: time
  sp_last :: time
  sp_enter_wait :: time
  sp_leave_wait :: time
  sp_enter_apply :: time
  sp_terminal :: time

text \<open>
  The pass keeps the spans in the order in which their tasks appear; the Go map from task ids to spans
  is the search by id.
\<close>

definition new_span :: "string \<Rightarrow> time \<Rightarrow> span" where
  "new_span tid moment = \<lparr>sp_task_id = tid, sp_first = moment, sp_last = zero_time, sp_enter_wait = zero_time,
    sp_leave_wait = zero_time, sp_enter_apply = zero_time, sp_terminal = zero_time\<rparr>"

definition note_event :: "task_event \<Rightarrow> span \<Rightarrow> span" where
  "note_event e sp0 =
    (let moment = ev_created_at e;
         sp1 = sp0\<lparr>sp_last := moment\<rparr>;
         sp2 = (if ev_to_status e = task_status_text TaskStatusAwaitingApproval \<and> sp_enter_wait sp1 = zero_time
                then sp1\<lparr>sp_enter_wait := moment\<rparr> else sp1);
         sp3 = (if ev_from_status e = task_status_text TaskStatusAwaitingApproval \<and> sp_leave_wait sp2 = zero_time
                then sp2\<lparr>sp_leave_wait := moment\<rparr> else sp2);
         sp4 = (if ev_to_status e = task_status_text TaskStatusApplying \<and> sp_enter_apply sp3 = zero_time
                then sp3\<lparr>sp_enter_apply := moment\<rparr> else sp3)
     in if ev_to_status e = task_status_text TaskStatusDone \<or> ev_to_status e = task_status_text TaskStatusFailed
        then sp4\<lparr>sp_terminal := moment\<rparr> else sp4)"

definition add_event :: "span list \<Rightarrow> task_event \<Rightarrow> span list" where
  "add_event spans e =
    (let tid = ev_task_id e;
         all = (if find_row sp_task_id tid spans = None then spans @ [new_span tid (ev_created_at e)] else spans)
     in update_rows sp_task_id tid (note_event e) all)"

definition collect_spans :: "task_event list \<Rightarrow> span list" where
  "collect_spans events = foldl add_event [] events"

subsection \<open>The indicators\<close>

definition wait_durations :: "span \<Rightarrow> duration list" where
  "wait_durations sp =
    (if sp_enter_wait sp \<noteq> zero_time \<and> sp_leave_wait sp \<noteq> zero_time \<and> sp_leave_wait sp > sp_enter_wait sp
     then [time_sub (sp_leave_wait sp) (sp_enter_wait sp)] else [])"

definition dispatch_durations :: "span \<Rightarrow> duration list" where
  "dispatch_durations sp =
    (let start = (if sp_enter_apply sp = zero_time then sp_first sp else sp_enter_apply sp)
     in if start \<noteq> zero_time \<and> sp_terminal sp \<noteq> zero_time \<and> sp_terminal sp > start
        then [time_sub (sp_terminal sp) start] else [])"

definition rollback_durations :: "string list \<Rightarrow> span \<Rightarrow> duration list" where
  "rollback_durations rollback_tasks sp =
    (if sp_task_id sp \<in> set rollback_tasks \<and> sp_first sp \<noteq> zero_time \<and> sp_terminal sp \<noteq> zero_time \<and>
        sp_terminal sp > sp_first sp
     then [time_sub (sp_terminal sp) (sp_first sp)] else [])"

text \<open>The success rate is a floating-point quotient in the source and the exact one here.\<close>

record ops_stats_response =
  os_window_days :: int
  os_tasks_total :: int
  os_tasks_done :: int
  os_tasks_failed :: int
  os_success_rate :: rat
  os_approval_wait_ms :: stat_summary
  os_dispatch_ms :: stat_summary
  os_rollback_count :: int
  os_rollback_avg_ms :: int

definition success_rate :: "int \<Rightarrow> int \<Rightarrow> rat" where
  "success_rate n_done n_failed =
    (if n_done + n_failed > 0 then rat_of_int n_done / rat_of_int (n_done + n_failed) else 0)"

definition rollback_avg :: "duration list \<Rightarrow> int" where
  "rollback_avg ds =
    (if ds = [] then 0 else milliseconds (quot (wrapped_sum ds) (int (length ds))))"

definition compute_ops_stats :: "int \<Rightarrow> task list \<Rightarrow> task_event list \<Rightarrow> ops_stats_response" where
  "compute_ops_stats window_days tasks events =
    (let n_done = int (length (filter (\<lambda>t. t_status t = TaskStatusDone) tasks));
         n_failed = int (length (filter (\<lambda>t. t_status t = TaskStatusFailed) tasks));
         spans = collect_spans events;
         rollback_tasks = map t_id (filter (\<lambda>t. t_type t = TaskTypeRollback) tasks);
         waits = concat (map wait_durations spans);
         dispatches = concat (map dispatch_durations spans);
         rollbacks = concat (map (rollback_durations rollback_tasks) spans)
     in \<lparr>os_window_days = window_days,
         os_tasks_total = int (length tasks),
         os_tasks_done = n_done,
         os_tasks_failed = n_failed,
         os_success_rate = success_rate n_done n_failed,
         os_approval_wait_ms = summarize waits,
         os_dispatch_ms = summarize dispatches,
         os_rollback_count = int (length rollbacks),
         os_rollback_avg_ms = rollback_avg rollbacks\<rparr>)"

section \<open>Lemmas\<close>

subsection \<open>Percentiles\<close>

lemma percentile_rank:
  assumes "xs \<noteq> []" "1 \<le> p" "p \<le> 100"
  obtains k where "k < length xs" "percentile xs p = xs ! k"
    "p * int (length xs) \<le> 100 * (int k + 1)" "100 * int k < p * int (length xs)"
proof -
  let ?n = "int (length xs)"
  define q where "q = (p * ?n + 99) div 100"
  from assms(1) have n: "?n \<ge> 1"
    by (cases xs) auto
  with assms(2) have pos: "p * ?n \<ge> 1"
    by (metis dual_order.trans mult_le_cancel_left1 not_one_le_zero zero_less_one_class.zero_le_one linorder_not_less order_less_le_trans)
  have quot: "quot (p * ?n + 99) 100 = q"
    using pos by (simp add: quot_nonneg q_def)
  have q: "100 * q \<ge> p * ?n" "100 * (q - 1) < p * ?n"
    unfolding q_def by presburger+
  then have "q \<ge> 1"
    using pos by linarith
  moreover have "q \<le> ?n"
  proof -
    have "p * ?n \<le> 100 * ?n"
      using assms(3) by (intro mult_right_mono) simp_all
    then have "100 * (q - 1) < 100 * ?n"
      using q(2) by (rule order_less_le_trans [rotated])
    then show ?thesis by simp
  qed
  ultimately have "percentile xs p = xs ! nat (q - 1)"
    using assms(1) by (simp add: percentile_def quot Let_def)
  with q \<open>q \<ge> 1\<close> \<open>q \<le> ?n\<close> that [of "nat (q - 1)"] show thesis
    by (simp add: nat_less_iff)
qed

lemma sorted_count_le:
  assumes "sorted xs" "k < length xs"
  shows "k + 1 \<le> length (filter (\<lambda>x. x \<le> xs ! k) xs)"
proof -
  have "\<forall>x \<in> set (take (k + 1) xs). x \<le> xs ! k"
  proof
    fix x
    assume "x \<in> set (take (k + 1) xs)"
    then obtain i where "i < length (take (k + 1) xs)" "x = take (k + 1) xs ! i"
      by (metis in_set_conv_nth)
    with assms show "x \<le> xs ! k"
      by (simp add: sorted_nth_mono)
  qed
  then have "filter (\<lambda>x. x \<le> xs ! k) (take (k + 1) xs) = take (k + 1) xs"
    by (simp add: filter_id_conv)
  moreover have "length (filter (\<lambda>x. x \<le> xs ! k) xs) \<ge> length (filter (\<lambda>x. x \<le> xs ! k) (take (k + 1) xs))"
    by (metis append_take_drop_id filter_append length_append le_add1)
  ultimately show ?thesis
    using assms(2) by simp
qed

lemma sorted_count_less:
  assumes "sorted xs" "k < length xs" "y < xs ! k"
  shows "length (filter (\<lambda>x. x \<le> y) xs) \<le> k"
proof -
  have "\<forall>x \<in> set (drop k xs). \<not> x \<le> y"
  proof
    fix x
    assume "x \<in> set (drop k xs)"
    then obtain i where "i < length (drop k xs)" "x = drop k xs ! i"
      by (metis in_set_conv_nth)
    with assms have "xs ! k \<le> x"
      by (simp add: sorted_nth_mono)
    with assms(3) show "\<not> x \<le> y" by simp
  qed
  then have "filter (\<lambda>x. x \<le> y) (drop k xs) = []"
    by (simp add: filter_empty_conv)
  then have "length (filter (\<lambda>x. x \<le> y) xs) = length (filter (\<lambda>x. x \<le> y) (take k xs))"
    by (metis append_take_drop_id append_Nil2 filter_append)
  also have "\<dots> \<le> k"
    by (metis length_filter_le le_trans length_take min.cobounded2)
  finally show ?thesis .
qed

lemma percentile_mono:
  assumes "sorted xs" "xs \<noteq> []" "1 \<le> p" "p \<le> q" "q \<le> 100"
  shows "percentile xs p \<le> percentile xs q"
proof -
  obtain k where k: "k < length xs" "percentile xs p = xs ! k" "100 * int k < p * int (length xs)"
    using percentile_rank [OF assms(2), of p] assms by auto
  obtain j where j: "j < length xs" "percentile xs q = xs ! j" "q * int (length xs) \<le> 100 * (int j + 1)"
    using percentile_rank [OF assms(2), of q] assms by auto
  have "p * int (length xs) \<le> q * int (length xs)"
    using assms(4) by (simp add: mult_right_mono)
  then have "100 * int k < 100 * (int j + 1)"
    using k(3) j(3) by (meson order_less_le_trans)
  then have "k \<le> j" by simp
  with k j assms(1) show ?thesis
    by (simp add: sorted_nth_mono)
qed

text \<open>C37: A percentile is the one of the nearest-rank method: the least of the given values that at least \<open>p\<close>
  percent of them do not exceed.\<close>

theorem percentile_nearest_rank:
  assumes "sorted xs" "xs \<noteq> []" "1 \<le> p" "p \<le> 100"
  shows "percentile xs p \<in> set xs \<and>
    p * int (length xs) \<le> 100 * int (length (filter (\<lambda>x. x \<le> percentile xs p) xs)) \<and>
    (\<forall>y. p * int (length xs) \<le> 100 * int (length (filter (\<lambda>x. x \<le> y) xs)) \<longrightarrow> percentile xs p \<le> y)"
proof -
  obtain k where k: "k < length xs" "percentile xs p = xs ! k"
    "p * int (length xs) \<le> 100 * (int k + 1)" "100 * int k < p * int (length xs)"
    using percentile_rank [OF assms(2-4)] .
  have "percentile xs p \<le> y" if "p * int (length xs) \<le> 100 * int (length (filter (\<lambda>x. x \<le> y) xs))" for y
  proof (rule ccontr)
    assume "\<not> percentile xs p \<le> y"
    with k sorted_count_less [OF assms(1) k(1), of y] have "length (filter (\<lambda>x. x \<le> y) xs) \<le> k" by simp
    with that k(4) show False by linarith
  qed
  moreover have "p * int (length xs) \<le> 100 * int (length (filter (\<lambda>x. x \<le> percentile xs p) xs))"
    using sorted_count_le [OF assms(1) k(1)] k(2,3) by (simp; linarith)
  ultimately show ?thesis
    using k(1,2) by simp
qed

theorem percentile_nearest_rank_witness:
  "percentile [10, 20, 30, 40, 50] 90 \<in> {10, 20, 30, 40, 50} \<and>
    90 * 5 \<le> 100 * int (length (filter (\<lambda>x. x \<le> percentile [10, 20, 30, 40, 50] 90) [10, 20, 30, 40, 50]))"
  using percentile_nearest_rank [of "[10, 20, 30, 40, 50]" 90] by simp

subsection \<open>Sums and averages\<close>

lemma wrapped_sum_exact:
  assumes "\<forall>x \<in> set xs. 0 \<le> x" "sum_list xs < 2 ^ 63"
  shows "wrapped_sum xs = sum_list xs"
  using assms
proof (induction xs rule: rev_induct)
  case Nil
  then show ?case by (simp add: wrapped_sum_def)
next
  case (snoc x xs)
  have nonneg: "0 \<le> sum_list xs"
    using snoc.prems(1) by (simp add: sum_list_nonneg)
  with snoc have "wrapped_sum xs = sum_list xs" by simp
  moreover have "wrapped_sum (xs @ [x]) = wrap64 (wrapped_sum xs + x)"
    by (simp add: wrapped_sum_def)
  ultimately show ?case
    using snoc.prems nonneg by (simp add: wrap64_id)
qed

lemma sum_list_bounds:
  fixes xs :: "int list"
  assumes "\<forall>x \<in> set xs. lo \<le> x \<and> x \<le> hi"
  shows "lo * int (length xs) \<le> sum_list xs \<and> sum_list xs \<le> hi * int (length xs)"
  using assms by (induction xs) (auto simp: algebra_simps)

lemma average_between:
  fixes xs :: "int list"
  assumes "xs \<noteq> []" "\<forall>x \<in> set xs. lo \<le> x \<and> x \<le> hi" "0 \<le> lo" "sum_list xs < 2 ^ 63"
  shows "lo \<le> quot (wrapped_sum xs) (int (length xs)) \<and> quot (wrapped_sum xs) (int (length xs)) \<le> hi"
proof -
  let ?n = "int (length xs)"
  have n: "?n > 0"
    using assms(1) by simp
  have "\<forall>x \<in> set xs. 0 \<le> x"
    using assms(2,3) by force
  then have sum: "wrapped_sum xs = sum_list xs" "0 \<le> sum_list xs"
    using assms(4) by (auto simp: wrapped_sum_exact sum_list_nonneg)
  have "lo \<le> sum_list xs div ?n"
    using sum_list_bounds [OF assms(2)] n zdiv_mono1 [of "lo * ?n" "sum_list xs" ?n] by simp
  moreover have "sum_list xs div ?n \<le> hi"
    using sum_list_bounds [OF assms(2)] n zdiv_mono1 [of "sum_list xs" "hi * ?n" ?n] by simp
  ultimately show ?thesis
    using sum n by (simp add: quot_nonneg)
qed

lemma milliseconds_mono: "0 \<le> d \<Longrightarrow> d \<le> e \<Longrightarrow> milliseconds d \<le> milliseconds e"
  by (simp add: milliseconds_def quot_nonneg zdiv_mono1)

lemma milliseconds_nonneg: "0 \<le> d \<Longrightarrow> 0 \<le> milliseconds d"
  by (simp add: milliseconds_def quot_nonneg)

lemma sort_Nil_iff: "sort xs = [] \<longleftrightarrow> xs = []"
  by (metis length_0_conv length_sort)

lemma percentile_in: "xs \<noteq> [] \<Longrightarrow> 1 \<le> p \<Longrightarrow> p \<le> 100 \<Longrightarrow> percentile xs p \<in> set xs"
  by (metis nth_mem percentile_rank)

text \<open>The numbers of a summary of durations are ordered: all three lie between the shortest and the
  longest duration in milliseconds, and the median is not above the 90th percentile.\<close>

theorem summary_ordered:
  assumes "ds \<noteq> []" "\<forall>d \<in> set ds. lo \<le> d \<and> d \<le> hi" "0 \<le> lo" "sum_list (map milliseconds ds) < 2 ^ 63"
  shows "let s = summarize ds in sm_count s = int (length ds) \<and>
    milliseconds lo \<le> sm_p50 s \<and> sm_p50 s \<le> sm_p90 s \<and> sm_p90 s \<le> milliseconds hi \<and>
    milliseconds lo \<le> sm_avg s \<and> sm_avg s \<le> milliseconds hi"
proof -
  let ?ms = "map milliseconds ds"
  have range: "\<forall>x \<in> set ?ms. milliseconds lo \<le> x \<and> x \<le> milliseconds hi"
    using assms(2,3) by (auto intro!: milliseconds_mono)
  have p: "milliseconds lo \<le> percentile (sort ?ms) q \<and> percentile (sort ?ms) q \<le> milliseconds hi"
    if "1 \<le> q" "q \<le> 100" for q
    using percentile_in [of "sort ?ms" q] that assms(1) range
    by (auto simp: sort_Nil_iff)
  have avg: "milliseconds lo \<le> quot (wrapped_sum ?ms) (int (length ?ms)) \<and>
      quot (wrapped_sum ?ms) (int (length ?ms)) \<le> milliseconds hi"
    using assms range by (intro average_between) (auto simp: milliseconds_nonneg)
  have "percentile (sort ?ms) 50 \<le> percentile (sort ?ms) 90"
    using assms(1) by (intro percentile_mono) (simp_all add: sort_Nil_iff)
  with p [of 50] p [of 90] avg assms(1) show ?thesis
    by (simp add: summarize_def Let_def)
qed

theorem summary_ordered_witness:
  "let s = summarize [3000000, 1000000, 2000000] in sm_count s = 3 \<and> 1 \<le> sm_p50 s \<and> sm_p50 s \<le> sm_p90 s"
  using summary_ordered [of "[3000000, 1000000, 2000000]" 1000000 3000000]
  by (simp add: Let_def milliseconds_def quot_def)

subsection \<open>The pass over the log\<close>

text \<open>What the log itself says of a task: the first event of a kind whose time is set, and the last one.\<close>

definition first_time :: "(task_event \<Rightarrow> bool) \<Rightarrow> task_event list \<Rightarrow> time" where
  "first_time P events =
    (case List.find (\<lambda>e. P e \<and> ev_created_at e \<noteq> zero_time) events of None \<Rightarrow> zero_time | Some e \<Rightarrow> ev_created_at e)"

definition last_time :: "(task_event \<Rightarrow> bool) \<Rightarrow> task_event list \<Rightarrow> time" where
  "last_time P events = (case filter P events of [] \<Rightarrow> zero_time | es \<Rightarrow> ev_created_at (last es))"

definition reference_span :: "string \<Rightarrow> task_event list \<Rightarrow> span" where
  "reference_span tid events =
    (let es = filter (\<lambda>e. ev_task_id e = tid) events in
     \<lparr>sp_task_id = tid,
      sp_first = ev_created_at (hd es),
      sp_last = ev_created_at (last es),
      sp_enter_wait = first_time (\<lambda>e. ev_to_status e = ''awaiting_approval'') es,
      sp_leave_wait = first_time (\<lambda>e. ev_from_status e = ''awaiting_approval'') es,
      sp_enter_apply = first_time (\<lambda>e. ev_to_status e = ''applying'') es,
      sp_terminal = last_time (\<lambda>e. ev_to_status e = ''done'' \<or> ev_to_status e = ''failed'') es\<rparr>)"

text \<open>The task ids of the log in the order of their first events.\<close>

definition tasks_in_log :: "task_event list \<Rightarrow> string list" where
  "tasks_in_log events = rev (remdups (rev (map ev_task_id events)))"

lemma tasks_in_log_snoc:
  "tasks_in_log (es @ [e]) =
    (if ev_task_id e \<in> set (tasks_in_log es) then tasks_in_log es else tasks_in_log es @ [ev_task_id e])"
  by (simp add: tasks_in_log_def)

lemma set_tasks_in_log: "set (tasks_in_log es) = ev_task_id ` set es"
  by (simp add: tasks_in_log_def)

lemma find_append: "List.find P (xs @ ys) = (case List.find P xs of None \<Rightarrow> List.find P ys | Some x \<Rightarrow> Some x)"
  by (induction xs) auto

lemma find_holds: "List.find P xs = Some x \<Longrightarrow> P x"
  by (induction xs) (auto split: if_splits)

lemma first_time_snoc:
  "first_time P (es @ [e]) = (if P e \<and> first_time P es = zero_time then ev_created_at e else first_time P es)"
proof (cases "List.find (\<lambda>e. P e \<and> ev_created_at e \<noteq> zero_time) es")
  case None
  then show ?thesis by (simp add: first_time_def find_append)
next
  case (Some x)
  then have "ev_created_at x \<noteq> zero_time"
    using find_holds by fastforce
  with Some show ?thesis by (simp add: first_time_def find_append)
qed

lemma last_time_snoc: "last_time P (es @ [e]) = (if P e then ev_created_at e else last_time P es)"
  by (cases "filter P es") (simp_all add: last_time_def)

lemma note_event_fields:
  "note_event e sp = \<lparr>sp_task_id = sp_task_id sp, sp_first = sp_first sp, sp_last = ev_created_at e,
    sp_enter_wait = (if ev_to_status e = ''awaiting_approval'' \<and> sp_enter_wait sp = zero_time
      then ev_created_at e else sp_enter_wait sp),
    sp_leave_wait = (if ev_from_status e = ''awaiting_approval'' \<and> sp_leave_wait sp = zero_time
      then ev_created_at e else sp_leave_wait sp),
    sp_enter_apply = (if ev_to_status e = ''applying'' \<and> sp_enter_apply sp = zero_time
      then ev_created_at e else sp_enter_apply sp),
    sp_terminal = (if ev_to_status e = ''done'' \<or> ev_to_status e = ''failed''
      then ev_created_at e else sp_terminal sp)\<rparr>"
  by (cases sp) (simp add: note_event_def Let_def)

lemma note_event_reference:
  assumes "tid = ev_task_id e" "tid \<in> set (tasks_in_log es)"
  shows "note_event e (reference_span tid es) = reference_span tid (es @ [e])"
proof -
  have "filter (\<lambda>e. ev_task_id e = tid) es \<noteq> []"
    using assms(2) by (auto simp: filter_empty_conv set_tasks_in_log)
  with assms(1) show ?thesis
    by (simp add: note_event_fields reference_span_def Let_def first_time_snoc last_time_snoc)
qed

lemma note_event_new:
  assumes "tid = ev_task_id e" "tid \<notin> ev_task_id ` set es"
  shows "note_event e (new_span tid (ev_created_at e)) = reference_span tid (es @ [e])"
proof -
  have "filter (\<lambda>e. ev_task_id e = tid) es = []"
    using assms(2) by (auto simp: filter_empty_conv)
  with assms(1) show ?thesis
    by (simp add: note_event_fields reference_span_def new_span_def Let_def first_time_def last_time_def)
qed

lemma reference_span_other:
  "tid \<noteq> ev_task_id e \<Longrightarrow> reference_span tid (es @ [e]) = reference_span tid es"
  by (simp add: reference_span_def)

lemma reference_span_id [simp]: "sp_task_id (reference_span tid es) = tid"
  by (simp add: reference_span_def Let_def)

lemma update_rows_map:
  assumes "\<And>x. key (f x) = x"
  shows "update_rows key k g (map f xs) = map (\<lambda>x. if x = k then g (f x) else f x) xs"
  using assms by (simp add: update_rows_def)

text \<open>The one pass over the event log computes for every task in it, in the order of their first events,
  exactly the times the log gives when it is searched per task: first and last event, the first entry
  to and the first leave from approval, the first start of the delivery and the last terminal event.\<close>

theorem spans_match_log:
  "collect_spans events = map (\<lambda>tid. reference_span tid events) (tasks_in_log events)"
proof (induction events rule: rev_induct)
  case Nil
  show ?case by (simp add: collect_spans_def tasks_in_log_def)
next
  case (snoc e es)
  let ?tid = "ev_task_id e" and ?ref = "\<lambda>tid. reference_span tid es"
  have found: "find_row sp_task_id ?tid (collect_spans es) = None \<longleftrightarrow> ?tid \<notin> set (tasks_in_log es)"
    unfolding snoc.IH find_row_None_iff by (simp add: image_image)
  have step: "collect_spans (es @ [e]) = add_event (collect_spans es) e"
    by (simp add: collect_spans_def)
  show ?case
  proof (cases "?tid \<in> set (tasks_in_log es)")
    case True
    then have "collect_spans (es @ [e]) =
        map (\<lambda>tid. if tid = ?tid then note_event e (?ref tid) else ?ref tid) (tasks_in_log es)"
      unfolding step add_event_def Let_def using found snoc.IH by (auto simp: update_rows_map)
    also have "\<dots> = map (\<lambda>tid. reference_span tid (es @ [e])) (tasks_in_log es)"
      by (rule map_cong) (use True in \<open>simp_all add: note_event_reference [OF refl] reference_span_other\<close>)
    finally show ?thesis
      using True by (simp add: tasks_in_log_snoc)
  next
    case False
    then have fresh: "?tid \<notin> ev_task_id ` set es"
      by (simp add: set_tasks_in_log)
    from False have "collect_spans (es @ [e]) =
        update_rows sp_task_id ?tid (note_event e) (map ?ref (tasks_in_log es)) @
        [note_event e (new_span ?tid (ev_created_at e))]"
      unfolding step add_event_def Let_def using found
      by (simp add: snoc.IH update_rows_def new_span_def)
    also have "\<dots> = map (\<lambda>tid. reference_span tid (es @ [e])) (tasks_in_log es) @
        [reference_span ?tid (es @ [e])]"
      using False fresh by (auto simp: update_rows_map note_event_new reference_span_other)
    finally show ?thesis
      using False by (simp add: tasks_in_log_snoc)
  qed
qed

subsection \<open>The counts\<close>

lemma count_grouped_of: "count_of (count_grouped col rows) k = int (length (filter (\<lambda>r. col r = k) rows))"
  by (simp add: count_of_def count_grouped_def Let_def)

lemma map_sum_partial:
  assumes "distinct ks" "int (length rows) < 2 ^ 63"
  shows "map_sum ks (count_grouped col rows) = int (length (filter (\<lambda>r. col r \<in> set ks) rows))"
  using assms
proof (induction ks rule: rev_induct)
  case Nil
  then show ?case by (simp add: map_sum_def)
next
  case (snoc k ks)
  have split: "length (filter (\<lambda>r. col r \<in> set (ks @ [k])) rows) =
      length (filter (\<lambda>r. col r \<in> set ks) rows) + length (filter (\<lambda>r. col r = k) rows)"
    using snoc.prems(1) by (induction rows) auto
  have small: "int (length (filter (\<lambda>r. col r \<in> set (ks @ [k])) rows)) < 2 ^ 63"
    using snoc.prems(2) length_filter_le [of "\<lambda>r. col r \<in> set (ks @ [k])" rows] by linarith
  have "map_sum (ks @ [k]) (count_grouped col rows) =
      wrap64 (map_sum ks (count_grouped col rows) + int (length (filter (\<lambda>r. col r = k) rows)))"
    by (simp add: map_sum_def count_grouped_of)
  also have "\<dots> = wrap64 (int (length (filter (\<lambda>r. col r \<in> set (ks @ [k])) rows)))"
    using snoc split by simp
  also have "\<dots> = int (length (filter (\<lambda>r. col r \<in> set (ks @ [k])) rows))"
    by (rule wrap64_id) (use small in simp_all)
  finally show ?case .
qed

text \<open>The counts of the dashboard are those of the tables: the total is the number of rows, each class is the
  number of the rows with that status, and the classes make up the total up to the rows without a status.\<close>

theorem dashboard_counts:
  assumes "int (length cs) < 2 ^ 63" "int (length ts) < 2 ^ 63"
  shows "(let s = collectors_stats_of (count_grouped col_status cs) in
      cst_total s = int (length cs) \<and>
      cst_healthy s + cst_unhealthy s + cst_offline s + cst_unknown s =
        int (length (filter (\<lambda>c. col_status c \<noteq> CollectorStatusNone) cs))) \<and>
    (let s = tasks_stats_of (count_grouped t_status ts) in
      tst_total s = int (length ts) \<and>
      tst_awaiting_approval s = int (length (filter (\<lambda>t. t_status t = TaskStatusAwaitingApproval) ts)) \<and>
      tst_pending s + tst_generating s + tst_validating s + tst_awaiting_approval s + tst_applying s +
      tst_done s + tst_rejected s + tst_failed s = int (length (filter (\<lambda>t. t_status t \<noteq> TaskStatusNone) ts)))"
proof -
  have "x \<in> set collector_status_keys" for x
    by (cases x) (simp_all add: collector_status_keys_def)
  then have c: "map_sum collector_status_keys (count_grouped col_status cs) = int (length cs)"
    using map_sum_partial [of collector_status_keys cs col_status] assms(1)
    by (simp add: collector_status_keys_def)
  have t: "map_sum Enum.enum (count_grouped t_status ts) = int (length ts)"
    using map_sum_partial [of Enum.enum ts t_status] assms(2) by (simp add: enum_distinct flip: UNIV_enum)
  have "(\<Sum>k \<leftarrow> [CollectorStatusHealthy, CollectorStatusUnhealthy, CollectorStatusOffline, CollectorStatusUnknown].
      int (length (filter (\<lambda>c. col_status c = k) cs))) =
      int (length (filter (\<lambda>c. col_status c \<noteq> CollectorStatusNone) cs))"
    by (induction cs) (auto, (metis collector_status.exhaust)+)
  moreover have "(\<Sum>k \<leftarrow> [TaskStatusPending, TaskStatusGenerating, TaskStatusValidating, TaskStatusAwaitingApproval,
      TaskStatusApplying, TaskStatusDone, TaskStatusRejected, TaskStatusFailed].
      int (length (filter (\<lambda>c. t_status c = k) ts))) = int (length (filter (\<lambda>t. t_status t \<noteq> TaskStatusNone) ts))"
    by (induction ts) (auto, (metis task_status.exhaust)+)
  ultimately show ?thesis
    using c t by (simp add: collectors_stats_of_def tasks_stats_of_def count_grouped_of)
qed

theorem dashboard_counts_witness:
  "cst_total (collectors_stats_of (count_grouped col_status ([] :: collector list))) = 0 \<and>
    tst_awaiting_approval (tasks_stats_of (count_grouped t_status
      [empty_task\<lparr>t_status := TaskStatusAwaitingApproval\<rparr>])) = 1"
  using dashboard_counts [of "[] :: collector list" "[empty_task\<lparr>t_status := TaskStatusAwaitingApproval\<rparr>]"]
  by (simp add: Let_def)

end
