(* ===== verification/Session_List.thy ===== *)
theory Session_List
  imports Sql_Store
begin

section \<open>The list of conversations (internal/store/sqlstore.go, ListSessions)\<close>

text \<open>
  The list of sessions with the summary of their messages: count, last time, and a preview of the
  first message of the user and of the last message.  The order is by the id of the last message,
  then by the text of the creation time, as the query compares that column.  The lemmas show that a
  listing has every session once, the most recently used first, and that a preview is a prefix of at
  most 80 characters.
\<close>

subsection \<open>Previews\<close>

text \<open>
  A conversion to \<open>[]rune\<close> decodes UTF-8.  \<open>rune_width\<close> is the number of bytes of the character a
  string starts with, or \<open>None\<close> for an invalid one, which counts as one byte and becomes \<open>U+FFFD\<close>.
\<close>

definition byte_in :: "nat \<Rightarrow> nat \<Rightarrow> char \<Rightarrow> bool" where
  "byte_in lo hi c \<longleftrightarrow> lo \<le> (of_char c :: nat) \<and> (of_char c :: nat) \<le> hi"

definition second_byte :: "char \<Rightarrow> char \<Rightarrow> bool" where
  "second_byte c d =
    (if c = CHR 0xE0 then byte_in 0xA0 0xBF d
     else if c = CHR 0xED then byte_in 0x80 0x9F d
     else if c = CHR 0xF0 then byte_in 0x90 0xBF d
     else if c = CHR 0xF4 then byte_in 0x80 0x8F d
     else byte_in 0x80 0xBF d)"

definition rune_width :: "string \<Rightarrow> nat option" where
  "rune_width s =
    (case s of
       [] \<Rightarrow> None
     | c # cs \<Rightarrow>
         if byte_in 0x00 0x7F c then Some 1
         else case cs of
             [] \<Rightarrow> None
           | d # ds \<Rightarrow>
               if byte_in 0xC2 0xDF c then (if second_byte c d then Some 2 else None)
               else case ds of
                   [] \<Rightarrow> None
                 | e # es \<Rightarrow>
                     if byte_in 0xE0 0xEF c then
                       (if second_byte c d \<and> byte_in 0x80 0xBF e then Some 3 else None)
                     else case es of
                         [] \<Rightarrow> None
                       | f # _ \<Rightarrow>
                           if byte_in 0xF0 0xF4 c \<and> second_byte c d \<and> byte_in 0x80 0xBF e \<and> byte_in 0x80 0xBF f
                           then Some 4 else None)"

definition replacement_char :: string where
  "replacement_char = [CHR 0xEF, CHR 0xBF, CHR 0xBD]"

lemma rune_width_bounds: "rune_width s = Some n \<Longrightarrow> 1 \<le> n \<and> n \<le> length s"
  by (auto simp: rune_width_def split: list.splits if_splits)

function runes :: "string \<Rightarrow> string list" where
  "runes s =
    (if s = [] then []
     else case rune_width s of
            Some n \<Rightarrow> take n s # runes (drop n s)
          | None \<Rightarrow> replacement_char # runes (tl s))"
  by pat_completeness auto
termination
  by (relation "measure length") (auto dest: rune_width_bounds)

declare runes.simps [simp del]

definition ellipsis :: string where
  "ellipsis = [CHR 0xE2, CHR 0x80, CHR 0xA6]"

definition max_preview :: nat where
  "max_preview = 80"

definition truncate_preview :: "string \<Rightarrow> string" where
  "truncate_preview s =
    (let rs = runes s in
     if length rs \<le> max_preview then s else concat (take (max_preview - 1) rs) @ ellipsis)"

subsection \<open>Summaries and their order\<close>

record session_summary =
  sum_id :: string
  sum_created_at :: time
  sum_message_count :: int
  sum_last_message_at :: time
  sum_first_message :: string
  sum_last_message :: string

definition summarize_session :: "sql_db \<Rightarrow> session_row \<Rightarrow> session_summary" where
  "summarize_session d row =
    (let msgs = messages_of (sr_id row) d;
         user_msgs = filter (\<lambda>m. msg_role m = ''user'') msgs
     in \<lparr>sum_id = sr_id row,
         sum_created_at = sr_created_at row,
         sum_message_count = int (length msgs),
         sum_last_message_at = (if msgs = [] then zero_time else msg_created_at (last msgs)),
         sum_first_message = (if user_msgs = [] then '''' else truncate_preview (msg_content (hd user_msgs))),
         sum_last_message = (if msgs = [] then '''' else truncate_preview (msg_content (last msgs)))\<rparr>)"

text \<open>
  Times are stored as RFC 3339 texts with the fraction of the second cut after its last non-zero digit.
  Two such texts compare like their seconds, then like what follows the seconds.
\<close>

definition fraction_text :: "nat \<Rightarrow> string" where
  "fraction_text nanos =
    (if nanos = 0 then ''Z''
     else ''.'' @ rev (dropWhile (\<lambda>c. c = CHR ''0'') (rev (tl (nat_digits (1000000000 + nanos))))) @ ''Z'')"

definition time_text_order :: "time \<Rightarrow> int \<times> string" where
  "time_text_order t =
    (if t = zero_time then (-1, '''')
     else (t div nano_per_second, fraction_text (nat (t mod nano_per_second))))"

definition last_message_id :: "sql_db \<Rightarrow> session_row \<Rightarrow> int" where
  "last_message_id d row =
    (let msgs = messages_of (sr_id row) d in if msgs = [] then 0 else msg_id (last msgs))"

definition session_order :: "sql_db \<Rightarrow> session_row \<Rightarrow> int \<times> int \<times> string" where
  "session_order d row = (last_message_id d row, time_text_order (sr_created_at row))"

definition list_sessions :: "int \<Rightarrow> int \<Rightarrow> (session_summary list \<times> int) db_op" where
  "list_sessions page page_size =
    and_then (query (\<lambda>d. int (length (db_sessions d)))) (\<lambda>total.
    and_then (query (\<lambda>d. map (summarize_session d)
        (paged page page_size (rev (sort_key (session_order d) (db_sessions d)))))) (\<lambda>rows.
    ret (rows, total)))"

definition ping :: "unit db_op" where
  "ping = query (\<lambda>_. ())"

section \<open>Lemmas\<close>

lemma length_concat_take: "length (concat (take n xs)) \<le> length (concat xs)"
  by (metis append_take_drop_id concat_append le_add1 length_append)

text \<open>The characters of a text without invalid bytes make up the text.\<close>

lemma runes_concat: "replacement_char \<notin> set (runes s) \<Longrightarrow> concat (runes s) = s"
proof (induction s rule: runes.induct)
  case (1 s)
  show ?case
  proof (cases "s = []")
    case True
    then show ?thesis by (simp add: runes.simps)
  next
    case False
    with "1.prems" obtain n where n: "rune_width s = Some n"
      by (subst (asm) runes.simps) (auto split: option.splits)
    with False have "runes s = take n s # runes (drop n s)"
      by (subst runes.simps) simp
    with "1.IH"(2) [OF False n] "1.prems" show ?thesis by simp
  qed
qed

text \<open>A preview of a message has at most 80 characters and no more than the message: a message of up to 80
  characters is shown as it is, a longer one by its first 79 and an ellipsis.\<close>

theorem preview_bounded:
  assumes "replacement_char \<notin> set (runes s)"
  shows "(length (runes s) \<le> 80 \<longrightarrow> truncate_preview s = s) \<and>
    (length (runes s) > 80 \<longrightarrow>
      (\<exists>rest. s = concat (take 79 (runes s)) @ rest \<and> truncate_preview s = concat (take 79 (runes s)) @ ellipsis))"
proof -
  have "s = concat (take 79 (runes s)) @ concat (drop 79 (runes s))"
    using runes_concat [OF assms] by (metis append_take_drop_id concat_append)
  then show ?thesis
    by (auto simp: truncate_preview_def Let_def max_preview_def)
qed

lemma runes_ascii: "\<forall>c \<in> set s. byte_in 0 127 c \<Longrightarrow> runes s = map (\<lambda>c. [c]) s"
proof (induction s)
  case Nil
  show ?case by (simp add: runes.simps)
next
  case (Cons c cs)
  then show ?case
    by (subst runes.simps) (simp add: rune_width_def)
qed

theorem preview_bounded_witness:
  "truncate_preview ''hello'' = ''hello'' \<and>
    truncate_preview (replicate 100 (CHR ''a'')) = replicate 79 (CHR ''a'') @ ellipsis"
proof -
  have a: "runes ''hello'' = map (\<lambda>c. [c]) ''hello''"
    by (rule runes_ascii) (simp add: byte_in_def)
  have b: "runes (replicate 100 (CHR ''a'')) = map (\<lambda>c. [c]) (replicate 100 (CHR ''a''))"
    by (rule runes_ascii) (simp add: byte_in_def)
  show ?thesis
    using preview_bounded [of "''hello''"] preview_bounded [of "replicate 100 (CHR ''a'')"]
    unfolding a b by (simp add: replacement_char_def take_map concat_map_singleton)
qed

lemma list_sessions_healthy:
  "db_faults d = [] \<Longrightarrow> list_sessions page ps d =
    (Inr (map (summarize_session d) (paged page ps (rev (sort_key (session_order d) (db_sessions d)))),
      int (length (db_sessions d))), d)"
  by (simp add: list_sessions_def and_then_def query_healthy ret_def)

lemma last_message_id_pos:
  assumes "\<forall>r \<in> set (db_messages d). 0 < msg_id (mr_message r)"
  shows "0 < last_message_id d row \<longleftrightarrow> messages_of (sr_id row) d \<noteq> []"
proof (cases "messages_of (sr_id row) d = []")
  case False
  then have "last (messages_of (sr_id row) d) \<in> set (messages_of (sr_id row) d)"
    by (rule last_in_set)
  with assms False show ?thesis
    by (auto simp: last_message_id_def Let_def messages_of_def)
qed (simp add: last_message_id_def)

text \<open>The listing of the conversations has every session exactly once with its number of messages, the one
  with the newest message first and those without a message at the end.\<close>

theorem sessions_listed_by_recency:
  assumes "db_faults d = []" "\<forall>r \<in> set (db_messages d). 0 < msg_id (mr_message r)"
  shows "\<exists>order. mset order = mset (db_sessions d) \<and>
    list_sessions 0 0 d = (Inr (map (summarize_session d) order, int (length (db_sessions d))), d) \<and>
    sorted_wrt (\<lambda>a b. last_message_id d b \<le> last_message_id d a) order \<and>
    sorted_wrt (\<lambda>a b. messages_of (sr_id b) d \<noteq> [] \<longrightarrow> messages_of (sr_id a) d \<noteq> []) order"
proof -
  let ?order = "rev (sort_key (session_order d) (db_sessions d))"
  have "sorted_wrt (\<lambda>a b. session_order d b \<le> session_order d a) ?order"
    using sorted_sort_key [of "session_order d" "db_sessions d"] by (simp only: sorted_wrt_rev sorted_map)
  then have recent: "sorted_wrt (\<lambda>a b. last_message_id d b \<le> last_message_id d a) ?order"
    by (rule sorted_wrt_mono_rel [rotated]) (auto simp: session_order_def less_eq_prod_def)
  then have "sorted_wrt (\<lambda>a b. messages_of (sr_id b) d \<noteq> [] \<longrightarrow> messages_of (sr_id a) d \<noteq> []) ?order"
    by (rule sorted_wrt_mono_rel [rotated]) (metis last_message_id_pos [OF assms(2)] order_less_le_trans)
  with recent assms(1) show ?thesis
    by (intro exI [of _ ?order]) (simp add: list_sessions_healthy paged_def)
qed

definition chatting_db :: sql_db where
  "chatting_db = empty_db\<lparr>db_sessions := [\<lparr>sr_id = ''a'', sr_created_at = 1\<rparr>, \<lparr>sr_id = ''b'', sr_created_at = 2\<rparr>],
    db_messages := [\<lparr>mr_session_id = ''a'',
      mr_message = \<lparr>msg_id = 1, msg_role = ''user'', msg_content = ''hi'', msg_created_at = 3\<rparr>\<rparr>],
    db_seq_messages := 1\<rparr>"

theorem sessions_listed_by_recency_witness:
  "\<exists>order. mset order = mset (db_sessions chatting_db) \<and>
    list_sessions 0 0 chatting_db = (Inr (map (summarize_session chatting_db) order, 2), chatting_db)"
proof -
  have "db_faults chatting_db = []" "\<forall>r \<in> set (db_messages chatting_db). 0 < msg_id (mr_message r)"
    "length (db_sessions chatting_db) = 2"
    by (simp_all add: chatting_db_def empty_db_def)
  with sessions_listed_by_recency [of chatting_db] show ?thesis by auto
qed

text \<open>The order of empty sessions follows the text of their creation times: one created half a second
  after the full second counts as older than one created at the full second.\<close>

lemma empty_sessions_by_text:
  "time_text_order 5500000000 < time_text_order 5000000000"
  by (simp add: time_text_order_def fraction_text_def less_prod_def nat_digits.simps digit_def)

end
