(* ===== verification/Http_Types.thy ===== *)
theory Http_Types
  imports Tool_Env Ops_Stats Session_List
begin

section \<open>Requests and responses\<close>

text \<open>
  The part of \<open>net/http\<close> and \<open>encoding/json\<close> the handlers work with: a request with its method, path,
  query, headers, session cookie and decoded body, the user the authentication put in its context, and
  a response with its status, headers, cookie and body.  A handler that decodes a body looks at the
  JSON document the body holds: \<open>None\<close> stands for text that is no JSON.
\<close>

subsection \<open>Requests\<close>

text \<open>
  A query maps a parameter to its first value, a header its canonical name to its value.  \<open>rq_user\<close> is
  the user name in the context, empty without one.
\<close>

record request =
  rq_method :: string
  rq_path :: string
  rq_query :: "string \<rightharpoonup> string"
  rq_headers :: "string \<rightharpoonup> string"
  rq_cookie :: "string option"
  rq_body :: "json option"
  rq_user :: string

text \<open>\<open>q.Get\<close> and \<open>Header.Get\<close> give the empty string for a missing name.\<close>

definition get_value :: "(string \<rightharpoonup> string) \<Rightarrow> string \<Rightarrow> string" where
  "get_value m name = (case m name of Some v \<Rightarrow> v | None \<Rightarrow> '''')"

definition query_get :: "request \<Rightarrow> string \<Rightarrow> string" where
  "query_get r name = get_value (rq_query r) name"

subsection \<open>Decoding a body\<close>

text \<open>
  \<open>Decode(&req)\<close> on a struct: \<open>null\<close> leaves the zero value, another value than an object is an error.
  A key is matched to a field without regard to case, a later occurrence overrides an earlier one,
  \<open>null\<close> leaves the field, and a value of another type is an error.
\<close>

definition decode_struct :: "json option \<Rightarrow> (string \<times> json) list option" where
  "decode_struct body =
    (case body of Some (JObj fs) \<Rightarrow> Some fs | Some JNull \<Rightarrow> Some [] | _ \<Rightarrow> None)"

fun string_field :: "string \<Rightarrow> (string \<times> json) list \<Rightarrow> string \<Rightarrow> string option" where
  "string_field name [] acc = Some acc"
| "string_field name ((key, v) # fs) acc =
     (if equal_fold key name then
        (case v of JStr s \<Rightarrow> string_field name fs s | JNull \<Rightarrow> string_field name fs acc | _ \<Rightarrow> None)
      else string_field name fs acc)"

fun int_field :: "string \<Rightarrow> (string \<times> json) list \<Rightarrow> int \<Rightarrow> int option" where
  "int_field name [] acc = Some acc"
| "int_field name ((key, v) # fs) acc =
     (if equal_fold key name then
        (case v of
           JNum t \<Rightarrow> (case parse_int t of Some i \<Rightarrow> int_field name fs i | None \<Rightarrow> None)
         | JNull \<Rightarrow> int_field name fs acc
         | _ \<Rightarrow> None)
      else int_field name fs acc)"

definition decode_string :: "(string \<times> json) list \<Rightarrow> string \<Rightarrow> string option" where
  "decode_string fs name = string_field name fs ''''"

text \<open>All the named string fields of a body, or \<open>None\<close> for a decoding error.\<close>

definition decode_strings :: "json option \<Rightarrow> string list \<Rightarrow> string list option" where
  "decode_strings body names =
    (case decode_struct body of
       None \<Rightarrow> None
     | Some fs \<Rightarrow> those (map (decode_string fs) names))"

lemma decode_strings_length: "decode_strings body names = Some vs \<Longrightarrow> length vs = length names"
proof -
  have "those xs = Some ys \<Longrightarrow> length ys = length xs" for xs :: "string option list" and ys
    by (induction xs arbitrary: ys) (auto split: option.splits)
  then show "decode_strings body names = Some vs \<Longrightarrow> ?thesis"
    by (auto simp: decode_strings_def split: option.splits)
qed

subsection \<open>Responses\<close>

text \<open>The error messages of the handlers; the text of an error value is that value.\<close>

datatype api_error =
    ApiMethodOnly string
  | ApiBadBody
  | ApiNoLoginNeeded
  | ApiCredentialsEmpty
  | ApiBadCredentials
  | ApiLoginFailed
  | ApiAuthRequired
  | ApiMcpUnauthenticated
  | ApiUnknownPath
  | ApiUnknownAction
  | ApiUnknownEndpoint
  | ApiCreateSessionFailed
  | ApiMessageEmpty
  | ApiSessionMissing string
  | ApiSaveMessageFailed
  | ApiAgentFailed go_error
  | ApiQueryFailed string
  | ApiParamInvalid string
  | ApiTaskMissing
  | ApiNothingToDiff
  | ApiCollectorMissing
  | ApiUidRequired
  | ApiYamlRequired
  | ApiGitDisabled
  | ApiGitConfigMissing
  | ApiPathOrUidRequired
  | ApiInvalidConfig "val_msg list"
  | ApiCreateTaskFailed
  | ApiRollbackTargetMissing
  | ApiVersionMissing int
  | ApiCursorsExclusive
  | ApiError go_error

record page_info =
  pg_total :: int
  pg_page :: int
  pg_size :: int

record task_diff =
  df_task_id :: string
  df_base_yaml :: string
  df_base_source :: string
  df_generated_yaml :: string
  df_diff :: string
  df_has_base :: bool

text \<open>A list comes as a bare array, or in an envelope when paging was asked for.\<close>

datatype payload =
    NoBody
  | ErrorBody api_error
  | FieldsBody "(string \<times> json) list"
  | TaskBody task
  | TasksBody "task list" "page_info option"
  | DiffBody task_diff
  | CollectorBody collector
  | CollectorsBody "collector list" "page_info option"
  | AuditBody "audit_log list" "page_info option"
  | VersionsBody "config_version list" "page_info option"
  | SessionsBody "session_summary list" "page_info option"
  | SessionBody chat_session
  | MessagesBody "chat_message list" int
  | StatsBody stats_response
  | OpsStatsBody ops_stats_response
  | GitStatusBody git_status
  | GitCommitsBody "git_commit list" string string
  | ToolBody tool_result
  | TextBody string

text \<open>The attributes of the session cookie: its value and \<open>Max-Age\<close>; the others are constant.\<close>

record set_cookie =
  ck_value :: string
  ck_max_age :: int

record response =
  rs_status :: nat
  rs_headers :: "(string \<times> string) list"
  rs_cookie :: "set_cookie option"
  rs_body :: payload

definition write_json :: "nat \<Rightarrow> payload \<Rightarrow> response" where
  "write_json code body =
    \<lparr>rs_status = code, rs_headers = [(''Content-Type'', ''application/json; charset=utf-8'')],
     rs_cookie = None, rs_body = body\<rparr>"

definition write_error :: "nat \<Rightarrow> api_error \<Rightarrow> response" where
  "write_error code e = write_json code (ErrorBody e)"

definition json_strings :: "(string \<times> string) list \<Rightarrow> payload" where
  "json_strings kvs = FieldsBody (map (\<lambda>(k, v). (k, JStr v)) kvs)"

text \<open>A handler takes a request and the state and gives the response and the next state.\<close>

type_synonym 's handler = "request \<Rightarrow> 's \<Rightarrow> response \<times> 's"

lemma write_json_simps [simp]:
  "rs_status (write_json code body) = code" "rs_body (write_json code body) = body"
  "rs_cookie (write_json code body) = None"
  by (simp_all add: write_json_def)

lemma write_error_simps [simp]:
  "rs_status (write_error code e) = code" "rs_body (write_error code e) = ErrorBody e"
  "rs_cookie (write_error code e) = None"
  by (simp_all add: write_error_def)

end
