(* ===== verification/Rest_Params.thy ===== *)
theory Rest_Params
  imports Http_Types
begin

section \<open>Parameters of the REST interface (internal/api/handlers.go, sessions.go)\<close>

text \<open>
  The parsers of query parameters: paging, filters, times, cursors and limits, and the choice of the
  name an action is recorded under.  The RFC 3339 parser of the standard library is modelled with the
  calendar it needs.  The lemmas show the ranges of accepted values and that the texts of the
  enumerations are read back as their values.
\<close>

subsection \<open>Times\<close>

definition is_leap :: "int \<Rightarrow> bool" where
  "is_leap y \<longleftrightarrow> y mod 4 = 0 \<and> (y mod 100 \<noteq> 0 \<or> y mod 400 = 0)"

definition days_in :: "int \<Rightarrow> int \<Rightarrow> int" where
  "days_in m y =
    (if m = 2 then (if is_leap y then 29 else 28)
     else if m \<in> set [4, 6, 9, 11] then 30 else 31)"

definition days_before_month :: "int \<Rightarrow> int \<Rightarrow> int" where
  "days_before_month m y = sum_list (map (\<lambda>k. days_in k y) [1..m - 1])"

text \<open>Days since the first of January of the year 1 in the proleptic Gregorian calendar.\<close>

definition days_since_epoch :: "int \<Rightarrow> int \<Rightarrow> int \<Rightarrow> int" where
  "days_since_epoch y m d =
    365 * (y - 1) + (y - 1) div 4 - (y - 1) div 100 + (y - 1) div 400 + days_before_month m y + (d - 1)"

definition instant :: "int \<Rightarrow> int \<Rightarrow> int \<Rightarrow> int \<Rightarrow> int \<Rightarrow> int \<Rightarrow> int \<Rightarrow> time" where
  "instant y mo d h mi s nanos =
    (((days_since_epoch y mo d * 24 + h) * 60 + mi) * 60 + s) * nano_per_second + nanos"

text \<open>\<open>take_digits n s\<close> reads exactly \<open>n\<close> digits, \<open>take_hour\<close> one or two.\<close>

definition take_digits :: "nat \<Rightarrow> string \<Rightarrow> (int \<times> string) option" where
  "take_digits n s =
    (if length s < n then None
     else case parse_digits 0 (take n s) of
         None \<Rightarrow> None
       | Some v \<Rightarrow> Some (int v, drop n s))"

definition take_hour :: "string \<Rightarrow> (int \<times> string) option" where
  "take_hour s = (case take_digits 2 s of Some r \<Rightarrow> Some r | None \<Rightarrow> take_digits 1 s)"

definition take_char :: "char \<Rightarrow> string \<Rightarrow> string option" where
  "take_char c s = (case s of d # ds \<Rightarrow> if d = c then Some ds else None | [] \<Rightarrow> None)"

definition in_range :: "int \<Rightarrow> int \<Rightarrow> (int \<times> string) option \<Rightarrow> (int \<times> string) option" where
  "in_range lo hi r = (case r of Some (v, s) \<Rightarrow> if lo \<le> v \<and> v \<le> hi then Some (v, s) else None | None \<Rightarrow> None)"

text \<open>A fraction of a second after a dot or comma: the first nine digits count.\<close>

definition take_fraction :: "string \<Rightarrow> int \<times> string" where
  "take_fraction s =
    (case s of
       c # d # rest \<Rightarrow>
         if (c = CHR ''.'' \<or> c = CHR '','') \<and> digit_value d \<noteq> None then
           (let digits = takeWhile (\<lambda>c. digit_value c \<noteq> None) (tl s)
            in (case parse_digits 0 (take 9 (digits @ replicate 9 (CHR ''0''))) of Some n \<Rightarrow> int n | None \<Rightarrow> 0,
                dropWhile (\<lambda>c. digit_value c \<noteq> None) (tl s)))
         else (0, s)
     | _ \<Rightarrow> (0, s))"

text \<open>The zone: \<open>Z\<close>, or a sign, hours and minutes; the offset in seconds.\<close>

definition take_zone :: "string \<Rightarrow> (int \<times> string) option" where
  "take_zone s =
    (case s of
       [] \<Rightarrow> None
     | c # cs \<Rightarrow>
         if c = CHR ''Z'' then Some (0, cs)
         else case in_range 0 24 (take_digits 2 cs) of
             None \<Rightarrow> None
           | Some (hh, s1) \<Rightarrow>
               (case take_char (CHR '':'') s1 of
                  None \<Rightarrow> None
                | Some s2 \<Rightarrow>
                    (case in_range 0 60 (take_digits 2 s2) of
                       None \<Rightarrow> None
                     | Some (mm, s3) \<Rightarrow>
                         let off = (hh * 60 + mm) * 60 in
                         if c = CHR ''+'' then Some (off, s3)
                         else if c = CHR ''-'' then Some (- off, s3)
                         else None)))"

definition parse_clock :: "int \<Rightarrow> int \<Rightarrow> int \<Rightarrow> string \<Rightarrow> time option" where
  "parse_clock y mo d s0 =
    Option.bind (in_range 0 23 (take_hour s0)) (\<lambda>(h, s1).
    Option.bind (take_char (CHR '':'') s1) (\<lambda>s2.
    Option.bind (in_range 0 59 (take_digits 2 s2)) (\<lambda>(mi, s3).
    Option.bind (take_char (CHR '':'') s3) (\<lambda>s4.
    Option.bind (in_range 0 59 (take_digits 2 s4)) (\<lambda>(s, s5).
      (case take_fraction s5 of (nanos, s6) \<Rightarrow>
        Option.bind (take_zone s6) (\<lambda>(off, s7).
          if s7 \<noteq> '''' \<or> d < 1 \<or> d > days_in mo y then None
          else Some (instant y mo d h mi s nanos - off * nano_per_second))))))))"

definition parse_rfc3339 :: "string \<Rightarrow> time option" where
  "parse_rfc3339 s0 =
    Option.bind (take_digits 4 s0) (\<lambda>(y, s1).
    Option.bind (take_char (CHR ''-'') s1) (\<lambda>s2.
    Option.bind (in_range 1 12 (take_digits 2 s2)) (\<lambda>(mo, s3).
    Option.bind (take_char (CHR ''-'') s3) (\<lambda>s4.
    Option.bind (take_digits 2 s4) (\<lambda>(d, s5).
    Option.bind (take_char (CHR ''T'') s5) (\<lambda>s6.
      parse_clock y mo d s6))))))"

definition unix_to_internal :: int where
  "unix_to_internal = 62135596800"

definition unix_time :: "int \<Rightarrow> time" where
  "unix_time n = wrap64 (n + unix_to_internal) * nano_per_second"

text \<open>\<open>Inr\<close> the time, zero for an empty parameter.\<close>

definition parse_time_param :: "string \<Rightarrow> unit + time" where
  "parse_time_param v0 =
    (let v = trim_space v0 in
     if v = '''' then Inr zero_time
     else case parse_int v of
         Some n \<Rightarrow> Inr (unix_time n)
       | None \<Rightarrow> (case parse_rfc3339 v of Some t \<Rightarrow> Inr t | None \<Rightarrow> Inl ()))"

subsection \<open>Numbers and pages\<close>

definition max_page_size :: int where
  "max_page_size = 100"

definition default_page_size :: int where
  "default_page_size = 20"

definition non_negative_int64 :: "string \<Rightarrow> unit + int" where
  "non_negative_int64 v0 =
    (let v = trim_space v0 in
     if v = '''' then Inr 0
     else case parse_int v of Some n \<Rightarrow> if n < 0 then Inl () else Inr n | None \<Rightarrow> Inl ())"

definition int_param_in_range :: "string \<Rightarrow> int \<Rightarrow> int \<Rightarrow> unit + int" where
  "int_param_in_range v0 lo hi =
    (let v = trim_space v0 in
     if v = '''' then Inr 0
     else case parse_int v of Some n \<Rightarrow> if n < lo \<or> n > hi then Inl () else Inr n | None \<Rightarrow> Inl ())"

text \<open>A page parameter: its default when it is empty, an error outside its range.\<close>

definition page_param :: "string \<Rightarrow> int \<Rightarrow> (int \<Rightarrow> bool) \<Rightarrow> int option" where
  "page_param v def_value ok =
    (if v = '''' then Some def_value
     else case parse_int v of Some n \<Rightarrow> if ok n then Some n else None | None \<Rightarrow> None)"

text \<open>\<open>Inr None\<close>: no paging asked for; \<open>Inr (Some (page, size))\<close>: a page.\<close>

definition page_params :: "request \<Rightarrow> api_error + (int \<times> int) option" where
  "page_params r =
    (if rq_query r ''page'' = None \<and> rq_query r ''page_size'' = None then Inr None
     else case page_param (query_get r ''page'') 1 (\<lambda>n. n \<ge> 1) of
         None \<Rightarrow> Inl (ApiParamInvalid ''page'')
       | Some page \<Rightarrow>
           (case page_param (query_get r ''page_size'') default_page_size (\<lambda>n. n \<ge> 1 \<and> n \<le> max_page_size) of
              None \<Rightarrow> Inl (ApiParamInvalid ''page_size'')
            | Some psize \<Rightarrow> Inr (Some (page, psize))))"

subsection \<open>Filters\<close>

definition time_param :: "request \<Rightarrow> string \<Rightarrow> (api_error, time) sum" where
  "time_param r name =
    (case parse_time_param (query_get r name) of Inl _ \<Rightarrow> Inl (ApiParamInvalid name) | Inr t \<Rightarrow> Inr t)"

definition task_filter_from_query :: "request \<Rightarrow> api_error + task_filter" where
  "task_filter_from_query r =
    (let status = trim_space (query_get r ''status''); task_type = trim_space (query_get r ''type'') in
     if \<not> is_valid_task_status status then Inl (ApiParamInvalid ''status'')
     else if \<not> is_valid_task_type task_type then Inl (ApiParamInvalid ''type'')
     else case time_param r ''since'' of
         Inl e \<Rightarrow> Inl e
       | Inr since \<Rightarrow>
           (case time_param r ''until'' of
              Inl e \<Rightarrow> Inl e
            | Inr until_time \<Rightarrow>
                Inr \<lparr>tf_status = task_status_of status, tf_type = task_type_of task_type,
                  tf_target = trim_space (query_get r ''target''),
                  tf_session_id = trim_space (query_get r ''session_id''),
                  tf_since = since, tf_until = until_time\<rparr>))"

definition audit_filter_from_query :: "request \<Rightarrow> api_error + audit_filter" where
  "audit_filter_from_query r =
    (case non_negative_int64 (query_get r ''since'') of
       Inl _ \<Rightarrow> Inl (ApiParamInvalid ''since'')
     | Inr since_id \<Rightarrow>
         let action = trim_space (query_get r ''action'') in
         if \<not> is_valid_audit_action action then Inl (ApiParamInvalid ''action'')
         else case time_param r ''from'' of
             Inl e \<Rightarrow> Inl e
           | Inr from_time \<Rightarrow>
               (case time_param r ''to'' of
                  Inl e \<Rightarrow> Inl e
                | Inr to_time \<Rightarrow>
                    Inr \<lparr>af_since_id = since_id, af_actor = trim_space (query_get r ''actor''),
                      af_action = audit_action_of action, af_subject = trim_space (query_get r ''subject''),
                      af_from = from_time, af_to = to_time\<rparr>))"

subsection \<open>Who acts\<close>

definition approver_of :: "request \<Rightarrow> string \<Rightarrow> string" where
  "approver_of r body =
    (if rq_user r \<noteq> '''' then rq_user r else if body \<noteq> '''' then body else ''user'')"

section \<open>Lemmas\<close>

lemma parse_int_range: "parse_int s = Some n \<Longrightarrow> - (2 ^ 63) \<le> n \<and> n < 2 ^ 63"
  by (auto simp: parse_int_def Let_def split: option.splits if_splits)

lemma page_param_SomeD: "page_param v d ok = Some n \<Longrightarrow> n = d \<or> ok n \<and> n < 2 ^ 63"
  by (auto simp: page_param_def split: if_splits option.splits dest: parse_int_range)

text \<open>The paging parameters that pass are a page of at least 1 and a size from 1 to 100; without either
  parameter there is no paging, and with one of them there is.\<close>

theorem page_params_range:
  "case page_params r of
     Inl e \<Rightarrow> e = ApiParamInvalid ''page'' \<or> e = ApiParamInvalid ''page_size''
   | Inr None \<Rightarrow> rq_query r ''page'' = None \<and> rq_query r ''page_size'' = None
   | Inr (Some (page, psize)) \<Rightarrow> 1 \<le> page \<and> page < 2 ^ 63 \<and> 1 \<le> psize \<and> psize \<le> 100 \<and>
       (rq_query r ''page'' \<noteq> None \<or> rq_query r ''page_size'' \<noteq> None)"
  by (auto simp: page_params_def default_page_size_def max_page_size_def
      split: option.split dest: page_param_SomeD)

lemma is_valid_task_type_text: "is_valid_task_type v \<longleftrightarrow> (\<exists>s. task_type_text s = v)"
proof
  assume "is_valid_task_type v"
  then have "v \<in> set (map task_type_text
      [TaskTypeNone, TaskTypeGenerate, TaskTypeOptimize, TaskTypeApply, TaskTypeUpgrade, TaskTypeRollback])"
    by (auto simp: is_valid_task_type_def task_types_def split: if_splits)
  then show "\<exists>s. task_type_text s = v"
    unfolding set_map by blast
next
  assume "\<exists>s. task_type_text s = v"
  then obtain s where "task_type_text s = v" by blast
  then show "is_valid_task_type v"
    by (cases s) (auto simp: is_valid_task_type_def task_types_def)
qed

lemma task_filter_fields:
  assumes "task_filter_from_query r = Inr f"
  shows "task_status_text (tf_status f) = trim_space (query_get r ''status'') \<and>
    task_type_text (tf_type f) = trim_space (query_get r ''type'') \<and>
    tf_target f = trim_space (query_get r ''target'') \<and> tf_session_id f = trim_space (query_get r ''session_id'')"
proof -
  have "is_valid_task_status (trim_space (query_get r ''status''))"
    "is_valid_task_type (trim_space (query_get r ''type''))"
    using assms by (auto simp: task_filter_from_query_def Let_def split: if_splits)
  moreover have "task_status_text (task_status_of v) = v" if "is_valid_task_status v" for v
    using that by (rule valid_task_status_roundtrip)
  moreover have "task_type_text (task_type_of v) = v" if "is_valid_task_type v" for v
    using that by (auto simp: is_valid_task_type_text)
  ultimately show ?thesis
    using assms by (auto simp: task_filter_from_query_def Let_def split: if_splits sum.splits)
qed

text \<open>C40: The status and type filters of a task list are values of the enumerations: an accepted filter has
  exactly the constructors whose texts the parameters give, and a request is refused only for a text that
  is none of them, or for a time that cannot be read.\<close>

theorem task_filter_typed:
  "case task_filter_from_query r of
     Inr f \<Rightarrow> task_status_text (tf_status f) = trim_space (query_get r ''status'') \<and>
       task_type_text (tf_type f) = trim_space (query_get r ''type'')
   | Inl e \<Rightarrow> \<not> (trim_space (query_get r ''status'') \<in> range task_status_text \<and>
       trim_space (query_get r ''type'') \<in> range task_type_text \<and>
       parse_time_param (query_get r ''since'') \<in> range Inr \<and> parse_time_param (query_get r ''until'') \<in> range Inr)"
proof (cases "task_filter_from_query r")
  case (Inr f)
  with task_filter_fields show ?thesis by simp
next
  case (Inl e)
  then show ?thesis
    by (auto simp: task_filter_from_query_def time_param_def Let_def is_valid_task_status_text
        is_valid_task_type_text image_iff split: if_splits sum.splits)
qed

text \<open>Sample times.\<close>

lemma parse_time_samples:
  "parse_rfc3339 ''1970-01-01T00:00:00Z'' = Some (unix_time 0)"
  "parse_rfc3339 ''0001-01-01T01:00:00+01:00'' = Some zero_time"
  "parse_rfc3339 ''2023-02-29T00:00:00Z'' = None"
  by (simp_all add: parse_rfc3339_def parse_clock_def take_digits_def take_hour_def take_char_def in_range_def
      take_fraction_def take_zone_def digit_value_def days_in_def is_leap_def instant_def
      days_since_epoch_def days_before_month_def unix_time_def unix_to_internal_def wrap64_id)

end
