(* ===== verification/Rest_Api.thy ===== *)
theory Rest_Api
  imports Agent_Tools Rest_Params
begin

section \<open>The REST handlers (internal/api/handlers.go, apply.go, sessions.go, git.go, stats.go, system.go)\<close>

text \<open>
  One definition per handler, with its checks in the order of the code and the status code of every
  branch.  A handler runs on the state of the tools and the cache of the repository.  The conversation
  with the agent is a parameter, as the agent is a third-party runner; contexts and the log are left
  out.
\<close>

subsection \<open>State and dependencies\<close>

record app_state =
  ap_tools :: tool_state
  ap_repo :: git_repo

record handlers =
  hd_deps :: deps
  hd_git :: "git_command option"
  hd_config_source :: string
  hd_chat :: "chat_session \<Rightarrow> string \<Rightarrow> tool_state \<Rightarrow> (go_error + string) \<times> tool_state"

definition new_handlers :: "deps \<Rightarrow> git_command option \<Rightarrow> string \<Rightarrow>
    (chat_session \<Rightarrow> string \<Rightarrow> tool_state \<Rightarrow> (go_error + string) \<times> tool_state) \<Rightarrow> handlers" where
  "new_handlers dp git source chat =
    \<lparr>hd_deps = dp, hd_git = git, hd_config_source = (if source = '''' then ''builtin'' else source), hd_chat = chat\<rparr>"

text \<open>\<open>gitRepo\<close> and \<open>requireGit\<close>: the repository, when the git mode is on.\<close>

definition git_repo_of :: "handlers \<Rightarrow> git_command option" where
  "git_repo_of h = (if hd_git h = None \<or> hd_config_source h \<noteq> ''git'' then None else hd_git h)"

type_synonym api_handler = "request \<Rightarrow> app_state \<Rightarrow> response \<times> app_state"

definition on_tools :: "'a tool_op \<Rightarrow> app_state \<Rightarrow> (go_error + 'a) \<times> app_state" where
  "on_tools m a = (let (r, s) = m (ap_tools a) in (r, a\<lparr>ap_tools := s\<rparr>))"

definition on_store :: "'a db_op \<Rightarrow> app_state \<Rightarrow> (go_error + 'a) \<times> app_state" where
  "on_store m = on_tools (on_db m)"

definition app_now :: "app_state \<Rightarrow> time" where
  "app_now a = ts_now (ap_tools a)"

definition only :: "string \<Rightarrow> api_handler \<Rightarrow> api_handler" where
  "only meth h r a = (if rq_method r \<noteq> meth then (write_error 405 (ApiMethodOnly meth), a) else h r a)"

text \<open>
  The end of every listing handler: a page in its envelope when paging was asked for, and the bare list
  of everything otherwise.
\<close>

definition write_list ::
  "(int \<Rightarrow> int \<Rightarrow> ('a list \<times> int) db_op) \<Rightarrow> ('a list \<Rightarrow> page_info option \<Rightarrow> payload) \<Rightarrow> string \<Rightarrow> api_handler" where
  "write_list lister body what r a =
    (case page_params r of
       Inl e \<Rightarrow> (write_error 400 e, a)
     | Inr (Some (page, psize)) \<Rightarrow>
         (case on_store (lister page psize) a of
            (Inl _, a1) \<Rightarrow> (write_error 500 (ApiQueryFailed what), a1)
          | (Inr (items, n), a1) \<Rightarrow>
              (write_json 200 (body items (Some \<lparr>pg_total = n, pg_page = page, pg_size = psize\<rparr>)), a1))
     | Inr None \<Rightarrow>
         (case on_store (lister 0 0) a of
            (Inl _, a1) \<Rightarrow> (write_error 500 (ApiQueryFailed what), a1)
          | (Inr (items, _), a1) \<Rightarrow> (write_json 200 (body items None), a1)))"

subsection \<open>Conversations\<close>

definition create_session_handler :: "handlers \<Rightarrow> api_handler" where
  "create_session_handler h = only ''POST'' (\<lambda>r a.
    (let (sid, s1) = new_ulid (hd_deps h) (ap_tools a); a1 = a\<lparr>ap_tools := s1\<rparr> in
     case on_store (create_session sid (app_now a1)) a1 of
       (Inl _, a2) \<Rightarrow> (write_error 500 ApiCreateSessionFailed, a2)
     | (Inr _, a2) \<Rightarrow> (write_json 200 (json_strings [(''session_id'', sid)]), a2)))"

definition resolve_session :: "handlers \<Rightarrow> string \<Rightarrow> app_state \<Rightarrow> (api_error + chat_session) \<times> app_state" where
  "resolve_session h sid a =
    (if sid = '''' then
       (let (new_id, s1) = new_ulid (hd_deps h) (ap_tools a); a1 = a\<lparr>ap_tools := s1\<rparr> in
        case on_store (create_session new_id (app_now a1)) a1 of
          (Inl _, a2) \<Rightarrow> (Inl ApiCreateSessionFailed, a2)
        | (Inr _, a2) \<Rightarrow>
            (Inr \<lparr>sess_id = new_id, sess_messages = [], sess_created_at = app_now a1\<rparr>, a2))
     else case on_store (get_session sid) a of
         (Inl _, a1) \<Rightarrow> (Inl (ApiSessionMissing sid), a1)
       | (Inr sess, a1) \<Rightarrow> (Inr sess, a1))"

definition user_message :: "string \<Rightarrow> time \<Rightarrow> chat_message" where
  "user_message content now = \<lparr>msg_id = 0, msg_role = ''user'', msg_content = content, msg_created_at = now\<rparr>"

definition chat_in :: "handlers \<Rightarrow> chat_session \<Rightarrow> string \<Rightarrow> app_state \<Rightarrow> response \<times> app_state" where
  "chat_in h sess message a =
    (case on_store (append_message (sess_id sess) (user_message message (app_now a))) a of
       (Inl _, a1) \<Rightarrow> (write_error 500 ApiSaveMessageFailed, a1)
     | (Inr _, a1) \<Rightarrow>
         (case on_tools (hd_chat h sess message) a1 of
            (Inl err, a2) \<Rightarrow> (write_error 503 (ApiAgentFailed err), a2)
          | (Inr reply, a2) \<Rightarrow>
              (write_json 200 (json_strings [(''session_id'', sess_id sess), (''reply'', reply)]), a2)))"

definition chat_handler :: "handlers \<Rightarrow> api_handler" where
  "chat_handler h = only ''POST'' (\<lambda>r a.
    (case decode_strings (rq_body r) [''session_id'', ''message''] of
       Some [sid, message] \<Rightarrow>
         if message = '''' then (write_error 400 ApiMessageEmpty, a)
         else (case resolve_session h sid a of
             (Inl e, a1) \<Rightarrow> (write_error 404 e, a1)
           | (Inr sess, a1) \<Rightarrow> chat_in h sess message a1)
     | _ \<Rightarrow> (write_error 400 ApiBadBody, a)))"

definition list_sessions_handler :: api_handler where
  "list_sessions_handler r a = write_list list_sessions SessionsBody ''sessions'' r a"

definition handle_sessions :: "handlers \<Rightarrow> api_handler" where
  "handle_sessions h r a =
    (if rq_method r = ''GET'' then list_sessions_handler r a
     else if rq_method r = ''POST'' then create_session_handler h r a
     else (write_error 405 (ApiMethodOnly ''GET/POST''), a))"

text \<open>The check of the session in front of its tasks and messages.\<close>

definition with_session :: "string \<Rightarrow> (app_state \<Rightarrow> response \<times> app_state) \<Rightarrow> app_state \<Rightarrow> response \<times> app_state" where
  "with_session sid k a =
    (case on_store (session_exists sid) a of
       (Inl _, a1) \<Rightarrow> (write_error 500 (ApiQueryFailed ''session''), a1)
     | (Inr False, a1) \<Rightarrow> (write_error 404 (ApiSessionMissing sid), a1)
     | (Inr True, a1) \<Rightarrow> k a1)"

definition list_session_tasks :: "string \<Rightarrow> api_handler" where
  "list_session_tasks sid = only ''GET'' (\<lambda>r.
    with_session sid (write_list (list_tasks (no_task_filter\<lparr>tf_session_id := sid\<rparr>)) TasksBody ''tasks'' r))"

text \<open>The cursor and limit parameters of the message list.\<close>

definition message_params :: "request \<Rightarrow> api_error + int \<times> int \<times> int" where
  "message_params r =
    (case non_negative_int64 (query_get r ''before_id'') of
       Inl _ \<Rightarrow> Inl (ApiParamInvalid ''before_id'')
     | Inr before \<Rightarrow>
         (case non_negative_int64 (query_get r ''after_id'') of
            Inl _ \<Rightarrow> Inl (ApiParamInvalid ''after_id'')
          | Inr after \<Rightarrow>
              if before > 0 \<and> after > 0 then Inl ApiCursorsExclusive
              else case int_param_in_range (query_get r ''limit'') 1 max_page_size of
                  Inl _ \<Rightarrow> Inl (ApiParamInvalid ''limit'')
                | Inr limit \<Rightarrow> Inr (before, after, limit)))"

definition list_session_messages :: "string \<Rightarrow> api_handler" where
  "list_session_messages sid = only ''GET'' (\<lambda>r. with_session sid (\<lambda>a.
    (case message_params r of
       Inl e \<Rightarrow> (write_error 400 e, a)
     | Inr (before, after, limit) \<Rightarrow>
         (case on_store (list_messages sid before after limit) a of
            (Inl _, a1) \<Rightarrow> (write_error 500 (ApiQueryFailed ''messages''), a1)
          | (Inr (items, n), a1) \<Rightarrow> (write_json 200 (MessagesBody items n), a1)))))"

definition get_session_by_id :: "string \<Rightarrow> api_handler" where
  "get_session_by_id sid = only ''GET'' (\<lambda>r a.
    (case on_store (get_session sid) a of
       (Inl _, a1) \<Rightarrow> (write_error 404 (ApiSessionMissing sid), a1)
     | (Inr sess, a1) \<Rightarrow> (write_json 200 (SessionBody sess), a1)))"

subsection \<open>Tasks\<close>

definition list_tasks_handler :: api_handler where
  "list_tasks_handler = only ''GET'' (\<lambda>r a.
    (case task_filter_from_query r of
       Inl e \<Rightarrow> (write_error 400 e, a)
     | Inr f \<Rightarrow> write_list (list_tasks f) TasksBody ''tasks'' r a))"

definition base_source_of :: "task \<Rightarrow> string" where
  "base_source_of t = (if t_base_yaml t = '''' then '''' else t_base_source t)"

definition get_task_diff :: "string \<Rightarrow> api_handler" where
  "get_task_diff tid = only ''GET'' (\<lambda>r a.
    (case on_store (get_task tid) a of
       (Inl _, a1) \<Rightarrow> (write_error 404 ApiTaskMissing, a1)
     | (Inr t, a1) \<Rightarrow>
         if t_generated_yaml t = '''' then (write_error 409 ApiNothingToDiff, a1)
         else (write_json 200 (DiffBody \<lparr>df_task_id = t_id t, df_base_yaml = t_base_yaml t,
             df_base_source = base_source_of t, df_generated_yaml = t_generated_yaml t,
             df_diff = unified (t_base_yaml t) (t_generated_yaml t),
             df_has_base = (t_base_yaml t \<noteq> '''')\<rparr>), a1)))"

definition get_task_handler :: "string \<Rightarrow> api_handler" where
  "get_task_handler tid = only ''GET'' (\<lambda>r a.
    (case on_store (get_task tid) a of
       (Inl _, a1) \<Rightarrow> (write_error 404 ApiTaskMissing, a1)
     | (Inr t, a1) \<Rightarrow> (write_json 200 (TaskBody t), a1)))"

text \<open>The answer to a refused decision: 404 for a missing task, 400 with the error otherwise.\<close>

definition decision_error :: "go_error \<Rightarrow> response" where
  "decision_error err =
    (if is_not_found err then write_error 404 ApiTaskMissing else write_error 400 (ApiError err))"

definition approve_task_handler :: "handlers \<Rightarrow> string \<Rightarrow> api_handler" where
  "approve_task_handler h tid = only ''POST'' (\<lambda>r a.
    (let named = (case decode_strings (rq_body r) [''approver''] of
           Some [v] \<Rightarrow> if v \<noteq> '''' then v else ''user''
         | _ \<Rightarrow> ''user'')
     in case on_tools (dispatch_approve (hd_deps h) tid (approver_of r named)) a of
          (Inl err, a1) \<Rightarrow> (decision_error err, a1)
        | (Inr res, a1) \<Rightarrow> (write_json 200 (ToolBody res), a1)))"

definition reject_task_handler :: "string \<Rightarrow> api_handler" where
  "reject_task_handler tid = only ''POST'' (\<lambda>r a.
    (case decode_strings (rq_body r) [''approver'', ''reason''] of
       Some [named, reason] \<Rightarrow>
         (case on_store (svc_reject (app_now a) tid (approver_of r named) reason) a of
            (Inl err, a1) \<Rightarrow> (decision_error err, a1)
          | (Inr t, a1) \<Rightarrow> (write_json 200 (TaskBody t), a1))
     | _ \<Rightarrow> (write_error 400 ApiBadBody, a)))"

subsection \<open>Collectors, audit and versions\<close>

definition get_collector_json :: "string \<Rightarrow> api_handler" where
  "get_collector_json uid = only ''GET'' (\<lambda>r a.
    (case on_store (get_collector uid) a of
       (Inl _, a1) \<Rightarrow> (write_error 404 ApiCollectorMissing, a1)
     | (Inr c, a1) \<Rightarrow> (write_json 200 (CollectorBody c), a1)))"

definition list_collectors_handler :: api_handler where
  "list_collectors_handler = only ''GET'' (write_list list_collectors CollectorsBody ''collectors'')"

definition list_audit_handler :: api_handler where
  "list_audit_handler = only ''GET'' (\<lambda>r a.
    (case audit_filter_from_query r of
       Inl e \<Rightarrow> (write_error 400 e, a)
     | Inr f \<Rightarrow> write_list (list_audit f) AuditBody ''audit'' r a))"

definition list_versions :: "string \<Rightarrow> api_handler" where
  "list_versions uid = only ''GET'' (write_list (list_config_versions uid) VersionsBody ''versions'')"

subsection \<open>Content from the repository\<close>

text \<open>
  The part the apply and the rollback handlers share: the file of a Collector at a reference, and the
  commit the reference stands for.
\<close>

definition git_content :: "handlers \<Rightarrow> string \<Rightarrow> string \<Rightarrow> (nat \<times> api_error) + (string \<times> string \<times> string)" where
  "git_content h ref uid =
    (case git_repo_of h of
       None \<Rightarrow> Inl (409, ApiGitDisabled)
     | Some git \<Rightarrow>
         (case expand_pathspec (dp_git_pathspec (hd_deps h)) uid of
            Inl err \<Rightarrow> Inl (400, ApiError err)
          | Inr path \<Rightarrow>
              (case show_file git ref path of
                 Inl err \<Rightarrow> Inl (400, ApiError err)
               | Inr content \<Rightarrow>
                   (case git_resolve git ref of
                      Inl err \<Rightarrow> Inl (400, ApiError err)
                    | Inr sha \<Rightarrow> Inr (content, sha, path)))))"

definition app_check :: "handlers \<Rightarrow> string \<Rightarrow> val_result" where
  "app_check h content = check_config (hd_deps h) content"

definition app_audit :: "string \<Rightarrow> audit_action \<Rightarrow> string \<Rightarrow> string \<Rightarrow> app_state \<Rightarrow> app_state" where
  "app_audit actor action subject detail a = a\<lparr>ap_tools := audit actor action subject detail (ap_tools a)\<rparr>"

definition app_create :: "task \<Rightarrow> app_state \<Rightarrow> (go_error + task) \<times> app_state" where
  "app_create t a = on_store (svc_create (app_now a) t) a"

definition app_ulid :: "handlers \<Rightarrow> app_state \<Rightarrow> string \<times> app_state" where
  "app_ulid h a = (let (i, s) = new_ulid (hd_deps h) (ap_tools a) in (i, a\<lparr>ap_tools := s\<rparr>))"

subsection \<open>Rollback\<close>

text \<open>
  \<open>sha[:8]\<close> panics when the resolved text is shorter than eight bytes; the server recovers the panic
  and drops the connection.  The response then is \<open>aborted\<close>.
\<close>

definition aborted :: response where
  "aborted = \<lparr>rs_status = 0, rs_headers = [], rs_cookie = None, rs_body = NoBody\<rparr>"

definition git_trace :: "string \<Rightarrow> string \<Rightarrow> string \<Rightarrow> string" where
  "git_trace sha path ref = txt_git_trace @ sha @ '' path='' @ path @ '' ref='' @ ref"

definition rollback_to_commit :: "handlers \<Rightarrow> request \<Rightarrow> string \<Rightarrow> string \<Rightarrow> string \<Rightarrow> string \<Rightarrow> app_state \<Rightarrow> response \<times> app_state" where
  "rollback_to_commit h r uid sid git_ref git_commit a =
    (let ref = (if git_commit = '''' then git_ref else git_commit) in
     case git_content h ref uid of
       Inl (code, e) \<Rightarrow> (write_error code e, a)
     | Inr (content, sha, path) \<Rightarrow>
         let res = app_check h content in
         if \<not> vr_valid res then (write_error 400 (ApiInvalidConfig (vr_errors res)), a)
         else let (tid, a1) = app_ulid h a in
           if length sha < 8 then (aborted, a1)
           else let t = empty_task\<lparr>t_id := tid, t_type := TaskTypeRollback, t_status := TaskStatusAwaitingApproval,
               t_require_approval := True, t_input := txt_git_rollback @ uid @ txt_to @ take 8 sha,
               t_session_id := sid, t_generated_yaml := content, t_target_instance_uid := uid,
               t_rollback_version_id := 0, t_git_commit := sha, t_git_path := path,
               t_git_ref := (if git_commit = '''' then git_ref else git_commit)\<rparr>
             in case app_create t a1 of
                 (Inl _, a2) \<Rightarrow> (write_error 500 ApiCreateTaskFailed, a2)
               | (Inr t', a2) \<Rightarrow>
                   (write_json 201 (TaskBody t'),
                    app_audit (approver_of r '''') AuditActionRollback tid (git_trace sha path (t_git_ref t)) a2))"

definition rollback_to_version :: "handlers \<Rightarrow> string \<Rightarrow> string \<Rightarrow> int \<Rightarrow> app_state \<Rightarrow> response \<times> app_state" where
  "rollback_to_version h uid sid version_id a =
    (if version_id \<le> 0 then (write_error 400 ApiRollbackTargetMissing, a)
     else case on_store (list_config_versions uid 0 0) a of
         (Inl _, a1) \<Rightarrow> (write_error 500 (ApiQueryFailed ''versions''), a1)
       | (Inr (versions, _), a1) \<Rightarrow>
           (case find_row cv_id version_id versions of
              None \<Rightarrow> (write_error 400 (ApiVersionMissing version_id), a1)
            | Some v \<Rightarrow>
                let res = app_check h (cv_yaml v) in
                if \<not> vr_valid res then (write_error 400 (ApiInvalidConfig (vr_errors res)), a1)
                else let (tid, a2) = app_ulid h a1;
                         t = empty_task\<lparr>t_id := tid, t_type := TaskTypeRollback,
                           t_status := TaskStatusAwaitingApproval, t_require_approval := True,
                           t_input := txt_rollback @ uid @ txt_to_version @ itoa version_id,
                           t_session_id := sid, t_target_instance_uid := uid, t_rollback_version_id := version_id\<rparr>
                     in case app_create t a2 of
                          (Inl _, a3) \<Rightarrow> (write_error 500 ApiCreateTaskFailed, a3)
                        | (Inr t', a3) \<Rightarrow> (write_json 201 (TaskBody t'), a3)))"

text \<open>The fields of a rollback request: Collector, session, reference, commit and version.\<close>

definition decode_rollback :: "json option \<Rightarrow> (string \<times> string \<times> string \<times> string \<times> int) option" where
  "decode_rollback body =
    (case (decode_strings body [''collector_instance_uid'', ''session_id'', ''git_ref'', ''git_commit''],
           Option.bind (decode_struct body) (\<lambda>fs. int_field ''version_id'' fs 0)) of
       (Some [uid, sid, ref, commit], Some version_id) \<Rightarrow> Some (uid, sid, ref, commit, version_id)
     | _ \<Rightarrow> None)"

definition rollback_task_handler :: "handlers \<Rightarrow> api_handler" where
  "rollback_task_handler h = only ''POST'' (\<lambda>r a.
    (case decode_rollback (rq_body r) of
       None \<Rightarrow> (write_error 400 ApiBadBody, a)
     | Some (uid, sid, ref, commit, version_id) \<Rightarrow>
         if uid = '''' then (write_error 400 ApiUidRequired, a)
         else if ref \<noteq> '''' \<or> commit \<noteq> '''' then rollback_to_commit h r uid sid ref commit a
         else rollback_to_version h uid sid version_id a))"

subsection \<open>Applying a configuration\<close>

definition base_for_collector :: "deps \<Rightarrow> collector \<Rightarrow> tool_state \<Rightarrow> string \<times> string" where
  "base_for_collector dp c s =
    (case (if dp_has_registry dp then reported_effective (col_instance_uid c) (os_reg (ts_opamp s)) else None) of
       Some (y # ys) \<Rightarrow> (y # ys, ''reported'')
     | _ \<Rightarrow> if col_effective_config c \<noteq> '''' then (col_effective_config c, ''store'') else ('''', ''''))"

record apply_request =
  ar_uid :: string
  ar_yaml :: string
  ar_note :: string
  ar_session_id :: string
  ar_git_ref :: string

definition decode_apply :: "json option \<Rightarrow> apply_request option" where
  "decode_apply body =
    (case decode_strings body [''collector_instance_uid'', ''yaml'', ''note'', ''session_id'', ''git_ref''] of
       Some [uid, yaml, note, sid, ref] \<Rightarrow>
         Some \<lparr>ar_uid = uid, ar_yaml = yaml, ar_note = note, ar_session_id = sid, ar_git_ref = ref\<rparr>
     | _ \<Rightarrow> None)"

text \<open>The content to apply with its commit and path: the given text, or a file of the repository.\<close>

definition apply_content :: "handlers \<Rightarrow> apply_request \<Rightarrow> (nat \<times> api_error) + (string \<times> string \<times> string)" where
  "apply_content h q =
    (case (if ar_git_ref q \<noteq> '''' then git_content h (ar_git_ref q) (ar_uid q) else Inr (ar_yaml q, '''', '''')) of
       Inl e \<Rightarrow> Inl e
     | Inr (content, sha, path) \<Rightarrow>
         if content = '''' then Inl (400, ApiYamlRequired) else Inr (content, sha, path))"

definition apply_task_of :: "handlers \<Rightarrow> apply_request \<Rightarrow> string \<times> string \<times> string \<Rightarrow> string \<times> string \<Rightarrow> string \<Rightarrow> task" where
  "apply_task_of h q src base tid =
    (case (src, base) of ((content, sha, path), (base_yaml, base_source)) \<Rightarrow>
      empty_task\<lparr>t_id := tid, t_type := TaskTypeApply, t_status := TaskStatusAwaitingApproval,
        t_require_approval := dp_require_approval (hd_deps h),
        t_input := (if ar_note q = '''' then txt_apply_to @ ar_uid q else ar_note q),
        t_session_id := ar_session_id q, t_generated_yaml := content,
        t_base_yaml := base_yaml, t_base_source := base_source,
        t_git_commit := sha, t_git_path := path, t_git_ref := ar_git_ref q,
        t_target_instance_uid := ar_uid q, t_target_group_id := ar_uid q\<rparr>)"

definition audit_apply :: "handlers \<Rightarrow> string \<Rightarrow> string \<Rightarrow> string \<Rightarrow> string \<Rightarrow> app_state \<Rightarrow> app_state" where
  "audit_apply h actor tid uid content a =
    app_audit actor AuditActionApply tid
      (txt_editor_submitted @ uid @ '' hash='' @ content_hash (dp_sha (hd_deps h)) content) a"

text \<open>After the task is stored: the audit records, then the answer or the immediate delivery.\<close>

definition submit_apply :: "handlers \<Rightarrow> string \<Rightarrow> apply_request \<Rightarrow> string \<times> string \<times> string \<Rightarrow> task \<Rightarrow> app_state \<Rightarrow> response \<times> app_state" where
  "submit_apply h actor q src t a0 =
    (case src of (content, sha, path) \<Rightarrow>
      let a1 = audit_apply h actor (t_id t) (ar_uid q) content a0;
          a2 = (if sha \<noteq> '''' then app_audit actor AuditActionApply (t_id t) (git_trace sha path (ar_git_ref q)) a1
                else a1)
      in if dp_require_approval (hd_deps h) then (write_json 201 (TaskBody t), a2)
         else case on_tools (dispatch_approve (hd_deps h) (t_id t) actor) a2 of
             (Inl err, a3) \<Rightarrow> (write_error 502 (ApiError err), a3)
           | (Inr _, a3) \<Rightarrow>
               (case on_store (get_task (t_id t)) a3 of
                  (Inl _, a4) \<Rightarrow> (write_error 500 (ApiQueryFailed ''task''), a4)
                | (Inr t', a4) \<Rightarrow> (write_json 200 (TaskBody t'), a4)))"

definition apply_to_collector :: "handlers \<Rightarrow> request \<Rightarrow> apply_request \<Rightarrow> string \<times> string \<times> string \<Rightarrow> app_state \<Rightarrow> response \<times> app_state" where
  "apply_to_collector h r q src a =
    (case on_store (get_collector (ar_uid q)) a of
       (Inl _, a1) \<Rightarrow> (write_error 404 ApiCollectorMissing, a1)
     | (Inr c, a1) \<Rightarrow>
         let base = base_for_collector (hd_deps h) c (ap_tools a1); res = app_check h (fst src) in
         if \<not> vr_valid res then (write_error 400 (ApiInvalidConfig (vr_errors res)), a1)
         else let (tid, a2) = app_ulid h a1 in
           case app_create (apply_task_of h q src base tid) a2 of
             (Inl _, a3) \<Rightarrow> (write_error 500 ApiCreateTaskFailed, a3)
           | (Inr t, a3) \<Rightarrow> submit_apply h (approver_of r '''') q src t a3)"

definition apply_task_handler :: "handlers \<Rightarrow> api_handler" where
  "apply_task_handler h = only ''POST'' (\<lambda>r a.
    (case decode_apply (rq_body r) of
       None \<Rightarrow> (write_error 400 ApiBadBody, a)
     | Some q \<Rightarrow>
         if ar_uid q = '''' then (write_error 400 ApiUidRequired, a)
         else case apply_content h q of
             Inl (code, e) \<Rightarrow> (write_error code e, a)
           | Inr src \<Rightarrow> apply_to_collector h r q src a))"

subsection \<open>Statistics and system\<close>

definition stats_handler :: api_handler where
  "stats_handler = only ''GET'' (\<lambda>r a.
    (case on_store count_collectors_by_status a of
       (Inl _, a1) \<Rightarrow> (write_error 500 (ApiQueryFailed ''collectors''), a1)
     | (Inr cs, a1) \<Rightarrow>
         (case on_store count_tasks_by_status a1 of
            (Inl _, a2) \<Rightarrow> (write_error 500 (ApiQueryFailed ''tasks''), a2)
          | (Inr ts, a2) \<Rightarrow>
              (case on_store count_sessions a2 of
                 (Inl _, a3) \<Rightarrow> (write_error 500 (ApiQueryFailed ''sessions''), a3)
               | (Inr n, a3) \<Rightarrow>
                   (write_json 200 (StatsBody \<lparr>st_collectors = collectors_stats_of cs,
                      st_tasks = tasks_stats_of ts, st_sessions_total = n\<rparr>), a3)))))"

definition nano_per_day :: duration where
  "nano_per_day = 24 * 3600 * nano_per_second"

definition stats_ops_handler :: api_handler where
  "stats_ops_handler = only ''GET'' (\<lambda>r a.
    (case int_param_in_range (query_get r ''window_days'') 1 90 of
       Inl _ \<Rightarrow> (write_error 400 (ApiParamInvalid ''window_days''), a)
     | Inr n \<Rightarrow>
         let days = (if n = 0 then 7 else n); since = app_now a - days * nano_per_day in
         case on_store (list_task_events since) a of
           (Inl _, a1) \<Rightarrow> (write_error 500 (ApiQueryFailed ''events''), a1)
         | (Inr events, a1) \<Rightarrow>
             (case on_store (list_tasks (no_task_filter\<lparr>tf_since := since\<rparr>) 0 0) a1 of
                (Inl _, a2) \<Rightarrow> (write_error 500 (ApiQueryFailed ''tasks''), a2)
              | (Inr (tasks, _), a2) \<Rightarrow>
                  (write_json 200 (OpsStatsBody (compute_ops_stats days tasks events)), a2))))"

definition healthz :: api_handler where
  "healthz = only ''GET'' (\<lambda>r a.
    (case on_store ping a of
       (Inl _, a1) \<Rightarrow> (write_json 200 (json_strings [(''status'', ''ok''), (''db'', ''down'')]), a1)
     | (Inr _, a1) \<Rightarrow> (write_json 200 (json_strings [(''status'', ''ok''), (''db'', ''up'')]), a1)))"

subsection \<open>The repository endpoints\<close>

definition ref_or_default :: "handlers \<Rightarrow> request \<Rightarrow> string" where
  "ref_or_default h r =
    (let ref = trim_space (query_get r ''ref'') in if ref = '''' then dp_git_ref (hd_deps h) else ref)"

text \<open>The path parameter, or the path of the Collector named instead.\<close>

definition path_or_template :: "handlers \<Rightarrow> request \<Rightarrow> api_error + string" where
  "path_or_template h r =
    (let path = trim_space (query_get r ''path''); uid = trim_space (query_get r ''instance_uid'') in
     if path \<noteq> '''' then Inr path
     else if uid = '''' then Inl ApiPathOrUidRequired
     else case expand_pathspec (dp_git_pathspec (hd_deps h)) uid of
         Inl err \<Rightarrow> Inl (ApiError err)
       | Inr p \<Rightarrow> Inr p)"

definition git_status_handler :: "handlers \<Rightarrow> api_handler" where
  "git_status_handler h = only ''GET'' (\<lambda>r a.
    (case git_repo_of h of
       None \<Rightarrow> (write_error 409 ApiGitDisabled, a)
     | Some git \<Rightarrow>
         (case status_of git (app_now a) (ref_or_default h r) (ap_repo a) of
            (Inl err, repo) \<Rightarrow> (write_error 400 (ApiError err), a\<lparr>ap_repo := repo\<rparr>)
          | (Inr st, repo) \<Rightarrow> (write_json 200 (GitStatusBody st), a\<lparr>ap_repo := repo\<rparr>))))"

definition git_commits_handler :: "handlers \<Rightarrow> api_handler" where
  "git_commits_handler h = only ''GET'' (\<lambda>r a.
    (case git_repo_of h of
       None \<Rightarrow> (write_error 409 ApiGitDisabled, a)
     | Some git \<Rightarrow>
         (case parse_limit (query_get r ''limit'') 20 of
            Inl err \<Rightarrow> (write_error 400 (ApiError err), a)
          | Inr limit \<Rightarrow>
              (case path_or_template h r of
                 Inl e \<Rightarrow> (write_error 400 e, a)
               | Inr path \<Rightarrow>
                   (case git_commits git (ref_or_default h r) path limit of
                      Inl err \<Rightarrow> (write_error 400 (ApiError err), a)
                    | Inr commits \<Rightarrow> (write_json 200 (GitCommitsBody commits path (ref_or_default h r)), a))))))"

definition git_file_handler :: "handlers \<Rightarrow> api_handler" where
  "git_file_handler h = only ''GET'' (\<lambda>r a.
    (case git_repo_of h of
       None \<Rightarrow> (write_error 409 ApiGitDisabled, a)
     | Some git \<Rightarrow>
         (case path_or_template h r of
            Inl e \<Rightarrow> (write_error 400 e, a)
          | Inr path \<Rightarrow>
              let ref = ref_or_default h r in
              case show_file git ref path of
                Inl err \<Rightarrow> (write_error 400 (ApiError err), a)
              | Inr content \<Rightarrow>
                  (case git_resolve git ref of
                     Inl err \<Rightarrow> (write_error 400 (ApiError err), a)
                   | Inr sha \<Rightarrow>
                       (write_json 200 (json_strings [(''ref'', ref), (''git_commit'', sha), (''path'', path),
                          (''yaml'', content)]), a)))))"

end
