(* ===== verification/Web_Auth.thy ===== *)
theory Web_Auth
  imports Http_Types Runtime_Config
begin

section \<open>Web authentication (internal/api/auth.go, internal/api/mcpauth.go)\<close>

text \<open>
  The login of the single administrator and the guard in front of the REST interface, and the token
  check in front of the MCP endpoint.  A session is a random token with a user and an expiry, kept in
  memory.  The password check is \<open>bcrypt\<close>, a third-party library, and the random source the system's:
  both are parameters.  The clock is read once per request.  The lemmas show that only a login with
  the configured credentials opens a session, that it ends with its logout or after a day, and that
  no other request gets past the guard.
\<close>

subsection \<open>Data\<close>

text \<open>\<open>be_valid\<close> is the format check of \<open>bcrypt.Cost\<close>, \<open>be_matches\<close> the comparison of a hash and a password.\<close>

record bcrypt_env =
  be_valid :: "string \<Rightarrow> bool"
  be_matches :: "string \<Rightarrow> string \<Rightarrow> bool"

record auth_session =
  as_username :: string
  as_expires_at :: time

record auth_manager =
  am_mode :: web_auth_mode
  am_username :: string
  am_hash :: string
  am_sessions :: "string \<rightharpoonup> auth_session"

definition session_ttl :: duration where
  "session_ttl = 24 * 3600 * nano_per_second"

definition new_auth_manager :: "bcrypt_env \<Rightarrow> config \<Rightarrow> unit + auth_manager" where
  "new_auth_manager be cfg =
    (let w = cfg_web cfg;
         m = \<lparr>am_mode = web_auth_mode w, am_username = web_admin_user w, am_hash = '''', am_sessions = Map.empty\<rparr>
     in if web_auth_mode w = web_auth_simple \<and> web_admin_hash w \<noteq> '''' then
          (if \<not> be_valid be (web_admin_hash w) then Inl () else Inr (m\<lparr>am_hash := web_admin_hash w\<rparr>))
        else Inr m)"

definition enabled :: "auth_manager \<Rightarrow> bool" where
  "enabled m \<longleftrightarrow> am_mode m = web_auth_simple"

definition exempt_path :: "string \<Rightarrow> bool" where
  "exempt_path p \<longleftrightarrow> p \<in> set [''/api/v1/auth/login'', ''/api/v1/auth/logout'', ''/api/v1/auth/me'', ''/api/v1/system/info'']"

subsection \<open>The guard\<close>

definition lookup_session :: "time \<Rightarrow> string \<Rightarrow> auth_manager \<Rightarrow> auth_session option \<times> auth_manager" where
  "lookup_session now token m =
    (case am_sessions m token of
       None \<Rightarrow> (None, m)
     | Some sess \<Rightarrow>
         if now > as_expires_at sess then (None, m\<lparr>am_sessions := (am_sessions m)(token := None)\<rparr>)
         else (Some sess, m))"

definition write_auth_required :: response where
  "write_auth_required = write_error 401 ApiAuthRequired"

text \<open>The session a request carries, looked up when its cookie has a value.\<close>

definition request_session :: "time \<Rightarrow> request \<Rightarrow> auth_manager \<Rightarrow> auth_session option \<times> auth_manager" where
  "request_session now r m =
    (case rq_cookie r of
       Some token \<Rightarrow> if token \<noteq> '''' then lookup_session now token m else (None, m)
     | None \<Rightarrow> (None, m))"

definition middleware :: "time \<Rightarrow> (auth_manager \<times> 's) handler \<Rightarrow> (auth_manager \<times> 's) handler" where
  "middleware now next_handler r state =
    (case state of (m, s) \<Rightarrow>
       if \<not> enabled m then next_handler r (m, s)
       else case request_session now r m of
           (Some sess, m1) \<Rightarrow> next_handler (r\<lparr>rq_user := as_username sess\<rparr>) (m1, s)
         | (None, m1) \<Rightarrow>
             if exempt_path (rq_path r) then next_handler r (m1, s)
             else (write_auth_required, (m1, s)))"

subsection \<open>Login, logout and the session check\<close>

definition new_token :: "8 word list option \<Rightarrow> string option" where
  "new_token random = (case random of None \<Rightarrow> None | Some b \<Rightarrow> Some (hex_encode b))"

definition open_session :: "time \<Rightarrow> string \<Rightarrow> string \<Rightarrow> auth_manager \<Rightarrow> response \<times> auth_manager" where
  "open_session now user token m =
    ((write_json 200 (json_strings [(''username'', user)]))
        \<lparr>rs_cookie := Some \<lparr>ck_value = token, ck_max_age = 24 * 3600\<rparr>\<rparr>,
     m\<lparr>am_sessions := (am_sessions m)(token \<mapsto> \<lparr>as_username = user, as_expires_at = now + session_ttl\<rparr>)\<rparr>)"

definition handle_login ::
  "bcrypt_env \<Rightarrow> time \<Rightarrow> 8 word list option \<Rightarrow> request \<Rightarrow> auth_manager \<Rightarrow> response \<times> auth_manager" where
  "handle_login be now random r m =
    (if rq_method r \<noteq> ''POST'' then (write_error 405 (ApiMethodOnly ''POST''), m)
     else if \<not> enabled m then (write_error 409 ApiNoLoginNeeded, m)
     else case decode_strings (rq_body r) [''username'', ''password''] of
         Some [user, password] \<Rightarrow>
           if user = '''' \<or> password = '''' then (write_error 400 ApiCredentialsEmpty, m)
           else if user \<noteq> am_username m \<or> \<not> be_matches be (am_hash m) password
             then (write_error 401 ApiBadCredentials, m)
           else (case new_token random of
               None \<Rightarrow> (write_error 500 ApiLoginFailed, m)
             | Some token \<Rightarrow> open_session now user token m)
       | _ \<Rightarrow> (write_error 400 ApiBadBody, m))"

definition handle_logout :: "request \<Rightarrow> auth_manager \<Rightarrow> response \<times> auth_manager" where
  "handle_logout r m =
    (if rq_method r \<noteq> ''POST'' then (write_error 405 (ApiMethodOnly ''POST''), m)
     else ((write_json 200 (json_strings [(''message'', txt_logged_out)]))
             \<lparr>rs_cookie := Some \<lparr>ck_value = '''', ck_max_age = -1\<rparr>\<rparr>,
           case rq_cookie r of
             Some token \<Rightarrow> if token \<noteq> '''' then m\<lparr>am_sessions := (am_sessions m)(token := None)\<rparr> else m
           | None \<Rightarrow> m))"

definition handle_me :: "request \<Rightarrow> auth_manager \<Rightarrow> response" where
  "handle_me r m =
    (if rq_method r \<noteq> ''GET'' then write_error 405 (ApiMethodOnly ''GET'')
     else if \<not> enabled m then
       write_json 200 (json_strings [(''username'', ''user''), (''auth_mode'', web_auth_off)])
     else if rq_user r \<noteq> '''' then
       write_json 200 (json_strings [(''username'', rq_user r), (''auth_mode'', web_auth_simple)])
     else write_auth_required)"

subsection \<open>The token of the MCP endpoint\<close>

definition bearer_prefix :: string where
  "bearer_prefix = ''Bearer ''"

definition bearer_token_of :: "string \<Rightarrow> string" where
  "bearer_token_of header =
    (let n = length bearer_prefix in
     if length header \<le> n \<or> \<not> equal_fold (take n header) bearer_prefix then ''''
     else trim_space (drop n header))"

definition mcp_auth :: "string \<Rightarrow> 's handler \<Rightarrow> 's handler" where
  "mcp_auth token next_handler r s =
    (if token = '''' then next_handler r s
     else let got = bearer_token_of (get_value (rq_headers r) ''Authorization'') in
       if got = '''' \<or> got \<noteq> token then
         ((write_error 401 ApiMcpUnauthenticated)
            \<lparr>rs_headers := [(''Content-Type'', ''application/json; charset=utf-8''),
                            (''WWW-Authenticate'', ''Bearer realm=\"cadenza-mcp\"'')]\<rparr>, s)
       else next_handler r s)"

section \<open>Lemmas\<close>

subsection \<open>The MCP token\<close>

lemma bearer_token_trimmed: "trim_space (bearer_token_of h) = bearer_token_of h"
  by (simp add: bearer_token_of_def Let_def trim_space_idem)

lemma bearer_token_read:
  assumes "token \<noteq> ''''" "equal_fold p bearer_prefix"
  shows "bearer_token_of (p @ token) = trim_space token"
proof -
  have "length p = length bearer_prefix"
    using assms(2) by (metis equal_fold_def length_map to_lower_def)
  with assms show ?thesis
    by (cases token) (simp_all add: bearer_token_of_def Let_def)
qed

lemma bearer_tokenD:
  assumes "bearer_token_of h = token" "token \<noteq> ''''"
  shows "\<exists>p rest. h = p @ rest \<and> equal_fold p bearer_prefix \<and> trim_space rest = token"
  using assms unfolding bearer_token_of_def Let_def
  by (metis append_take_drop_id)

text \<open>With a token configured, a request reaches the MCP endpoint exactly when its authorization header is the
  word Bearer in any case, a space, and the token with white space around it; every other request gets
  401 and changes nothing.  A configured token that itself begins or ends with white space admits no
  request at all.\<close>

theorem mcp_token_required:
  assumes "token \<noteq> ''''"
  shows "let header = get_value (rq_headers r) ''Authorization'';
             admitted = (\<exists>p rest. header = p @ rest \<and> equal_fold p ''Bearer '' \<and> trim_space rest = token)
    in (admitted \<longrightarrow> mcp_auth token next_handler r s = next_handler r s) \<and>
       (\<not> admitted \<longrightarrow> rs_status (fst (mcp_auth token next_handler r s)) = 401 \<and>
          snd (mcp_auth token next_handler r s) = s) \<and>
       (trim_space token \<noteq> token \<longrightarrow> \<not> admitted)"
proof -
  let ?h = "get_value (rq_headers r) ''Authorization''"
  have "(\<exists>p rest. ?h = p @ rest \<and> equal_fold p ''Bearer '' \<and> trim_space rest = token) \<longleftrightarrow>
      bearer_token_of ?h = token"
  proof
    assume "\<exists>p rest. ?h = p @ rest \<and> equal_fold p ''Bearer '' \<and> trim_space rest = token"
    then obtain p rest where h: "?h = p @ rest" "equal_fold p bearer_prefix" "trim_space rest = token"
      by (auto simp: bearer_prefix_def)
    with assms have "rest \<noteq> ''''" by auto
    with h show "bearer_token_of ?h = token"
      by (metis bearer_token_read)
  next
    assume "bearer_token_of ?h = token"
    from bearer_tokenD [OF this assms]
    show "\<exists>p rest. ?h = p @ rest \<and> equal_fold p ''Bearer '' \<and> trim_space rest = token"
      by (simp add: bearer_prefix_def)
  qed
  with assms bearer_token_trimmed [of ?h] show ?thesis
    by (auto simp: mcp_auth_def Let_def)
qed

definition mcp_request :: "string \<Rightarrow> request" where
  "mcp_request header = \<lparr>rq_method = ''POST'', rq_path = ''/mcp'', rq_query = Map.empty,
    rq_headers = [''Authorization'' \<mapsto> header], rq_cookie = None, rq_body = None, rq_user = ''''\<rparr>"

theorem mcp_token_required_witness:
  "mcp_auth ''s3cret'' (\<lambda>r n. (write_json 200 NoBody, n + 1)) (mcp_request ''bearer s3cret'') (0 :: nat) =
      (write_json 200 NoBody, 1)"
proof -
  have "trim_space ''s3cret'' = ''s3cret''" "equal_fold ''bearer '' ''Bearer ''"
    by (simp_all add: trim_space_id is_ascii_space_def equal_fold_def to_lower_def lower_char_def) code_simp+
  moreover have "get_value (rq_headers (mcp_request ''bearer s3cret'')) ''Authorization'' = ''bearer '' @ ''s3cret''"
    by (simp add: mcp_request_def get_value_def)
  ultimately have "\<exists>p rest. get_value (rq_headers (mcp_request ''bearer s3cret'')) ''Authorization'' = p @ rest \<and>
      equal_fold p ''Bearer '' \<and> trim_space rest = ''s3cret''"
    by blast
  then show ?thesis
    using mcp_token_required [of "''s3cret''" "mcp_request ''bearer s3cret''" "\<lambda>r n. (write_json 200 NoBody, n + 1)" "0 :: nat"]
    unfolding Let_def by simp
qed

subsection \<open>Sessions\<close>

text \<open>A history of the manager: the requests that reached it, in their order.\<close>

datatype auth_action =
    LoginRequest time "8 word list option" request
  | LogoutRequest request
  | GuardRequest time request

primrec perform :: "bcrypt_env \<Rightarrow> auth_manager \<Rightarrow> auth_action \<Rightarrow> auth_manager" where
  "perform be m (LoginRequest now random r) = snd (handle_login be now random r m)"
| "perform be m (LogoutRequest r) = snd (handle_logout r m)"
| "perform be m (GuardRequest now r) = snd (request_session now r m)"

definition perform_all :: "bcrypt_env \<Rightarrow> auth_action list \<Rightarrow> auth_manager \<Rightarrow> auth_manager" where
  "perform_all be acts m = foldl (perform be) m acts"

text \<open>A login that opens a session: the one thing that adds an entry.\<close>

definition valid_login :: "bcrypt_env \<Rightarrow> auth_manager \<Rightarrow> request \<Rightarrow> bool" where
  "valid_login be m r \<longleftrightarrow> rq_method r = ''POST'' \<and> enabled m \<and>
    (\<exists>pw. decode_strings (rq_body r) [''username'', ''password''] = Some [am_username m, pw] \<and>
      am_username m \<noteq> '''' \<and> pw \<noteq> '''' \<and> be_matches be (am_hash m) pw)"

definition logs_out :: "string \<Rightarrow> auth_action \<Rightarrow> bool" where
  "logs_out token a \<longleftrightarrow> (\<exists>r. a = LogoutRequest r \<and> rq_method r = ''POST'' \<and> rq_cookie r = Some token \<and> token \<noteq> '''')"

lemma lookup_session_cases:
  "lookup_session now token m =
    (case am_sessions m token of
       Some sess \<Rightarrow> if now \<le> as_expires_at sess then (Some sess, m)
         else (None, m\<lparr>am_sessions := (am_sessions m)(token := None)\<rparr>)
     | None \<Rightarrow> (None, m))"
  by (auto simp: lookup_session_def split: option.splits)

lemma request_session_SomeD:
  assumes "request_session now r m = (Some sess, m1)"
  shows "m1 = m \<and> (\<exists>token. rq_cookie r = Some token \<and> token \<noteq> '''' \<and> am_sessions m token = Some sess) \<and>
    now \<le> as_expires_at sess"
  using assms by (auto simp: request_session_def lookup_session_cases split: option.splits if_splits)

lemma request_session_keeps:
  "am_mode (snd (request_session now r m)) = am_mode m" "am_hash (snd (request_session now r m)) = am_hash m"
  "am_username (snd (request_session now r m)) = am_username m"
  by (auto simp: request_session_def lookup_session_cases split: option.splits)

lemma request_session_removes:
  "am_sessions (snd (request_session now r m)) token \<in> {am_sessions m token, None}"
  by (auto simp: request_session_def lookup_session_cases split: option.splits)

lemma decode_two:
  assumes "decode_strings body [a, b] = Some vs"
  shows "\<exists>u v. vs = [u, v]"
  using decode_strings_length [OF assms] by (cases vs; cases "tl vs") auto

lemma handle_login_cases:
  obtains (grants) b where "valid_login be m r" "random = Some b"
      "handle_login be now random r m = open_session now (am_username m) (hex_encode b) m"
    | (refuses) code e where "handle_login be now random r m = (write_error code e, m)" "code \<ge> 400"
      "\<not> (valid_login be m r \<and> (\<exists>b. random = Some b))"
proof (cases "valid_login be m r \<and> (\<exists>b. random = Some b)")
  case True
  then show ?thesis
    using grants by (auto simp: valid_login_def handle_login_def new_token_def)
next
  case False
  have "\<exists>code e. handle_login be now random r m = (write_error code e, m) \<and> code \<ge> 400"
  proof (cases "decode_strings (rq_body r) [''username'', ''password'']")
    case None
    then show ?thesis by (auto simp: handle_login_def)
  next
    case (Some vs)
    with decode_two obtain u v where "vs = [u, v]" by blast
    with Some False show ?thesis
      by (cases random) (auto simp: handle_login_def valid_login_def new_token_def)
  qed
  with False show ?thesis
    using refuses by blast
qed

lemma open_session_effect:
  "snd (open_session now user token m) =
    m\<lparr>am_sessions := (am_sessions m)(token \<mapsto> \<lparr>as_username = user, as_expires_at = now + session_ttl\<rparr>)\<rparr>"
  by (simp add: open_session_def)

lemma perform_keeps:
  "am_mode (perform be m a) = am_mode m \<and> am_hash (perform be m a) = am_hash m \<and>
    am_username (perform be m a) = am_username m"
proof (cases a)
  case (LoginRequest now random r)
  then show ?thesis
    by (cases rule: handle_login_cases [where be = be and m = m and r = r and random = random and now = now]) (simp_all add: open_session_effect)
next
  case (LogoutRequest r)
  then show ?thesis by (simp add: handle_logout_def split: option.split)
next
  case (GuardRequest now r)
  then show ?thesis by (simp add: request_session_keeps)
qed

lemma perform_all_keeps:
  "am_mode (perform_all be acts m) = am_mode m \<and> am_hash (perform_all be acts m) = am_hash m \<and>
    am_username (perform_all be acts m) = am_username m"
  by (induction acts rule: rev_induct) (simp_all add: perform_all_def perform_keeps)

lemma valid_login_cong:
  "am_mode m = am_mode m' \<Longrightarrow> am_hash m = am_hash m' \<Longrightarrow> am_username m = am_username m' \<Longrightarrow>
    valid_login be m r = valid_login be m' r"
  by (simp add: valid_login_def enabled_def)

lemma perform_session:
  assumes "am_sessions (perform be m a) token = Some sess"
  shows "(am_sessions m token = Some sess \<and> \<not> logs_out token a) \<or>
    (\<exists>now b r. a = LoginRequest now (Some b) r \<and> hex_encode b = token \<and> valid_login be m r \<and>
      sess = \<lparr>as_username = am_username m, as_expires_at = now + session_ttl\<rparr>)"
proof (cases a)
  case (LoginRequest now random r)
  with assms show ?thesis
    by (cases rule: handle_login_cases [where be = be and m = m and r = r and random = random and now = now])
      (auto simp: open_session_effect logs_out_def split: if_splits)
next
  case (LogoutRequest r)
  with assms show ?thesis
    by (auto simp: handle_logout_def logs_out_def split: option.splits if_splits)
next
  case (GuardRequest now r)
  with assms request_session_removes [of now r m token] show ?thesis
    by (auto simp: logs_out_def)
qed

lemma session_history:
  assumes "am_sessions m0 = Map.empty" "am_sessions (perform_all be acts m0) token = Some sess"
  shows "\<exists>before t b r later. acts = before @ LoginRequest t (Some b) r # later \<and> hex_encode b = token \<and>
    valid_login be m0 r \<and> sess = \<lparr>as_username = am_username m0, as_expires_at = t + session_ttl\<rparr> \<and>
    (\<forall>a \<in> set later. \<not> logs_out token a)"
  using assms(2)
proof (induction acts arbitrary: sess rule: rev_induct)
  case Nil
  with assms(1) show ?case by (simp add: perform_all_def)
next
  case (snoc a acts)
  let ?m = "perform_all be acts m0"
  have "am_sessions (perform be ?m a) token = Some sess"
    using snoc.prems by (simp add: perform_all_def)
  from perform_session [OF this] show ?case
  proof (elim disjE conjE exE)
    assume "am_sessions ?m token = Some sess" and a: "\<not> logs_out token a"
    from snoc.IH [OF this(1)] obtain before t b r later where
      "acts = before @ LoginRequest t (Some b) r # later" "hex_encode b = token" "valid_login be m0 r"
      "sess = \<lparr>as_username = am_username m0, as_expires_at = t + session_ttl\<rparr>"
      "\<forall>a \<in> set later. \<not> logs_out token a"
      by blast
    with a have "acts @ [a] = before @ LoginRequest t (Some b) r # (later @ [a])"
      "\<forall>a \<in> set (later @ [a]). \<not> logs_out token a"
      by auto
    with \<open>hex_encode b = token\<close> \<open>valid_login be m0 r\<close> \<open>sess = _\<close> show ?thesis by blast
  next
    fix now b r
    assume "a = LoginRequest now (Some b) r" "hex_encode b = token" "valid_login be ?m r"
      "sess = \<lparr>as_username = am_username ?m, as_expires_at = now + session_ttl\<rparr>"
    then show ?thesis
      using perform_all_keeps [of be acts m0] valid_login_cong [of ?m m0 be r]
      by (intro exI [of _ acts] exI [of _ now] exI [of _ b] exI [of _ r] exI [of _ "[]"]) auto
  qed
qed

lemma middleware_admitted:
  assumes "enabled m" "\<not> exempt_path (rq_path r)"
  shows "(case fst (request_session now r m) of
      None \<Rightarrow> middleware now h r (m, s) = (write_auth_required, (snd (request_session now r m), s))
    | Some sess \<Rightarrow> middleware now h r (m, s) = h (r\<lparr>rq_user := as_username sess\<rparr>) (m, s))"
proof (cases "request_session now r m")
  case (Pair res m1)
  with assms show ?thesis
    by (cases res) (auto simp: middleware_def dest: request_session_SomeD)
qed

text \<open>Behind the guard, a request to a protected path is handled only with the token of a session that an
  earlier login of the administrator, with a matching password, opened at most 24 hours ago and no
  logout ended since; the handler sees that administrator as its user.  Every other request gets 401
  and does not reach the handler.\<close>

theorem guarded_requests_logged_in:
  assumes "am_sessions m0 = Map.empty" "enabled m0" "m = perform_all be acts m0" "\<not> exempt_path (rq_path r)"
  shows "(\<exists>m1. middleware now h r (m, s) = (write_auth_required, (m1, s))) \<or>
    (middleware now h r (m, s) = h (r\<lparr>rq_user := am_username m0\<rparr>) (m, s) \<and>
      (\<exists>before t b login later. acts = before @ LoginRequest t (Some b) login # later \<and>
        rq_cookie r = Some (hex_encode b) \<and> valid_login be m0 login \<and> now \<le> t + session_ttl \<and>
        (\<forall>a \<in> set later. \<not> logs_out (hex_encode b) a)))"
proof -
  have en: "enabled m"
    using assms(2,3) perform_all_keeps [of be acts m0] by (simp add: enabled_def)
  show ?thesis
  proof (cases "fst (request_session now r m)")
    case None
    with middleware_admitted [OF en assms(4), of now h s] show ?thesis by auto
  next
    case (Some sess)
    then have "request_session now r m = (Some sess, snd (request_session now r m))"
      by (metis prod.collapse)
    from request_session_SomeD [OF this] obtain token where tok: "rq_cookie r = Some token"
      "am_sessions m token = Some sess" "now \<le> as_expires_at sess"
      by blast
    from session_history [OF assms(1), of be acts token sess] tok(2) assms(3)
    obtain before t b login later where hist:
      "acts = before @ LoginRequest t (Some b) login # later" "hex_encode b = token" "valid_login be m0 login"
      "sess = \<lparr>as_username = am_username m0, as_expires_at = t + session_ttl\<rparr>"
      "\<forall>a \<in> set later. \<not> logs_out token a"
      by blast
    then have "\<exists>before t b login later. acts = before @ LoginRequest t (Some b) login # later \<and>
        rq_cookie r = Some (hex_encode b) \<and> valid_login be m0 login \<and> now \<le> t + session_ttl \<and>
        (\<forall>a \<in> set later. \<not> logs_out (hex_encode b) a)"
      using tok by (intro exI [of _ before] exI [of _ t] exI [of _ b] exI [of _ login] exI [of _ later]) auto
    with Some hist(4) middleware_admitted [OF en assms(4), of now h s] show ?thesis
      by auto
  qed
qed

text \<open>A manager with the plain password as its hash, and the requests of a session.\<close>

definition sample_bcrypt :: bcrypt_env where
  "sample_bcrypt = \<lparr>be_valid = (\<lambda>h. True), be_matches = (\<lambda>h p. h = p)\<rparr>"

definition sample_manager :: auth_manager where
  "sample_manager = \<lparr>am_mode = web_auth_simple, am_username = ''admin'', am_hash = ''pw'', am_sessions = Map.empty\<rparr>"

definition web_request :: "string \<Rightarrow> string \<Rightarrow> string option \<Rightarrow> (string \<times> json) list \<Rightarrow> request" where
  "web_request meth path cookie body = \<lparr>rq_method = meth, rq_path = path, rq_query = Map.empty,
    rq_headers = Map.empty, rq_cookie = cookie, rq_body = Some (JObj body), rq_user = ''''\<rparr>"

definition sample_login :: request where
  "sample_login = web_request ''POST'' ''/api/v1/auth/login'' None
    [(''username'', JStr ''admin''), (''password'', JStr ''pw'')]"

lemma decode_sample_login:
  "decode_strings (rq_body sample_login) [''username'', ''password''] = Some [''admin'', ''pw'']"
  by (simp add: sample_login_def web_request_def decode_strings_def decode_struct_def decode_string_def
      equal_fold_def to_lower_def lower_char_def)

lemma valid_sample_login: "valid_login sample_bcrypt sample_manager sample_login"
  using decode_sample_login
  by (simp add: valid_login_def enabled_def sample_manager_def sample_bcrypt_def)
    (simp add: sample_login_def web_request_def)

lemma sample_sessions:
  "am_sessions (perform_all sample_bcrypt [LoginRequest 3 (Some [0xff]) sample_login] sample_manager) =
    [hex_encode [0xff] \<mapsto> \<lparr>as_username = ''admin'', as_expires_at = 3 + session_ttl\<rparr>]"
proof -
  have "handle_login sample_bcrypt 3 (Some [0xff]) sample_login sample_manager =
      open_session 3 (am_username sample_manager) (hex_encode [0xff]) sample_manager"
    using valid_sample_login
    by (cases rule: handle_login_cases [where be = sample_bcrypt and m = sample_manager and r = sample_login
          and random = "Some [0xff]" and now = 3]) auto
  then show ?thesis
    by (simp add: perform_all_def open_session_effect) (simp add: sample_manager_def)
qed

theorem guarded_requests_logged_in_witness:
  "let r = web_request ''GET'' ''/api/v1/tasks'' (Some (hex_encode [0xff])) [];
       m = perform_all sample_bcrypt [LoginRequest 3 (Some [0xff]) sample_login] sample_manager
   in middleware 5 (\<lambda>r s. (write_json 200 (json_strings [(''user'', rq_user r)]), s)) r (m, ()) =
      (write_json 200 (json_strings [(''user'', ''admin'')]), (m, ()))"
proof -
  let ?r = "web_request ''GET'' ''/api/v1/tasks'' (Some (hex_encode [0xff])) []"
  let ?m = "perform_all sample_bcrypt [LoginRequest 3 (Some [0xff]) sample_login] sample_manager"
  let ?h = "\<lambda>r (s :: auth_manager \<times> unit). (write_json 200 (json_strings [(''user'', rq_user r)]), s)"
  have protected: "\<not> exempt_path (rq_path ?r)"
    by (simp add: exempt_path_def web_request_def)
  have en: "enabled ?m"
    using perform_all_keeps [of sample_bcrypt "[LoginRequest 3 (Some [0xff]) sample_login]" sample_manager]
    by (simp add: enabled_def sample_manager_def)
  have "fst (request_session 5 ?r ?m) \<noteq> None"
    by (simp add: request_session_def web_request_def lookup_session_cases sample_sessions session_ttl_def
        hex_encode_def)
  then have "rs_status (fst (middleware 5 ?h ?r (?m, ()))) = 200"
    using middleware_admitted [OF en protected, of 5 ?h "()"] by (auto split: option.splits)
  then have "\<nexists>m1. middleware 5 ?h ?r (?m, ()) = (write_auth_required, (m1, ()))"
    by (auto simp: write_auth_required_def)
  then show ?thesis
    using guarded_requests_logged_in [of sample_manager ?m sample_bcrypt
        "[LoginRequest 3 (Some [0xff]) sample_login]" ?r 5 ?h "()"] protected
    by (auto simp: sample_manager_def enabled_def Let_def)
qed

lemma perform_keeps_session:
  assumes "am_sessions m token = Some sess" "\<not> logs_out token a" "token \<noteq> ''''"
    and "\<forall>t r. a = GuardRequest t r \<longrightarrow> t \<le> as_expires_at sess"
    and "\<forall>t b r. a = LoginRequest t (Some b) r \<longrightarrow> hex_encode b \<noteq> token"
  shows "am_sessions (perform be m a) token = Some sess"
proof (cases a)
  case (LoginRequest now random r)
  with assms show ?thesis
    by (cases rule: handle_login_cases [where be = be and m = m and r = r and random = random and now = now])
      (auto simp: open_session_effect)
next
  case (LogoutRequest r)
  with assms show ?thesis
    by (auto simp: handle_logout_def logs_out_def split: option.split)
next
  case (GuardRequest now r)
  with assms show ?thesis
    by (auto simp: request_session_def lookup_session_cases split: option.splits)
qed

text \<open>What may happen while a session is used: no logout of it, no guard later than \<open>now\<close>, no login that draws
  the same token again.\<close>

definition undisturbed :: "time \<Rightarrow> string \<Rightarrow> auth_action \<Rightarrow> bool" where
  "undisturbed now token a \<longleftrightarrow> \<not> logs_out token a \<and>
    (case a of
       GuardRequest t r \<Rightarrow> t \<le> now
     | LoginRequest t random r \<Rightarrow> map_option hex_encode random \<noteq> Some token
     | LogoutRequest r \<Rightarrow> True)"

lemma session_kept:
  assumes "am_sessions m token = Some sess" "token \<noteq> ''''" "now \<le> as_expires_at sess"
    and "list_all (undisturbed now token) acts"
  shows "am_sessions (perform_all be acts m) token = Some sess"
  using assms(4)
proof (induction acts rule: rev_induct)
  case Nil
  with assms(1) show ?case by (simp add: perform_all_def)
next
  case (snoc a acts)
  then have "am_sessions (perform_all be acts m) token = Some sess" by simp
  then have "am_sessions (perform be (perform_all be acts m) a) token = Some sess"
    by (rule perform_keeps_session) (use snoc.prems assms(2,3) in \<open>auto simp: undisturbed_def\<close>)
  then show ?case by (simp add: perform_all_def)
qed

lemma hex_encode_nonempty: "b \<noteq> [] \<Longrightarrow> hex_encode b \<noteq> ''''"
  by (cases b) (simp_all add: hex_encode_def)

text \<open>C31: A login with the right name and password answers 200 with a cookie; for 24 hours the guard accepts that
  cookie for the administrator, whatever other requests arrive in between, and once it is logged out
  the guard refuses it.\<close>

theorem login_session_logout:
  assumes "valid_login be m login" "handle_login be t (Some b) login m = (resp, m1)" "b \<noteq> []"
    and "now \<le> t + session_ttl" "\<not> exempt_path (rq_path r)" "rq_cookie r = Some (hex_encode b)"
    and "list_all (undisturbed now (hex_encode b)) acts" "m2 = perform_all be acts m1"
  shows "rs_status resp = 200 \<and> rs_cookie resp = Some \<lparr>ck_value = hex_encode b, ck_max_age = 24 * 3600\<rparr> \<and>
    middleware now h r (m2, s) = h (r\<lparr>rq_user := am_username m\<rparr>) (m2, s) \<and>
    (let m3 = snd (handle_logout (web_request ''POST'' ''/api/v1/auth/logout'' (rq_cookie r) []) m2)
     in middleware now h r (m3, s) = (write_auth_required, (m3, s)))"
proof -
  let ?tok = "hex_encode b"
  have tok: "?tok \<noteq> ''''" using assms(3) by (rule hex_encode_nonempty)
  have login: "(resp, m1) = open_session t (am_username m) ?tok m"
    using assms(1,2)
    by (cases rule: handle_login_cases [where be = be and m = m and r = login and random = "Some b" and now = t]) auto
  then have "am_sessions m1 ?tok = Some \<lparr>as_username = am_username m, as_expires_at = t + session_ttl\<rparr>"
    by (simp add: open_session_def)
  then have kept: "am_sessions m2 ?tok = Some \<lparr>as_username = am_username m, as_expires_at = t + session_ttl\<rparr>"
    unfolding assms(8) by (rule session_kept) (use tok assms(4,7) in auto)
  have "am_mode m1 = am_mode m"
    using login by (simp add: open_session_def)
  then have en: "enabled m2"
    using assms(1,8) perform_all_keeps [of be acts m1] by (auto simp: enabled_def valid_login_def)
  have "request_session now r m2 = (Some \<lparr>as_username = am_username m, as_expires_at = t + session_ttl\<rparr>, m2)"
    using kept tok assms(4,6) by (simp add: request_session_def lookup_session_cases)
  with middleware_admitted [OF en assms(5), of now h s]
  have served: "middleware now h r (m2, s) = h (r\<lparr>rq_user := am_username m\<rparr>) (m2, s)"
    by simp
  define m3 where "m3 = snd (handle_logout (web_request ''POST'' ''/api/v1/auth/logout'' (rq_cookie r) []) m2)"
  then have m3: "m3 = m2\<lparr>am_sessions := (am_sessions m2)(?tok := None)\<rparr>"
    using tok assms(6) by (simp add: handle_logout_def web_request_def)
  then have "enabled m3"
    using en by (simp add: enabled_def)
  moreover have "request_session now r m3 = (None, m3)"
    using tok assms(6) by (simp add: m3 request_session_def lookup_session_cases)
  ultimately have "middleware now h r (m3, s) = (write_auth_required, (m3, s))"
    using middleware_admitted [of m3, OF _ assms(5), of now h s] by simp
  with served login show ?thesis
    by (simp add: open_session_def Let_def m3_def)
qed

theorem login_session_logout_witness:
  "\<exists>resp m1. handle_login sample_bcrypt 3 (Some [0xff]) sample_login sample_manager = (resp, m1) \<and>
    rs_status resp = 200 \<and>
    middleware 5 (\<lambda>r s. (write_json 200 (json_strings [(''user'', rq_user r)]), s))
      (web_request ''GET'' ''/api/v1/tasks'' (Some (hex_encode [0xff])) []) (m1, ()) =
      (write_json 200 (json_strings [(''user'', ''admin'')]), (m1, ()))"
proof -
  obtain resp m1 where run: "handle_login sample_bcrypt 3 (Some [0xff]) sample_login sample_manager = (resp, m1)"
    by (cases "handle_login sample_bcrypt 3 (Some [0xff]) sample_login sample_manager")
  let ?r = "web_request ''GET'' ''/api/v1/tasks'' (Some (hex_encode [0xff])) []"
  have "\<not> exempt_path (rq_path ?r)" "rq_cookie ?r = Some (hex_encode [0xff])"
    by (simp_all add: exempt_path_def web_request_def)
  with run login_session_logout [OF valid_sample_login run, of 5 ?r "[]" m1
      "\<lambda>r s. (write_json 200 (json_strings [(''user'', rq_user r)]), s)" "()"]
  show ?thesis
    by (simp add: session_ttl_def perform_all_def sample_manager_def Let_def)
qed

subsection \<open>From the configuration to the guard\<close>

text \<open>A program that starts with a web interface is either told by the environment to run without
  authentication, or its guard is on and knows a password hash of the right format.  A program without
  web interface and without a hash keeps its guard on, and then no login succeeds, given that the
  password check refuses the empty hash.\<close>

theorem started_guard:
  assumes "load_config env = Inr cfg" "new_auth_manager be cfg = Inr m"
  shows "(\<not> enabled m \<longrightarrow> env ''WEB_AUTH_MODE'' = Some ''off'') \<and>
    (enabled m \<and> \<not> web_disable (cfg_web cfg) \<longrightarrow> am_hash m \<noteq> '''' \<and> be_valid be (am_hash m)) \<and>
    (am_hash m = '''' \<and> (\<forall>pw. \<not> be_matches be '''' pw) \<longrightarrow> \<not> valid_login be m r) \<and>
    am_sessions m = Map.empty"
proof -
  have mode: "am_mode m = web_auth_mode (cfg_web cfg)"
    and hash: "web_auth_mode (cfg_web cfg) = web_auth_simple \<and> web_admin_hash (cfg_web cfg) \<noteq> '''' \<Longrightarrow>
      am_hash m = web_admin_hash (cfg_web cfg) \<and> be_valid be (am_hash m)"
    and sess: "am_sessions m = Map.empty"
    using assms(2) by (auto simp: new_auth_manager_def Let_def split: if_splits)
  have "env ''WEB_AUTH_MODE'' = Some ''off''" if "\<not> enabled m"
    using that loaded_config_usable_modes [OF assms(1)] mode load_config_read [OF assms(1)]
      get_env_value [of env "''WEB_AUTH_MODE''" web_auth_simple "''off''"]
    by (auto simp: enabled_def web_auth_off_def web_auth_simple_def read_config_def read_web_def)
  moreover have "am_hash m \<noteq> '''' \<and> be_valid be (am_hash m)" if "enabled m" "\<not> web_disable (cfg_web cfg)"
    using that loaded_config_usable_modes [OF assms(1)] mode hash
    by (auto simp: enabled_def web_auth_off_def web_auth_simple_def)
  ultimately show ?thesis
    using sess by (auto simp: valid_login_def)
qed

theorem started_guard_witness:
  "\<exists>m. new_auth_manager sample_bcrypt (read_config git_environment) = Inr m \<and> am_hash m \<noteq> ''''"
proof -
  have w: "web_auth_mode (cfg_web (read_config git_environment)) = web_auth_simple"
    "web_admin_hash (cfg_web (read_config git_environment)) \<noteq> ''''"
    "\<not> web_disable (cfg_web (read_config git_environment))"
    by (simp_all add: read_config_def read_web_def get_env_def getenv_def get_bool_def get_parsed_def
        git_environment_def)
  then obtain m where m: "new_auth_manager sample_bcrypt (read_config git_environment) = Inr m" "enabled m"
    by (auto simp: new_auth_manager_def Let_def sample_bcrypt_def enabled_def)
  from started_guard [OF git_environment_loads m(1)] m w show ?thesis by blast
qed

end
