(* ===== verification/Router.thy ===== *)
theory Router
  imports Rest_Api Web_Auth
begin

section \<open>The HTTP routes (internal/api/router.go, system.go, static.go)\<close>

text \<open>
  The root handler: cross-origin headers, the public endpoints, the MCP endpoint behind its token, the
  REST interface behind the login guard, and the web files.  The handlers of the OpAMP and MCP
  libraries are parameters; logging is left out.  The state is the authentication manager and the
  state of the REST handlers; the random bytes of a login come with the request.
\<close>

subsection \<open>Paths\<close>

text \<open>The loop of \<open>splitPath\<close>: the segment so far and what is left of the path.\<close>

fun path_segments :: "string \<Rightarrow> string \<Rightarrow> string list" where
  "path_segments seg [] = (if seg \<noteq> [] then [seg] else [])"
| "path_segments seg (c # cs) =
     (if c = CHR ''/'' then (if seg \<noteq> [] then seg # path_segments [] cs else path_segments [] cs)
      else path_segments (seg @ [c]) cs)"

definition split_path :: "string \<Rightarrow> string list" where
  "split_path p = path_segments [] p"

text \<open>\<open>http.ServeMux\<close> redirects a path that is not in its clean form.\<close>

definition clean_url_path :: "string \<Rightarrow> string" where
  "clean_url_path p0 =
    (if p0 = '''' then ''/''
     else let p = (if hd p0 \<noteq> CHR ''/'' then CHR ''/'' # p0 else p0); np = clean_path p
          in if last p = CHR ''/'' \<and> np \<noteq> ''/'' then np @ ''/'' else np)"

definition redirect_to :: "string \<Rightarrow> response" where
  "redirect_to target = \<lparr>rs_status = 307, rs_headers = [(''Location'', target)], rs_cookie = None, rs_body = NoBody\<rparr>"

definition not_found :: response where
  "not_found = \<lparr>rs_status = 404, rs_headers = [], rs_cookie = None, rs_body = TextBody ''404 page not found''\<rparr>"

subsection \<open>Cross-origin requests\<close>

definition cors_headers :: "string list \<Rightarrow> string \<Rightarrow> (string \<times> string) list" where
  "cors_headers allowed origin =
    (if ''*'' \<in> set allowed then [(''Access-Control-Allow-Origin'', ''*'')]
     else [(''Access-Control-Allow-Origin'', origin), (''Vary'', ''Origin''),
           (''Access-Control-Allow-Credentials'', ''true'')]) @
    [(''Access-Control-Allow-Methods'', ''GET, POST, DELETE, OPTIONS''),
     (''Access-Control-Allow-Headers'', ''Content-Type, Authorization'')]"

definition cors_middleware :: "string list \<Rightarrow> 's handler \<Rightarrow> 's handler" where
  "cors_middleware allowed next_handler r s =
    (let origin = get_value (rq_headers r) ''Origin'';
         match = origin \<in> set (filter (\<lambda>o'. o' \<noteq> ''*'') allowed)
     in if origin \<noteq> '''' \<and> (''*'' \<in> set allowed \<or> match) then
          (if rq_method r = ''OPTIONS'' then
             (\<lparr>rs_status = 204, rs_headers = cors_headers allowed origin, rs_cookie = None, rs_body = NoBody\<rparr>, s)
           else case next_handler r s of
               (resp, s1) \<Rightarrow> (resp\<lparr>rs_headers := cors_headers allowed origin @ rs_headers resp\<rparr>, s1))
        else next_handler r s)"

subsection \<open>The web files\<close>

text \<open>
  \<open>spa_handler\<close> serves a file of the given tree (a map from clean paths to contents), the start page for
  a path without extension, and 404 for a missing file with one.  The standard file server redirects
  a request for a start page to its directory.
\<close>

definition path_base :: "string \<Rightarrow> string" where
  "path_base p = last (split_on (CHR ''/'') p)"

definition text_response :: "nat \<Rightarrow> string \<Rightarrow> response" where
  "text_response code body = \<lparr>rs_status = code, rs_headers = [], rs_cookie = None, rs_body = TextBody body\<rparr>"

definition spa_handler :: "(string \<rightharpoonup> string) \<Rightarrow> request \<Rightarrow> response" where
  "spa_handler files r =
    (let clean = trim_prefix ''/'' (clean_path (rq_path r)) in
     case (if clean \<noteq> '''' then files clean else None) of
       Some content \<Rightarrow>
         if has_suffix ''/index.html'' (rq_path r) then (text_response 301 '''')\<lparr>rs_headers := [(''Location'', ''./'')]\<rparr>
         else text_response 200 content
     | None \<Rightarrow>
         if clean \<noteq> '''' \<and> contains ''.'' (path_base clean) then not_found
         else case files ''index.html'' of
             None \<Rightarrow> text_response 503 ''''
           | Some page \<Rightarrow> (text_response 200 page)\<lparr>rs_headers := [(''Content-Type'', ''text/html; charset=utf-8'')]\<rparr>)"

subsection \<open>System information\<close>

definition version_text :: string where
  "version_text = ''1.1.0''"

definition system_info :: "auth_manager \<Rightarrow> bool \<Rightarrow> bool \<Rightarrow> string \<Rightarrow> bool \<Rightarrow> request \<Rightarrow> response" where
  "system_info m demo mcp_auth_on source git_enabled r =
    (if rq_method r \<noteq> ''GET'' then write_error 405 (ApiMethodOnly ''GET'')
     else write_json 200 (FieldsBody
       [(''version'', JStr version_text), (''auth_mode'', JStr (if enabled m then ''simple'' else ''off'')),
        (''demo_mode'', JBool demo), (''mcp_auth'', JBool mcp_auth_on),
        (''config_source'', JStr (if source = '''' then ''builtin'' else source)),
        (''git_enabled'', JBool git_enabled)]))"

subsection \<open>Routes\<close>

type_synonym server_state = "auth_manager \<times> app_state"

record router =
  rt_handlers :: handlers
  rt_bcrypt :: bcrypt_env
  rt_opamp :: api_handler
  rt_mcp :: api_handler
  rt_web :: "(request \<Rightarrow> response) option"
  rt_cors :: "string list"
  rt_demo :: bool
  rt_mcp_token :: string
  rt_config_source :: string

definition on_app :: "api_handler \<Rightarrow> server_state handler" where
  "on_app h r st = (case st of (m, a) \<Rightarrow> (case h r a of (resp, a1) \<Rightarrow> (resp, (m, a1))))"

definition answer :: "(request \<Rightarrow> response) \<Rightarrow> server_state handler" where
  "answer f r st = (f r, st)"

definition unknown_path :: "server_state handler" where
  "unknown_path = answer (\<lambda>_. write_error 404 ApiUnknownPath)"

definition session_action :: "server_state handler" where
  "session_action r =
    (let parts = split_path (rq_path r) in
     if length parts = 5 \<and> parts ! 4 = ''tasks'' then on_app (list_session_tasks (parts ! 3)) r
     else if length parts = 5 \<and> parts ! 4 = ''messages'' then on_app (list_session_messages (parts ! 3)) r
     else if length parts \<noteq> 4 then unknown_path r
     else on_app (get_session_by_id (parts ! 3)) r)"

definition task_action :: "handlers \<Rightarrow> server_state handler" where
  "task_action h r =
    (let parts = split_path (rq_path r) in
     if length parts < 4 then answer (\<lambda>_. write_error 404 ApiTaskMissing) r
     else let tid = parts ! 3; action = (if length parts \<ge> 5 then parts ! 4 else '''') in
       if action = '''' then on_app (get_task_handler tid) r
       else if action = ''approve'' then on_app (approve_task_handler h tid) r
       else if action = ''reject'' then on_app (reject_task_handler tid) r
       else if action = ''diff'' then on_app (get_task_diff tid) r
       else answer (\<lambda>_. write_error 404 ApiUnknownAction) r)"

definition collector_action :: "server_state handler" where
  "collector_action r =
    (let parts = split_path (rq_path r) in
     if length parts = 5 \<and> parts ! 4 = ''versions'' then on_app (list_versions (parts ! 3)) r
     else if length parts = 4 then on_app (get_collector_json (parts ! 3)) r
     else unknown_path r)"

text \<open>The paths with a handler of their own.\<close>

definition exact_routes :: "handlers \<Rightarrow> (string \<times> server_state handler) list" where
  "exact_routes h =
    [(''/api/v1/sessions'', on_app (handle_sessions h)),
     (''/api/v1/chat'', on_app (chat_handler h)),
     (''/api/v1/tasks/apply'', on_app (apply_task_handler h)),
     (''/api/v1/tasks/rollback'', on_app (rollback_task_handler h)),
     (''/api/v1/tasks'', on_app list_tasks_handler),
     (''/api/v1/collectors'', on_app list_collectors_handler),
     (''/api/v1/audit'', on_app list_audit_handler),
     (''/api/v1/stats'', on_app stats_handler),
     (''/api/v1/stats/ops'', on_app stats_ops_handler),
     (''/api/v1/git/status'', on_app (git_status_handler h)),
     (''/api/v1/git/commits'', on_app (git_commits_handler h)),
     (''/api/v1/git/file'', on_app (git_file_handler h))]"

definition subtree_routes :: "handlers \<Rightarrow> (string \<times> server_state handler) list" where
  "subtree_routes h =
    [(''/api/v1/sessions/'', session_action), (''/api/v1/tasks/'', task_action h),
     (''/api/v1/collectors/'', collector_action)]"

text \<open>The routes of the login, which work on the manager.\<close>

definition auth_routes :: "router \<Rightarrow> 8 word list option \<Rightarrow> (string \<times> server_state handler) list" where
  "auth_routes rt random =
    [(''/api/v1/auth/login'', \<lambda>r (m, a). let (resp, m1) = handle_login (rt_bcrypt rt) (app_now a) random r m in (resp, (m1, a))),
     (''/api/v1/auth/logout'', \<lambda>r (m, a). let (resp, m1) = handle_logout r m in (resp, (m1, a))),
     (''/api/v1/auth/me'', \<lambda>r (m, a). (handle_me r m, (m, a))),
     (''/api/v1/system/info'', \<lambda>r (m, a). (system_info m (rt_demo rt) (rt_mcp_token rt \<noteq> '''') (rt_config_source rt)
        (hd_git (rt_handlers rt) \<noteq> None \<and> rt_config_source rt = ''git'') r, (m, a)))]"

definition api_mux :: "router \<Rightarrow> 8 word list option \<Rightarrow> server_state handler" where
  "api_mux rt random r =
    (case map_of (auth_routes rt random @ exact_routes (rt_handlers rt)) (rq_path r) of
       Some h \<Rightarrow> h r
     | None \<Rightarrow>
         (case List.find (\<lambda>(p, _). has_prefix p (rq_path r)) (subtree_routes (rt_handlers rt)) of
            Some (_, h) \<Rightarrow> h r
          | None \<Rightarrow> answer (\<lambda>_. write_error 404 ApiUnknownEndpoint) r))"

definition root_mux :: "router \<Rightarrow> 8 word list option \<Rightarrow> server_state handler" where
  "root_mux rt random r st =
    (let p = rq_path r in
     if clean_url_path p \<noteq> p then (redirect_to (clean_url_path p), st)
     else if p = ''/v1/opamp'' then on_app (rt_opamp rt) r st
     else if p = ''/mcp'' then on_app (mcp_auth (rt_mcp_token rt) (rt_mcp rt)) r st
     else if p = ''/healthz'' then on_app healthz r st
     else if has_prefix ''/api/'' p then middleware (app_now (snd st)) (api_mux rt random) r st
     else if p = ''/api'' then (redirect_to ''/api/'', st)
     else case rt_web rt of
         Some web \<Rightarrow> (web r, st)
       | None \<Rightarrow> (not_found, st))"

definition serve :: "router \<Rightarrow> 8 word list option \<Rightarrow> server_state handler" where
  "serve rt random =
    (if rt_cors rt \<noteq> [] then cors_middleware (rt_cors rt) (root_mux rt random) else root_mux rt random)"

end
