(* ===== verification/Rest_Safety.thy ===== *)
theory Rest_Safety
  imports Router
begin

section \<open>The interface as a whole\<close>

text \<open>
  What holds for requests to the root handler: which requests change something, which ones the guard
  lets through, when a configuration can reach a Collector, and what the handlers of changes do on
  every branch.
\<close>

subsection \<open>Paths\<close>

lemma path_segments_split:
  "path_segments seg cs = filter (\<lambda>w. w \<noteq> []) ((seg @ hd (split_on (CHR ''/'') cs)) # tl (split_on (CHR ''/'') cs))"
proof (induction seg cs rule: path_segments.induct)
  case (1 seg)
  show ?case by simp
next
  case (2 seg c cs)
  obtain w ws where "split_on (CHR ''/'') cs = w # ws"
    using split_on_nonempty by (cases "split_on (CHR ''/'') cs") auto
  with 2 show ?case by auto
qed

text \<open>The loop yields the non-empty segments between the slashes.\<close>

lemma split_path_eq: "split_path p = filter (\<lambda>w. w \<noteq> []) (split_on (CHR ''/'') p)"
  using split_on_nonempty [of "CHR ''/''" p] by (cases "split_on (CHR ''/'') p") (simp_all add: split_path_def path_segments_split)

subsection \<open>Only the login routes touch the sessions\<close>

definition keeps_manager :: "server_state handler \<Rightarrow> bool" where
  "keeps_manager h \<longleftrightarrow> (\<forall>r st. fst (snd (h r st)) = fst st)"

lemma keeps_manager_on_app [simp]: "keeps_manager (on_app h)"
  by (simp add: keeps_manager_def on_app_def split: prod.split)

lemma keeps_manager_answer [simp]: "keeps_manager (answer f)"
  by (simp add: keeps_manager_def answer_def)

lemma keepsD: "keeps_manager h \<Longrightarrow> fst (snd (h r st)) = fst st"
  unfolding keeps_manager_def by blast

lemma keeps_manager_actions:
  "keeps_manager session_action" "keeps_manager (task_action h)" "keeps_manager collector_action"
  unfolding keeps_manager_def session_action_def task_action_def collector_action_def unknown_path_def Let_def
  by (simp_all add: keepsD)

lemma keeps_manager_routes:
  "(p, f) \<in> set (exact_routes h) \<Longrightarrow> keeps_manager f"
  "(p, f) \<in> set (subtree_routes h) \<Longrightarrow> keeps_manager f"
  by (auto simp: exact_routes_def subtree_routes_def keeps_manager_actions)

definition login_path :: string where
  "login_path = ''/api/v1/auth/login''"

definition logout_path :: string where
  "logout_path = ''/api/v1/auth/logout''"

lemma handle_login_user [simp]: "handle_login be now random (r\<lparr>rq_user := u\<rparr>) m = handle_login be now random r m"
  by (simp add: handle_login_def)

lemma handle_logout_user [simp]: "handle_logout (r\<lparr>rq_user := u\<rparr>) m = handle_logout r m"
  by (simp add: handle_logout_def)

lemma find_in_set: "List.find P xs = Some x \<Longrightarrow> x \<in> set xs"
  by (auto simp: find_Some_iff)

lemma api_mux_manager:
  "fst (snd (api_mux rt random r (m, a))) =
    (if rq_path r = login_path then snd (handle_login (rt_bcrypt rt) (app_now a) random r m)
     else if rq_path r = logout_path then snd (handle_logout r m) else m)"
proof (cases "map_of (auth_routes rt random) (rq_path r)")
  case None
  then have other: "rq_path r \<noteq> login_path" "rq_path r \<noteq> logout_path"
    by (auto simp: auth_routes_def login_path_def logout_path_def split: if_splits)
  show ?thesis
  proof (cases "map_of (exact_routes (rt_handlers rt)) (rq_path r)")
    case None
    with \<open>map_of (auth_routes rt random) (rq_path r) = None\<close> other show ?thesis
      by (auto simp: api_mux_def map_add_def keepsD [OF keeps_manager_answer] split: option.split
          dest!: find_in_set keeps_manager_routes(2) keepsD [of _ r "(m, a)"])
  next
    case (Some f)
    then have "keeps_manager f"
      by (auto dest: map_of_SomeD keeps_manager_routes(1))
    with Some \<open>map_of (auth_routes rt random) (rq_path r) = None\<close> other show ?thesis
      by (simp add: api_mux_def map_add_def keepsD)
  qed
next
  case (Some f)
  then show ?thesis
    by (auto simp: api_mux_def map_add_def auth_routes_def login_path_def logout_path_def case_prod_beta Let_def
        split: if_splits)
qed

text \<open>What a request does to the manager: the guard's look-up, then the login or logout it asks for.\<close>

definition request_actions :: "time \<Rightarrow> 8 word list option \<Rightarrow> request \<Rightarrow> auth_action list" where
  "request_actions now random r =
    GuardRequest now r #
    (if rq_path r = login_path then [LoginRequest now random r]
     else if rq_path r = logout_path then [LogoutRequest r] else [])"

lemma exempt_login: "exempt_path login_path" "exempt_path logout_path"
  by (simp_all add: exempt_path_def login_path_def logout_path_def)

lemma middleware_manager:
  assumes "enabled m"
  shows "fst (snd (middleware (app_now a) (api_mux rt random) r (m, a))) =
    perform_all (rt_bcrypt rt) (request_actions (app_now a) random r) m"
proof (cases "request_session (app_now a) r m")
  case (Pair res m1)
  then show ?thesis
    using assms exempt_login
    by (cases res) (auto simp: middleware_def perform_all_def request_actions_def api_mux_manager)
qed

definition preflight :: "router \<Rightarrow> request \<Rightarrow> bool" where
  "preflight rt r \<longleftrightarrow> rt_cors rt \<noteq> [] \<and> rq_method r = ''OPTIONS'' \<and>
    (let origin = get_value (rq_headers r) ''Origin'' in
     origin \<noteq> '''' \<and> (''*'' \<in> set (rt_cors rt) \<or> origin \<in> set (rt_cors rt)))"

lemma serve_cases:
  "(preflight rt r \<and> snd (serve rt random r st) = st \<and> rs_status (fst (serve rt random r st)) = 204) \<or>
   (\<not> preflight rt r \<and> snd (serve rt random r st) = snd (root_mux rt random r st) \<and>
     rs_status (fst (serve rt random r st)) = rs_status (fst (root_mux rt random r st)) \<and>
     rs_body (fst (serve rt random r st)) = rs_body (fst (root_mux rt random r st)))"
  by (auto simp: serve_def cors_middleware_def preflight_def Let_def split: prod.splits)

definition api_path :: "string \<Rightarrow> bool" where
  "api_path p \<longleftrightarrow> has_prefix ''/api/'' p \<and> clean_url_path p = p"

lemma root_mux_api:
  "api_path (rq_path r) \<Longrightarrow> root_mux rt random r st = middleware (app_now (snd st)) (api_mux rt random) r st"
  by (auto simp: root_mux_def api_path_def Let_def)

lemma root_mux_other:
  "\<not> api_path (rq_path r) \<Longrightarrow> fst (snd (root_mux rt random r st)) = fst st"
  by (auto simp: root_mux_def api_path_def Let_def keepsD split: option.split)

lemma api_login_paths: "api_path login_path" "api_path logout_path"
  by (simp_all add: api_path_def login_path_def logout_path_def) code_simp+

lemma serve_manager:
  assumes "enabled m"
  shows "fst (snd (serve rt random r (m, a))) =
    (if \<not> preflight rt r \<and> api_path (rq_path r)
     then perform_all (rt_bcrypt rt) (request_actions (app_now a) random r) m else m)"
  using serve_cases [of rt r random "(m, a)"] middleware_manager [OF assms, of a rt random r]
  by (auto simp: root_mux_api root_mux_other)

lemma serve_enabled: "enabled m \<Longrightarrow> enabled (fst (snd (serve rt random r (m, a))))"
  using perform_all_keeps [of "rt_bcrypt rt" "request_actions (app_now a) random r" m]
  by (simp add: serve_manager enabled_def)

text \<open>A logout of a session through the interface.\<close>

definition logout_request :: "string \<Rightarrow> request \<Rightarrow> bool" where
  "logout_request token r \<longleftrightarrow> rq_path r = logout_path \<and> rq_method r = ''POST'' \<and> rq_cookie r = Some token"

lemma serve_session:
  assumes "enabled m" "am_sessions (fst (snd (serve rt random r (m, a)))) token = Some sess" "token \<noteq> ''''"
  shows "(am_sessions m token = Some sess \<and> \<not> logout_request token r) \<or>
    (\<exists>b. random = Some b \<and> hex_encode b = token \<and> rq_path r = login_path \<and> valid_login (rt_bcrypt rt) m r \<and>
      sess = \<lparr>as_username = am_username m, as_expires_at = app_now a + session_ttl\<rparr>)"
proof (cases "\<not> preflight rt r \<and> api_path (rq_path r)")
  case False
  then have "\<not> logout_request token r"
    using api_login_paths by (auto simp: logout_request_def preflight_def)
  with False assms show ?thesis by (auto simp: serve_manager)
next
  case True
  let ?be = "rt_bcrypt rt" and ?now = "app_now a"
  define m1 where "m1 = perform ?be m (GuardRequest ?now r)"
  have m1: "am_mode m1 = am_mode m" "am_hash m1 = am_hash m" "am_username m1 = am_username m"
    using perform_keeps [of ?be m "GuardRequest ?now r"] by (simp_all add: m1_def)
  have guard: "am_sessions m token = Some sess" if "am_sessions m1 token = Some sess"
    using that request_session_removes [of ?now r m token] by (auto simp: m1_def)
  from True assms have "am_sessions (perform_all ?be (request_actions ?now random r) m) token = Some sess"
    by (simp add: serve_manager)
  then have after: "am_sessions (perform_all ?be (tl (request_actions ?now random r)) m1) token = Some sess"
    by (simp add: request_actions_def perform_all_def m1_def)
  consider "rq_path r = login_path" | "rq_path r = logout_path" | "rq_path r \<noteq> login_path" "rq_path r \<noteq> logout_path"
    by blast
  then show ?thesis
  proof cases
    case 1
    with after have "am_sessions (perform ?be m1 (LoginRequest ?now random r)) token = Some sess"
      by (simp add: request_actions_def perform_all_def)
    from perform_session [OF this] show ?thesis
      using guard 1 m1 valid_login_cong [of m1 m ?be r]
      by (auto simp: logout_request_def login_path_def logout_path_def)
  next
    case 2
    then have "rq_path r \<noteq> login_path" by (simp add: login_path_def logout_path_def)
    with 2 after have "am_sessions (perform ?be m1 (LogoutRequest r)) token = Some sess"
      by (simp add: request_actions_def perform_all_def)
    from perform_session [OF this] show ?thesis
      using guard assms(3) by (auto simp: logout_request_def logs_out_def)
  next
    case 3
    with after guard show ?thesis
      by (simp add: request_actions_def perform_all_def logout_request_def)
  qed
qed

subsection \<open>Runs of the server\<close>

text \<open>
  One step of a run: what the rest of the system did to the state since the last request (time passes,
  Collectors report), the random bytes at hand, and the request.
\<close>

type_synonym http_event = "(app_state \<Rightarrow> app_state) \<times> 8 word list option \<times> request"

definition serve_event :: "router \<Rightarrow> server_state \<Rightarrow> http_event \<Rightarrow> server_state" where
  "serve_event rt st ev = (case (st, ev) of ((m, a), (f, random, r)) \<Rightarrow> snd (serve rt random r (m, f a)))"

definition run_server :: "router \<Rightarrow> http_event list \<Rightarrow> server_state \<Rightarrow> server_state" where
  "run_server rt evs st = foldl (serve_event rt) st evs"

definition logs_in :: "router \<Rightarrow> auth_manager \<Rightarrow> 8 word list \<Rightarrow> http_event \<Rightarrow> bool" where
  "logs_in rt m b ev \<longleftrightarrow> (\<exists>f r. ev = (f, Some b, r) \<and> rq_path r = login_path \<and> valid_login (rt_bcrypt rt) m r)"

definition logs_out_event :: "string \<Rightarrow> http_event \<Rightarrow> bool" where
  "logs_out_event token ev \<longleftrightarrow> logout_request token (snd (snd ev))"

lemma serve_keeps_credentials:
  "enabled m \<Longrightarrow> am_mode (fst (snd (serve rt random r (m, a)))) = am_mode m \<and>
    am_hash (fst (snd (serve rt random r (m, a)))) = am_hash m \<and>
    am_username (fst (snd (serve rt random r (m, a)))) = am_username m"
  using perform_all_keeps by (simp add: serve_manager)

lemma run_server_snoc: "run_server rt (evs @ [(f, b, r)]) st =
    snd (serve rt b r (fst (run_server rt evs st), f (snd (run_server rt evs st))))"
  by (simp add: run_server_def serve_event_def case_prod_beta)

lemma run_server_credentials:
  assumes "enabled m0"
  shows "am_mode (fst (run_server rt evs (m0, a0))) = am_mode m0 \<and>
    am_hash (fst (run_server rt evs (m0, a0))) = am_hash m0 \<and>
    am_username (fst (run_server rt evs (m0, a0))) = am_username m0"
proof (induction evs rule: rev_induct)
  case Nil
  show ?case by (simp add: run_server_def)
next
  case (snoc ev evs)
  obtain f b r where ev: "ev = (f, b, r)" by (cases ev)
  from snoc assms have "enabled (fst (run_server rt evs (m0, a0)))"
    by (simp add: enabled_def)
  from serve_keeps_credentials [OF this] snoc show ?case
    by (simp add: ev run_server_snoc)
qed

lemma server_session_history:
  assumes "am_sessions m0 = Map.empty" "enabled m0" "token \<noteq> ''''"
    and "am_sessions (fst (run_server rt evs (m0, a0))) token = Some sess"
  shows "\<exists>before ev later b. evs = before @ ev # later \<and> logs_in rt m0 b ev \<and> hex_encode b = token \<and>
    sess = \<lparr>as_username = am_username m0,
      as_expires_at = app_now (fst ev (snd (run_server rt before (m0, a0)))) + session_ttl\<rparr> \<and>
    (\<forall>e \<in> set later. \<not> logs_out_event token e)"
  using assms(4)
proof (induction evs arbitrary: sess rule: rev_induct)
  case Nil
  with assms(1) show ?case by (simp add: run_server_def)
next
  case (snoc ev evs)
  obtain f random r where ev: "ev = (f, random, r)" by (cases ev)
  let ?m = "fst (run_server rt evs (m0, a0))" and ?a = "f (snd (run_server rt evs (m0, a0)))"
  have creds: "am_mode ?m = am_mode m0" "am_hash ?m = am_hash m0" "am_username ?m = am_username m0"
    using run_server_credentials [OF assms(2)] by auto
  then have en: "enabled ?m"
    using assms(2) by (simp add: enabled_def)
  have "am_sessions (fst (snd (serve rt random r (?m, ?a)))) token = Some sess"
    using snoc.prems by (simp add: ev run_server_snoc)
  from serve_session [OF en this assms(3)] show ?case
  proof (elim disjE conjE exE)
    assume "am_sessions ?m token = Some sess" and r: "\<not> logout_request token r"
    from snoc.IH [OF this(1)] obtain before e later b where
      "evs = before @ e # later" "logs_in rt m0 b e" "hex_encode b = token"
      "sess = \<lparr>as_username = am_username m0,
        as_expires_at = app_now (fst e (snd (run_server rt before (m0, a0)))) + session_ttl\<rparr>"
      "\<forall>e \<in> set later. \<not> logs_out_event token e"
      by blast
    with r show ?thesis
      by (intro exI [of _ before] exI [of _ e] exI [of _ "later @ [ev]"] exI [of _ b])
        (auto simp: ev logs_out_event_def)
  next
    fix b
    assume "random = Some b" "hex_encode b = token" "rq_path r = login_path" "valid_login (rt_bcrypt rt) ?m r"
      "sess = \<lparr>as_username = am_username ?m, as_expires_at = app_now ?a + session_ttl\<rparr>"
    then show ?thesis
      using creds valid_login_cong [of ?m m0 "rt_bcrypt rt" r]
      by (intro exI [of _ evs] exI [of _ ev] exI [of _ "[]"] exI [of _ b]) (auto simp: ev logs_in_def)
  qed
qed

text \<open>C4: Over any run of the protected server, a request to a path of the REST interface outside the login
  pages either gets 401 (or the empty answer to a preflight) and changes nothing of the application, or
  its cookie is the token of an earlier login of the administrator with a matching password, not more
  than 24 hours old, and no logout of that token came in between.\<close>

theorem protected_request_had_login:
  assumes "am_sessions m0 = Map.empty" "enabled m0" "(m, a) = run_server rt evs (m0, a0)"
    and "api_path (rq_path r)" "\<not> exempt_path (rq_path r)"
  shows "(rs_status (fst (serve rt random r (m, a))) \<in> {204, 401} \<and> snd (snd (serve rt random r (m, a))) = a) \<or>
    (\<exists>before ev later b. evs = before @ ev # later \<and> logs_in rt m0 b ev \<and> rq_cookie r = Some (hex_encode b) \<and>
      app_now a \<le> app_now (fst ev (snd (run_server rt before (m0, a0)))) + session_ttl \<and>
      (\<forall>e \<in> set later. \<not> logs_out_event (hex_encode b) e))"
proof -
  have "am_mode m = am_mode m0"
    using run_server_credentials [OF assms(2), of rt evs a0] assms(3) by (metis fst_conv)
  then have en: "enabled m"
    using assms(2) by (simp add: enabled_def)
  let ?now = "app_now a"
  show ?thesis
  proof (cases "fst (request_session ?now r m)")
    case None
    with middleware_admitted [OF en assms(5), of ?now "api_mux rt random" a]
    have "root_mux rt random r (m, a) = (write_auth_required, (snd (request_session ?now r m), a))"
      by (simp add: root_mux_api [OF assms(4)])
    with serve_cases [of rt r random "(m, a)"] show ?thesis
      by (auto simp: write_auth_required_def)
  next
    case (Some sess)
    then have "request_session ?now r m = (Some sess, snd (request_session ?now r m))"
      by (metis prod.collapse)
    from request_session_SomeD [OF this] obtain token where tok: "rq_cookie r = Some token" "token \<noteq> ''''"
      "am_sessions m token = Some sess" "?now \<le> as_expires_at sess"
      by blast
    with server_session_history [OF assms(1,2) tok(2), of rt evs a0 sess] assms(3)
    show ?thesis by (metis auth_session.select_convs(2) fst_conv)
  qed
qed

definition sample_handlers :: handlers where
  "sample_handlers = new_handlers sample_deps None '''' (\<lambda>sess msg s. (Inr ''ok'', s))"

definition sample_router :: router where
  "sample_router = \<lparr>rt_handlers = sample_handlers, rt_bcrypt = sample_bcrypt,
    rt_opamp = (\<lambda>r a. (not_found, a)), rt_mcp = (\<lambda>r a. (not_found, a)), rt_web = None, rt_cors = [],
    rt_demo = False, rt_mcp_token = '''', rt_config_source = ''builtin''\<rparr>"

definition sample_app :: "sql_db \<Rightarrow> app_state" where
  "sample_app d = \<lparr>ap_tools = sample_state d, ap_repo = \<lparr>gr_dir = '''', gr_timeout = git_default_timeout,
    gr_cached_at = zero_time, gr_cached = None\<rparr>\<rparr>"

definition wrong_login :: request where
  "wrong_login = web_request ''POST'' ''/api/v1/auth/login'' None
    [(''username'', JStr ''admin''), (''password'', JStr ''guess'')]"

lemma not_valid_wrong_login: "\<not> valid_login sample_bcrypt sample_manager wrong_login"
  by (simp add: valid_login_def wrong_login_def web_request_def decode_strings_def decode_struct_def
      decode_string_def equal_fold_def to_lower_def lower_char_def sample_bcrypt_def sample_manager_def)

lemma api_path_tasks: "api_path ''/api/v1/tasks''" "\<not> exempt_path ''/api/v1/tasks''"
  by (simp_all add: api_path_def exempt_path_def) code_simp+

theorem protected_request_had_login_witness:
  "let st = run_server sample_router [(id, Some [0xff], wrong_login)] (sample_manager, sample_app empty_db);
       r = web_request ''GET'' ''/api/v1/tasks'' (Some (hex_encode [0xff])) []
   in rs_status (fst (serve sample_router None r st)) \<in> {204, 401} \<and> snd (snd (serve sample_router None r st)) = snd st"
proof -
  let ?evs = "[(id, Some [0xff], wrong_login)] :: http_event list"
  let ?r = "web_request ''GET'' ''/api/v1/tasks'' (Some (hex_encode [0xff])) []"
  let ?st = "run_server sample_router ?evs (sample_manager, sample_app empty_db)"
  obtain m a where st: "(m, a) = ?st" by (metis prod.collapse)
  have "rq_path ?r = ''/api/v1/tasks''" by (simp add: web_request_def)
  then have "api_path (rq_path ?r)" "\<not> exempt_path (rq_path ?r)"
    using api_path_tasks by simp_all
  moreover have "\<not> logs_in sample_router sample_manager b ev" if "?evs = before @ ev # later" for before ev later b
    using that not_valid_wrong_login by (cases before) (auto simp: logs_in_def sample_router_def)
  ultimately have "rs_status (fst (serve sample_router None ?r (m, a))) \<in> {204, 401} \<and>
      snd (snd (serve sample_router None ?r (m, a))) = a"
    using protected_request_had_login [OF _ _ st, of ?r None]
    by (auto simp: sample_manager_def enabled_def)
  then show ?thesis
    by (simp add: Let_def st [symmetric])
qed

subsection \<open>Reading requests\<close>

text \<open>
  Two states are indistinct when they differ in nothing but the outcomes the database still has in
  store and the cache of the repository.
\<close>

definition tables_of :: "sql_db \<Rightarrow> sql_db" where
  "tables_of d = d\<lparr>db_faults := []\<rparr>"

definition reads :: "'a db_op \<Rightarrow> bool" where
  "reads m \<longleftrightarrow> (\<forall>d. tables_of (snd (m d)) = tables_of d)"

definition indistinct :: "app_state \<Rightarrow> app_state \<Rightarrow> bool" where
  "indistinct a a' \<longleftrightarrow>
    on_opamp (os_db_update tables_of) (ap_tools a') = on_opamp (os_db_update tables_of) (ap_tools a)"

lemma indistinct_refl [simp]: "indistinct a a"
  by (simp add: indistinct_def)

lemma indistinct_trans: "indistinct a b \<Longrightarrow> indistinct b c \<Longrightarrow> indistinct a c"
  by (simp add: indistinct_def)

lemma indistinct_repo [simp]: "indistinct a (b\<lparr>ap_repo := g\<rparr>) \<longleftrightarrow> indistinct a b"
  by (simp add: indistinct_def)

lemma reads_query [simp]: "reads (query f)"
  by (auto simp: reads_def query_def tables_of_def take_outcome_def split: prod.splits list.splits db_outcome.splits)

lemma reads_ret [simp]: "reads (ret x)"
  by (simp add: reads_def ret_def)

lemma reads_fail [simp]: "reads (fail e)"
  by (simp add: reads_def fail_def)

lemma reads_and_then:
  assumes "reads m" "\<And>x. reads (k x)"
  shows "reads (and_then m k)"
proof -
  have "tables_of (snd (and_then m k d)) = tables_of d" for d
  proof (cases "m d")
    case (Pair res d1)
    with assms(1) have "tables_of d1 = tables_of d" by (metis reads_def snd_conv)
    with Pair assms(2) show ?thesis by (cases res) (auto simp: reads_def)
  qed
  then show ?thesis by (simp add: reads_def)
qed

lemma reads_map_no_rows [simp]: "reads (map_no_rows x)"
  by (cases x) (simp_all add: map_no_rows_def)

lemma reads_queries:
  "reads (list_sessions p n)" "reads (list_tasks f p n)" "reads (list_collectors p n)" "reads (list_audit g p n)"
  "reads (list_config_versions uid p n)" "reads (list_messages sid b c l)" "reads (get_session sid)"
  "reads (get_task tid)" "reads (get_collector uid)" "reads (session_exists sid)" "reads count_sessions"
  "reads count_collectors_by_status" "reads count_tasks_by_status" "reads (list_task_events t)" "reads ping"
  by (simp_all add: list_sessions_def list_tasks_def list_collectors_def list_audit_def list_config_versions_def
      list_messages_def get_session_def get_task_def get_collector_def session_exists_def count_sessions_def
      count_collectors_by_status_def count_tasks_by_status_def list_task_events_def ping_def query_row_def
      reads_and_then Let_def)

lemma on_store_indistinct:
  assumes "reads m" "on_store m a = (res, a1)"
  shows "indistinct a a1"
proof -
  have "a1 = a\<lparr>ap_tools := on_opamp (os_db_update (\<lambda>_. snd (m (tdb (ap_tools a))))) (ap_tools a)\<rparr>"
    using assms(2) by (simp add: on_store_def on_tools_def on_db_eq)
  moreover have "tables_of (snd (m (tdb (ap_tools a)))) = tables_of (tdb (ap_tools a))"
    using assms(1) by (simp add: reads_def)
  ultimately show ?thesis
    by (simp add: indistinct_def on_opamp_def)
qed

text \<open>A handler that reads: it leaves an indistinct state.\<close>

definition reading :: "api_handler \<Rightarrow> bool" where
  "reading h \<longleftrightarrow> (\<forall>r a. indistinct a (snd (h r a)))"

definition safe_get :: "api_handler \<Rightarrow> bool" where
  "safe_get h \<longleftrightarrow> (\<forall>r a. rq_method r = ''GET'' \<longrightarrow> indistinct a (snd (h r a)))"

lemma safe_post_only: "safe_get (only ''POST'' h)"
  by (simp add: safe_get_def only_def)

lemma safe_get_only: "(\<And>r a. indistinct a (snd (h r a))) \<Longrightarrow> safe_get (only ''GET'' h)"
  by (simp add: safe_get_def only_def)

text \<open>The shape of most handlers: one operation of the store, and a case for its error and its value.\<close>

lemma indistinct_case:
  assumes "reads m" "\<And>e a1. indistinct a1 (snd (f e a1))" "\<And>x a1. indistinct a1 (snd (g x a1))"
  shows "indistinct a (snd (case on_store m a of (Inl e, a1) \<Rightarrow> f e a1 | (Inr x, a1) \<Rightarrow> g x a1))"
proof (cases "on_store m a")
  case (Pair res a1)
  with on_store_indistinct [OF assms(1) Pair] assms(2,3) show ?thesis
    by (cases res) (auto intro: indistinct_trans)
qed

lemma write_list_reading:
  assumes "\<And>p n. reads (lister p n)"
  shows "indistinct a (snd (write_list lister body what r a))"
  using assms by (auto simp: write_list_def split: sum.split option.split prod.split intro: on_store_indistinct)

lemmas store_reads = reads_queries [THEN on_store_indistinct]

lemma session_handlers_safe:
  "safe_get (create_session_handler h)" "safe_get (chat_handler h)" "safe_get (handle_sessions h)"
  "safe_get (get_session_by_id sid)"
proof -
  show "safe_get (create_session_handler h)" "safe_get (chat_handler h)"
    by (simp_all add: create_session_handler_def chat_handler_def safe_post_only)
  show "safe_get (handle_sessions h)"
    by (simp add: safe_get_def handle_sessions_def list_sessions_handler_def write_list_reading reads_queries)
  show "safe_get (get_session_by_id sid)"
    unfolding get_session_by_id_def
    by (rule safe_get_only) (auto split: prod.split sum.split intro: store_reads)
qed

lemma with_session_reading:
  assumes "\<And>a1. indistinct a1 (snd (k a1))"
  shows "indistinct a (snd (with_session sid k a))"
proof (cases "on_store (session_exists sid) a")
  case (Pair res a1)
  with store_reads(10) [OF Pair] assms show ?thesis
    by (cases res) (auto simp: with_session_def split: bool.split intro: indistinct_trans)
qed

lemma session_part_handlers_safe:
  "safe_get (list_session_tasks sid)" "safe_get (list_session_messages sid)"
  unfolding list_session_tasks_def list_session_messages_def
  by (rule safe_get_only, rule with_session_reading,
      auto simp: write_list_reading reads_queries split: prod.split sum.split intro: store_reads)+

lemma task_handlers_safe:
  "safe_get list_tasks_handler" "safe_get (get_task_handler tid)" "safe_get (get_task_diff tid)"
  "safe_get (approve_task_handler h tid)" "safe_get (reject_task_handler tid)"
  "safe_get (apply_task_handler h)" "safe_get (rollback_task_handler h)"
proof -
  show "safe_get list_tasks_handler"
    unfolding list_tasks_handler_def
    by (rule safe_get_only) (auto simp: write_list_reading reads_queries split: sum.split)
  show "safe_get (get_task_handler tid)" "safe_get (get_task_diff tid)"
    unfolding get_task_handler_def get_task_diff_def
    by (rule safe_get_only, auto split: prod.split sum.split intro: store_reads)+
qed (simp_all add: approve_task_handler_def reject_task_handler_def apply_task_handler_def
    rollback_task_handler_def safe_post_only)

lemma list_handlers_safe:
  "safe_get (get_collector_json uid)" "safe_get list_collectors_handler" "safe_get list_audit_handler"
  "safe_get (list_versions uid)"
  unfolding get_collector_json_def list_collectors_handler_def list_audit_handler_def list_versions_def
  by (rule safe_get_only, auto simp: write_list_reading reads_queries split: prod.split sum.split intro: store_reads)+

lemma stats_handlers_safe: "safe_get stats_handler" "safe_get stats_ops_handler" "safe_get healthz"
proof -
  show "safe_get stats_handler"
    unfolding stats_handler_def
    by (rule safe_get_only) (auto split: prod.split sum.split dest!: store_reads intro: indistinct_trans)
  show "safe_get stats_ops_handler"
    unfolding stats_ops_handler_def
    by (rule safe_get_only)
      (auto simp: Let_def split: prod.split sum.split dest!: store_reads intro: indistinct_trans)
  show "safe_get healthz"
    unfolding healthz_def
    by (rule safe_get_only) (auto split: prod.split sum.split intro: store_reads)
qed

lemma git_handlers_safe:
  "safe_get (git_status_handler h)" "safe_get (git_commits_handler h)" "safe_get (git_file_handler h)"
  unfolding git_status_handler_def git_commits_handler_def git_file_handler_def
  by (rule safe_get_only, auto simp: Let_def split: prod.split sum.split option.split)+

text \<open>Safe routes: a reading request to them changes neither the application nor the manager.\<close>

definition safe_route :: "server_state handler \<Rightarrow> bool" where
  "safe_route h \<longleftrightarrow> (\<forall>r st. rq_method r = ''GET'' \<longrightarrow>
    indistinct (snd st) (snd (snd (h r st))) \<and> fst (snd (h r st)) = fst st)"

lemma safe_route_on_app: "safe_get h \<Longrightarrow> safe_route (on_app h)"
  by (auto simp: safe_route_def safe_get_def on_app_def split: prod.split) (metis snd_conv)

lemma safe_route_answer [simp]: "safe_route (answer f)"
  by (simp add: safe_route_def answer_def)

lemma safe_routeD: "safe_route h \<Longrightarrow> rq_method r = ''GET'' \<Longrightarrow>
    indistinct (snd st) (snd (snd (h r st))) \<and> fst (snd (h r st)) = fst st"
  unfolding safe_route_def by blast

lemma on_app_safe:
  "safe_get h \<Longrightarrow> rq_method r = ''GET'' \<Longrightarrow> indistinct a (snd (snd (on_app h r (m, a))))"
  "fst (snd (on_app h r (m, a))) = m"
  using safe_routeD [OF safe_route_on_app, of h r "(m, a)"] keepsD [OF keeps_manager_on_app, of h r "(m, a)"]
  by simp_all

lemmas handlers_safe = session_handlers_safe session_part_handlers_safe task_handlers_safe list_handlers_safe
  stats_handlers_safe git_handlers_safe

lemma safe_actions: "safe_route session_action" "safe_route (task_action h)" "safe_route collector_action"
  unfolding safe_route_def session_action_def task_action_def collector_action_def unknown_path_def Let_def answer_def
  by (simp_all add: on_app_safe handlers_safe)

lemma safe_routes:
  "(p, f) \<in> set (exact_routes h) \<Longrightarrow> safe_route f" "(p, f) \<in> set (subtree_routes h) \<Longrightarrow> safe_route f"
  by (auto simp: exact_routes_def subtree_routes_def safe_actions intro!: safe_route_on_app handlers_safe)

lemma safe_auth_routes: "(p, f) \<in> set (auth_routes rt random) \<Longrightarrow> safe_route f"
  by (auto simp: auth_routes_def safe_route_def handle_login_def handle_logout_def)

lemma api_mux_safe: "safe_route (api_mux rt random)"
proof -
  have "safe_route (case map_of (auth_routes rt random @ exact_routes (rt_handlers rt)) p of
      Some h \<Rightarrow> h
    | None \<Rightarrow> (case List.find (\<lambda>(q, _). has_prefix q p) (subtree_routes (rt_handlers rt)) of
        Some (_, h) \<Rightarrow> h | None \<Rightarrow> answer (\<lambda>_. write_error 404 ApiUnknownEndpoint)))" for p
    by (auto split: option.split dest!: map_of_SomeD find_in_set
        intro: safe_routes safe_auth_routes)
  note route = this
  have "api_mux rt random r st = (case map_of (auth_routes rt random @ exact_routes (rt_handlers rt)) (rq_path r) of
      Some h \<Rightarrow> h
    | None \<Rightarrow> (case List.find (\<lambda>(q, _). has_prefix q (rq_path r)) (subtree_routes (rt_handlers rt)) of
        Some (_, h) \<Rightarrow> h | None \<Rightarrow> answer (\<lambda>_. write_error 404 ApiUnknownEndpoint))) r st" for r st
    by (auto simp: api_mux_def split: option.split prod.split)
  with safe_routeD [OF route] show ?thesis
    by (simp add: safe_route_def)
qed

text \<open>C36: A request that reads, a GET to any path but those of the OpAMP and MCP libraries, changes nothing: the
  tables, the registry, the connections and what was sent stay as they are, and no session is opened.\<close>

theorem reading_requests_change_nothing:
  assumes "rq_method r = ''GET''" "rq_path r \<notin> {''/v1/opamp'', ''/mcp''}"
  shows "let (m', a') = snd (serve rt random r (m, a)) in
    tables_of (tdb (ap_tools a')) = tables_of (tdb (ap_tools a)) \<and>
    fleet_view (ap_tools a') = fleet_view (ap_tools a) \<and>
    (\<forall>token. am_sessions m' token \<in> {am_sessions m token, None})"
proof -
  have guarded: "indistinct a (snd (snd (middleware (app_now a) (api_mux rt random) r (m, a)))) \<and>
      (\<forall>token. am_sessions (fst (snd (middleware (app_now a) (api_mux rt random) r (m, a)))) token
        \<in> {am_sessions m token, None})"
  proof (cases "request_session (app_now a) r m")
    case (Pair res m1)
    have keep: "am_sessions m1 token \<in> {am_sessions m token, None}" for token
      using request_session_removes [of "app_now a" r m token] Pair by simp
    have mux: "indistinct a (snd (snd (api_mux rt random q (m', a)))) \<and> fst (snd (api_mux rt random q (m', a))) = m'"
      if "rq_method q = ''GET''" for q m'
      using safe_routeD [OF api_mux_safe that, of "(m', a)"] by simp
    show ?thesis
      using Pair keep mux assms(1) by (cases res) (auto simp: middleware_def)
  qed
  have "indistinct a (snd (snd (root_mux rt random r (m, a)))) \<and>
      (\<forall>token. am_sessions (fst (snd (root_mux rt random r (m, a)))) token \<in> {am_sessions m token, None})"
    using guarded assms(2) safe_routeD [OF safe_route_on_app [OF stats_handlers_safe(3)] assms(1), of "(m, a)"]
    by (auto simp: root_mux_def Let_def split: option.split)
  then have res: "indistinct a (snd (snd (serve rt random r (m, a)))) \<and>
      (\<forall>token. am_sessions (fst (snd (serve rt random r (m, a)))) token \<in> {am_sessions m token, None})"
    using serve_cases [of rt r random "(m, a)"] by (elim disjE conjE) simp_all
  have "tables_of (tdb (ap_tools a')) = tables_of (tdb (ap_tools a)) \<and>
      fleet_view (ap_tools a') = fleet_view (ap_tools a)" if "indistinct a a'" for a'
  proof -
    from that have "os_db_update tables_of (ts_opamp (ap_tools a')) = os_db_update tables_of (ts_opamp (ap_tools a))"
      by (simp add: indistinct_def on_opamp_def) (metis tool_state.select_convs(1) tool_state.surjective tool_state.update_convs(1))
    then show ?thesis
      by (cases "ts_opamp (ap_tools a)"; cases "ts_opamp (ap_tools a')") (simp add: fleet_view_def)
  qed
  note same = this
  obtain m' a' where final: "snd (serve rt random r (m, a)) = (m', a')"
    by (metis prod.collapse)
  with res same [of a'] show ?thesis
    unfolding final by (simp only: Let_def prod.case fst_conv snd_conv simp_thms)
qed

theorem reading_requests_change_nothing_witness:
  "let (m', a') = snd (serve sample_router None (web_request ''GET'' ''/api/v1/tasks/t'' None [])
      (sample_manager, sample_app (waiting_db empty_task))) in
    tables_of (tdb (ap_tools a')) = tables_of (waiting_db empty_task)"
proof -
  let ?r = "web_request ''GET'' ''/api/v1/tasks/t'' None []"
  have r: "rq_method ?r = ''GET''" "rq_path ?r \<notin> {''/v1/opamp'', ''/mcp''}"
    by (simp_all add: web_request_def)
  obtain m' a' where res: "snd (serve sample_router None ?r (sample_manager, sample_app (waiting_db empty_task))) = (m', a')"
    by (metis prod.collapse)
  have "tdb (ap_tools (sample_app (waiting_db empty_task))) = waiting_db empty_task"
    by (simp add: sample_app_def)
  with reading_requests_change_nothing [OF r, of sample_router None sample_manager "sample_app (waiting_db empty_task)"]
  show ?thesis
    unfolding res by simp
qed

subsection \<open>The approval gate of the interface\<close>

text \<open>
  With approval required, only the approval of a task sends something to a Collector or starts the
  delivery of a task.  The conversation is excluded, as the agent runner is a parameter; its tools are
  covered by the gate of the tools.
\<close>

definition gated_handler :: "api_handler \<Rightarrow> bool" where
  "gated_handler h \<longleftrightarrow> (\<forall>r a. gated (ap_tools a) (ap_tools (snd (h r a))))"

lemma indistinct_gated: "indistinct a a' \<Longrightarrow> gated (ap_tools a) (ap_tools a')"
proof -
  assume "indistinct a a'"
  then have same: "os_db_update tables_of (ts_opamp (ap_tools a')) = os_db_update tables_of (ts_opamp (ap_tools a))"
    by (simp add: indistinct_def on_opamp_def) (metis tool_state.select_convs(1) tool_state.surjective tool_state.update_convs(1))
  then have "fleet_view (ap_tools a') = fleet_view (ap_tools a)"
    by (cases "ts_opamp (ap_tools a)"; cases "ts_opamp (ap_tools a')") (simp add: fleet_view_def)
  moreover from same have "tables_of (tdb (ap_tools a')) = tables_of (tdb (ap_tools a))"
    by (cases "ts_opamp (ap_tools a)"; cases "ts_opamp (ap_tools a')") simp
  then have "db_tasks (tdb (ap_tools a')) = db_tasks (tdb (ap_tools a))"
    by (metis sql_db.select_convs(4) sql_db.surjective sql_db.update_convs(14) tables_of_def)
  then have "stored_task (tdb (ap_tools a')) = stored_task (tdb (ap_tools a))"
    by (simp add: stored_task_def [abs_def])
  ultimately show ?thesis by (rule gated_same_tasks)
qed

lemma gated_get_only: "safe_get (only ''GET'' h) \<Longrightarrow> gated_handler (only ''GET'' h)"
  unfolding gated_handler_def
proof (intro allI)
  fix r a
  assume "safe_get (only ''GET'' h)"
  then show "gated (ap_tools a) (ap_tools (snd (only ''GET'' h r a)))"
    by (cases "rq_method r = ''GET''") (auto simp: safe_get_def intro: indistinct_gated, simp add: only_def)
qed

lemma gated_reading_handlers:
  "gated_handler (get_session_by_id sid)" "gated_handler (list_session_tasks sid)"
  "gated_handler (list_session_messages sid)" "gated_handler list_tasks_handler"
  "gated_handler (get_task_handler tid)" "gated_handler (get_task_diff tid)"
  "gated_handler (get_collector_json uid)" "gated_handler list_collectors_handler"
  "gated_handler list_audit_handler" "gated_handler (list_versions uid)" "gated_handler stats_handler"
  "gated_handler stats_ops_handler" "gated_handler healthz" "gated_handler (git_status_handler h)"
  "gated_handler (git_commits_handler h)" "gated_handler (git_file_handler h)"
  using handlers_safe
  unfolding get_session_by_id_def list_session_tasks_def list_session_messages_def list_tasks_handler_def
    get_task_handler_def get_task_diff_def get_collector_json_def list_collectors_handler_def
    list_audit_handler_def list_versions_def stats_handler_def stats_ops_handler_def healthz_def
    git_status_handler_def git_commits_handler_def git_file_handler_def
  by (blast intro: gated_get_only)+

text \<open>The writes of the other handlers.\<close>

lemma gated_on_store:
  assumes "\<And>d res d'. m d = (res, d') \<Longrightarrow> stored_task d' = stored_task d" "on_store m a = (res, a1)"
  shows "gated (ap_tools a) (ap_tools a1)"
proof -
  have "gated (ap_tools a) (snd (on_db m (ap_tools a)))"
    by (rule gated_on_db) (rule assms(1))
  with assms(2) show ?thesis
    by (auto simp: on_store_def on_tools_def split: prod.splits)
qed

lemma create_session_tasks: "create_session sid t d = (res, d') \<Longrightarrow> stored_task d' = stored_task d"
  unfolding create_session_def
  by (rule exec_direct_keeps [OF stored_task_fault_blind], rule refl)
    (auto simp: stored_task_def [abs_def] split: sum.splits)

lemma list_versions_tasks: "list_config_versions uid p n d = (res, d') \<Longrightarrow> stored_task d' = stored_task d"
  unfolding list_config_versions_def by (auto elim!: and_then_cases simp: ret_def dest!: query_gated)

lemma gated_app_ulid: "app_ulid h a = (i, a1) \<Longrightarrow> gated (ap_tools a) (ap_tools a1)"
  by (auto simp: app_ulid_def split: prod.splits dest: gated_new_ulid)

lemma gated_app_audit: "gated (ap_tools a) (ap_tools (app_audit w act s det a))"
  by (simp add: app_audit_def gated_audit)

lemma gated_app_create:
  assumes "t_status t = TaskStatusAwaitingApproval" "app_create t a = (res, a1)"
  shows "gated (ap_tools a) (ap_tools a1)"
proof -
  obtain d' where run: "svc_create (ts_now (ap_tools a)) t (tdb (ap_tools a)) = (res, d')"
    and a1: "a1 = a\<lparr>ap_tools := on_opamp (os_db_update (\<lambda>_. d')) (ap_tools a)\<rparr>"
    using assms(2) by (cases "svc_create (ts_now (ap_tools a)) t (tdb (ap_tools a))")
      (auto simp: app_create_def on_store_def on_tools_def on_db_eq app_now_def)
  from create_effect [OF run] assms(1) show ?thesis
    by (cases res) (auto simp: a1 gated_def split: if_splits)
qed

lemma gated_app_reject:
  assumes "on_store (svc_reject now k who why) a = (res, a1)"
  shows "gated (ap_tools a) (ap_tools a1)"
proof -
  obtain d' where run: "svc_reject now k who why (tdb (ap_tools a)) = (res, d')"
    and a1: "a1 = a\<lparr>ap_tools := on_opamp (os_db_update (\<lambda>_. d')) (ap_tools a)\<rparr>"
    using assms by (cases "svc_reject now k who why (tdb (ap_tools a))")
      (auto simp: on_store_def on_tools_def on_db_eq)
  from reject_effect [OF run] show ?thesis
    by (cases res) (auto simp: a1 gated_def split: if_splits)
qed

lemma gated_post_only:
  "(\<And>r a. gated (ap_tools a) (ap_tools (snd (h r a)))) \<Longrightarrow> gated_handler (only ''POST'' h)"
  by (simp add: gated_handler_def only_def)

lemma gated_create_session: "gated_handler (create_session_handler h)"
  unfolding create_session_handler_def
proof (rule gated_post_only, goal_cases)
  case (1 r a)
  obtain sid s1 where u: "new_ulid (hd_deps h) (ap_tools a) = (sid, s1)"
    by (cases "new_ulid (hd_deps h) (ap_tools a)")
  let ?a1 = "a\<lparr>ap_tools := s1\<rparr>"
  obtain res a2 where c: "on_store (create_session sid (app_now ?a1)) ?a1 = (res, a2)"
    by (cases "on_store (create_session sid (app_now ?a1)) ?a1")
  from gated_trans [OF gated_new_ulid [OF u]] gated_on_store [OF create_session_tasks c]
  have "gated (ap_tools a) (ap_tools a2)" by simp
  with u c show ?case by (cases res) (simp_all add: Let_def)
qed

lemma gated_handle_sessions: "gated_handler (handle_sessions h)"
  using gated_create_session [of h] write_list_reading [of list_sessions, OF reads_queries(1)]
  by (auto simp: gated_handler_def handle_sessions_def list_sessions_handler_def intro: indistinct_gated)

lemma gated_reject_handler: "gated_handler (reject_task_handler tid)"
  unfolding reject_task_handler_def
  by (rule gated_post_only)
    (auto split: option.split list.split prod.split sum.split intro: gated_app_reject)

lemma gated_rollback_to_commit: "gated (ap_tools a) (ap_tools (snd (rollback_to_commit h r uid sid ref commit a)))"
proof (cases "git_content h (if commit = '''' then ref else commit) uid")
  case (Inl e)
  then show ?thesis by (cases e) (simp add: rollback_to_commit_def)
next
  case (Inr src)
  obtain content sha path where src: "src = (content, sha, path)" by (cases src)
  obtain tid a1 where u: "app_ulid h a = (tid, a1)" by (cases "app_ulid h a")
  show ?thesis
  proof (cases "vr_valid (app_check h content) \<and> \<not> length sha < 8")
    case False
    with Inr src u gated_app_ulid [OF u] show ?thesis
      by (auto simp: rollback_to_commit_def Let_def)
  next
    case True
    let ?t = "empty_task\<lparr>t_id := tid, t_type := TaskTypeRollback, t_status := TaskStatusAwaitingApproval,
        t_require_approval := True, t_input := txt_git_rollback @ uid @ txt_to @ take 8 sha,
        t_session_id := sid, t_generated_yaml := content, t_target_instance_uid := uid,
        t_rollback_version_id := 0, t_git_commit := sha, t_git_path := path,
        t_git_ref := (if commit = '''' then ref else commit)\<rparr>"
    obtain res a2 where c: "app_create ?t a1 = (res, a2)" by (cases "app_create ?t a1")
    have "gated (ap_tools a1) (ap_tools a2)"
      by (rule gated_app_create [OF _ c]) simp
    with gated_app_ulid [OF u] have "gated (ap_tools a) (ap_tools a2)"
      by (rule gated_trans)
    moreover from this have "gated (ap_tools a) (ap_tools (app_audit w act s det a2))" for w act s det
      using gated_app_audit by (rule gated_trans)
    ultimately show ?thesis
      using True Inr src u c by (cases res) (simp_all add: rollback_to_commit_def Let_def)
  qed
qed

lemma gated_rollback_to_version: "gated (ap_tools a) (ap_tools (snd (rollback_to_version h uid sid vid a)))"
proof (cases "vid \<le> 0")
  case True
  then show ?thesis by (simp add: rollback_to_version_def)
next
  case False
  obtain res a1 where l: "on_store (list_config_versions uid 0 0) a = (res, a1)"
    by (cases "on_store (list_config_versions uid 0 0) a")
  have g1: "gated (ap_tools a) (ap_tools a1)"
    by (rule gated_on_store [OF list_versions_tasks l])
  obtain tid a2 where u: "app_ulid h a1 = (tid, a2)" by (cases "app_ulid h a1")
  let ?t = "empty_task\<lparr>t_id := tid, t_type := TaskTypeRollback, t_status := TaskStatusAwaitingApproval,
      t_require_approval := True, t_input := txt_rollback @ uid @ txt_to_version @ itoa vid,
      t_session_id := sid, t_target_instance_uid := uid, t_rollback_version_id := vid\<rparr>"
  obtain res2 a3 where c: "app_create ?t a2 = (res2, a3)" by (cases "app_create ?t a2")
  have "gated (ap_tools a2) (ap_tools a3)"
    by (rule gated_app_create [OF _ c]) simp
  with g1 gated_app_ulid [OF u] have "gated (ap_tools a) (ap_tools a3)"
    by (blast intro: gated_trans)
  with False l g1 u c show ?thesis
    by (cases res; cases res2)
      (auto simp: rollback_to_version_def Let_def split: option.split prod.split)
qed

lemma gated_rollback: "gated_handler (rollback_task_handler h)"
  unfolding rollback_task_handler_def
  by (rule gated_post_only)
    (auto simp: gated_rollback_to_commit gated_rollback_to_version split: option.split)

lemma gated_apply_to_collector:
  assumes "dp_require_approval (hd_deps h)"
  shows "gated (ap_tools a) (ap_tools (snd (apply_to_collector h r q src a)))"
proof -
  obtain res a1 where l: "on_store (get_collector (ar_uid q)) a = (res, a1)"
    by (cases "on_store (get_collector (ar_uid q)) a")
  have g1: "gated (ap_tools a) (ap_tools a1)"
    using store_reads(9) [OF l] by (rule indistinct_gated)
  obtain tid a2 where u: "app_ulid h a1 = (tid, a2)" by (cases "app_ulid h a1")
  show ?thesis
  proof (cases res)
    case (Inl e)
    with l g1 show ?thesis by (simp add: apply_to_collector_def)
  next
    case (Inr c)
    let ?t = "apply_task_of h q src (base_for_collector (hd_deps h) c (ap_tools a1)) tid"
    obtain res3 a3 where cr: "app_create ?t a2 = (res3, a3)" by (cases "app_create ?t a2")
    have "gated (ap_tools a2) (ap_tools a3)"
      by (rule gated_app_create [OF _ cr]) (simp add: apply_task_of_def split: prod.split)
    with g1 gated_app_ulid [OF u] have g3: "gated (ap_tools a) (ap_tools a3)"
      by (blast intro: gated_trans)
    have "gated (ap_tools a3) (ap_tools (snd (submit_apply h w q src t a3)))" for w t
      using assms gated_app_audit
      by (auto simp: submit_apply_def audit_apply_def Let_def split: prod.split
          intro: gated_trans [OF gated_app_audit gated_app_audit])
    with g3 have "gated (ap_tools a) (ap_tools (snd (submit_apply h w q src t a3)))" for w t
      by (blast intro: gated_trans)
    with Inr l g1 u cr g3 show ?thesis
      by (cases res3) (simp_all add: apply_to_collector_def Let_def)
  qed
qed

lemma gated_apply: "dp_require_approval (hd_deps h) \<Longrightarrow> gated_handler (apply_task_handler h)"
  unfolding apply_task_handler_def
  by (rule gated_post_only) (auto simp: gated_apply_to_collector split: option.split sum.split)

text \<open>The approval of a task: a POST to its path with the action.\<close>

definition approves_request :: "request \<Rightarrow> bool" where
  "approves_request r \<longleftrightarrow> rq_method r = ''POST'' \<and> has_prefix ''/api/v1/tasks/'' (rq_path r) \<and>
    length (split_path (rq_path r)) \<ge> 5 \<and> split_path (rq_path r) ! 4 = ''approve''"

definition chat_path :: string where
  "chat_path = ''/api/v1/chat''"

lemma on_app_gated: "gated_handler h \<Longrightarrow> gated (ap_tools a) (ap_tools (snd (snd (on_app h r (m, a)))))"
  by (auto simp: gated_handler_def on_app_def split: prod.split) (metis snd_conv)

lemma gated_approve_other: "rq_method r \<noteq> ''POST'' \<Longrightarrow>
    gated (ap_tools a) (ap_tools (snd (snd (on_app (approve_task_handler h tid) r (m, a)))))"
  by (simp add: on_app_def approve_task_handler_def only_def)

lemma session_action_gated: "gated (ap_tools a) (ap_tools (snd (snd (session_action r (m, a)))))"
  by (auto simp: session_action_def Let_def unknown_path_def answer_def intro!: on_app_gated gated_reading_handlers)

lemma collector_action_gated: "gated (ap_tools a) (ap_tools (snd (snd (collector_action r (m, a)))))"
  by (auto simp: collector_action_def Let_def unknown_path_def answer_def intro!: on_app_gated gated_reading_handlers)

lemma task_action_gated:
  "\<not> (rq_method r = ''POST'' \<and> length (split_path (rq_path r)) \<ge> 5 \<and> split_path (rq_path r) ! 4 = ''approve'') \<Longrightarrow>
    gated (ap_tools a) (ap_tools (snd (snd (task_action h r (m, a)))))"
  by (auto simp: task_action_def Let_def answer_def
      intro!: on_app_gated gated_reading_handlers gated_reject_handler gated_approve_other)

lemma auth_routes_app:
  "(p, f) \<in> set (auth_routes rt random) \<Longrightarrow> snd (snd (f r (m, a))) = a"
  by (auto simp: auth_routes_def case_prod_beta Let_def)

text \<open>A turn of the conversation, when the agent itself keeps the gate.\<close>

lemma get_session_tasks: "get_session sid d = (res, d') \<Longrightarrow> stored_task d' = stored_task d"
  unfolding get_session_def
  by (auto elim!: and_then_cases simp: ret_def dest!: query_gated query_row_keeps [OF stored_task_fault_blind refl])

lemma append_message_tasks: "append_message sid msg d = (res, d') \<Longrightarrow> stored_task d' = stored_task d"
  unfolding append_message_def
  by (rule exec_ctx_keeps [OF stored_task_fault_blind], rule refl) (auto simp: Let_def stored_task_def [abs_def])

lemma gated_resolve_session: "resolve_session h sid a = (res, a1) \<Longrightarrow> gated (ap_tools a) (ap_tools a1)"
proof (cases "sid = ''''")
  case True
  assume r: "resolve_session h sid a = (res, a1)"
  obtain new_id s1 where u: "new_ulid (hd_deps h) (ap_tools a) = (new_id, s1)"
    by (cases "new_ulid (hd_deps h) (ap_tools a)")
  let ?a = "a\<lparr>ap_tools := s1\<rparr>"
  obtain made a2 where c: "on_store (create_session new_id (app_now ?a)) ?a = (made, a2)"
    by (cases "on_store (create_session new_id (app_now ?a)) ?a")
  from r True u c have "a1 = a2" by (cases made) (auto simp: resolve_session_def Let_def)
  with gated_trans [OF gated_new_ulid [OF u]] gated_on_store [OF create_session_tasks c] show ?thesis by simp
next
  case False
  assume r: "resolve_session h sid a = (res, a1)"
  obtain got a2 where g: "on_store (get_session sid) a = (got, a2)" by (cases "on_store (get_session sid) a")
  from r False g have "a1 = a2" by (cases got) (auto simp: resolve_session_def)
  with gated_on_store [OF get_session_tasks g] show ?thesis by simp
qed

subsection \<open>The whole interface, for any relation of the gate\<close>

definition held_handler :: "(opamp \<Rightarrow> opamp \<Rightarrow> bool) \<Rightarrow> api_handler \<Rightarrow> bool" where
  "held_handler R h \<longleftrightarrow> (\<forall>r a. held R (ap_tools a) (ap_tools (snd (h r a))))"

context delivery_gate
begin

lemma held_handler_gated: "gated_handler h \<Longrightarrow> held_handler R h"
  by (simp add: gated_handler_def held_handler_def held_gated)

lemma on_app_held:
  "held R (ap_tools a) (ap_tools (snd (h r a))) \<Longrightarrow> held R (ap_tools a) (ap_tools (snd (snd (on_app h r (m, a)))))"
  by (cases "h r a") (simp add: on_app_def)

lemma exact_routes_held:
  assumes "dp_require_approval (hd_deps h)" "(p, f) \<in> set (exact_routes h)"
    and "p = chat_path \<Longrightarrow> held_handler R (chat_handler h)"
  shows "held R (ap_tools a) (ap_tools (snd (snd (f r (m, a)))))"
proof -
  have "held_handler R g \<Longrightarrow> held R (ap_tools a) (ap_tools (snd (snd (on_app g r (m, a)))))" for g
    by (rule on_app_held) (simp add: held_handler_def)
  note routed = this this [OF held_handler_gated]
  show ?thesis
    using assms
    by (auto simp: exact_routes_def chat_path_def
        intro: routed gated_reading_handlers gated_handle_sessions gated_apply gated_rollback)
qed

lemma api_mux_held:
  assumes "dp_require_approval (hd_deps (rt_handlers rt))" "\<not> approves_request r"
    and "rq_path r = chat_path \<Longrightarrow> held_handler R (chat_handler (rt_handlers rt))"
  shows "held R (ap_tools a) (ap_tools (snd (snd (api_mux rt random r (m, a)))))"
proof (cases "map_of (auth_routes rt random @ exact_routes (rt_handlers rt)) (rq_path r)")
  case (Some f)
  then have "(rq_path r, f) \<in> set (auth_routes rt random) \<union> set (exact_routes (rt_handlers rt))"
    by (auto dest!: map_of_SomeD)
  with Some exact_routes_held [OF assms(1) _ assms(3)] auth_routes_app [of "rq_path r" f rt random r m a]
  show ?thesis by (auto simp: api_mux_def)
next
  case None
  have "held R (ap_tools a) (ap_tools (snd (snd (f r (m, a)))))"
    if "List.find (\<lambda>(p, _). has_prefix p (rq_path r)) (subtree_routes (rt_handlers rt)) = Some (p, f)" for p f
    using that assms(2) session_action_gated [THEN held_gated] collector_action_gated [THEN held_gated]
    by (auto simp: subtree_routes_def approves_request_def split: if_splits intro!: task_action_gated [THEN held_gated])
  with None show ?thesis
    by (auto simp: api_mux_def answer_def split: option.split)
qed

lemma serve_held:
  assumes "dp_require_approval (hd_deps (rt_handlers rt))" "\<not> approves_request r"
    and opamp: "rq_path r = ''/v1/opamp'' \<Longrightarrow> held R (ap_tools a) (ap_tools (snd (rt_opamp rt r a)))"
    and mcp: "rq_path r = ''/mcp'' \<Longrightarrow> held R (ap_tools a) (ap_tools (snd (rt_mcp rt r a)))"
    and chat: "rq_path r = chat_path \<Longrightarrow> held_handler R (chat_handler (rt_handlers rt))"
  shows "held R (ap_tools a) (ap_tools (snd (snd (serve rt random r (m, a)))))"
proof -
  have mux: "held R (ap_tools a) (ap_tools (snd (snd (api_mux rt random (r\<lparr>rq_user := u\<rparr>) (m1, a)))))" for u m1
    using api_mux_held [of rt "r\<lparr>rq_user := u\<rparr>"] assms(1,2) chat by (simp add: approves_request_def)
  have "held R (ap_tools a) (ap_tools (snd (snd (middleware (app_now a) (api_mux rt random) r (m, a)))))"
    using mux api_mux_held [OF assms(1,2) chat]
    by (cases "request_session (app_now a) r m") (auto simp: middleware_def split: option.split)
  moreover have "held R (ap_tools a) (ap_tools (snd (snd (on_app healthz r (m, a)))))"
    using gated_reading_handlers(13) by (intro on_app_held held_gated) (simp add: gated_handler_def)
  moreover have "held R (ap_tools a) (ap_tools (snd (snd (on_app (mcp_auth (rt_mcp_token rt) (rt_mcp rt)) r (m, a)))))"
    if "rq_path r = ''/mcp''"
    using mcp [OF that] by (intro on_app_held) (simp add: mcp_auth_def Let_def)
  ultimately have "held R (ap_tools a) (ap_tools (snd (snd (root_mux rt random r (m, a)))))"
    using on_app_held [where h = "rt_opamp rt", OF opamp] by (auto simp: root_mux_def Let_def split: option.split)
  then show ?thesis
    using serve_cases [of rt r random "(m, a)"] by (elim disjE conjE) simp_all
qed

lemma held_post_only:
  "(\<And>r a. held R (ap_tools a) (ap_tools (snd (h r a)))) \<Longrightarrow> held_handler R (only ''POST'' h)"
  by (simp add: held_handler_def only_def)

lemma held_chat_in:
  assumes "\<And>sess message. held_op R (hd_chat h sess message)"
  shows "held R (ap_tools a) (ap_tools (snd (chat_in h sess message a)))"
proof -
  obtain res a1 where m: "on_store (append_message (sess_id sess) (user_message message (app_now a))) a = (res, a1)"
    by (cases "on_store (append_message (sess_id sess) (user_message message (app_now a))) a")
  note first = gated_on_store [OF append_message_tasks m, THEN held_gated]
  obtain reply s2 where c: "hd_chat h sess message (ap_tools a1) = (reply, s2)"
    by (cases "hd_chat h sess message (ap_tools a1)")
  from held_trans [OF first held_opD [OF assms c]] first m c show ?thesis
    by (cases res; cases reply) (simp_all add: chat_in_def on_tools_def)
qed

lemma held_chat_handler:
  assumes "\<And>sess message. held_op R (hd_chat h sess message)"
  shows "held_handler R (chat_handler h)"
  unfolding chat_handler_def
proof (rule held_post_only, goal_cases)
  case (1 r a)
  have "held R (ap_tools a) (ap_tools (snd (case resolve_session h sid a of
      (Inl e, a1) \<Rightarrow> (write_error 404 e, a1) | (Inr sess, a1) \<Rightarrow> chat_in h sess message a1)))" for sid message
  proof -
    obtain res a1 where r: "resolve_session h sid a = (res, a1)" by (cases "resolve_session h sid a")
    note first = gated_resolve_session [OF r, THEN held_gated]
    from first held_trans [OF first held_chat_in [OF assms]] r show ?thesis by (cases res) simp_all
  qed
  then show ?case by (auto split: option.split list.split)
qed

end

text \<open>C5: With approval required, a request to the REST interface that is not the approval of a task, and not a
  turn of the conversation, sends nothing to any Collector, queues nothing, and brings no task into
  delivery: every task that is being applied or done afterwards was so before.\<close>

theorem only_approvals_deliver:
  assumes "dp_require_approval (hd_deps (rt_handlers rt))" "\<not> approves_request r"
    and "rq_path r \<notin> {''/v1/opamp'', ''/mcp'', ''/api/v1/chat''}"
    and "snd (snd (serve rt random r (m, a))) = a'"
  shows "os_sent (ts_opamp (ap_tools a')) = os_sent (ts_opamp (ap_tools a)) \<and>
    os_pending (ts_opamp (ap_tools a')) = os_pending (ts_opamp (ap_tools a)) \<and>
    (\<forall>k t'. stored_task (tdb (ap_tools a')) k = Some t' \<longrightarrow> t_status t' \<in> {TaskStatusApplying, TaskStatusDone} \<longrightarrow>
      (\<exists>t. stored_task (tdb (ap_tools a)) k = Some t \<and> t_status t = t_status t'))"
proof -
  have "held fleet_untouched (ap_tools a) (ap_tools (snd (snd (serve rt random r (m, a)))))"
    by (rule strict.serve_held [OF assms(1,2)]) (use assms(3) in \<open>simp_all add: chat_path_def\<close>)
  with assms(4) show ?thesis
    unfolding held_strict gated_def by simp
qed

theorem only_approvals_deliver_witness:
  "os_sent (ts_opamp (ap_tools (snd (snd (serve sample_router None
      (web_request ''POST'' ''/api/v1/tasks/apply'' None [(''collector_instance_uid'', JStr ''c'')])
      (sample_manager, sample_app (waiting_db empty_task))))))) = []"
proof -
  let ?r = "web_request ''POST'' ''/api/v1/tasks/apply'' None [(''collector_instance_uid'', JStr ''c'')]"
  have "split_path (rq_path ?r) = [''api'', ''v1'', ''tasks'', ''apply'']"
    by (simp add: split_path_def web_request_def)
  then have "\<not> approves_request ?r"
    by (simp add: approves_request_def)
  moreover have "dp_require_approval (hd_deps (rt_handlers sample_router))"
    by (simp add: sample_router_def sample_handlers_def new_handlers_def sample_deps_def)
  moreover have "rq_path ?r \<notin> {''/v1/opamp'', ''/mcp'', ''/api/v1/chat''}"
    by (simp add: web_request_def)
  ultimately have "os_sent (ts_opamp (ap_tools (snd (snd (serve sample_router None ?r
      (sample_manager, sample_app (waiting_db empty_task))))))) =
      os_sent (ts_opamp (ap_tools (sample_app (waiting_db empty_task))))"
    using only_approvals_deliver [OF _ _ _ refl, of sample_router ?r None sample_manager
        "sample_app (waiting_db empty_task)"] by blast
  also have "\<dots> = []"
    by (simp add: sample_app_def sample_state_def new_opamp_def)
  finally show ?thesis .
qed

end
