(* ===== verification/Rest_Effects.thy ===== *)
theory Rest_Effects
  imports Rest_Safety
begin

section \<open>What the handlers of changes do\<close>

text \<open>
  The outcome of a submitted configuration, a rejection and an approval, on every branch: the task that
  is stored, the answer, and who is recorded.
\<close>

subsection \<open>Storing a task\<close>

lemma app_create_healthy:
  assumes "db_faults (tdb (ap_tools a)) = []" "t_status t = TaskStatusAwaitingApproval" "app_create t a = (res, a1)"
  shows "case res of
      Inl _ \<Rightarrow> stored_task (tdb (ap_tools a1)) = stored_task (tdb (ap_tools a)) \<and>
        db_audit (tdb (ap_tools a1)) = db_audit (tdb (ap_tools a))
    | Inr t2 \<Rightarrow> stored_task (tdb (ap_tools a)) (t_id t) = None \<and>
        t2 = t\<lparr>t_created_at := app_now a, t_updated_at := app_now a\<rparr> \<and>
        holding (t_id t) t2 (db_audit (tdb (ap_tools a))) (ap_tools a1)"
proof -
  obtain d' where run: "svc_create (app_now a) t (tdb (ap_tools a)) = (res, d')"
    and a1: "a1 = a\<lparr>ap_tools := on_opamp (os_db_update (\<lambda>_. d')) (ap_tools a)\<rparr>"
    using assms(3) by (cases "svc_create (app_now a) t (tdb (ap_tools a))")
      (auto simp: app_create_def on_store_def on_tools_def on_db_eq)
  have audit_kept: "db_audit d' = db_audit (tdb (ap_tools a))"
    by (rule svc_keeps(1) [OF _ _ _ run, where P = "\<lambda>d. db_audit d = db_audit (tdb (ap_tools a))"])
      (auto simp: fault_blind_def)
  show ?thesis
  proof (cases res)
    case (Inl e)
    with create_effect [OF run] audit_kept show ?thesis by (simp add: a1)
  next
    case (Inr t2)
    from create_effect [OF run] assms(2) Inr
    have "stored_task (tdb (ap_tools a)) (t_id t) = None"
      "t2 = t\<lparr>t_created_at := app_now a, t_updated_at := app_now a\<rparr>" "stored_task d' (t_id t) = Some t2"
      by auto
    moreover have "db_faults d' = []"
      using create_healthy [OF assms(1) run] by simp
    ultimately show ?thesis
      using Inr audit_kept by (simp add: a1 db_holding_def)
  qed
qed

lemma app_audit_holding:
  assumes "holding k t lg (ap_tools a)"
  shows "\<exists>e. holding k t (lg @ [e]) (ap_tools (app_audit who act sub det a)) \<and> log_entry e = (who, act, sub)"
  using audit_holding [OF assms, of who act sub det] by (auto simp: app_audit_def)

lemma app_ulid_same: "app_ulid h a = (i, a1) \<Longrightarrow>
    i = dp_ulid (hd_deps h) (ts_ids (ap_tools a)) \<and> ts_opamp (ap_tools a1) = ts_opamp (ap_tools a) \<and> app_now a1 = app_now a"
  by (auto simp: app_ulid_def new_ulid_def app_now_def split: prod.splits)

lemma git_content_codes: "git_content h ref uid = Inl (code, e) \<Longrightarrow> code \<in> {400, 409}"
  by (auto simp: git_content_def split: option.splits sum.splits)

lemma apply_content_codes: "apply_content h q = Inl (code, e) \<Longrightarrow> code \<in> {400, 409}"
  by (auto simp: apply_content_def split: sum.splits if_splits dest: git_content_codes)

text \<open>The audit records of a submission: one, and a second one with the commit for content from git.\<close>

definition submission_records :: "string \<Rightarrow> string \<Rightarrow> string \<Rightarrow> (string \<times> audit_action \<times> string) list" where
  "submission_records who sha tid =
    (if sha = '''' then [(who, AuditActionApply, tid)] else [(who, AuditActionApply, tid), (who, AuditActionApply, tid)])"

lemma submit_apply_waits:
  assumes "dp_require_approval (hd_deps h)" "holding (t_id t) t lg (ap_tools a)"
  shows "\<exists>es. fst (submit_apply h who q (content, sha, path) t a) = write_json 201 (TaskBody t) \<and>
    holding (t_id t) t (lg @ es) (ap_tools (snd (submit_apply h who q (content, sha, path) t a))) \<and>
    map log_entry es = submission_records who sha (t_id t)"
proof -
  let ?a1 = "audit_apply h who (t_id t) (ar_uid q) content a"
  obtain e where e: "holding (t_id t) t (lg @ [e]) (ap_tools ?a1)" "log_entry e = (who, AuditActionApply, t_id t)"
    using app_audit_holding [OF assms(2)] unfolding audit_apply_def by blast
  show ?thesis
  proof (cases "sha = ''''")
    case True
    with e assms(1) show ?thesis
      by (intro exI [of _ "[e]"]) (simp add: submit_apply_def submission_records_def Let_def)
  next
    case False
    obtain f where "holding (t_id t) t ((lg @ [e]) @ [f])
        (ap_tools (app_audit who AuditActionApply (t_id t) (git_trace sha path (ar_git_ref q)) ?a1))"
      "log_entry f = (who, AuditActionApply, t_id t)"
      using app_audit_holding [OF e(1)] by blast
    with e False assms(1) show ?thesis
      by (intro exI [of _ "[e, f]"]) (simp add: submit_apply_def submission_records_def Let_def)
  qed
qed

text \<open>What a successful submission left: the task, waiting, with the content and its base.\<close>

definition submitted :: "handlers \<Rightarrow> request \<Rightarrow> app_state \<Rightarrow> response \<Rightarrow> app_state \<Rightarrow> bool" where
  "submitted h r a resp a' \<longleftrightarrow> (\<exists>q content sha path c t lg.
    decode_apply (rq_body r) = Some q \<and> apply_content h q = Inr (content, sha, path) \<and> content \<noteq> '''' \<and>
    find_row col_instance_uid (ar_uid q) (db_collectors (tdb (ap_tools a))) = Some c \<and>
    vr_valid (app_check h content) \<and> resp = write_json 201 (TaskBody t) \<and>
    t_type t = TaskTypeApply \<and> t_status t = TaskStatusAwaitingApproval \<and> t_generated_yaml t = content \<and>
    t_target_instance_uid t = ar_uid q \<and>
    (t_base_yaml t, t_base_source t) = base_for_collector (hd_deps h) c (ap_tools a) \<and> t_git_commit t = sha \<and>
    stored_task (tdb (ap_tools a)) (t_id t) = None \<and> holding (t_id t) t lg (ap_tools a') \<and>
    map log_entry lg = map log_entry (db_audit (tdb (ap_tools a))) @
      submission_records (approver_of r '''') sha (t_id t))"

lemma apply_to_collector_outcome:
  assumes "db_faults (tdb (ap_tools a)) = []" "dp_require_approval (hd_deps h)"
    and "decode_apply (rq_body r) = Some q" "apply_content h q = Inr src"
    and "apply_to_collector h r q src a = (resp, a')"
  shows "submitted h r a resp a' \<or>
    rs_status resp \<in> {400, 404, 500} \<and> stored_task (tdb (ap_tools a')) = stored_task (tdb (ap_tools a)) \<and>
    db_audit (tdb (ap_tools a')) = db_audit (tdb (ap_tools a))"
proof -
  obtain content sha path where src: "src = (content, sha, path)" by (cases src)
  have nonempty: "content \<noteq> ''''"
    using assms(4) src by (auto simp: apply_content_def split: sum.splits if_splits)
  let ?row = "find_row col_instance_uid (ar_uid q) (db_collectors (tdb (ap_tools a)))"
  have get: "on_store (get_collector (ar_uid q)) a = (case ?row of None \<Rightarrow> Inl ErrNotFound | Some c \<Rightarrow> Inr c, a)"
    using get_collector_healthy [OF assms(1), of "ar_uid q"]
    by (cases ?row) (simp_all add: on_store_def on_tools_def on_db_eq)
  show ?thesis
  proof (cases ?row)
    case None
    with assms(5) get show ?thesis by (auto simp: apply_to_collector_def)
  next
    case (Some c)
    let ?base = "base_for_collector (hd_deps h) c (ap_tools a)"
    show ?thesis
    proof (cases "vr_valid (app_check h content)")
      case False
      with assms(5) get Some src show ?thesis by (auto simp: apply_to_collector_def Let_def)
    next
      case True
      obtain tid a2 where u: "app_ulid h a = (tid, a2)" by (cases "app_ulid h a")
      note same = app_ulid_same [OF u]
      let ?t = "apply_task_of h q src ?base tid"
      have fields: "t_status ?t = TaskStatusAwaitingApproval" "t_id ?t = tid" "t_type ?t = TaskTypeApply"
        "t_generated_yaml ?t = content" "t_target_instance_uid ?t = ar_uid q"
        "(t_base_yaml ?t, t_base_source ?t) = ?base" "t_git_commit ?t = sha"
        by (simp_all add: apply_task_of_def src split: prod.split)
      obtain res a3 where cr: "app_create ?t a2 = (res, a3)" by (cases "app_create ?t a2")
      have healthy: "db_faults (tdb (ap_tools a2)) = []"
        using assms(1) same by simp
      note created = app_create_healthy [OF healthy fields(1) cr]
      show ?thesis
      proof (cases res)
        case (Inl e)
        with created same assms(5) get Some True u cr src show ?thesis
          by (auto simp: apply_to_collector_def Let_def)
      next
        case (Inr t2)
        have conj: "stored_task (tdb (ap_tools a2)) tid = None \<and>
            t2 = ?t\<lparr>t_created_at := app_now a2, t_updated_at := app_now a2\<rparr> \<and>
            holding tid t2 (db_audit (tdb (ap_tools a2))) (ap_tools a3)"
          using created unfolding Inr sum.case fields(2) .
        from conj have fresh: "stored_task (tdb (ap_tools a2)) tid = None" by (rule conjunct1)
        from conj have t2: "t2 = ?t\<lparr>t_created_at := app_now a2, t_updated_at := app_now a2\<rparr>" by (elim conjE)
        from conj have hold0: "holding tid t2 (db_audit (tdb (ap_tools a2))) (ap_tools a3)" by (elim conjE)
        have "t_id t2 = tid"
          using t2 fields(2) by simp
        with hold0 have hold: "holding (t_id t2) t2 (db_audit (tdb (ap_tools a2))) (ap_tools a3)"
          by simp
        have run: "(resp, a') = submit_apply h (approver_of r '''') q src t2 a3"
          using assms(5) get Some True u cr src Inr by (simp add: apply_to_collector_def Let_def)
        obtain es where "resp = write_json 201 (TaskBody t2)"
          "holding (t_id t2) t2 (db_audit (tdb (ap_tools a2)) @ es) (ap_tools a')"
          "map log_entry es = submission_records (approver_of r '''') sha (t_id t2)"
          using submit_apply_waits [OF assms(2) hold, of "approver_of r ''''" q content sha path]
          by (metis fst_conv run snd_conv src)
        then have "submitted h r a resp a'"
          unfolding submitted_def
          using assms(3,4) src nonempty Some True fields t2 fresh same
          by (intro exI [of _ q] exI [of _ content] exI [of _ sha] exI [of _ path] exI [of _ c] exI [of _ t2]
              exI [of _ "db_audit (tdb (ap_tools a2)) @ es"]) auto
        then show ?thesis ..
      qed
    qed
  qed
qed

text \<open>C15: With approval required and a working database, a submitted configuration is either stored as a new task
  that waits for approval, for an existing Collector, with exactly the content that was sent or read from
  git, after it passed the validation, with the configuration it starts from and a record of who sent it;
  or it is refused and neither the tasks nor the audit log change.\<close>

theorem submission_waits_or_is_refused:
  assumes "db_faults (tdb (ap_tools a)) = []" "dp_require_approval (hd_deps h)" "rq_method r = ''POST''"
    and "apply_task_handler h r a = (resp, a')"
  shows "submitted h r a resp a' \<or>
    rs_status resp \<in> {400, 404, 409, 500} \<and> stored_task (tdb (ap_tools a')) = stored_task (tdb (ap_tools a)) \<and>
    db_audit (tdb (ap_tools a')) = db_audit (tdb (ap_tools a))"
proof (cases "decode_apply (rq_body r)")
  case None
  with assms(3,4) show ?thesis by (auto simp: apply_task_handler_def only_def)
next
  case (Some q)
  show ?thesis
  proof (cases "ar_uid q = ''''")
    case True
    with Some assms(3,4) show ?thesis by (auto simp: apply_task_handler_def only_def)
  next
    case False
    show ?thesis
    proof (cases "apply_content h q")
      case (Inl e)
      obtain code err where "e = (code, err)" by (cases e)
      with Inl Some False assms(3,4) apply_content_codes [of h q code err] show ?thesis
        by (auto simp: apply_task_handler_def only_def)
    next
      case (Inr src)
      with Some False assms(3,4) have "apply_to_collector h r q src a = (resp, a')"
        by (simp add: apply_task_handler_def only_def)
      from apply_to_collector_outcome [OF assms(1,2) Some Inr this] show ?thesis by auto
    qed
  qed
qed

text \<open>A Collector, and a submission for it.\<close>

definition fleet_db :: sql_db where
  "fleet_db = empty_db\<lparr>db_collectors := [\<lparr>col_instance_uid = ''c'', col_hostname = '''', col_version = '''',
    col_last_seen_at = 1, col_status = CollectorStatusHealthy, col_effective_config = ''old'', col_group_id = ''''\<rparr>]\<rparr>"

definition sample_submission :: request where
  "sample_submission = web_request ''POST'' ''/api/v1/tasks/apply'' None
    [(''collector_instance_uid'', JStr ''c''), (''yaml'', JStr ''cfg'')]"

lemma decode_sample_submission:
  "decode_apply (rq_body sample_submission) =
    Some \<lparr>ar_uid = ''c'', ar_yaml = ''cfg'', ar_note = '''', ar_session_id = '''', ar_git_ref = ''''\<rparr>"
  by (simp add: sample_submission_def web_request_def decode_apply_def decode_strings_def decode_struct_def
      decode_string_def equal_fold_def to_lower_def lower_char_def)

lemma sample_check: "vr_valid (app_check sample_handlers ''cfg'')"
  by (simp add: app_check_def check_config_def sample_handlers_def new_handlers_def sample_deps_def) code_simp

lemma sample_submission_created:
  "rs_status (fst (apply_task_handler sample_handlers sample_submission (sample_app fleet_db))) = 201"
proof -
  let ?a = "sample_app fleet_db"
  let ?q = "\<lparr>ar_uid = ''c'', ar_yaml = ''cfg'', ar_note = '''', ar_session_id = '''', ar_git_ref = ''''\<rparr>"
  have db: "tdb (ap_tools ?a) = fleet_db" by (simp add: sample_app_def)
  have healthy: "db_faults (tdb (ap_tools ?a)) = []"
    unfolding db by (simp add: fleet_db_def empty_db_def)
  obtain c where c: "find_row col_instance_uid ''c'' (db_collectors fleet_db) = Some c"
    by (simp add: fleet_db_def table_simps)
  then have get: "on_store (get_collector ''c'') ?a = (Inr c, ?a)"
    using get_collector_healthy [OF healthy, of "''c''"] by (simp add: on_store_def on_tools_def on_db_eq db)
  obtain tid a2 where u: "app_ulid sample_handlers ?a = (tid, a2)" by (cases "app_ulid sample_handlers ?a")
  note same = app_ulid_same [OF u]
  let ?base = "base_for_collector (hd_deps sample_handlers) c (ap_tools ?a)"
  let ?t = "apply_task_of sample_handlers ?q (''cfg'', '''', '''') ?base tid"
  obtain res a3 where cr: "app_create ?t a2 = (res, a3)" by (cases "app_create ?t a2")
  have "\<exists>t2. res = Inr t2"
  proof -
    obtain d' where run: "svc_create (app_now a2) ?t (tdb (ap_tools a2)) = (res, d')"
      using cr by (cases "svc_create (app_now a2) ?t (tdb (ap_tools a2))")
        (auto simp: app_create_def on_store_def on_tools_def on_db_eq)
    have "db_faults (tdb (ap_tools a2)) = []" "stored_task (tdb (ap_tools a2)) (t_id ?t) = None"
      using healthy same db by (simp_all add: stored_task_def fleet_db_def empty_db_def table_simps)
    with create_healthy [OF _ run] show ?thesis by (cases res) auto
  qed
  then obtain t2 where "res = Inr t2" by blast
  moreover have "dp_require_approval (hd_deps sample_handlers)"
    by (simp add: sample_handlers_def new_handlers_def sample_deps_def)
  moreover have "rq_method sample_submission = ''POST''"
    by (simp add: sample_submission_def web_request_def)
  ultimately show ?thesis
    using get u cr sample_check
    by (simp add: apply_task_handler_def only_def decode_sample_submission apply_content_def apply_to_collector_def
        submit_apply_def Let_def)
qed

theorem submission_waits_or_is_refused_witness:
  "submitted sample_handlers sample_submission (sample_app fleet_db)
    (fst (apply_task_handler sample_handlers sample_submission (sample_app fleet_db)))
    (snd (apply_task_handler sample_handlers sample_submission (sample_app fleet_db)))"
proof -
  have "db_faults (tdb (ap_tools (sample_app fleet_db))) = []" "rq_method sample_submission = ''POST''"
    "dp_require_approval (hd_deps sample_handlers)"
    by (simp_all add: sample_app_def fleet_db_def empty_db_def sample_submission_def web_request_def
        sample_handlers_def new_handlers_def sample_deps_def)
  from submission_waits_or_is_refused [OF this(1,3,2) surjective_pairing] sample_submission_created
  show ?thesis by simp
qed

subsection \<open>Rejecting\<close>

text \<open>On a working database, rejecting a task answers 404 for an unknown task, 400 for one that can no longer be
  rejected, and 200 with the rejected task otherwise, recorded under the login user, or under the name in
  the request without one.  In no case is there an entry in the audit log.\<close>

theorem rejection_outcome:
  assumes "db_faults (tdb (ap_tools a)) = []" "rq_method r = ''POST''"
    and "decode_strings (rq_body r) [''approver'', ''reason''] = Some [named, reason]"
    and "reject_task_handler tid r a = (resp, a')"
  shows "db_audit (tdb (ap_tools a')) = db_audit (tdb (ap_tools a)) \<and>
    (case stored_task (tdb (ap_tools a)) tid of
       None \<Rightarrow> resp = write_error 404 ApiTaskMissing
     | Some t \<Rightarrow>
         if can_transition (t_status t) TaskStatusRejected then
           (\<exists>t'. resp = write_json 200 (TaskBody t') \<and> t_status t' = TaskStatusRejected \<and>
             t_approver t' = (if rq_user r \<noteq> '''' then rq_user r else if named \<noteq> '''' then named else ''user'') \<and>
             t_reject_reason t' = reason \<and> stored_task (tdb (ap_tools a')) tid = Some t')
         else rs_status resp = 400)"
proof -
  let ?d = "tdb (ap_tools a)" and ?who = "approver_of r named"
  obtain res d' where run: "svc_reject (app_now a) tid ?who reason ?d = (res, d')"
    by (cases "svc_reject (app_now a) tid ?who reason ?d")
  have a': "tdb (ap_tools a') = d'" and resp: "resp = (case res of Inl err \<Rightarrow> decision_error err | Inr t \<Rightarrow> write_json 200 (TaskBody t))"
    using assms(2-4) run
    by (auto simp: reject_task_handler_def only_def on_store_def on_tools_def on_db_eq split: sum.splits)
  have "db_audit d' = db_audit ?d"
    by (rule svc_keeps(3) [OF _ _ _ run, where P = "\<lambda>d. db_audit d = db_audit ?d"]) (auto simp: fault_blind_def)
  with reject_healthy [OF assms(1), of "app_now a" tid ?who reason] reject_effect [OF run] run show ?thesis
    by (auto simp: a' resp decision_error_def approver_of_def split: option.splits)
qed

theorem rejection_outcome_witness:
  "let r = web_request ''POST'' ''/api/v1/tasks/t/reject'' None [(''approver'', JStr ''ann''), (''reason'', JStr ''no'')];
       a' = snd (reject_task_handler ''t'' r (sample_app (waiting_db empty_task)))
   in \<exists>t'. stored_task (tdb (ap_tools a')) ''t'' = Some t' \<and> t_status t' = TaskStatusRejected \<and> t_approver t' = ''ann''"
proof -
  let ?r = "web_request ''POST'' ''/api/v1/tasks/t/reject'' None [(''approver'', JStr ''ann''), (''reason'', JStr ''no'')]"
  let ?a = "sample_app (waiting_db empty_task)"
  have "db_faults (tdb (ap_tools ?a)) = []" "rq_method ?r = ''POST''"
    "decode_strings (rq_body ?r) [''approver'', ''reason''] = Some [''ann'', ''no'']" "rq_user ?r = ''''"
    "stored_task (tdb (ap_tools ?a)) ''t'' = Some (empty_task\<lparr>t_id := ''t'', t_status := TaskStatusAwaitingApproval\<rparr>)"
    by (simp_all add: sample_app_def web_request_def decode_strings_def decode_struct_def decode_string_def
        equal_fold_def to_lower_def lower_char_def)
  with rejection_outcome [OF this(1-3) surjective_pairing, of "''t''"] show ?thesis
    by (auto simp: can_transition_def Let_def)
qed

subsection \<open>Approving\<close>

lemma exact_routes_short:
  "(p, f) \<in> set (auth_routes rt random @ exact_routes h) \<Longrightarrow> length (split_path p) \<le> 4"
  by (auto simp: auth_routes_def exact_routes_def split_path_def)

text \<open>C35: Behind the login, the approval of a task over the interface dispatches it under the name of the logged-in
  administrator, whatever name the request gives, and answers 200 when the dispatch succeeds, 404 for an
  unknown task and 400 otherwise.\<close>

theorem approval_by_login_user:
  assumes "enabled m" "request_session (app_now a) r m = (Some sess, m)" "as_username sess \<noteq> ''''"
    and "rq_method r = ''POST''" "api_path (rq_path r)" "has_prefix ''/api/v1/tasks/'' (rq_path r)"
    and "split_path (rq_path r) = [''api'', ''v1'', ''tasks'', tid, ''approve'']"
    and "dispatch_approve (hd_deps (rt_handlers rt)) tid (as_username sess) (ap_tools a) = (res, s')"
    and "serve rt random r (m, a) = (resp, (m', a'))"
  shows "ap_tools a' = s' \<and> m' = m \<and>
    rs_status resp = (case res of Inr _ \<Rightarrow> 200 | Inl err \<Rightarrow> if is_not_found err then 404 else 400)"
proof -
  let ?r = "r\<lparr>rq_user := as_username sess\<rparr>"
  have none: "map_of (auth_routes rt random @ exact_routes (rt_handlers rt)) (rq_path r) = None"
  proof (rule ccontr)
    assume "map_of (auth_routes rt random @ exact_routes (rt_handlers rt)) (rq_path r) \<noteq> None"
    then obtain f where "(rq_path r, f) \<in> set (auth_routes rt random @ exact_routes (rt_handlers rt))"
      by (metis map_of_SomeD not_Some_eq)
    from exact_routes_short [OF this] assms(7) show False by simp
  qed
  have other: "\<not> has_prefix ''/api/v1/sessions/'' (rq_path r)"
    using assms(6) by (auto simp: has_prefix_iff)
  have approver: "approver_of ?r named = as_username sess" for named
    using assms(3) by (simp add: approver_of_def)
  have handled: "approve_task_handler (rt_handlers rt) tid ?r a =
      (case res of Inl err \<Rightarrow> (decision_error err, a\<lparr>ap_tools := s'\<rparr>)
        | Inr x \<Rightarrow> (write_json 200 (ToolBody x), a\<lparr>ap_tools := s'\<rparr>))"
    using assms(4,8) by (simp add: approve_task_handler_def only_def approver on_tools_def Let_def split: sum.split)
  have "task_action (rt_handlers rt) ?r (m, a) = on_app (approve_task_handler (rt_handlers rt) tid) ?r (m, a)"
    using assms(7) by (simp add: task_action_def)
  moreover have "api_mux rt random ?r (m, a) = task_action (rt_handlers rt) ?r (m, a)"
    using none other assms(6) by (simp add: api_mux_def subtree_routes_def map_add_def)
  moreover have "root_mux rt random r (m, a) = api_mux rt random ?r (m, a)"
    using assms(1,2) root_mux_api [OF assms(5)] by (simp add: middleware_def)
  ultimately have "root_mux rt random r (m, a) = on_app (approve_task_handler (rt_handlers rt) tid) ?r (m, a)"
    by simp
  moreover have "\<not> preflight rt r"
    using assms(4) by (simp add: preflight_def)
  ultimately show ?thesis
    using handled assms(9) serve_cases [of rt r random "(m, a)"]
    by (auto simp: on_app_def decision_error_def split: sum.splits)
qed

theorem approval_by_login_user_witness:
  "let m = perform_all sample_bcrypt [LoginRequest 3 (Some [0xff]) sample_login] sample_manager;
       r = web_request ''POST'' ''/api/v1/tasks/x/approve'' (Some (hex_encode [0xff])) [(''approver'', JStr ''eve'')]
   in rs_status (fst (serve sample_router None r (m, sample_app (waiting_db empty_task)))) \<in> {200, 400, 404}"
proof -
  let ?m = "perform_all sample_bcrypt [LoginRequest 3 (Some [0xff]) sample_login] sample_manager"
  let ?r = "web_request ''POST'' ''/api/v1/tasks/x/approve'' (Some (hex_encode [0xff])) [(''approver'', JStr ''eve'')]"
  let ?a = "sample_app (waiting_db empty_task)"
  let ?sess = "\<lparr>as_username = ''admin'', as_expires_at = 3 + session_ttl\<rparr>"
  have "enabled ?m"
    using perform_all_keeps [of sample_bcrypt "[LoginRequest 3 (Some [0xff]) sample_login]" sample_manager]
    by (simp add: enabled_def sample_manager_def)
  moreover have "app_now ?a = 100"
    by (simp add: app_now_def sample_app_def sample_state_def)
  then have "request_session (app_now ?a) ?r ?m = (Some ?sess, ?m)"
    by (simp add: request_session_def web_request_def lookup_session_cases sample_sessions session_ttl_def
        hex_encode_def)
  moreover have "api_path (rq_path ?r)"
    by (simp add: web_request_def api_path_def) code_simp
  moreover have "split_path (rq_path ?r) = [''api'', ''v1'', ''tasks'', ''x'', ''approve'']"
    "rq_method ?r = ''POST''" "has_prefix ''/api/v1/tasks/'' (rq_path ?r)"
    by (simp_all add: web_request_def split_path_def)
  moreover obtain res s' where "dispatch_approve (hd_deps (rt_handlers sample_router)) ''x'' (as_username ?sess) (ap_tools ?a) = (res, s')"
    by (cases "dispatch_approve (hd_deps (rt_handlers sample_router)) ''x'' (as_username ?sess) (ap_tools ?a)")
  moreover obtain resp m' a' where run: "serve sample_router None ?r (?m, ?a) = (resp, (m', a'))"
    by (metis prod.collapse)
  ultimately have "rs_status resp = (case res of Inr _ \<Rightarrow> 200 | Inl err \<Rightarrow> if is_not_found err then 404 else 400)"
    using approval_by_login_user [of ?m ?a ?r ?sess "''x''" sample_router res s' None resp m' a'] by simp
  then have "rs_status resp \<in> {200, 400, 404}"
    by (cases res) auto
  then show ?thesis
    by (simp add: Let_def run)
qed

subsection \<open>Rolling back to a commit\<close>

text \<open>C34: A rollback to a commit of git is a new task that waits for approval, whatever the approval switch says, with
  the file of that commit as its content, after it passed the validation; and a reference that git
  resolves to fewer than eight bytes makes the handler panic, after an id was drawn and before anything
  is stored.\<close>

theorem git_rollback_outcome:
  assumes "db_faults (tdb (ap_tools a)) = []"
    and "git_content h (if commit = '''' then ref else commit) uid = Inr (content, sha, path)"
    and "vr_valid (app_check h content)" "rollback_to_commit h r uid sid ref commit a = (resp, a')"
  shows "if length sha < 8 then resp = aborted \<and> ts_opamp (ap_tools a') = ts_opamp (ap_tools a)
    else (rs_status resp = 500 \<and> stored_task (tdb (ap_tools a')) = stored_task (tdb (ap_tools a))) \<or>
      (\<exists>t e. resp = write_json 201 (TaskBody t) \<and> t_type t = TaskTypeRollback \<and>
        t_status t = TaskStatusAwaitingApproval \<and> t_require_approval t \<and> t_generated_yaml t = content \<and>
        t_git_commit t = sha \<and> t_target_instance_uid t = uid \<and>
        stored_task (tdb (ap_tools a)) (t_id t) = None \<and>
        holding (t_id t) t (db_audit (tdb (ap_tools a)) @ [e]) (ap_tools a') \<and>
        log_entry e = (approver_of r '''', AuditActionRollback, t_id t))"
proof -
  obtain tid a1 where u: "app_ulid h a = (tid, a1)" by (cases "app_ulid h a")
  note same = app_ulid_same [OF u]
  show ?thesis
  proof (cases "length sha < 8")
    case True
    with assms(2-4) u same show ?thesis by (simp add: rollback_to_commit_def Let_def)
  next
    case False
    let ?ref = "if commit = '''' then ref else commit"
    let ?t = "empty_task\<lparr>t_id := tid, t_type := TaskTypeRollback, t_status := TaskStatusAwaitingApproval,
        t_require_approval := True, t_input := txt_git_rollback @ uid @ txt_to @ take 8 sha,
        t_session_id := sid, t_generated_yaml := content, t_target_instance_uid := uid,
        t_rollback_version_id := 0, t_git_commit := sha, t_git_path := path, t_git_ref := ?ref\<rparr>"
    obtain res a2 where cr: "app_create ?t a1 = (res, a2)" by (cases "app_create ?t a1")
    have run: "(resp, a') = (case res of Inl _ \<Rightarrow> (write_error 500 ApiCreateTaskFailed, a2)
        | Inr t' \<Rightarrow> (write_json 201 (TaskBody t'),
            app_audit (approver_of r '''') AuditActionRollback tid (git_trace sha path ?ref) a2))"
      using assms(2-4) u cr False by (auto simp: rollback_to_commit_def Let_def split: sum.split)
    have "db_faults (tdb (ap_tools a1)) = []" "t_status ?t = TaskStatusAwaitingApproval"
      using assms(1) same by simp_all
    note created = app_create_healthy [OF this cr]
    show ?thesis
    proof (cases res)
      case (Inl e)
      with created run same False show ?thesis by simp
    next
      case (Inr t2)
      from created have t2: "t2 = ?t\<lparr>t_created_at := app_now a1, t_updated_at := app_now a1\<rparr>"
        unfolding Inr sum.case by (elim conjE)
      from created have hold: "holding (t_id ?t) t2 (db_audit (tdb (ap_tools a1))) (ap_tools a2)"
        unfolding Inr sum.case by (elim conjE)
      from created have fresh: "stored_task (tdb (ap_tools a1)) (t_id ?t) = None"
        unfolding Inr sum.case by (elim conjE)
      obtain e where "holding (t_id ?t) t2 (db_audit (tdb (ap_tools a1)) @ [e]) (ap_tools a')"
        "log_entry e = (approver_of r '''', AuditActionRollback, tid)"
        using app_audit_holding [OF hold, of "approver_of r ''''" AuditActionRollback tid "git_trace sha path ?ref"]
          run Inr by auto
      with t2 fresh same run Inr False show ?thesis
        by (intro if_not_P [THEN iffD2] disjI2 exI [of _ t2] exI [of _ e]) auto
    qed
  qed
qed

text \<open>A repository whose every command prints the same ten characters.\<close>

definition git_handlers :: handlers where
  "git_handlers = new_handlers (sample_deps\<lparr>dp_git_pathspec := ''x.yaml''\<rparr>) (Some (\<lambda>args. GitOutput ''0123456789''))
    ''git'' (\<lambda>sess msg s. (Inr ''ok'', s))"

lemma git_handlers_content: "git_content git_handlers ''HEAD'' ''c'' = Inr (''0123456789'', ''0123456789'', ''x.yaml'')"
proof -
  have "expand_pathspec ''x.yaml'' ''c'' = Inr ''x.yaml''" "validate_pathspec ''x.yaml'' = ok_unit"
    "validate_ref ''HEAD'' = ok_unit" "trim_space ''0123456789'' = ''0123456789''"
    by code_simp+
  then show ?thesis
    by (simp add: git_content_def git_repo_of_def git_handlers_def new_handlers_def show_file_def git_resolve_def
        git_run_def)
qed

theorem git_rollback_outcome_witness:
  "rs_status (fst (rollback_to_commit git_handlers sample_submission ''c'' '''' ''HEAD'' '''' (sample_app fleet_db))) \<in> {201, 500}"
proof -
  have "db_faults (tdb (ap_tools (sample_app fleet_db))) = []"
    by (simp add: sample_app_def fleet_db_def empty_db_def)
  moreover have "vr_valid (app_check git_handlers ''0123456789'')"
    by (simp add: app_check_def check_config_def git_handlers_def new_handlers_def sample_deps_def) code_simp
  ultimately show ?thesis
    using git_rollback_outcome [OF _ _ _ surjective_pairing, of "sample_app fleet_db" git_handlers "''''" "''HEAD''" "''c''"
        "''0123456789''" "''0123456789''" "''x.yaml''" sample_submission "''''"] git_handlers_content
    by auto
qed

end
