(* ===== verification/Task_Refinement.thy ===== *)
theory Task_Refinement
  imports Task_Service
begin

section \<open>The life of a task, abstractly\<close>

text \<open>
  An abstract specification of the task service: a map from ids to statuses that grows by new tasks and
  moves along the documented diagram.  Every call of the service, with any outcome of the database,
  is a step of it; so what holds of all abstract runs, here that a finished task stays as it is, holds of
  the service.
\<close>

type_synonym life = "string \<rightharpoonup> task_status"

definition life_of :: "sql_db \<Rightarrow> life" where
  "life_of d k = map_option t_status (stored_task d k)"

inductive life_step :: "life \<Rightarrow> life \<Rightarrow> bool" where
  idle: "life_step l l"
| born: "l k = None \<Longrightarrow> s \<noteq> TaskStatusNone \<Longrightarrow> life_step l (l(k \<mapsto> s))"
| moved: "l k = Some s \<Longrightarrow> documented_edge s t \<Longrightarrow> life_step l (l(k \<mapsto> t))"

text \<open>A call of the service: whether it succeeded, and the database before and after.\<close>

inductive svc_call :: "sql_db \<Rightarrow> bool \<Rightarrow> sql_db \<Rightarrow> bool" where
  call_create: "svc_create now t d = (r, d') \<Longrightarrow> svc_call d (is_ok r) d'"
| call_approve: "svc_approve now k who d = (r, d') \<Longrightarrow> svc_call d (is_ok r) d'"
| call_reject: "svc_reject now k who why d = (r, d') \<Longrightarrow> svc_call d (is_ok r) d'"
| call_move: "svc_set_status now k to d = (r, d') \<Longrightarrow> svc_call d (is_ok r) d'"

inductive svc_calls :: "sql_db \<Rightarrow> sql_db \<Rightarrow> bool" where
  no_call: "svc_calls d d"
| one_more: "svc_calls d e \<Longrightarrow> svc_call e res d' \<Longrightarrow> svc_calls d d'"

lemma life_of_stored: "stored_task d' = stored_task d \<Longrightarrow> life_of d' = life_of d"
  by (simp add: life_of_def [abs_def])

lemma life_step_unchanged:
  "stored_task d' = stored_task d \<Longrightarrow> life_step (life_of d) (life_of d') \<and> life_of d' = life_of d"
  by (drule life_of_stored) (simp add: life_step.idle)

lemma life_of_update: "stored_task d' = (stored_task d)(k \<mapsto> t) \<Longrightarrow> life_of d' = (life_of d)(k \<mapsto> t_status t)"
  by (auto simp: life_of_def)

lemma life_step_transition:
  assumes "stored_task d k = Some t" "can_transition (t_status t) to" "stored_task d' = (stored_task d)(k \<mapsto> t2)"
    "t_status t2 = to"
  shows "life_step (life_of d) (life_of d')"
proof -
  have at: "life_of d k = Some (t_status t)"
    using assms(1) by (simp add: life_of_def)
  have after: "life_of d' = (life_of d)(k \<mapsto> to)"
    using life_of_update [OF assms(3)] assms(4) by simp
  show ?thesis
  proof (cases "to = TaskStatusPending")
    case True
    then have "t_status t = TaskStatusPending"
      using assms(2) by (simp add: can_transition_def)
    with at after True have "life_of d' = life_of d" by (auto simp: fun_eq_iff)
    then show ?thesis by (simp add: life_step.idle)
  next
    case False
    with assms(2) have "documented_edge (t_status t) to"
      by (cases to) (auto simp: can_transition_def documented_edge_to)
    with at after show ?thesis by (simp add: life_step.moved)
  qed
qed

lemma svc_call_refines:
  assumes "svc_call d res d'"
  shows "life_step (life_of d) (life_of d') \<and> (\<not> res \<longrightarrow> life_of d' = life_of d)"
  using assms
proof cases
  case (call_create now t r)
  show ?thesis
  proof (cases r)
    case (Inl e)
    with create_effect [OF call_create(2)] show ?thesis
      by (auto dest: life_step_unchanged)
  next
    case (Inr t2)
    with create_effect [OF call_create(2)]
    have "stored_task d (t_id t) = None" "stored_task d' = (stored_task d)(t_id t \<mapsto> t2)"
      "t_status t2 \<noteq> TaskStatusNone"
      by auto
    then have "life_step (life_of d) (life_of d')"
      using life_step.born [of "life_of d" "t_id t" "t_status t2"] life_of_update [of d' d]
      by (simp add: life_of_def)
    with Inr call_create(1) show ?thesis by simp
  qed
next
  case (call_approve now k who r)
  with approve_effect [OF call_approve(2)] show ?thesis
    by (cases r) (auto dest: life_step_unchanged intro: life_step_transition)
next
  case (call_reject now k who why r)
  with reject_effect [OF call_reject(2)] show ?thesis
    by (cases r) (auto dest: life_step_unchanged intro: life_step_transition)
next
  case (call_move now k to r)
  with set_status_effect [OF call_move(2)] show ?thesis
    by (cases r) (auto dest: life_step_unchanged intro: life_step_transition)
qed

lemma svc_calls_refine: "svc_calls d d' \<Longrightarrow> life_step\<^sup>*\<^sup>* (life_of d) (life_of d')"
  by (induction rule: svc_calls.induct) (auto dest: svc_call_refines intro: rtranclp.rtrancl_into_rtrancl)

lemma final_kept:
  assumes "life_step\<^sup>*\<^sup>* l l'" "l k = Some s" "s \<in> {TaskStatusDone, TaskStatusRejected}"
  shows "l' k = Some s"
  using assms
proof (induction rule: rtranclp_induct)
  case (step u v)
  then have "u k = Some s" by simp
  with step.hyps(2) step.prems(2) show ?case
    by cases (auto simp: documented_edge_to)
qed

text \<open>C13: The service refines the abstract life of tasks: every call, whatever the database does, is a step of the
  documented diagram for one task, or creates one, or changes no status, the latter whenever it reports
  an error.  Over any number of calls a task that is done or rejected stays so.\<close>

theorem service_refines_life:
  "(svc_call d res d' \<longrightarrow> life_step (life_of d) (life_of d') \<and> (\<not> res \<longrightarrow> life_of d' = life_of d)) \<and>
   (svc_calls d e \<longrightarrow> life_step\<^sup>*\<^sup>* (life_of d) (life_of e) \<and>
     (\<forall>k. life_of d k \<in> {Some TaskStatusDone, Some TaskStatusRejected} \<longrightarrow> life_of e k = life_of d k))"
proof (intro conjI impI allI)
  assume "svc_calls d e"
  then have steps: "life_step\<^sup>*\<^sup>* (life_of d) (life_of e)" by (rule svc_calls_refine)
  then show "life_step\<^sup>*\<^sup>* (life_of d) (life_of e)" .
  fix k
  assume "life_of d k \<in> {Some TaskStatusDone, Some TaskStatusRejected}"
  then obtain s where s: "life_of d k = Some s" "s \<in> {TaskStatusDone, TaskStatusRejected}" by blast
  with final_kept [OF steps s] show "life_of e k = life_of d k" by simp
qed (simp_all add: svc_call_refines)

theorem service_refines_life_witness:
  "life_step (life_of (empty_db\<lparr>db_tasks := [empty_task\<lparr>t_status := TaskStatusDone\<rparr>]\<rparr>))
    (life_of (snd (svc_set_status 7 '''' TaskStatusFailed (empty_db\<lparr>db_tasks := [empty_task\<lparr>t_status := TaskStatusDone\<rparr>]\<rparr>))))"
proof -
  let ?d = "empty_db\<lparr>db_tasks := [empty_task\<lparr>t_status := TaskStatusDone\<rparr>]\<rparr>"
  have "svc_call ?d (is_ok (fst (svc_set_status 7 '''' TaskStatusFailed ?d))) (snd (svc_set_status 7 '''' TaskStatusFailed ?d))"
    by (rule svc_call.call_move [OF surjective_pairing])
  then show ?thesis
    using service_refines_life [of ?d _ _ ?d] by blast
qed

end
