(* ===== verification/Task_Races.thy ===== *)
theory Task_Races
  imports Task_Service
begin

section \<open>Requests that overlap\<close>

text \<open>
  The service reads a task, checks and writes it without a lock, so the reads and writes of several
  requests can interleave, and a request can write what it read long before.  A run of such requests is
  a database with the versions of tasks that requests hold; what the log promises of an applied task
  holds even then, that a rejected task stays rejected does not.
\<close>

subsection \<open>Finishing a request\<close>

context healthy_task_repo
begin

text \<open>The part of an operation after its read, on whatever version was read.\<close>

lemma loaded_update:
  assumes "healthy s"
    and "\<And>t. t_id (edit t) = t_id t \<and> t_status (edit t) = t_status t \<and> t_created_at (edit t) = t_created_at t"
    and "(case transition now t to of
        Inl e \<Rightarrow> fail e
      | Inr t1 \<Rightarrow> and_then (save now (edit t1)) (\<lambda>t2.
          and_then (note_event now (t_id t2) (task_status_text (t_status t)) (task_status_text (t_status t2)))
            (\<lambda>_. ret t2))) s = (r, s')"
  shows "(\<not> can_transition (t_status t) to \<and> s' = s \<and> (\<exists>e. r = Inl e)) \<or>
    (can_transition (t_status t) to \<and> healthy s' \<and>
     (\<exists>t2. r = Inr t2 \<and> t_id t2 = t_id t \<and> t_status t2 = to \<and>
       history s' = history s @ [(t_id t, task_status_text (t_status t), task_status_text to)] \<and>
       stored s' = (stored s)(t_id t := map_option (\<lambda>old. t2\<lparr>t_created_at := t_created_at old\<rparr>) (stored s (t_id t)))))"
proof (cases "can_transition (t_status t) to")
  case False
  with assms(3) show ?thesis by (auto simp: transition_def fail_def)
next
  case True
  let ?t1 = "edit (t\<lparr>t_status := to, t_updated_at := now\<rparr>)"
  let ?t2 = "?t1\<lparr>t_updated_at := now\<rparr>"
  obtain s1 where s1: "save now ?t1 s = (Inr ?t2, s1)" "healthy s1" using save_healthy [OF assms(1)] by blast
  have ids: "t_id ?t2 = t_id t" "t_status ?t2 = to" using assms(2) by auto
  obtain s2 where s2: "note_event now (t_id ?t2) (task_status_text (t_status t)) (task_status_text (t_status ?t2)) s1
      = (ok_unit, s2)" "healthy s2"
      "history s2 = history s1 @ [(t_id ?t2, task_status_text (t_status t), task_status_text (t_status ?t2))]"
    using note_healthy [OF s1(2)] by blast
  have "r = Inr ?t2" "s' = s2"
    using assms(3) True s1 s2(1) by (simp_all add: transition_def ret_def)
  moreover have "stored s2 = stored s1" using note_keeps [OF s2(1)] by blast
  ultimately show ?thesis
    using True s2 save_ok [OF s1(1)] ids assms(2) by auto
qed

end

datatype wish = WantsApproval string | WantsRejection string string | WantsStatus task_status

definition finish_request :: "time \<Rightarrow> wish \<Rightarrow> task \<Rightarrow> task db_op" where
  "finish_request now w t =
    (case w of
       WantsApproval who \<Rightarrow> approve_loaded now who t
     | WantsRejection who why \<Rightarrow> reject_loaded now who why t
     | WantsStatus to \<Rightarrow> set_status_loaded now to t)"

fun wished :: "wish \<Rightarrow> task_status" where
  "wished (WantsApproval who) = TaskStatusApplying"
| "wished (WantsRejection who why) = TaskStatusRejected"
| "wished (WantsStatus to) = to"

lemma finish_request_healthy:
  assumes "db_faults d = []" "finish_request now w t d = (r, d')"
  shows "(\<not> can_transition (t_status t) (wished w) \<and> d' = d \<and> (\<exists>e. r = Inl e)) \<or>
    (can_transition (t_status t) (wished w) \<and> db_faults d' = [] \<and>
     (\<exists>t2. r = Inr t2 \<and> t_id t2 = t_id t \<and> t_status t2 = wished w \<and>
       event_links d' = event_links d @ [(t_id t, task_status_text (t_status t), task_status_text (wished w))] \<and>
       stored_task d' = (stored_task d)(t_id t :=
         map_option (\<lambda>old. t2\<lparr>t_created_at := t_created_at old\<rparr>) (stored_task d (t_id t)))))"
proof (cases w)
  case (WantsApproval who)
  note run = assms(2) [unfolded finish_request_def WantsApproval wish.case approve_loaded_def]
  from sql_repo.loaded_update [OF assms(1), where edit = "\<lambda>t. t\<lparr>t_approver := who\<rparr>", OF _ run]
  show ?thesis unfolding WantsApproval by (simp del: task_status_text.simps)
next
  case (WantsRejection who why)
  note run = assms(2) [unfolded finish_request_def WantsRejection wish.case reject_loaded_def]
  from sql_repo.loaded_update [OF assms(1), where edit = "\<lambda>t. t\<lparr>t_approver := who, t_reject_reason := why\<rparr>", OF _ run]
  show ?thesis unfolding WantsRejection by (simp del: task_status_text.simps)
next
  case (WantsStatus to)
  note run = assms(2) [unfolded finish_request_def WantsStatus wish.case set_status_loaded_def]
  from sql_repo.loaded_update [OF assms(1), where edit = "\<lambda>t. t", OF _ run]
  show ?thesis unfolding WantsStatus by (simp del: task_status_text.simps)
qed

subsection \<open>Interleaved runs\<close>

text \<open>
  Requests create tasks that are not yet in delivery, read a task, finish an operation on any version
  they hold, and write a version they hold with other fields edited, as the tools do.
\<close>

inductive race :: "sql_db \<Rightarrow> task set \<Rightarrow> bool" where
  race_starts: "race empty_db {}"
| race_creates: "race d held \<Longrightarrow> t_status t \<notin> {TaskStatusApplying, TaskStatusDone} \<Longrightarrow>
    svc_create now t d = (r, d') \<Longrightarrow> race d' held"
| race_reads: "race d held \<Longrightarrow> get_task k d = (Inr t, d') \<Longrightarrow> race d' (insert t held)"
| race_finishes: "race d held \<Longrightarrow> t \<in> held \<Longrightarrow> finish_request now w t d = (r, d') \<Longrightarrow>
    race d' (held \<union> (case r of Inl _ \<Rightarrow> {} | Inr t2 \<Rightarrow> {t2}))"
| race_writes: "race d held \<Longrightarrow> t \<in> held \<Longrightarrow> t_id u = t_id t \<Longrightarrow> t_status u = t_status t \<Longrightarrow>
    update_task now u d = (r, d') \<Longrightarrow> race d' held"

definition approval_logged :: "sql_db \<Rightarrow> task \<Rightarrow> bool" where
  "approval_logged d t \<longleftrightarrow> (t_status t \<in> {TaskStatusApplying, TaskStatusDone} \<longrightarrow>
     (t_id t, ''awaiting_approval'', ''applying'') \<in> set (event_links d))"

definition legal_link :: "string \<times> string \<times> string \<Rightarrow> bool" where
  "legal_link l = (case l of (_, f, t) \<Rightarrow> f = '''' \<or> can_transition (task_status_of f) (task_status_of t))"

definition race_inv :: "sql_db \<Rightarrow> task set \<Rightarrow> bool" where
  "race_inv d held \<longleftrightarrow> db_faults d = [] \<and> (\<forall>t\<in>held. approval_logged d t) \<and>
    (\<forall>k t. stored_task d k = Some t \<longrightarrow> approval_logged d t) \<and> (\<forall>l\<in>set (event_links d). legal_link l)"

lemma approval_logged_mono:
  "approval_logged d t \<Longrightarrow> set (event_links d) \<subseteq> set (event_links d') \<Longrightarrow> approval_logged d' t"
  by (auto simp: approval_logged_def)

lemma approval_logged_same: "t_id u = t_id t \<Longrightarrow> t_status u = t_status t \<Longrightarrow> approval_logged d u = approval_logged d t"
  by (simp add: approval_logged_def)

text \<open>The written version is covered by the event of its transition, or by that of an earlier one.\<close>

lemma finished_approval_logged:
  assumes "can_transition (t_status t) to" "approval_logged d t" "t_id t2 = t_id t" "t_status t2 = to"
    and "event_links d' = event_links d @ [(t_id t, task_status_text (t_status t), task_status_text to)]"
  shows "approval_logged d' t2"
  using assms by (cases to) (auto simp: approval_logged_def can_transition_def)

lemma race_inv_step:
  assumes "race_inv d held" "db_faults d' = []" "set (event_links d) \<subseteq> set (event_links d')"
    and "\<And>l. l \<in> set (event_links d') \<Longrightarrow> l \<in> set (event_links d) \<or> legal_link l"
    and "\<And>k t. stored_task d' k = Some t \<Longrightarrow> stored_task d k = Some t \<or> approval_logged d' t"
    and "\<And>t. t \<in> held' \<Longrightarrow> t \<in> held \<or> approval_logged d' t"
  shows "race_inv d' held'"
  using assms approval_logged_mono [OF _ assms(3)] unfolding race_inv_def by blast

lemma race_invariant: "race d held \<Longrightarrow> race_inv d held"
proof (induction rule: race.induct)
  case race_starts
  show ?case by (simp add: race_inv_def empty_db_def stored_task_def event_links_def table_simps)
next
  case (race_creates d held t now r d')
  have healthy: "db_faults d = []" using race_creates.IH by (simp add: race_inv_def)
  note log = create_healthy [OF healthy race_creates.hyps(3)]
  note effect = create_effect [OF race_creates.hyps(3)]
  show ?case
  proof (cases r)
    case (Inl e)
    with log effect show ?thesis by (intro race_inv_step [OF race_creates.IH]) auto
  next
    case (Inr t2)
    with effect race_creates.hyps(2) have "approval_logged d' t2" by (auto simp: approval_logged_def)
    with Inr log effect show ?thesis
      by (intro race_inv_step [OF race_creates.IH]) (auto simp: legal_link_def split: if_splits)
  qed
next
  case (race_reads d held k t d')
  have healthy: "db_faults d = []" using race_reads.IH by (simp add: race_inv_def)
  then have "d' = d" "stored_task d k = Some t"
    using race_reads.hyps(2) sql_repo.load_healthy [OF healthy, of k] by (auto split: option.splits)
  with race_reads.IH show ?case by (auto simp: race_inv_def)
next
  case (race_finishes d held t now w r d')
  have healthy: "db_faults d = []" and t: "approval_logged d t"
    using race_finishes by (auto simp: race_inv_def)
  from finish_request_healthy [OF healthy race_finishes.hyps(3)] show ?case
  proof (elim disjE conjE exE)
    fix e assume "d' = d" "r = Inl e"
    with race_finishes.IH show ?thesis by simp
  next
    fix t2
    assume can: "can_transition (t_status t) (wished w)" and d': "db_faults d' = []" and r: "r = Inr t2"
      and t2: "t_id t2 = t_id t" "t_status t2 = wished w"
      and links: "event_links d' = event_links d @ [(t_id t, task_status_text (t_status t), task_status_text (wished w))]"
      and stored: "stored_task d' = (stored_task d)(t_id t :=
        map_option (\<lambda>old. t2\<lparr>t_created_at := t_created_at old\<rparr>) (stored_task d (t_id t)))"
    have t2_ok: "approval_logged d' t2"
      by (rule finished_approval_logged [OF can t t2 links])
    have "approval_logged d' (t2\<lparr>t_created_at := c\<rparr>)" for c
      using t2_ok by (simp add: approval_logged_def)
    moreover have "legal_link (t_id t, task_status_text (t_status t), task_status_text (wished w))"
      using can by (simp add: legal_link_def task_status_of_text)
    ultimately show ?thesis
      using t2_ok d' links stored r by (intro race_inv_step [OF race_finishes.IH]) (auto split: if_splits)
  qed
next
  case (race_writes d held t u now r d')
  have healthy: "db_faults d = []" and t: "approval_logged d t"
    using race_writes by (auto simp: race_inv_def)
  from sql_repo.save_healthy [OF healthy, of now u] race_writes.hyps(5)
  have r: "r = Inr (u\<lparr>t_updated_at := now\<rparr>)" and d': "db_faults d' = []" by auto
  note effect = sql_repo.save_ok [OF race_writes.hyps(5) [unfolded r]]
  have "approval_logged d' (u\<lparr>t_updated_at := now, t_created_at := c\<rparr>)" for c
    using t effect race_writes.hyps(3,4) by (simp add: approval_logged_def)
  then show ?case
    using d' effect by (intro race_inv_step [OF race_writes.IH]) (auto split: if_splits)
qed

section \<open>Properties\<close>

text \<open>C14: In every interleaving of requests on a healthy database, a task that is being applied or done has an approval in
  its log, and every event of the log is a legal transition, although requests may write versions of a
  task that are out of date.\<close>

theorem interleaved_applied_was_approved:
  assumes "race d held"
  shows "(status_in_db d k \<in> {TaskStatusApplying, TaskStatusDone} \<longrightarrow>
      (''awaiting_approval'', ''applying'') \<in> set (links_of k d)) \<and>
    (\<forall>(f, t)\<in>set (links_of k d). f = '''' \<or> can_transition (task_status_of f) (task_status_of t))"
proof -
  note inv = race_invariant [OF assms, unfolded race_inv_def]
  have "(''awaiting_approval'', ''applying'') \<in> set (links_of k d)"
    if applied: "status_in_db d k \<in> {TaskStatusApplying, TaskStatusDone}"
  proof -
    obtain t where t: "stored_task d k = Some t" "t_status t \<in> {TaskStatusApplying, TaskStatusDone}"
      using applied by (auto simp: status_in_db_def split: option.splits)
    with inv sql_repo.stored_key [OF t(1)] have "(k, ''awaiting_approval'', ''applying'') \<in> set (event_links d)"
      by (auto simp: approval_logged_def)
    then show ?thesis by (force simp: links_of_def)
  qed
  moreover have "legal_link (k, f, t)" if "(f, t) \<in> set (links_of k d)" for f t
    using that inv by (auto simp: links_of_def)
  ultimately show ?thesis by (auto simp: legal_link_def)
qed

text \<open>A rejection is not final when an approval was read before it: it is overwritten, and the rejected task is
  being applied.\<close>

theorem rejection_overridden:
  assumes "db_faults d = []" "stored_task d k = Some t" "t_status t = TaskStatusAwaitingApproval"
  shows "\<exists>d1 d2 t1 t2. get_task k d = (Inr t, d) \<and>
    finish_request now (WantsRejection ann why) t d = (Inr t1, d1) \<and> status_in_db d1 k = TaskStatusRejected \<and>
    finish_request later (WantsApproval bob) t d1 = (Inr t2, d2) \<and> status_in_db d2 k = TaskStatusApplying"
proof -
  have can: "can_transition (t_status t) (wished (WantsRejection ann why))"
    "can_transition (t_status t) (wished (WantsApproval bob))"
    using assms(3) by (simp_all add: can_transition_def)
  have k: "t_id t = k" using sql_repo.stored_key [OF assms(2)] .
  obtain r1 d1 where one: "finish_request now (WantsRejection ann why) t d = (r1, d1)"
    by (cases "finish_request now (WantsRejection ann why) t d")
  from finish_request_healthy [OF assms(1) one] can(1) assms(2) k obtain t1 old where t1: "r1 = Inr t1" "db_faults d1 = []"
      "stored_task d1 k = Some (t1\<lparr>t_created_at := old\<rparr>)" "t_status t1 = TaskStatusRejected" by auto
  obtain r2 d2 where two: "finish_request later (WantsApproval bob) t d1 = (r2, d2)"
    by (cases "finish_request later (WantsApproval bob) t d1")
  from finish_request_healthy [OF t1(2) two] can(2) t1(3) k obtain t2 where "r2 = Inr t2"
      "status_in_db d2 k = TaskStatusApplying" by (auto simp: status_in_db_def)
  moreover have "get_task k d = (Inr t, d)" using sql_repo.load_healthy [OF assms(1), of k] assms(2) by simp
  ultimately show ?thesis
    using one two t1 by (auto simp: status_in_db_def)
qed

text \<open>A waiting task, rejected and then approved by a request that had read it before.\<close>

definition waiting_task :: task where
  "waiting_task = empty_task\<lparr>t_id := ''t'', t_status := TaskStatusAwaitingApproval, t_created_at := 1, t_updated_at := 1\<rparr>"

lemma race_waiting:
  "race (snd (svc_create 1 waiting_task empty_db)) {}"
  "db_faults (snd (svc_create 1 waiting_task empty_db)) = []"
  "stored_task (snd (svc_create 1 waiting_task empty_db)) ''t'' = Some waiting_task"
proof -
  obtain r d where create: "svc_create 1 waiting_task empty_db = (r, d)" by (cases "svc_create 1 waiting_task empty_db")
  have none: "stored_task empty_db k = None" for k by (simp add: stored_task_def empty_db_def table_simps)
  have healthy: "db_faults empty_db = []" by (simp add: empty_db_def)
  show "race (snd (svc_create 1 waiting_task empty_db)) {}"
    by (rule race_creates [OF race_starts _ surjective_pairing]) (simp add: waiting_task_def)
  from create_healthy [OF healthy create] none obtain t2 where "r = Inr t2" "db_faults d = []" by (cases r) auto
  with create_effect [OF create] create
  show "db_faults (snd (svc_create 1 waiting_task empty_db)) = []"
    "stored_task (snd (svc_create 1 waiting_task empty_db)) ''t'' = Some waiting_task"
    by (auto simp: waiting_task_def)
qed

theorem interleaved_applied_was_approved_witness:
  "\<exists>d held. race d held \<and> status_in_db d ''t'' = TaskStatusApplying \<and>
    (''awaiting_approval'', ''applying'') \<in> set (links_of ''t'' d)"
proof -
  let ?d = "snd (svc_create 1 waiting_task empty_db)"
  obtain d1 d2 t1 t2 where run: "get_task ''t'' ?d = (Inr waiting_task, ?d)"
      "finish_request 2 (WantsRejection ''ann'' '''') waiting_task ?d = (Inr t1, d1)"
      "finish_request 3 (WantsApproval ''bob'') waiting_task d1 = (Inr t2, d2)" "status_in_db d2 ''t'' = TaskStatusApplying"
    using rejection_overridden [OF race_waiting(2,3), of 2 "''ann''" "''''" 3 "''bob''"] by (auto simp: waiting_task_def)
  have "race ?d {waiting_task}" using race_reads [OF race_waiting(1) run(1)] by simp
  from race_finishes [OF this _ run(2)] have "race d1 {waiting_task, t1}" by (simp add: insert_commute)
  from race_finishes [OF this _ run(3)] have race: "race d2 {waiting_task, t1, t2}" by (simp add: insert_commute)
  with interleaved_applied_was_approved [OF race, of "''t''"] run(4) show ?thesis by blast
qed

end
