(* ===== verification/Fleet_Mirror.thy ===== *)
theory Fleet_Mirror
  imports Opamp_Server
begin

section \<open>The registry and its copy in the store\<close>

text \<open>
  Every record of the registry is written to the store, so that a server that starts again on the same
  database finds it there when the agent reports next.  The lemmas show that the copy is exact while
  the database is healthy, and that a restart is invisible in the record.
\<close>

subsection \<open>The copy is exact\<close>

definition copied :: "registry \<times> sql_db \<Rightarrow> bool" where
  "copied s \<longleftrightarrow> db_faults (snd s) = [] \<and> (\<forall>k c. reg_get k (fst s) = Some c \<longrightarrow>
     find_row col_instance_uid k (db_collectors (snd s)) = Some c \<and> col_status c \<noteq> CollectorStatusNone)"

abbreviation mirrored :: "opamp \<Rightarrow> bool" where
  "mirrored s \<equiv> copied (os_reg s, os_db s)"

lemma reg_upsert_store:
  "db_faults (snd s) = [] \<Longrightarrow> snd (reg_upsert c conn s) = (snd s)\<lparr>db_collectors := upsert_row col_instance_uid
    (if col_status c = CollectorStatusNone then c\<lparr>col_status := CollectorStatusHealthy\<rparr> else c) (db_collectors (snd s))\<rparr>"
  by (simp add: reg_upsert_def Let_def upsert_collector_def exec_direct_healthy)

lemma copied_upsert: "copied s \<Longrightarrow> copied (reg_upsert c conn s)"
  by (auto simp: copied_def reg_upsert_store reg_get_upsert find_row_upsert_row)

lemma copied_mark_one: "copied s \<Longrightarrow> copied (mark_one now k s)"
  by (auto simp: mark_one_upsert intro: copied_upsert split: option.split)

lemma copied_sweep: "copied s \<Longrightarrow> copied (mark_offline order now s)"
  unfolding mark_offline_def by (rule fold_inv [where P = copied]) (simp_all add: copied_mark_one)

lemma copied_same: "copied (r, d) \<Longrightarrow> rg_collectors r' = rg_collectors r \<Longrightarrow> copied (r', d)"
  by (simp add: copied_def reg_get_def)

lemma copied_fleet: "copied (f (os_reg s, os_db s)) \<Longrightarrow> mirrored (on_fleet f s)"
  by (simp add: frame_simps)

lemma get_collector_mirror:
  "db_faults d = [] \<Longrightarrow> get_collector uid d =
    (case find_row col_instance_uid uid (db_collectors d) of None \<Rightarrow> (Inl ErrNotFound, d) | Some c \<Rightarrow> (Inr c, d))"
  by (simp add: get_collector_def query_row_def and_then_def query_healthy map_no_rows_def ret_def fail_def split: option.split)

lemma mirrored_restore: "mirrored s \<Longrightarrow> mirrored (restore_known uid s)"
  using copied_upsert [of "(os_reg s, os_db s)"]
  by (auto simp: restore_known_def frame_simps get_collector_mirror copied_def split: option.split)

lemma on_message_store:
  assumes "hex_encode (am_instance_uid msg) = uid" "uid \<noteq> ''''"
  shows "os_db (snd (on_message env now conn msg s)) = snd (reg_upsert
    ((collector_from_message uid msg (os_reg (restore_known uid s)))\<lparr>col_last_seen_at := now\<rparr>) (Some conn)
    (os_reg (restore_known uid s), os_db (restore_known uid s)))"
  using assms by (auto simp: on_message_def Let_def take_pending_def frame_simps split: option.split)

lemma mirrored_message:
  assumes "mirrored s"
  shows "mirrored (snd (on_message env now conn msg s))"
proof (cases "hex_encode (am_instance_uid msg) = ''''")
  case True
  with assms show ?thesis by (simp add: on_message_def)
next
  case False
  let ?uid = "hex_encode (am_instance_uid msg)"
  let ?up = "reg_upsert ((collector_from_message ?uid msg (os_reg (restore_known ?uid s)))\<lparr>col_last_seen_at := now\<rparr>)
    (Some conn) (os_reg (restore_known ?uid s), os_db (restore_known ?uid s))"
  have "copied (fst ?up, snd ?up)" using copied_upsert [OF mirrored_restore [OF assms]] by simp
  then show ?thesis
    unfolding on_message_registry [OF refl False] on_message_store [OF refl False]
    by (rule copied_same) (simp add: frame_simps)
qed

lemma mirrored_step: "opamp_step env s s' \<Longrightarrow> mirrored s \<Longrightarrow> mirrored s'"
proof (induction rule: opamp_step.induct)
  case (connection_closes s conn)
  then show ?case
    by (auto simp: on_connection_close_def Let_def frame_simps reg_remove_def intro: copied_same)
next
  case (config_pushed s uid content)
  then show ?case
    by (auto simp: push_config_def set_pending_def conn_send_def split: option.split)
next
  case (restart_sent s uid)
  then show ?case
    by (auto simp: send_restart_def conn_send_def split: option.split)
qed (auto intro: mirrored_message copied_sweep copied_upsert copied_fleet)

lemma mirrored_run: "(opamp_step env)\<^sup>*\<^sup>* s s' \<Longrightarrow> mirrored s \<Longrightarrow> mirrored s'"
  by (induction rule: rtranclp_induct) (auto intro: mirrored_step)

subsection \<open>A restart\<close>

lemma restored_record:
  assumes "mirrored s" "reg_get uid (os_reg s) = Some c"
  shows "reg_get uid (os_reg (restore_known uid s)) = Some c"
    and "reg_get uid (os_reg (restore_known uid (new_opamp (new_registry limit) (os_db s) token))) = Some c"
proof -
  show "reg_get uid (os_reg (restore_known uid s)) = Some c" using assms(2) by (simp add: restore_known_def)
  have "reg_get uid (new_registry limit) = None" by (simp add: reg_get_def new_registry_def table_simps)
  moreover have "get_collector uid (os_db s) = (Inr c, os_db s)" "col_status c \<noteq> CollectorStatusNone"
    using assms by (auto simp: copied_def get_collector_mirror)
  ultimately show "reg_get uid (os_reg (restore_known uid (new_opamp (new_registry limit) (os_db s) token))) = Some c"
    using reg_get_uid [OF assms(2)] by (simp add: restore_known_def new_opamp_def frame_simps reg_get_upsert)
qed

lemma message_record:
  assumes "hex_encode (am_instance_uid msg) = uid" "uid \<noteq> ''''" "reg_get uid (os_reg (restore_known uid s)) = Some c"
    and "reg_get uid (os_reg (restore_known uid s')) = Some c"
  shows "reg_get uid (os_reg (snd (on_message env now conn msg s'))) = reg_get uid (os_reg (snd (on_message env now conn msg s)))"
proof -
  have same: "collector_from_message uid msg (os_reg (restore_known uid s')) = collector_from_message uid msg (os_reg (restore_known uid s))"
    using assms(3,4) by (simp add: collector_from_message_def)
  have get: "reg_get k r = reg_get k r'" if "rg_collectors r = rg_collectors r'" for k r r'
    using that by (simp add: reg_get_def)
  have "reg_get uid (os_reg (snd (on_message env now conn msg s0))) = reg_get uid (fst (reg_upsert
      ((collector_from_message uid msg (os_reg (restore_known uid s0)))\<lparr>col_last_seen_at := now\<rparr>) (Some conn)
      (os_reg (restore_known uid s0), os_db (restore_known uid s0))))" for s0
    unfolding on_message_registry [OF assms(1,2)] by (rule get) (simp add: frame_simps)
  then show ?thesis
    by (simp add: same reg_get_upsert collector_from_message_uid)
qed

section \<open>Properties\<close>

text \<open>C22: In every run of the OpAMP server on a healthy database the record of each Collector in the registry is the
  one in the store.  When the server is started again on that database, the next message of a Collector
  leaves the same record as it would have without the restart, so what earlier messages reported and the
  group of the Collector are kept.\<close>

theorem restart_keeps_record:
  assumes "(opamp_step env)\<^sup>*\<^sup>* (new_opamp (new_registry limit) d token) s" "db_faults d = []"
    and "reg_get uid (os_reg s) = Some c" "hex_encode (am_instance_uid msg) = uid" "uid \<noteq> ''''"
  shows "find_row col_instance_uid uid (db_collectors (os_db s)) = Some c \<and>
    reg_get uid (os_reg (snd (on_message env now conn msg (new_opamp (new_registry limit') (os_db s) token')))) =
      reg_get uid (os_reg (snd (on_message env now conn msg s)))"
proof -
  have "mirrored (new_opamp (new_registry limit) d token)"
    using assms(2) by (simp add: copied_def new_opamp_def new_registry_def reg_get_def table_simps)
  from mirrored_run [OF assms(1) this] have mirror: "mirrored s" .
  with assms(3) have "find_row col_instance_uid uid (db_collectors (os_db s)) = Some c"
    by (simp add: copied_def)
  with message_record [OF assms(4,5) restored_record [OF mirror assms(3)]] show ?thesis by blast
qed

text \<open>A Collector that described itself, and after the restart only reports its health.\<close>

definition plain_report :: agent_to_server where
  "plain_report = \<lparr>am_instance_uid = [0], am_description = None, am_health = Some True, am_effective = None,
     am_capabilities = 0, am_remote_status = None\<rparr>"

definition full_report :: agent_to_server where
  "full_report = plain_report\<lparr>am_effective := Some (Some [('''', ''x'')])\<rparr>"

theorem restart_keeps_record_witness:
  "let env = \<lparr>oe_sha = (\<lambda>_. []), oe_send_ok = (\<lambda>_ _. True), oe_order = id\<rparr>;
       s = snd (on_message env 1 7 full_report (new_opamp (new_registry 10) empty_db ''''))
   in map_option col_effective_config (reg_get ''00''
       (os_reg (snd (on_message env 2 8 plain_report (new_opamp (new_registry 10) (os_db s) ''''))))) =
     Some (config_map_to_string [('''', ''x'')])"
proof -
  let ?env = "\<lparr>oe_sha = (\<lambda>_. []), oe_send_ok = (\<lambda>_ _. True), oe_order = id\<rparr>"
  let ?start = "new_opamp (new_registry 10) empty_db ''''"
  let ?s = "snd (on_message ?env 1 7 full_report ?start)"
  have uid: "hex_encode (am_instance_uid full_report) = ''00''" "hex_encode (am_instance_uid plain_report) = ''00''"
    by (simp_all add: full_report_def plain_report_def) code_simp+
  have step: "(opamp_step ?env)\<^sup>*\<^sup>* ?start ?s" by (rule r_into_rtranclp, rule message_arrives)
  have "db_faults empty_db = []" by (simp add: empty_db_def)
  have "map_option col_effective_config (reg_get ''00'' (os_reg ?s)) = Some (config_map_to_string [('''', ''x'')])"
    by code_simp
  then obtain c where c: "reg_get ''00'' (os_reg ?s) = Some c" by auto
  have "map_option col_effective_config (reg_get ''00'' (os_reg (snd (on_message ?env 2 8 plain_report ?s)))) =
      Some (config_map_to_string [('''', ''x'')])"
    by code_simp
  with restart_keeps_record [OF step \<open>db_faults empty_db = []\<close> c uid(2), of 2 8 10 "''''"] show ?thesis
    by (simp add: Let_def)
qed

end
