(* ===== verification/Supervisor.thy ===== *)
theory Supervisor
  imports Confirm Git_Source
begin

section \<open>The supervisor of a Collector (tests/supervisor-fixture/main.go)\<close>

text \<open>
  The agent at the other end of the protocol: a process that owns a Collector, writes a received
  configuration to the Collector's file, restarts it and reports the result.  The state holds the child
  processes with the configuration file they were started from, the file, and what the program asked of
  the protocol client, in order.  The operating system answers each write, start and read; the client
  library, which turns the requests into messages, is a parameter of the properties.
  The lemmas show that at most one child runs, what a handled configuration leaves, and, with the
  server's model, which deliveries to a supervised Collector are confirmed.
\<close>

subsection \<open>State\<close>

datatype supervisor_error =
    SupEmptyConfig
  | SupSystem string
  | SupUidLength nat
  | SupUidHex

datatype write_answer =
    Written
  | WriteFailed string string

datatype spawn_answer =
    Spawned int
  | LogNotOpened string
  | SpawnFailed string

record collector_proc =
  cp_bin :: string
  cp_cfg_path :: string
  cp_log_path :: string
  cp_cmd :: "int option"
  cp_restarts :: int

record component_health =
  ch_healthy :: bool
  ch_status :: string

record config_status =
  cs_hash :: "8 word list"
  cs_status :: rc_status
  cs_error :: "supervisor_error option"

datatype client_request =
    SetAgentDescription "attribute list" "attribute list"
  | SetHealth component_health
  | SetCapabilities "64 word"
  | SetRemoteConfigStatus config_status
  | UpdateEffectiveConfig

record supervisor =
  sv_proc :: collector_proc
  sv_file :: string
  sv_children :: "int \<rightharpoonup> string"
  sv_requests :: "client_request list"

record agent_remote_config =
  arc_config :: "(string \<times> string option) list option"
  arc_hash :: "8 word list"

subsection \<open>The child process\<close>

text \<open>A process that was started is terminated first and waited for.\<close>

definition terminate_child :: "supervisor \<Rightarrow> supervisor" where
  "terminate_child s =
    (case cp_cmd (sv_proc s) of
       None \<Rightarrow> s
     | Some pid \<Rightarrow> s\<lparr>sv_children := (sv_children s)(pid := None)\<rparr>)"

definition start_collector :: "spawn_answer \<Rightarrow> supervisor \<Rightarrow> supervisor_error option \<times> supervisor" where
  "start_collector answer s =
    (let s1 = terminate_child s in
     case answer of
       LogNotOpened err \<Rightarrow> (Some (SupSystem err), s1)
     | SpawnFailed err \<Rightarrow> (Some (SupSystem err), s1)
     | Spawned pid \<Rightarrow>
         (None, s1\<lparr>sv_children := (sv_children s1)(pid \<mapsto> sv_file s1),
                   sv_proc := (sv_proc s1)\<lparr>cp_cmd := Some pid, cp_restarts := cp_restarts (sv_proc s1) + 1\<rparr>\<rparr>))"

definition collector_pid :: "supervisor \<Rightarrow> int" where
  "collector_pid s = (case cp_cmd (sv_proc s) of None \<Rightarrow> 0 | Some pid \<Rightarrow> pid)"

definition stop_collector :: "supervisor \<Rightarrow> supervisor" where
  "stop_collector s =
    (case cp_cmd (sv_proc s) of
       None \<Rightarrow> s
     | Some _ \<Rightarrow> (terminate_child s)\<lparr>sv_proc := (sv_proc s)\<lparr>cp_cmd := None\<rparr>\<rparr>)"

subsection \<open>Helpers\<close>

text \<open>The files of a configuration are listed in the order the map is iterated; a file may be missing.\<close>

definition remote_config_body :: "agent_remote_config option \<Rightarrow> string" where
  "remote_config_body rc =
    (case rc of
       None \<Rightarrow> ''''
     | Some r \<Rightarrow>
         (case arc_config r of
            None \<Rightarrow> ''''
          | Some files \<Rightarrow>
              (case map_of files '''' of
                 Some (Some body) \<Rightarrow> body
               | _ \<Rightarrow>
                   (case List.find (\<lambda>f. snd f \<noteq> None) files of
                      Some (_, Some body) \<Rightarrow> body
                    | _ \<Rightarrow> ''''))))"

definition healthy_status :: "int \<Rightarrow> component_health" where
  "healthy_status pid =
    \<lparr>ch_healthy = (pid \<noteq> 0), ch_status = (if pid = 0 then ''StatusStarting'' else ''StatusOK'')\<rparr>"

text \<open>\<open>strings.Fields\<close>: the words between white space; the first argument is the current word, reversed.\<close>

definition emit_word :: "string \<Rightarrow> string list" where
  "emit_word cur = (if cur = [] then [] else [rev cur])"

lemma trim_left_shorter: "trim_left ws s \<noteq> s \<Longrightarrow> length (trim_left ws s) < length s"
proof -
  assume changed: "trim_left ws s \<noteq> s"
  obtain n where n: "trim_left ws s = drop n s" using trim_left_drop by blast
  with changed show ?thesis by (cases n; cases s) auto
qed

function fields_from :: "string \<Rightarrow> string \<Rightarrow> string list" where
  "fields_from cur [] = emit_word cur"
| "fields_from cur (c # cs) =
     (if trim_left wide_spaces (c # cs) \<noteq> c # cs
      then emit_word cur @ fields_from [] (trim_left wide_spaces (c # cs))
      else fields_from (c # cur) cs)"
  by pat_completeness auto

termination
  by (relation "measure (\<lambda>(cur, s). length s)") (auto dest: trim_left_shorter simp del: trim_left.simps)

definition fields_of :: "string \<Rightarrow> string list" where
  "fields_of s = fields_from [] s"

text \<open>The first word that begins with a digit is the version; a command that fails has none.\<close>

fun version_field :: "string list \<Rightarrow> string option" where
  "version_field [] = None"
| "version_field (f # fs) =
     (if f = ''version'' \<or> f = ''v'' then version_field fs
      else if CHR ''0'' \<le> f ! 0 \<and> f ! 0 \<le> CHR ''9'' then Some (trim_prefix ''v'' f)
      else version_field fs)"

definition collector_version :: "string option \<Rightarrow> string" where
  "collector_version output =
    (case output of
       None \<Rightarrow> ''unknown''
     | Some out \<Rightarrow>
         (case version_field (fields_of out) of
            Some v \<Rightarrow> v
          | None \<Rightarrow> trim_space out))"

definition parse_instance_uid :: "string \<Rightarrow> supervisor_error + 8 word list" where
  "parse_instance_uid s =
    (let clean = replace_all ''-'' '''' (trim_space s) in
     if length clean \<noteq> 32 then Inl (SupUidLength (length clean))
     else case hex_decode clean of
       None \<Rightarrow> Inl SupUidHex
     | Some b \<Rightarrow> Inr b)"

definition string_kv :: "string \<Rightarrow> string \<Rightarrow> attribute" where
  "string_kv key text = \<lparr>kv_key = key, kv_value = text\<rparr>"

subsection \<open>Messages and commands of the server\<close>

definition ask_client :: "client_request \<Rightarrow> supervisor \<Rightarrow> supervisor" where
  "ask_client q s = s\<lparr>sv_requests := sv_requests s @ [q]\<rparr>"

definition write_config :: "write_answer \<Rightarrow> string \<Rightarrow> supervisor \<Rightarrow> supervisor_error option \<times> supervisor" where
  "write_config answer body s =
    (case answer of
       Written \<Rightarrow> (None, s\<lparr>sv_file := body\<rparr>)
     | WriteFailed err left \<Rightarrow> (Some (SupSystem err), s\<lparr>sv_file := left\<rparr>))"

definition apply_remote_config ::
  "write_answer \<Rightarrow> spawn_answer \<Rightarrow> agent_remote_config \<Rightarrow> supervisor \<Rightarrow> supervisor_error option \<times> supervisor" where
  "apply_remote_config w sp rc s =
    (let body = remote_config_body (Some rc) in
     if body = '''' then (Some SupEmptyConfig, s)
     else case write_config w body s of
       (Some err, s1) \<Rightarrow> (Some err, s1)
     | (None, s1) \<Rightarrow> start_collector sp s1)"

definition supervisor_caps :: "64 word" where
  "supervisor_caps = Bit_Operations.or (Bit_Operations.or 4 2048) (Bit_Operations.or 2 4096)"

definition sv_on_connect :: "supervisor \<Rightarrow> supervisor" where
  "sv_on_connect s = ask_client UpdateEffectiveConfig (ask_client (SetHealth (healthy_status (collector_pid s))) s)"

definition sv_on_message ::
  "write_answer \<Rightarrow> spawn_answer \<Rightarrow> agent_remote_config option \<Rightarrow> supervisor \<Rightarrow> supervisor" where
  "sv_on_message w sp msg s =
    (case msg of
       None \<Rightarrow> s
     | Some rc \<Rightarrow>
         let (err, s1) = apply_remote_config w sp rc s;
             status = (case err of
                 Some _ \<Rightarrow> \<lparr>cs_hash = arc_hash rc, cs_status = RcFailed, cs_error = err\<rparr>
               | None \<Rightarrow> \<lparr>cs_hash = arc_hash rc, cs_status = RcApplied, cs_error = None\<rparr>);
             s2 = ask_client (SetRemoteConfigStatus status) s1;
             s3 = ask_client (SetHealth (healthy_status (collector_pid s2))) s2
         in ask_client UpdateEffectiveConfig s3)"

text \<open>The answer of \<open>GetEffectiveConfig\<close>, which the client calls for every \<open>UpdateEffectiveConfig\<close>; the
  argument is the error of reading the file, if any.\<close>

definition sv_effective_config :: "string option \<Rightarrow> supervisor \<Rightarrow> supervisor_error + config_map" where
  "sv_effective_config read_error s =
    (case read_error of Some err \<Rightarrow> Inl (SupSystem err) | None \<Rightarrow> Inr [('''', sv_file s)])"

definition sv_on_command :: "spawn_answer \<Rightarrow> supervisor \<Rightarrow> supervisor_error option \<times> supervisor" where
  "sv_on_command = start_collector"

subsection \<open>The program\<close>

record supervisor_flags =
  fl_server :: string
  fl_token :: string
  fl_instance_uid :: string
  fl_collector :: string
  fl_config :: string
  fl_workdir :: string
  fl_hostname :: string

text \<open>The answers of the operating system and of the client library during the start.\<close>

record startup_answers =
  sa_read_config :: "string + string"
  sa_hostname :: string
  sa_mkdir :: "string option"
  sa_write :: write_answer
  sa_old_file :: string
  sa_spawn :: spawn_answer
  sa_version :: "string option"
  sa_describe :: "string option"
  sa_health :: "string option"
  sa_caps :: "string option"
  sa_start :: "string option"

record start_settings =
  ss_server :: string
  ss_authorization :: "string option"
  ss_instance_uid :: "8 word list"

text \<open>\<open>filepath.Join\<close> of the working directory and a file name.\<close>

definition work_file :: "string \<Rightarrow> string \<Rightarrow> string" where
  "work_file dir name = clean_path (if dir = '''' then name else dir @ ''/'' @ name)"

definition new_supervisor :: "supervisor_flags \<Rightarrow> string \<Rightarrow> supervisor" where
  "new_supervisor fl contents =
    \<lparr>sv_proc = \<lparr>cp_bin = fl_collector fl, cp_cfg_path = work_file (fl_workdir fl) ''effective.yaml'',
       cp_log_path = work_file (fl_workdir fl) ''agent.log'', cp_cmd = None, cp_restarts = 0\<rparr>,
     sv_file = contents, sv_children = Map.empty, sv_requests = []\<rparr>"

text \<open>The requests to the client before it is started; the first refusal ends them.\<close>

definition configure_client ::
  "supervisor_flags \<Rightarrow> startup_answers \<Rightarrow> string \<Rightarrow> supervisor \<Rightarrow> string option \<times> supervisor" where
  "configure_client fl a hostname s =
    (let s1 = ask_client (SetAgentDescription
           [string_kv ''service.name'' ''otelcol-contrib'',
            string_kv ''service.version'' (collector_version (sa_version a)),
            string_kv ''service.instance.id'' (fl_instance_uid fl)]
           [string_kv ''host.name'' hostname]) s
     in case sa_describe a of Some err \<Rightarrow> (Some err, s1)
      | None \<Rightarrow>
          let s2 = ask_client (SetHealth (healthy_status (collector_pid s1))) s1
          in case sa_health a of Some err \<Rightarrow> (Some err, s2)
           | None \<Rightarrow> (sa_caps a, ask_client (SetCapabilities supervisor_caps) s2))"

text \<open>
  The start: an exit code, with what is left behind, or the running supervisor with the settings its
  client was started with.  An exit skips the deferred calls.
\<close>

definition start_supervisor ::
  "supervisor_flags \<Rightarrow> startup_answers \<Rightarrow> (int \<times> supervisor option) + start_settings \<times> supervisor" where
  "start_supervisor fl a =
    (if fl_instance_uid fl = '''' \<or> fl_config fl = '''' then Inl (2, None)
     else case parse_instance_uid (fl_instance_uid fl) of
       Inl _ \<Rightarrow> Inl (2, None)
     | Inr uid \<Rightarrow>
         (case sa_read_config a of
            Inl _ \<Rightarrow> Inl (2, None)
          | Inr initial \<Rightarrow>
              let hostname = (if fl_hostname fl = '''' then sa_hostname a else fl_hostname fl) in
              (case sa_mkdir a of
                 Some _ \<Rightarrow> Inl (2, None)
               | None \<Rightarrow>
                   (case write_config (sa_write a) initial (new_supervisor fl (sa_old_file a)) of
                      (Some _, s0) \<Rightarrow> Inl (2, Some s0)
                    | (None, s0) \<Rightarrow>
                        (case start_collector (sa_spawn a) s0 of
                           (Some _, s1) \<Rightarrow> Inl (1, Some s1)
                         | (None, s1) \<Rightarrow>
                             (case configure_client fl a hostname s1 of
                                (Some _, s2) \<Rightarrow> Inl (1, Some s2)
                              | (None, s2) \<Rightarrow>
                                  let settings = \<lparr>ss_server = fl_server fl,
                                     ss_authorization = (if fl_token fl \<noteq> '''' then Some (''Bearer '' @ fl_token fl) else None),
                                     ss_instance_uid = uid\<rparr>
                                  in case sa_start a of
                                       Some _ \<Rightarrow> Inl (1, Some s2)
                                     | None \<Rightarrow> Inr (settings, s2)))))))"

text \<open>What the running supervisor does, with the exit of the child on its own.\<close>

inductive sv_step :: "supervisor \<Rightarrow> supervisor \<Rightarrow> bool" where
  sv_connected: "sv_step s (sv_on_connect s)"
| sv_message: "sv_step s (sv_on_message w sp msg s)"
| sv_command: "sv_step s (snd (sv_on_command sp s))"
| sv_child_exits: "sv_step s (s\<lparr>sv_children := (sv_children s)(pid := None)\<rparr>)"

subsection \<open>At most one child\<close>

text \<open>A running child is the process the supervisor recorded.\<close>

definition sv_inv :: "supervisor \<Rightarrow> bool" where
  "sv_inv s \<longleftrightarrow> dom (sv_children s) \<subseteq> set_option (cp_cmd (sv_proc s))"

lemma ask_client_simps [frame_simps]:
  "sv_proc (ask_client q s) = sv_proc s"
  "sv_file (ask_client q s) = sv_file s"
  "sv_children (ask_client q s) = sv_children s"
  "sv_requests (ask_client q s) = sv_requests s @ [q]"
  "collector_pid (ask_client q s) = collector_pid s"
  "sv_inv (ask_client q s) = sv_inv s"
  by (simp_all add: ask_client_def collector_pid_def sv_inv_def)

lemma terminate_child_none: "sv_inv s \<Longrightarrow> sv_children (terminate_child s) = Map.empty"
  by (cases "cp_cmd (sv_proc s)") (auto simp: sv_inv_def terminate_child_def dom_def fun_eq_iff)

lemma terminate_child_frame [frame_simps]:
  "sv_proc (terminate_child s) = sv_proc s"
  "sv_file (terminate_child s) = sv_file s"
  "sv_requests (terminate_child s) = sv_requests s"
  by (simp_all add: terminate_child_def split: option.split)

lemma start_collector_result:
  assumes "sv_inv s" and "start_collector sp s = (err, s')"
  shows "sv_file s' = sv_file s \<and> sv_requests s' = sv_requests s \<and>
    (case sp of
       Spawned pid \<Rightarrow> err = None \<and> sv_children s' = [pid \<mapsto> sv_file s] \<and> cp_cmd (sv_proc s') = Some pid
     | _ \<Rightarrow> err \<noteq> None \<and> sv_children s' = Map.empty \<and> sv_proc s' = sv_proc s)"
  using assms terminate_child_none [OF assms(1)]
  by (auto simp: start_collector_def Let_def frame_simps split: spawn_answer.splits)

lemma start_collector_inv: "sv_inv s \<Longrightarrow> sv_inv (snd (start_collector sp s))"
  using start_collector_result [of s sp "fst (start_collector sp s)" "snd (start_collector sp s)"]
  by (auto simp: sv_inv_def split: spawn_answer.splits)

lemma write_config_frame [frame_simps]:
  "sv_proc (snd (write_config w body s)) = sv_proc s"
  "sv_children (snd (write_config w body s)) = sv_children s"
  "sv_requests (snd (write_config w body s)) = sv_requests s"
  "sv_inv (snd (write_config w body s)) = sv_inv s"
  by (simp_all add: write_config_def sv_inv_def split: write_answer.split)

lemma apply_remote_config_inv:
  assumes "sv_inv s"
  shows "sv_inv (snd (apply_remote_config w sp rc s))"
proof -
  obtain err s1 where w: "write_config w (remote_config_body (Some rc)) s = (err, s1)"
    by (cases "write_config w (remote_config_body (Some rc)) s")
  with assms write_config_frame(4) [of w "remote_config_body (Some rc)" s] have "sv_inv s1" by simp
  with w assms start_collector_inv show ?thesis
    by (cases err) (auto simp: apply_remote_config_def Let_def)
qed

lemma sv_on_message_inv: "sv_inv s \<Longrightarrow> sv_inv (sv_on_message w sp msg s)"
  using apply_remote_config_inv [of s w sp]
  by (auto simp: sv_on_message_def Let_def frame_simps case_prod_beta split: option.split)

lemma sv_step_inv: "sv_step s s' \<Longrightarrow> sv_inv s \<Longrightarrow> sv_inv s'"
proof (induction rule: sv_step.induct)
  case (sv_child_exits s pid)
  then show ?case by (auto simp: sv_inv_def)
qed (simp_all add: sv_on_connect_def frame_simps sv_on_message_inv sv_on_command_def start_collector_inv)

lemma stop_collector_none: "sv_inv s \<Longrightarrow> sv_children (stop_collector s) = Map.empty"
  using terminate_child_none [of s]
  by (cases "cp_cmd (sv_proc s)") (auto simp: stop_collector_def sv_inv_def)

subsection \<open>The start\<close>

lemma replace_hyphens: "replace_all ''-'' [] s = filter (\<lambda>c. c \<noteq> CHR ''-'') s"
  by (induction "''-''" "[] :: string" s rule: replace_all.induct) (auto simp: has_prefix_def)

lemma hex_decode_length: "hex_decode s = Some b \<Longrightarrow> length s = 2 * length b"
  by (induction s arbitrary: b rule: hex_decode.induct) (auto split: option.splits)

lemma parse_instance_uid_length: "parse_instance_uid s = Inr b \<Longrightarrow> length b = 16"
  by (auto simp: parse_instance_uid_def Let_def split: if_splits option.splits dest: hex_decode_length)

text \<open>
  An identifier of 16 bytes is read back from its hexadecimal digits, hyphens wherever they are put.
\<close>

lemma parse_instance_uid_hyphens:
  assumes "filter (\<lambda>c. c \<noteq> CHR ''-'') s = hex_encode b" and "length b = 16"
    and "set s \<subseteq> set ''0123456789abcdef-''"
  shows "parse_instance_uid s = Inr b"
proof -
  have "hex_encode b \<noteq> []" using assms(2) by auto
  then have "s \<noteq> []" using assms(1) by (metis filter.simps(1))
  then have ends: "hd s \<in> set ''0123456789abcdef-''" "last s \<in> set ''0123456789abcdef-''"
    using assms(3) hd_in_set last_in_set by blast+
  have plain: "\<not> is_ascii_space c \<and> c < CHR 0x80" if "c \<in> set ''0123456789abcdef-''" for c
    using that by (auto simp: is_ascii_space_def less_char_def)
  have "trim_space s = s"
    using plain [OF ends(1)] plain [OF ends(2)] \<open>s \<noteq> []\<close> by (intro trim_space_id) auto
  moreover have "length (hex_encode b) = 32"
    using hex_decode_length [OF hex_decode_encode [of b]] assms(2) by simp
  ultimately show ?thesis
    using assms(1) by (simp add: parse_instance_uid_def replace_hyphens hex_decode_encode)
qed

lemma write_config_ok: "write_config w body s = (None, s') \<longleftrightarrow> w = Written \<and> s' = s\<lparr>sv_file := body\<rparr>"
  by (auto simp: write_config_def split: write_answer.split)

lemma write_config_fails: "write_config w body s = (Some err, s') \<Longrightarrow>
    \<exists>text rest. w = WriteFailed text rest \<and> s' = s\<lparr>sv_file := rest\<rparr>"
  by (auto simp: write_config_def split: write_answer.splits)

lemma new_supervisor_inv [simp]: "sv_inv (new_supervisor fl contents)"
  "sv_inv (new_supervisor fl contents\<lparr>sv_file := text\<rparr>)"
  by (simp_all add: sv_inv_def new_supervisor_def)

lemma configure_client_frame:
  assumes "configure_client fl a hostname s = (refused, s')"
  shows "sv_proc s' = sv_proc s \<and> sv_children s' = sv_children s \<and> sv_file s' = sv_file s \<and>
    (sv_inv s \<longrightarrow> sv_inv s') \<and> (refused = None \<longleftrightarrow> sa_describe a = None \<and> sa_health a = None \<and> sa_caps a = None)"
  using assms by (auto simp: configure_client_def Let_def frame_simps split: option.splits)

text \<open>
  A supervisor that runs was given an identifier of 16 bytes and started one child from the initial
  configuration.
\<close>

lemma start_supervisor_running:
  assumes "start_supervisor fl a = Inr (settings, s)"
  shows "\<exists>initial pid. sa_read_config a = Inr initial \<and> sa_spawn a = Spawned pid \<and> sv_inv s \<and>
    sv_file s = initial \<and> sv_children s = [pid \<mapsto> initial] \<and> cp_cmd (sv_proc s) = Some pid \<and>
    parse_instance_uid (fl_instance_uid fl) = Inr (ss_instance_uid settings) \<and>
    length (ss_instance_uid settings) = 16"
proof -
  obtain uid initial where uid: "parse_instance_uid (fl_instance_uid fl) = Inr uid"
    and initial: "sa_read_config a = Inr initial"
    using assms by (auto simp: start_supervisor_def split: if_splits sum.splits)
  define s0 where "s0 = (new_supervisor fl (sa_old_file a))\<lparr>sv_file := initial\<rparr>"
  have w: "write_config (sa_write a) initial (new_supervisor fl (sa_old_file a)) = (None, s0)"
    using assms uid initial
    by (auto simp: start_supervisor_def Let_def s0_def write_config_ok split: if_splits option.splits prod.splits)
  obtain err s1 where sp: "start_collector (sa_spawn a) s0 = (err, s1)" by (cases "start_collector (sa_spawn a) s0")
  define hostname where "hostname = (if fl_hostname fl = '''' then sa_hostname a else fl_hostname fl)"
  obtain refused s2 where cf: "configure_client fl a hostname s1 = (refused, s2)"
    by (cases "configure_client fl a hostname s1")
  have ran: "err = None" "s = s2" "ss_instance_uid settings = uid"
    using assms uid initial w sp cf
    by (auto simp: start_supervisor_def Let_def hostname_def split: if_splits option.splits)
  have "sv_inv s0" by (simp add: s0_def)
  note child = start_collector_result [OF this sp]
  with ran obtain pid where pid: "sa_spawn a = Spawned pid" by (auto split: spawn_answer.splits)
  have "sv_inv s1" using start_collector_inv [OF \<open>sv_inv s0\<close>, of "sa_spawn a"] sp by simp
  with configure_client_frame [OF cf] child pid ran uid initial parse_instance_uid_length [OF uid]
  show ?thesis by (auto simp: s0_def)
qed

text \<open>When the client library refuses a setting or does not start, the exit leaves the child running.\<close>

lemma refused_client_leaves_child:
  assumes "fl_instance_uid fl \<noteq> ''''" and "fl_config fl \<noteq> ''''"
    and "parse_instance_uid (fl_instance_uid fl) = Inr uid" and "sa_read_config a = Inr initial"
    and "sa_mkdir a = None" and "sa_write a = Written" and "sa_spawn a = Spawned pid"
    and "sa_describe a \<noteq> None \<or> sa_health a \<noteq> None \<or> sa_caps a \<noteq> None \<or> sa_start a \<noteq> None"
  shows "\<exists>s. start_supervisor fl a = Inl (1, Some s) \<and> sv_children s = [pid \<mapsto> initial]"
proof -
  define s0 where "s0 = (new_supervisor fl (sa_old_file a))\<lparr>sv_file := initial\<rparr>"
  have w: "write_config (sa_write a) initial (new_supervisor fl (sa_old_file a)) = (None, s0)"
    using assms(6) by (simp add: write_config_ok s0_def)
  obtain err s1 where sp: "start_collector (sa_spawn a) s0 = (err, s1)" by (cases "start_collector (sa_spawn a) s0")
  have "sv_inv s0" by (simp add: s0_def)
  note child = start_collector_result [OF this sp]
  then have err: "err = None" "sv_children s1 = [pid \<mapsto> initial]" using assms(7) by (auto simp: s0_def)
  define hostname where "hostname = (if fl_hostname fl = '''' then sa_hostname a else fl_hostname fl)"
  obtain refused s2 where cf: "configure_client fl a hostname s1 = (refused, s2)"
    by (cases "configure_client fl a hostname s1")
  have "start_supervisor fl a = Inl (1, Some s2)"
    using assms w sp cf err configure_client_frame [OF cf]
    by (auto simp: start_supervisor_def Let_def hostname_def split: option.split)
  with configure_client_frame [OF cf] err show ?thesis by auto
qed

text \<open>The version of a Collector that prints its name, the word version and the version.\<close>

lemma fields_from_word:
  "list_all (\<lambda>c. \<not> is_ascii_space c \<and> c < CHR 0x80) w \<Longrightarrow> fields_from cur (w @ s) = fields_from (rev w @ cur) s"
  by (induction w arbitrary: cur) auto

lemma fields_from_trim: "fields_from [] (trim_left wide_spaces s) = fields_from [] s"
  by (cases s) (auto simp: emit_word_def)

lemma fields_from_space:
  "is_ascii_space c \<Longrightarrow> fields_from cur (c # s) = emit_word cur @ fields_from [] s"
proof -
  assume "is_ascii_space c"
  then have "trim_left wide_spaces (c # s) = trim_left wide_spaces s" by simp
  moreover have "trim_left wide_spaces s \<noteq> c # s"
    using trim_left_drop [of wide_spaces s] by (metis Suc_n_not_le_n diff_le_self length_Cons length_drop)
  ultimately show ?thesis by (simp add: fields_from_trim del: trim_left.simps)
qed

lemma collector_version_reads:
  assumes "name \<noteq> []" and "ver \<noteq> []" and "list_all (\<lambda>c. \<not> is_ascii_space c \<and> c < CHR 0x80) (name @ ver)"
    and "\<not> (CHR ''0'' \<le> hd name \<and> hd name \<le> CHR ''9'')" and "CHR ''0'' \<le> hd ver \<and> hd ver \<le> CHR ''9''"
  shows "collector_version (Some (name @ '' version '' @ ver @ [CHR 0x0A])) = ver"
proof -
  have "ver ! 0 = hd ver" "name ! 0 = hd name" using assms(1,2) by (simp_all add: hd_conv_nth)
  moreover have "\<not> has_prefix ''v'' ver" using assms(2,5) by (cases ver) (auto simp: has_prefix_def)
  moreover have "fields_of (name @ '' version '' @ ver @ [CHR 0x0A]) = [name, ''version'', ver]"
  proof -
    have space: "is_ascii_space CHR '' ''" "is_ascii_space CHR 0x0A" by (simp_all add: is_ascii_space_def)
    have word: "list_all (\<lambda>c. \<not> is_ascii_space c \<and> c < CHR 0x80) ''version''"
      by (simp add: is_ascii_space_def less_char_def)
    have "fields_of (name @ '' version '' @ ver @ [CHR 0x0A]) = name # fields_from [] (''version'' @ CHR '' '' # ver @ [CHR 0x0A])"
      using assms(1,3) fields_from_word [of name "[]"] space
      by (simp add: fields_of_def fields_from_space emit_word_def del: fields_from.simps)
    also have "fields_from [] (''version'' @ CHR '' '' # ver @ [CHR 0x0A]) = ''version'' # fields_from [] (ver @ [CHR 0x0A])"
      using fields_from_word [OF word, of "[]"] space
      by (simp only: append.simps fields_from_space emit_word_def) simp
    also have "fields_from [] (ver @ [CHR 0x0A]) = [ver]"
      using assms(2,3) fields_from_word [of ver "[]"] space
      by (simp add: fields_from_space emit_word_def del: fields_from.simps(2))
    finally show ?thesis .
  qed
  ultimately show ?thesis
    using assms(4,5) by (auto simp: collector_version_def trim_prefix_def)
qed

subsection \<open>What a handled configuration leaves\<close>

text \<open>The status a configuration is answered with.\<close>

definition answer_status :: "write_answer \<Rightarrow> spawn_answer \<Rightarrow> agent_remote_config \<Rightarrow> supervisor \<Rightarrow> rc_status" where
  "answer_status w sp rc s = (if fst (apply_remote_config w sp rc s) = None then RcApplied else RcFailed)"

lemma sv_on_message_requests:
  "\<exists>err. sv_requests (sv_on_message w sp (Some rc) s) = sv_requests s @
    [SetRemoteConfigStatus \<lparr>cs_hash = arc_hash rc, cs_status = answer_status w sp rc s, cs_error = err\<rparr>,
     SetHealth (healthy_status (collector_pid (sv_on_message w sp (Some rc) s))), UpdateEffectiveConfig]"
proof -
  have "sv_requests (snd (start_collector sp u)) = sv_requests u" for u
    by (auto simp: start_collector_def Let_def frame_simps split: spawn_answer.split)
  then have "sv_requests (snd (apply_remote_config w sp rc s)) = sv_requests s"
    by (auto simp: apply_remote_config_def Let_def write_config_def split: write_answer.split)
  then show ?thesis
    by (cases "apply_remote_config w sp rc s")
      (auto simp: sv_on_message_def answer_status_def Let_def frame_simps split: option.split)
qed

lemma sv_on_message_state:
  "sv_file (sv_on_message w sp (Some rc) s) = sv_file (snd (apply_remote_config w sp rc s))"
  "sv_children (sv_on_message w sp (Some rc) s) = sv_children (snd (apply_remote_config w sp rc s))"
  "sv_proc (sv_on_message w sp (Some rc) s) = sv_proc (snd (apply_remote_config w sp rc s))"
  by (auto simp: sv_on_message_def Let_def frame_simps case_prod_beta)

lemma apply_remote_config_result:
  assumes "sv_inv s" and "apply_remote_config w sp rc s = (err, s')"
  shows "if remote_config_body (Some rc) = '''' then err = Some SupEmptyConfig \<and> s' = s
    else case (w, sp) of
      (WriteFailed text rest, _) \<Rightarrow> err = Some (SupSystem text) \<and> s' = s\<lparr>sv_file := rest\<rparr>
    | (Written, Spawned pid) \<Rightarrow> err = None \<and> sv_file s' = remote_config_body (Some rc) \<and>
        sv_children s' = [pid \<mapsto> remote_config_body (Some rc)]
    | (Written, _) \<Rightarrow> err \<noteq> None \<and> sv_file s' = remote_config_body (Some rc) \<and> sv_children s' = Map.empty \<and>
        sv_proc s' = sv_proc s"
proof (cases "remote_config_body (Some rc) = ''''")
  case True
  with assms(2) show ?thesis by (auto simp: apply_remote_config_def)
next
  case False
  show ?thesis
  proof (cases w)
    case Written
    define s1 where "s1 = s\<lparr>sv_file := remote_config_body (Some rc)\<rparr>"
    have "sv_inv s1" using assms(1) by (simp add: s1_def sv_inv_def)
    moreover have "start_collector sp s1 = (err, s')"
      using assms(2) False Written by (simp add: apply_remote_config_def write_config_def s1_def)
    ultimately show ?thesis
      using start_collector_result False Written
      by (fastforce simp: s1_def split: spawn_answer.splits)
  next
    case (WriteFailed msg rest)
    with assms(2) False show ?thesis
      by (auto simp: apply_remote_config_def write_config_def)
  qed
qed

text \<open>C23: Every received configuration is answered, in this order, by its status with its hash, the health, and the
  configuration in the file.  It is answered as applied exactly when it is not empty, the file was written and the
  Collector started; then the one running child was started from the configuration.  An empty one
  changes nothing, a failing write leaves the old child running, and a failing start leaves the new file without a
  child, reported as healthy when a Collector ran before.\<close>

theorem handled_configuration:
  assumes "sv_inv s"
  shows "let s' = sv_on_message w sp (Some rc) s; body = remote_config_body (Some rc); status = answer_status w sp rc s
    in (\<exists>err. sv_requests s' = sv_requests s @
        [SetRemoteConfigStatus \<lparr>cs_hash = arc_hash rc, cs_status = status, cs_error = err\<rparr>,
         SetHealth (healthy_status (collector_pid s')), UpdateEffectiveConfig]) \<and>
      sv_effective_config None s' = Inr [('''', sv_file s')] \<and> sv_inv s' \<and>
      (if body = '''' then status = RcFailed \<and> sv_file s' = sv_file s \<and> sv_children s' = sv_children s
       else case (w, sp) of
         (WriteFailed _ rest, _) \<Rightarrow> status = RcFailed \<and> sv_file s' = rest \<and> sv_children s' = sv_children s
       | (Written, Spawned pid) \<Rightarrow> status = RcApplied \<and> sv_file s' = body \<and> sv_children s' = [pid \<mapsto> body]
       | (Written, _) \<Rightarrow> status = RcFailed \<and> sv_file s' = body \<and> sv_children s' = Map.empty \<and>
           collector_pid s' = collector_pid s)"
proof -
  obtain err s1 where run: "apply_remote_config w sp rc s = (err, s1)" by (cases "apply_remote_config w sp rc s")
  note result = apply_remote_config_result [OF assms run]
  show ?thesis
    unfolding Let_def
  proof (intro conjI)
    show "\<exists>err. sv_requests (sv_on_message w sp (Some rc) s) = sv_requests s @
        [SetRemoteConfigStatus \<lparr>cs_hash = arc_hash rc, cs_status = answer_status w sp rc s, cs_error = err\<rparr>,
         SetHealth (healthy_status (collector_pid (sv_on_message w sp (Some rc) s))), UpdateEffectiveConfig]"
      by (rule sv_on_message_requests)
    show "sv_inv (sv_on_message w sp (Some rc) s)" using assms by (rule sv_on_message_inv)
  qed (use result run in \<open>auto simp: sv_effective_config_def answer_status_def sv_on_message_state collector_pid_def
        split: write_answer.splits spawn_answer.splits if_splits\<close>)
qed

theorem handled_configuration_witness:
  "sv_children (sv_on_message Written (Spawned 7) (Some \<lparr>arc_config = Some [('''', Some ''x'')], arc_hash = [1]\<rparr>)
    (new_supervisor \<lparr>fl_server = '''', fl_token = '''', fl_instance_uid = '''', fl_collector = ''c'',
       fl_config = '''', fl_workdir = '''', fl_hostname = ''''\<rparr> ''old'')) = [7 \<mapsto> ''x'']"
proof -
  let ?fl = "\<lparr>fl_server = '''', fl_token = '''', fl_instance_uid = '''', fl_collector = ''c'',
       fl_config = '''', fl_workdir = '''', fl_hostname = ''''\<rparr>"
  have "sv_inv (new_supervisor ?fl ''old'')" by simp
  from handled_configuration [OF this, of Written "Spawned 7" "\<lparr>arc_config = Some [('''', Some ''x'')], arc_hash = [1]\<rparr>"]
  show ?thesis by (simp add: Let_def remote_config_body_def)
qed

text \<open>From the start on, whatever the server sends and whenever the child exits on its own, at most one
  child runs, the one recorded; stopping the supervisor leaves none.\<close>

theorem one_child_runs:
  assumes "start_supervisor fl a = Inr (settings, s0)" and "sv_step\<^sup>*\<^sup>* s0 s"
  shows "(\<forall>p q. sv_children s p \<noteq> None \<longrightarrow> sv_children s q \<noteq> None \<longrightarrow> p = q) \<and>
    (\<forall>p. sv_children s p \<noteq> None \<longrightarrow> collector_pid s = p) \<and> sv_children (stop_collector s) = Map.empty"
proof -
  have "sv_inv s0" using start_supervisor_running [OF assms(1)] by blast
  with assms(2) have inv: "sv_inv s"
    by (induction rule: rtranclp_induct) (auto intro: sv_step_inv)
  then have "\<forall>p. sv_children s p \<noteq> None \<longrightarrow> cp_cmd (sv_proc s) = Some p"
    by (auto simp: sv_inv_def dom_def)
  moreover from this have "\<forall>p. sv_children s p \<noteq> None \<longrightarrow> collector_pid s = p"
    by (simp add: collector_pid_def)
  ultimately show ?thesis using stop_collector_none [OF inv] by (metis option.inject)
qed

end
