(* ===== verification/Supervised_Delivery.thy ===== *)
theory Supervised_Delivery
  imports Supervisor
begin

section \<open>Delivering to a supervised Collector\<close>

text \<open>
  The server of \<open>Opamp_Server\<close> and the delivery of \<open>Confirm\<close> with the supervisor of \<open>Supervisor\<close> at the
  other end: what the supervisor answers reaches the server as messages of its instance, and decides
  whether the delivery is confirmed.  How the client library groups the answers into messages is left
  open: each message carries the status or the configuration asked for, or does not mention it.
\<close>

subsection \<open>Messages that carry an answer\<close>

definition carries_answer :: "string \<Rightarrow> rc_status \<Rightarrow> 8 word list \<Rightarrow> config_map \<Rightarrow> agent_to_server list \<Rightarrow> bool" where
  "carries_answer uid status hash cm msgs \<longleftrightarrow>
    list_all (\<lambda>m. hex_encode (am_instance_uid m) = uid \<and>
      (case am_remote_status m of None \<Rightarrow> True | Some st \<Rightarrow> st = (status, hash)) \<and>
      (case am_effective m of None \<Rightarrow> True | Some eff \<Rightarrow> eff = Some cm)) msgs \<and>
    list_ex (\<lambda>m. am_remote_status m \<noteq> None) msgs \<and> list_ex (\<lambda>m. am_effective m \<noteq> None) msgs"

definition receive_all :: "opamp_env \<Rightarrow> time \<Rightarrow> conn_id \<Rightarrow> agent_to_server list \<Rightarrow> opamp \<Rightarrow> opamp" where
  "receive_all env now conn msgs s = fold (\<lambda>m u. snd (on_message env now conn m u)) msgs s"

text \<open>The configuration message of the server, as the supervisor's client decodes it.\<close>

definition received_config :: "remote_config \<Rightarrow> agent_remote_config" where
  "received_config rc = \<lparr>arc_config = Some (map (\<lambda>(k, body). (k, Some body)) (rc_files rc)), arc_hash = rc_hash rc\<rparr>"

lemma received_body: "remote_config_body (Some (received_config (remote_config_of env content))) = content"
  "arc_hash (received_config (remote_config_of env content)) = oe_sha env content"
  by (simp_all add: received_config_def remote_config_of_def remote_config_body_def)

lemma reported_after_message:
  assumes "hex_encode (am_instance_uid m) = uid" and "uid \<noteq> ''''"
  shows "reported_hash uid (os_reg (snd (on_message env now conn m s))) =
      (case am_remote_status m of
         Some (RcApplied, h) \<Rightarrow> if h = [] then reported_hash uid (os_reg s) else Some (hex_encode h)
       | Some (RcFailed, h) \<Rightarrow> if h = [] then reported_hash uid (os_reg s) else None
       | _ \<Rightarrow> reported_hash uid (os_reg s))"
    and "reported_effective uid (os_reg (snd (on_message env now conn m s))) =
      (case am_effective m of
         Some (Some cm) \<Rightarrow> Some (config_map_to_string cm) | _ \<Rightarrow> reported_effective uid (os_reg s))"
  using on_message_registry [OF assms]
  by (auto simp: frame_simps reported_hash_def reported_effective_def take_remote_status_def take_effective_def
      set_reported_hash_def set_reported_effective_def split: option.splits rc_status.splits)

text \<open>After the messages the server's view of the agent is the answer.\<close>

lemma reported_after_all:
  assumes "carries_answer uid status hash cm msgs" and "hash \<noteq> []" and "uid \<noteq> ''''"
    and "status = RcApplied \<or> status = RcFailed"
  shows "reported_hash uid (os_reg (receive_all env now conn msgs s)) =
      (if status = RcApplied then Some (hex_encode hash) else None)"
    and "reported_effective uid (os_reg (receive_all env now conn msgs s)) = Some (config_map_to_string cm)"
proof -
  let ?h = "if status = RcApplied then Some (hex_encode hash) else None"
  let ?fits = "\<lambda>m. hex_encode (am_instance_uid m) = uid \<and>
      (case am_remote_status m of None \<Rightarrow> True | Some st \<Rightarrow> st = (status, hash)) \<and>
      (case am_effective m of None \<Rightarrow> True | Some eff \<Rightarrow> eff = Some cm)"
  have "reported_hash uid (os_reg (receive_all env now conn msgs s)) =
      (if list_ex (\<lambda>m. am_remote_status m \<noteq> None) msgs then ?h else reported_hash uid (os_reg s)) \<and>
    reported_effective uid (os_reg (receive_all env now conn msgs s)) =
      (if list_ex (\<lambda>m. am_effective m \<noteq> None) msgs then Some (config_map_to_string cm)
       else reported_effective uid (os_reg s))" if "list_all ?fits msgs" for msgs
    using that
  proof (induction msgs arbitrary: s)
    case Nil
    then show ?case by (simp add: receive_all_def)
  next
    case (Cons m msgs)
    let ?s1 = "snd (on_message env now conn m s)"
    have m: "hex_encode (am_instance_uid m) = uid" using Cons.prems by simp
    have "reported_hash uid (os_reg ?s1) = (if am_remote_status m = None then reported_hash uid (os_reg s) else ?h)"
      "reported_effective uid (os_reg ?s1) =
        (if am_effective m = None then reported_effective uid (os_reg s) else Some (config_map_to_string cm))"
      using Cons.prems assms(2,4) by (auto simp: reported_after_message [OF m assms(3)] split: option.splits)
    moreover have "receive_all env now conn (m # msgs) s = receive_all env now conn msgs ?s1"
      by (simp add: receive_all_def)
    ultimately show ?case using Cons.IH [of ?s1] Cons.prems by auto
  qed
  from this [of msgs] assms(1) show
    "reported_hash uid (os_reg (receive_all env now conn msgs s)) = ?h"
    "reported_effective uid (os_reg (receive_all env now conn msgs s)) = Some (config_map_to_string cm)"
    by (auto simp: carries_answer_def)
qed

subsection \<open>Confirmed or not\<close>

text \<open>A delivery that nothing confirms at any poll ends unconfirmed.\<close>

context dispatch_channel
begin

lemma never_confirmed:
  assumes "rv_online view uid s" and "cp_push pusher uid content s = (ok_unit, s1)"
    and "\<not> report_confirms env view uid (content_hash (ce_sha env) content) content s"
    and rounds: "\<And>t u late u'. around t u = Some (late, u') \<Longrightarrow>
      \<not> report_confirms env view uid (content_hash (ce_sha env) content) content u \<Longrightarrow>
      \<not> report_confirms env view uid (content_hash (ce_sha env) content) content u'"
  shows "fst (push_and_confirm env around (Some pusher) (Some view) uid content timeout now s) = Inr False"
proof -
  define want where "want = content_hash (ce_sha env) content"
  define half where "half = quot timeout 2"
  define conf where "conf = report_confirms env view uid want content"
  have wait: "\<not> b \<and> \<not> conf u'"
    if "wait_confirm env around view uid want content deadline t u = (b, t', u')" "\<not> conf u" for deadline t u b t' u'
  proof -
    have "\<not> conf u'"
      using wait_confirm_keeps [where P = "\<lambda>v. \<not> conf v", OF _ that] rounds by (auto simp: conf_def want_def)
    with wait_confirm_result [OF that(1)] show ?thesis by (simp add: conf_def)
  qed
  have s1: "\<not> conf s1"
    using push_keeps [OF assms(2), of uid] assms(3) report_same [of uid s1 s] by (simp add: conf_def want_def)
  obtain b2 now2 s2 where w2: "wait_confirm env around view uid want content (now + half) now s1 = (b2, now2, s2)"
    by (metis prod_cases3)
  obtain sent s3 where s3: "cp_restart pusher uid s2 = (sent, s3)" by (cases "cp_restart pusher uid s2")
  obtain b4 now4 s4 where w4: "wait_confirm env around view uid want content (now2 + half) now2 s3 = (b4, now4, s4)"
    by (metis prod_cases3)
  have "\<not> b2 \<and> \<not> conf s2" using wait [OF w2 s1] .
  moreover from this have "\<not> conf s3"
    using restart_keeps [OF s3, of uid] report_same [of uid s3 s2] by (simp add: conf_def)
  then have "\<not> b4" using wait [OF w4] by blast
  ultimately show ?thesis
    using assms(1,2) w2 s3 w4
    by (auto simp: push_and_confirm_def Let_def want_def [symmetric] half_def [symmetric] split: bool.split)
qed

lemma confirmed_first_round:
  assumes "rv_online view uid s" and "cp_push pusher uid content s = (ok_unit, s1)"
    and "2 \<le> timeout" and "around now s1 = Some (late, u)"
    and "report_confirms env view uid (content_hash (ce_sha env) content) content u"
  shows "fst (push_and_confirm env around (Some pusher) (Some view) uid content timeout now s) = Inr True"
proof -
  define want where "want = content_hash (ce_sha env) content"
  have half: "now < now + quot timeout 2" using assms(3) by (simp add: quot_nonneg)
  have "wait_confirm env around view uid want content (now + quot timeout 2) t u = (True, t, u)" for t
    using assms(5) by (subst wait_confirm.simps) (simp add: want_def)
  then have "\<exists>t' s'. wait_confirm env around view uid want content (now + quot timeout 2) now s1 = (True, t', s')"
    using half assms(4) by (subst wait_confirm.simps) auto
  with assms(1,2) show ?thesis
    by (auto simp: push_and_confirm_def Let_def want_def)
qed

end

subsection \<open>The outcome of a supervised delivery\<close>

lemma answer_status_applied:
  assumes "remote_config_body (Some rc) \<noteq> ''''"
  shows "answer_status w sp rc s = (if w = Written \<and> (\<exists>pid. sp = Spawned pid) then RcApplied else RcFailed)"
  using assms
  by (auto simp: answer_status_def apply_remote_config_def write_config_def start_collector_def Let_def
      split: write_answer.splits spawn_answer.splits)

lemma report_confirms_opamp_view:
  "report_confirms cenv opamp_view uid want content s \<longleftrightarrow> reported_hash uid (os_reg s) = Some want \<or>
    (\<exists>eff. reported_effective uid (os_reg s) = Some eff \<and> config_subset (ce_decode cenv) content eff)"
  by (auto simp: report_confirms_def opamp_view_def split: option.splits)

text \<open>C2: A configuration is pushed to a connected supervisor, whose answer, and no other report of it, arrives
  within the first round.  The supervisor receives exactly the configuration pushed, and unless an older report
  confirmed it already, the delivery is confirmed exactly when the Collector was restarted from it, or when
  what is left in the file covers it; in particular a Collector that failed to start is confirmed as well,
  since its file holds the configuration.\<close>

theorem supervised_delivery:
  assumes "reg_conn uid (os_reg s) = Some conn" and "hex_decode uid \<noteq> None" and "uid \<noteq> ''''"
    and "\<forall>m. oe_send_ok env conn m" and "content \<noteq> ''''" and "2 \<le> timeout"
    and "ce_sha cenv = oe_sha env" and "oe_sha env content \<noteq> []"
    and "rc = received_config (remote_config_of env content)" and "s1 = snd (push_config env uid content s)"
    and "carries_answer uid (answer_status w sp rc sv) (arc_hash rc)
      [('''', sv_file (sv_on_message w sp (Some rc) sv))] msgs"
    and "around now s1 = Some (late, receive_all env at_time conn msgs s1)"
    and "\<forall>t u k u'. around t u = Some (k, u') \<longrightarrow> u' = receive_all env at_time conn msgs s1 \<or>
      reported_hash uid (os_reg u') = reported_hash uid (os_reg u) \<and>
      reported_effective uid (os_reg u') = reported_effective uid (os_reg u)"
    and "\<not> report_confirms cenv opamp_view uid (content_hash (ce_sha cenv) content) content s"
  shows "(\<exists>m. os_sent s1 = os_sent s @ [(conn, m)] \<and> sm_remote_config m = Some (remote_config_of env content)) \<and>
    fst (push_and_confirm cenv around (Some (opamp_pusher env)) (Some opamp_view) uid content timeout now s) =
      Inr (w = Written \<and> (\<exists>pid. sp = Spawned pid) \<or>
        config_subset (ce_decode cenv) content (sv_file (sv_on_message w sp (Some rc) sv) @ [CHR 0x0A]))"
proof
  let ?u = "receive_all env at_time conn msgs s1"
  let ?file = "sv_file (sv_on_message w sp (Some rc) sv)"
  let ?conf = "report_confirms cenv opamp_view uid (content_hash (ce_sha cenv) content) content"
  define applied where "applied \<longleftrightarrow> w = Written \<and> (\<exists>pid. sp = Spawned pid)"
  have body: "remote_config_body (Some rc) = content" "arc_hash rc = oe_sha env content"
    by (simp_all add: assms(9) received_body)
  have status: "answer_status w sp rc sv = (if applied then RcApplied else RcFailed)"
    using answer_status_applied [of rc w sp sv] body assms(5) by (simp add: applied_def)
  obtain bytes where "hex_decode uid = Some bytes" using assms(2) by blast
  then have push: "push_config env uid content s = (ok_unit, s1)" and
    sent: "\<exists>m. os_sent s1 = os_sent s @ [(conn, m)] \<and> sm_remote_config m = Some (remote_config_of env content)"
    using assms(1,4,10) by (auto simp: push_config_def conn_send_def)
  show "\<exists>m. os_sent s1 = os_sent s @ [(conn, m)] \<and> sm_remote_config m = Some (remote_config_of env content)"
    by (rule sent)
  have "reported_hash uid (os_reg ?u) = (if applied then Some (hex_encode (oe_sha env content)) else None)"
    "reported_effective uid (os_reg ?u) = Some (?file @ [CHR 0x0A])"
    using reported_after_all [OF assms(11) _ assms(3)] body status assms(8)
    by (auto simp: config_map_to_string_def split: if_splits)
  then have conf: "?conf ?u \<longleftrightarrow> applied \<or> config_subset (ce_decode cenv) content (?file @ [CHR 0x0A])"
    using assms(7) by (auto simp: report_confirms_opamp_view content_hash_def)
  have online: "rv_online opamp_view uid s" using assms(1) by (simp add: opamp_view_def reg_online_def reg_conn_def)
  have cp: "cp_push (opamp_pusher env) uid content s = (ok_unit, s1)" using push by (simp add: opamp_pusher_def)
  show "fst (push_and_confirm cenv around (Some (opamp_pusher env)) (Some opamp_view) uid content timeout now s) =
      Inr (w = Written \<and> (\<exists>pid. sp = Spawned pid) \<or> config_subset (ce_decode cenv) content (?file @ [CHR 0x0A]))"
  proof (cases "?conf ?u")
    case True
    with opamp_channel.confirmed_first_round [where around = around and now = now and u = ?u, OF online cp assms(6,12)] conf show ?thesis
      by (simp add: applied_def)
  next
    case False
    have "\<not> ?conf u'" if "around t u = Some (k, u')" "\<not> ?conf u" for t u k u'
      using assms(13) [rule_format, OF that(1)] False that(2) by (auto simp: report_confirms_opamp_view)
    then have "fst (push_and_confirm cenv around (Some (opamp_pusher env)) (Some opamp_view) uid content timeout now s)
        = Inr False"
      by (rule opamp_channel.never_confirmed [where around = around, OF online cp assms(14)])
    with conf False show ?thesis by (simp add: applied_def)
  qed
qed

theorem supervised_delivery_witness:
  "\<exists>around s1. fst (push_and_confirm \<lparr>ce_sha = (\<lambda>_. [7]), ce_decode = (\<lambda>_. Inr YNil)\<rparr> around
      (Some (opamp_pusher \<lparr>oe_sha = (\<lambda>_. [7]), oe_send_ok = (\<lambda>_ _. True), oe_order = rev\<rparr>)) (Some opamp_view)
      ''00'' ''x'' default_confirm_timeout 5
      ((new_opamp (new_registry 10) empty_db '''')\<lparr>os_reg := (new_registry 10)\<lparr>rg_conns := [''00'' \<mapsto> 1]\<rparr>\<rparr>)) = Inr True \<and>
    around 5 s1 \<noteq> None"
proof -
  let ?cenv = "\<lparr>ce_sha = (\<lambda>_. [7]), ce_decode = (\<lambda>_. Inr YNil)\<rparr>"
  let ?env = "\<lparr>oe_sha = (\<lambda>_. [7]), oe_send_ok = (\<lambda>_ _. True), oe_order = rev\<rparr>"
  let ?s = "(new_opamp (new_registry 10) empty_db '''')\<lparr>os_reg := (new_registry 10)\<lparr>rg_conns := [''00'' \<mapsto> 1]\<rparr>\<rparr>"
  let ?rc = "received_config (remote_config_of ?env ''x'')"
  let ?s1 = "snd (push_config ?env ''00'' ''x'' ?s)"
  let ?sv = "\<lparr>sv_proc = \<lparr>cp_bin = '''', cp_cfg_path = '''', cp_log_path = '''', cp_cmd = Some 3, cp_restarts = 1\<rparr>,
     sv_file = ''old'', sv_children = [3 \<mapsto> ''old''], sv_requests = []\<rparr>"
  let ?w = Written and ?sp = "SpawnFailed ''no''"
  let ?file = "sv_file (sv_on_message ?w ?sp (Some ?rc) ?sv)"
  let ?msgs = "[\<lparr>am_instance_uid = [0], am_description = None, am_health = Some True,
      am_effective = Some (Some [('''', ?file)]), am_capabilities = supervisor_caps,
      am_remote_status = Some (RcFailed, [7])\<rparr>]"
  let ?u = "receive_all ?env 6 1 ?msgs ?s1"
  define around where "around = (\<lambda>(t::time) (v::opamp). Some (0::nat, ?u))"
  have failed: "answer_status ?w ?sp ?rc ?sv = RcFailed"
    by (subst answer_status_applied) (simp_all add: received_body)
  have uid: "hex_encode [0] = ''00''" by code_simp
  have "carries_answer ''00'' (answer_status ?w ?sp ?rc ?sv) (arc_hash ?rc) [('''', ?file)] ?msgs"
    using uid by (simp add: carries_answer_def failed received_body)
  moreover have "reg_conn ''00'' (os_reg ?s) = Some 1" by (simp add: reg_conn_def)
  moreover have "hex_decode ''00'' \<noteq> None" by code_simp
  moreover have "\<not> report_confirms ?cenv opamp_view ''00'' (content_hash (ce_sha ?cenv) ''x'') ''x'' ?s"
    by (simp add: report_confirms_opamp_view reported_hash_def reported_effective_def new_registry_def)
  moreover have "config_subset (ce_decode ?cenv) ''x'' (?file @ [CHR 0x0A])"
    by (simp add: config_subset_def scalar_equal_refl)
  ultimately have "fst (push_and_confirm ?cenv around (Some (opamp_pusher ?env)) (Some opamp_view) ''00'' ''x''
      default_confirm_timeout 5 ?s) = Inr True"
    using supervised_delivery [of "''00''" ?s 1 ?env "''x''" default_confirm_timeout ?cenv ?rc ?s1 ?w ?sp ?sv ?msgs
        around 5 0 6]
    by (simp add: around_def default_confirm_timeout_def)
  moreover have "around 5 ?s1 \<noteq> None" by (simp add: around_def)
  ultimately show ?thesis by blast
qed

text \<open>
  The supervisor does not announce that it accepts restart commands, so the server never sends it one.
\<close>

lemma supervisor_gets_no_restart:
  assumes "rg_caps (os_reg s) uid = Some supervisor_caps"
  shows "send_restart env uid s = (False, s)"
proof -
  have "Bit_Operations.and supervisor_caps accepts_restart_bit = 0" by code_simp
  with assms have "\<not> accepts_restart uid (os_reg s)" by (simp add: accepts_restart_def)
  then show ?thesis by (simp add: send_restart_def)
qed

end
