(* ===== verification/Time_Text.thy ===== *)
theory Time_Text
  imports Rest_Params Session_List
begin

section \<open>The text of times (internal/store/sqlstore.go)\<close>

text \<open>
  The store keeps a time as text, \<open>time.RFC3339Nano\<close> in UTC, and compares and sorts by that text.  The
  formatting of the standard library is modelled with its calendar; the parser is the one of
  \<open>Rest_Params\<close>.  The lemmas show that a stored time is read back, and that comparing the texts, or their first
  19 characters, is the order \<open>Sql_Store\<close> and \<open>Session_List\<close> compare times by.
\<close>

subsection \<open>The calendar\<close>

text \<open>The year of a day, counted from the first of January of the year 1, and the day within the year: cycles
  of 400, 100, 4 and 1 years, the last of four cut to three.\<close>

definition year_of_day :: "int \<Rightarrow> int \<times> int" where
  "year_of_day d0 =
    (let n400 = d0 div 146097; d1 = d0 - 146097 * n400;
         c = d1 div 36524; n100 = c - c div 4; d2 = d1 - 36524 * n100;
         n4 = d2 div 1461; d3 = d2 - 1461 * n4;
         e = d3 div 365; n1 = e - e div 4; d4 = d3 - 365 * n1
     in (400 * n400 + 100 * n100 + 4 * n4 + n1 + 1, d4))"

fun month_of_day :: "int \<Rightarrow> int list \<Rightarrow> int \<Rightarrow> int \<times> int" where
  "month_of_day y [] d = (12, d + 1)"
| "month_of_day y (m # ms) d =
     (if d < days_in m y then (m, d + 1) else month_of_day y ms (d - days_in m y))"

definition date_of_day :: "int \<Rightarrow> int \<times> int \<times> int" where
  "date_of_day n = (let (y, yd) = year_of_day n in (y, month_of_day y [1..12] yd))"

subsection \<open>Formatting\<close>

text \<open>An integer with at least \<open>w\<close> digits.\<close>

definition append_int :: "nat \<Rightarrow> int \<Rightarrow> string" where
  "append_int w i =
    (let digits = nat_digits (nat (abs i))
     in (if i < 0 then ''-'' else '''') @ replicate (w - length digits) (CHR ''0'') @ digits)"

text \<open>The layout \<open>2006-01-02T15:04:05\<close> of a number of seconds.\<close>

definition format_seconds :: "int \<Rightarrow> string" where
  "format_seconds secs =
    (let (y, m, d) = date_of_day (secs div 86400); r = secs mod 86400
     in append_int 4 y @ ''-'' @ append_int 2 m @ ''-'' @ append_int 2 d @ ''T'' @
        append_int 2 (r div 3600) @ '':'' @ append_int 2 (r mod 3600 div 60) @ '':'' @ append_int 2 (r mod 60))"

definition second_bound_text :: "time \<Rightarrow> string" where
  "second_bound_text t = format_seconds (t div nano_per_second)"

definition fmt_time :: "time \<Rightarrow> string" where
  "fmt_time t =
    (if t = zero_time then ''''
     else format_seconds (t div nano_per_second) @ fraction_text (nat (t mod nano_per_second)))"

definition parse_time :: "string \<Rightarrow> unit + time" where
  "parse_time s =
    (if s = '''' then Inr zero_time
     else case parse_rfc3339 s of None \<Rightarrow> Inl () | Some t \<Rightarrow> Inr t)"

subsection \<open>Days and dates\<close>

definition first_day :: "int \<Rightarrow> int" where
  "first_day y = 365 * (y - 1) + (y - 1) div 4 - (y - 1) div 100 + (y - 1) div 400"

definition year_length :: "int \<Rightarrow> int" where
  "year_length y = (if is_leap y then 366 else 365)"

lemma mod_last: "1 \<le> r \<Longrightarrow> r \<le> k \<Longrightarrow> (k * q + r) mod k = 0 \<longleftrightarrow> r = (k::int)"
  by (cases "r = k") (auto simp: mod_pos_pos_trivial)

text \<open>Four cycles of \<open>k\<close> days, the last with one day more.\<close>

lemma cut_cycle:
  assumes "0 \<le> d" "d \<le> 4 * k" "0 < (k::int)"
  defines "n \<equiv> d div k - d div k div 4"
  shows "0 \<le> n" "n \<le> 3" "0 \<le> d - k * n" "d - k * n \<le> k" "d - k * n = k \<longrightarrow> n = 3"
proof -
  have q: "0 \<le> d div k" "d div k \<le> 4"
    using assms(1-3) zdiv_mono1 [of d "4 * k" k] by (auto simp: pos_imp_zdiv_nonneg_iff)
  have d: "d - k * (d div k) = d mod k" by (simp add: minus_mult_div_eq_mod)
  have m: "0 \<le> d mod k" "d mod k < k" using assms(3) by auto
  have "0 \<le> n \<and> n \<le> 3 \<and> 0 \<le> d - k * n \<and> d - k * n \<le> k \<and> (d - k * n = k \<longrightarrow> n = 3)"
  proof (cases "d div k = 4")
    case True
    then have "n = 3" by (simp add: n_def)
    with True d m assms(2) show ?thesis by auto
  next
    case False
    then have "n = d div k" using q by (simp add: n_def)
    with False q d m show ?thesis by auto
  qed
  then show "0 \<le> n" "n \<le> 3" "0 \<le> d - k * n" "d - k * n \<le> k" "d - k * n = k \<longrightarrow> n = 3" by auto
qed

lemma first_day_cycles:
  assumes "0 \<le> b" "b \<le> 3" "0 \<le> c" "c \<le> 24" "0 \<le> e" "e \<le> (3::int)"
  shows "first_day (400 * a + 100 * b + 4 * c + e + 1) = 146097 * a + 36524 * b + 1461 * c + 365 * e"
    and "is_leap (400 * a + 100 * b + 4 * c + e + 1) \<longleftrightarrow> e = 3 \<and> (c = 24 \<longrightarrow> b = 3)"
proof -
  define y where "y = 400 * a + 100 * b + 4 * c + e"
  have "y div 4 = 100 * a + 25 * b + c" "y div 100 = 4 * a + b" "y div 400 = a"
    using assms by (simp_all add: y_def)
  then show "first_day (400 * a + 100 * b + 4 * c + e + 1) = 146097 * a + 36524 * b + 1461 * c + 365 * e"
    by (simp add: first_day_def y_def)
  have y4: "y + 1 = 4 * (100 * a + 25 * b + c) + (e + 1)"
    and y100: "y + 1 = 100 * (4 * a + b) + (4 * c + e + 1)"
    and y400: "y + 1 = 400 * a + (100 * b + 4 * c + e + 1)" by (simp_all add: y_def)
  have "(y + 1) mod 4 = 0 \<longleftrightarrow> e + 1 = 4" unfolding y4 by (rule mod_last) (use assms in auto)
  moreover have "(y + 1) mod 100 = 0 \<longleftrightarrow> 4 * c + e + 1 = 100" unfolding y100 by (rule mod_last) (use assms in auto)
  moreover have "(y + 1) mod 400 = 0 \<longleftrightarrow> 100 * b + 4 * c + e + 1 = 400"
    unfolding y400 by (rule mod_last) (use assms in auto)
  ultimately show "is_leap (400 * a + 100 * b + 4 * c + e + 1) \<longleftrightarrow> e = 3 \<and> (c = 24 \<longrightarrow> b = 3)"
    using assms by (auto simp: is_leap_def y_def)
qed

lemma year_of_day_correct:
  assumes "year_of_day n = (y, yd)"
  shows "first_day y + yd = n \<and> 0 \<le> yd \<and> yd < year_length y"
proof -
  define a where "a = n div 146097"
  define d1 where "d1 = n - 146097 * a"
  define b where "b = d1 div 36524 - d1 div 36524 div 4"
  define d2 where "d2 = d1 - 36524 * b"
  define c where "c = d2 div 1461"
  define d3 where "d3 = d2 - 1461 * c"
  define e where "e = d3 div 365 - d3 div 365 div 4"
  have "year_of_day n = (400 * a + 100 * b + 4 * c + e + 1, d3 - 365 * e)"
    by (simp only: year_of_day_def Let_def a_def d1_def b_def d2_def c_def d3_def e_def)
  with assms have y: "y = 400 * a + 100 * b + 4 * c + e + 1" "yd = d3 - 365 * e" by simp_all
  have d1: "0 \<le> d1" "d1 \<le> 4 * 36524"
    using pos_mod_bound [of 146097 n] by (simp_all add: d1_def a_def minus_mult_div_eq_mod)
  note b = cut_cycle [OF d1, folded b_def d2_def, simplified]
  have "d3 = d2 mod 1461" by (simp add: d3_def c_def minus_mult_div_eq_mod)
  then have d3: "0 \<le> d3" "d3 \<le> 4 * 365" using pos_mod_bound [of 1461 d2] by simp_all
  have c: "0 \<le> c" "c \<le> 24"
    using b(3,4) d3 unfolding d3_def by (auto simp: c_def pos_imp_zdiv_nonneg_iff)
  note e = cut_cycle [OF d3, folded e_def, simplified]
  have n: "n = 146097 * a + 36524 * b + 1461 * c + 365 * e + yd"
    by (simp add: y(2) d3_def d2_def d1_def)
  have "yd < year_length y"
    unfolding y(1) year_length_def first_day_cycles(2) [OF b(1,2) c e(1,2)]
    using b e c d3 y(2) unfolding d3_def by auto
  with n e(3) show ?thesis
    unfolding y(1) first_day_cycles(1) [OF b(1,2) c e(1,2)] by (simp add: y(2))
qed

lemma month_of_day_correct:
  assumes "0 \<le> d" "d < sum_list (map (\<lambda>k. days_in k y) ms)" "month_of_day y ms d = (m, day)"
  shows "\<exists>before after. ms = before @ m # after \<and> 1 \<le> day \<and> day \<le> days_in m y \<and>
    d = sum_list (map (\<lambda>k. days_in k y) before) + (day - 1)"
  using assms
proof (induction y ms d rule: month_of_day.induct)
  case (1 y d)
  then show ?case by simp
next
  case (2 y k ms d)
  show ?case
  proof (cases "d < days_in k y")
    case True
    with "2.prems" show ?thesis by (intro exI [of _ "[]"] exI [of _ ms]) auto
  next
    case False
    with 2 obtain before after where "ms = before @ m # after" "1 \<le> day" "day \<le> days_in m y"
      "d - days_in k y = sum_list (map (\<lambda>k. days_in k y) before) + (day - 1)"
      by (auto simp: not_less)
    then show ?thesis by (intro exI [of _ "k # before"] exI [of _ after]) auto
  qed
qed

lemma upto_split:
  assumes "[i..j] = before @ m # after"
  shows "i \<le> m \<and> m \<le> j \<and> before = [i..m - 1]"
proof -
  have "m \<in> set [i..j]" by (simp add: assms)
  then have m: "i \<le> m" "m \<le> j" by auto
  then have "[i..j] = [i..m - 1] @ m # [m + 1..j]" by (rule upto_split3)
  moreover have "m \<notin> set before"
    using distinct_upto [of i j] unfolding assms by simp
  then have "takeWhile (\<lambda>k. k \<noteq> m) [i..j] = before" unfolding assms by (subst takeWhile_append2) auto
  moreover have "takeWhile (\<lambda>k. k \<noteq> m) ([i..m - 1] @ m # [m + 1..j]) = [i..m - 1]"
    by (subst takeWhile_append2) auto
  ultimately show ?thesis using m by simp
qed

lemma months_of_year: "sum_list (map (\<lambda>k. days_in k y) [1..12]) = year_length y"
proof -
  have "[1..12] = [1, 2, 3, 4, 5, 6, 7, 8, 9, 10, 11, 12 :: int]" by (simp add: upto.simps)
  then show ?thesis by (simp add: year_length_def days_in_def)
qed

definition valid_date :: "int \<Rightarrow> int \<Rightarrow> int \<Rightarrow> bool" where
  "valid_date y m d \<longleftrightarrow> 1 \<le> m \<and> m \<le> 12 \<and> 1 \<le> d \<and> d \<le> days_in m y"

lemma days_since_epoch_first_day:
  "days_since_epoch y m d = first_day y + days_before_month m y + (d - 1)"
  by (simp add: days_since_epoch_def first_day_def)

lemma date_of_day_correct:
  assumes "date_of_day n = (y, m, d)"
  shows "days_since_epoch y m d = n \<and> valid_date y m d"
proof -
  obtain yd where y: "year_of_day n = (y, yd)" and m: "month_of_day y [1..12] yd = (m, d)"
    using assms by (cases "year_of_day n") (auto simp: date_of_day_def)
  note year = year_of_day_correct [OF y]
  then obtain before after where "[1..12] = before @ m # after" "1 \<le> d" "d \<le> days_in m y"
    "yd = sum_list (map (\<lambda>k. days_in k y) before) + (d - 1)"
    using month_of_day_correct [OF _ _ m] by (auto simp: months_of_year)
  with upto_split [of 1 12] year show ?thesis
    by (auto simp: valid_date_def days_since_epoch_first_day days_before_month_def)
qed

text \<open>Days grow with the date.\<close>

lemma days_in_pos: "0 < days_in m y"
  by (simp add: days_in_def)

lemma days_before_month_mono:
  assumes "1 \<le> m" "m < m'"
  shows "days_before_month m y + days_in m y \<le> days_before_month m' y"
proof -
  have "[1..m' - 1] = [1..m - 1] @ m # [m + 1..m' - 1]"
    using assms by (intro upto_split3) auto
  moreover have "0 \<le> sum_list (map (\<lambda>k. days_in k y) [m + 1..m' - 1])"
    by (rule sum_list_nonneg) (auto intro: less_imp_le [OF days_in_pos])
  ultimately show ?thesis by (simp add: days_before_month_def)
qed

lemma days_in_year:
  assumes "valid_date y m d"
  shows "0 \<le> days_before_month m y + (d - 1)" "days_before_month m y + (d - 1) < year_length y"
proof -
  have "days_before_month m y + days_in m y \<le> days_before_month 13 y"
    using assms by (intro days_before_month_mono) (auto simp: valid_date_def)
  moreover have "days_before_month 13 y = year_length y"
    by (simp add: days_before_month_def months_of_year)
  ultimately show "days_before_month m y + (d - 1) < year_length y" using assms by (simp add: valid_date_def)
  have "0 \<le> days_before_month m y"
    unfolding days_before_month_def by (rule sum_list_nonneg) (auto intro: less_imp_le [OF days_in_pos])
  with assms show "0 \<le> days_before_month m y + (d - 1)" by (simp add: valid_date_def)
qed

lemma div_step: "0 < k \<Longrightarrow> y div k = (y - 1) div k + (if y mod k = 0 then 1 else (0::int))"
proof (cases "y mod k = 0")
  case True
  moreover assume "0 < k"
  ultimately have "(y - 1) div k = y div k - 1"
    using mult_div_mod_eq [of k y] by (intro int_div_pos_eq [where r = "k - 1"]) (auto simp: algebra_simps)
  with True show ?thesis by simp
next
  case False
  moreover assume "0 < k"
  moreover from this have "0 \<le> y mod k" "y mod k < k" by simp_all
  ultimately have "(y - 1) div k = y div k"
    using mult_div_mod_eq [of k y] by (intro int_div_pos_eq [where r = "y mod k - 1"]) auto
  with False show ?thesis by simp
qed

lemma first_day_next: "first_day y + year_length y = first_day (y + 1)"
proof -
  define p where "p = (y - 1) div 4"
  define q where "q = (y - 1) div 100"
  define r where "r = (y - 1) div 400"
  have steps: "y div 4 = p + (if y mod 4 = 0 then 1 else 0)"
    "y div 100 = q + (if y mod 100 = 0 then 1 else 0)"
    "y div 400 = r + (if y mod 400 = 0 then 1 else 0)"
    unfolding p_def q_def r_def by (rule div_step, simp)+
  have "y mod 400 mod 100 = y mod 100" "y mod 100 mod 4 = y mod 4"
    by (rule mod_mod_cancel, simp)+
  then have nested: "y mod 400 = 0 \<Longrightarrow> y mod 100 = 0" "y mod 100 = 0 \<Longrightarrow> y mod 4 = 0" by simp_all
  have now: "first_day y = 365 * (y - 1) + p - q + r" by (simp only: first_day_def p_def q_def r_def)
  have "first_day (y + 1) = 365 * y + y div 4 - y div 100 + y div 400" by (simp add: first_day_def)
  also have "\<dots> = 365 * y + p - q + r +
      ((if y mod 4 = 0 then 1 else 0) - (if y mod 100 = 0 then 1 else 0) + (if y mod 400 = 0 then 1 else 0))"
    unfolding steps by linarith
  also have "(if y mod 4 = 0 then 1 else 0) - (if y mod 100 = 0 then 1 else 0) + (if y mod 400 = 0 then 1 else 0)
      = year_length y - 365"
    using nested by (cases "y mod 4 = 0"; cases "y mod 100 = 0"; cases "y mod 400 = 0")
      (simp_all only: year_length_def is_leap_def, simp_all)
  finally show ?thesis unfolding now by (simp add: algebra_simps)
qed

lemma first_day_mono: "y < y' \<Longrightarrow> first_day y + year_length y \<le> first_day y'"
proof (induction "nat (y' - y - 1)" arbitrary: y')
  case 0
  then have "y' = y + 1" by simp
  then show ?case by (simp add: first_day_next)
next
  case (Suc k)
  then have "first_day y + year_length y \<le> first_day (y' - 1)" by simp
  also have "\<dots> \<le> first_day y'" using first_day_next [of "y' - 1"] by (simp add: year_length_def split: if_splits)
  finally show ?case .
qed

lemma days_since_epoch_mono:
  assumes "valid_date y m d" "valid_date y' m' d'" "(y, m, d) < (y', m', d')"
  shows "days_since_epoch y m d < days_since_epoch y' m' d'"
proof -
  from assms(3) consider "y < y'" | "y = y'" "m < m'" | "y = y'" "m = m'" "d < d'"
    by (auto simp: le_less)
  then show ?thesis
  proof cases
    case 1
    with first_day_mono [OF 1] days_in_year [OF assms(1)] days_in_year [OF assms(2)] show ?thesis
      by (simp add: days_since_epoch_first_day)
  next
    case 2
    with days_before_month_mono [of m m' y] assms(1,2) show ?thesis
      by (auto simp: days_since_epoch_first_day valid_date_def)
  next
    case 3
    then show ?thesis by (simp add: days_since_epoch_first_day)
  qed
qed

lemma date_of_day_mono:
  assumes "n < n'"
  shows "date_of_day n < date_of_day n'"
proof (rule ccontr)
  assume contra: "\<not> date_of_day n < date_of_day n'"
  obtain y m d where date: "date_of_day n = (y, m, d)" by (cases "date_of_day n")
  obtain y' m' d' where date': "date_of_day n' = (y', m', d')" by (cases "date_of_day n'")
  from contra date date' consider "(y', m', d') < (y, m, d)" | "(y', m', d') = (y, m, d)"
    by fastforce
  then show False
    using days_since_epoch_mono date_of_day_correct [OF date] date_of_day_correct [OF date'] assms
    by cases fastforce+
qed

subsection \<open>Digits\<close>

fun pad :: "nat \<Rightarrow> nat \<Rightarrow> string" where
  "pad 0 n = []"
| "pad (Suc w) n = pad w (n div 10) @ [digit (n mod 10)]"

lemma length_pad [simp]: "length (pad w n) = w"
  by (induction w arbitrary: n) auto

lemma digit_zero: "digit 0 = CHR ''0''"
  by code_simp

lemma pad_zero: "pad w 0 = replicate w (CHR ''0'')"
  by (induction w) (simp_all add: digit_zero replicate_append_same)

lemma pad_nat_digits:
  "n < 10 ^ w \<Longrightarrow> 0 < w \<Longrightarrow> length (nat_digits n) \<le> w \<and>
    replicate (w - length (nat_digits n)) (CHR ''0'') @ nat_digits n = pad w n"
proof (induction w arbitrary: n)
  case (Suc w)
  show ?case
  proof (cases "n < 10")
    case True
    then show ?thesis by (simp add: nat_digits.simps [of n] pad_zero)
  next
    case False
    with Suc.prems(1) have "0 < w" by (cases w) auto
    moreover have "n div 10 < 10 ^ w" using Suc.prems(1) by (simp add: less_mult_imp_div_less mult.commute)
    ultimately show ?thesis
      using Suc.IH [of "n div 10"] False by (simp add: nat_digits.simps [of n] flip: append_assoc)
  qed
qed simp

lemma append_int_pad: "0 \<le> i \<Longrightarrow> i < 10 ^ w \<Longrightarrow> 0 < w \<Longrightarrow> append_int w i = pad w (nat i)"
  using pad_nat_digits [of "nat i" w] by (simp add: append_int_def nat_less_iff)

lemma parse_pad: "n < 10 ^ w \<Longrightarrow> parse_digits acc (pad w n) = Some (acc * 10 ^ w + n)"
proof (induction w arbitrary: n acc)
  case (Suc w)
  have "n div 10 < 10 ^ w" using Suc.prems by (simp add: less_mult_imp_div_less mult.commute)
  with Suc.IH show ?case
    by (simp add: parse_digits_append digit_value_digit algebra_simps)
qed simp

lemma take_digits_pad: "n < 10 ^ w \<Longrightarrow> take_digits w (pad w n @ s) = Some (int n, s)"
  by (simp add: take_digits_def parse_pad)

lemma append_less_iff:
  fixes a b c d :: string
  assumes "length a = length c"
  shows "a @ b < c @ d \<longleftrightarrow> a < c \<or> a = c \<and> b < d"
  using assms by (induction a c rule: list_induct2) auto

lemma digit_less_iff: "m < 10 \<Longrightarrow> n < 10 \<Longrightarrow> digit m < digit n \<longleftrightarrow> m < n"
  by (simp add: digit_def less_char_def of_char_of)

lemma pad_less: "m < n \<Longrightarrow> n < 10 ^ w \<Longrightarrow> pad w m < pad w n"
proof (induction w arbitrary: m n)
  case (Suc w)
  have "n div 10 < 10 ^ w" using Suc.prems by (simp add: less_mult_imp_div_less mult.commute)
  show ?case
  proof (cases "m div 10 = n div 10")
    case True
    then have "m mod 10 < n mod 10" using Suc.prems(1) div_mult_mod_eq [of m 10] div_mult_mod_eq [of n 10] by linarith
    with True show ?thesis by (simp add: append_less_iff digit_less_iff)
  next
    case False
    then have "m div 10 < n div 10" using Suc.prems(1) by (simp add: div_le_mono le_neq_implies_less)
    with Suc.IH \<open>n div 10 < 10 ^ w\<close> show ?thesis by (simp add: append_less_iff)
  qed
qed simp

subsection \<open>Texts of seconds\<close>

text \<open>The first second of the year 10000, whose year has more than four digits.\<close>

definition year_10000 :: int where
  "year_10000 = 315537897600"

definition date_text :: "nat \<Rightarrow> nat \<Rightarrow> nat \<Rightarrow> string" where
  "date_text y m d = pad 4 y @ CHR ''-'' # pad 2 m @ CHR ''-'' # pad 2 d"

definition clock_text :: "nat \<Rightarrow> string" where
  "clock_text r = pad 2 (r div 3600) @ CHR '':'' # pad 2 (r mod 3600 div 60) @ CHR '':'' # pad 2 (r mod 60)"

lemma length_text [simp]: "length (date_text y m d) = 10" "length (clock_text r) = 8"
  by (simp_all add: date_text_def clock_text_def)

lemma div_below:
  assumes "0 < k" "a < b * k"
  shows "a div k < (b::int)"
proof (rule ccontr)
  assume "\<not> a div k < b"
  then have "b * k \<le> (a div k) * k" using assms(1) by (intro mult_right_mono) auto
  with assms(2) div_mult_mod_eq [of a k] pos_mod_sign [OF assms(1), of a] show False by linarith
qed

lemma year_range:
  assumes "0 \<le> n" "n < 3652059" "date_of_day n = (y, m, d)"
  shows "1 \<le> y" "y < 10000" "1 \<le> m" "m \<le> 12" "1 \<le> d" "d \<le> 31"
proof -
  note date = date_of_day_correct [OF assms(3)]
  then have valid: "valid_date y m d" ..
  then show "1 \<le> m" "m \<le> 12" "1 \<le> d" "d \<le> 31" by (auto simp: valid_date_def days_in_def split: if_splits)
  note yd = days_in_year [OF valid]
  have n: "first_day y + (days_before_month m y + (d - 1)) = n"
    using date by (simp add: days_since_epoch_first_day)
  have ends: "first_day 1 = 0" "first_day 10000 = 3652059" by (simp_all add: first_day_def)
  show "1 \<le> y"
  proof (rule ccontr)
    assume "\<not> 1 \<le> y"
    then have "first_day y + year_length y \<le> 0" using first_day_mono [of y 1] ends by simp
    with n yd assms(1) show False by simp
  qed
  show "y < 10000"
  proof (rule ccontr)
    assume "\<not> y < 10000"
    then have "first_day 10000 \<le> first_day y"
      using first_day_mono [of 10000 y] by (cases "y = 10000") (auto simp: year_length_def split: if_splits)
    with n yd assms(2) ends show False by simp
  qed
qed

lemma format_seconds_text:
  assumes "0 \<le> secs" "secs < year_10000" "date_of_day (secs div 86400) = (y, m, d)"
  shows "format_seconds secs = date_text (nat y) (nat m) (nat d) @ CHR ''T'' # clock_text (nat (secs mod 86400))"
proof -
  define r where "r = secs mod 86400"
  have r: "0 \<le> r" "r < 86400" by (simp_all add: r_def)
  have "0 \<le> secs div 86400" using assms(1) by simp
  moreover have "secs div 86400 < 3652059"
  proof (rule ccontr)
    assume "\<not> secs div 86400 < 3652059"
    then have "3652059 * 86400 \<le> secs"
      using mult_div_mod_eq [of 86400 secs] pos_mod_sign [of 86400 secs] by linarith
    with assms(2) show False by (simp add: year_10000_def)
  qed
  note range = year_range [OF calculation this assms(3)]
  have h: "0 \<le> r div 3600" "r div 3600 < 10 ^ 2"
    using r by (auto simp: pos_imp_zdiv_nonneg_iff intro: div_below)
  have mi: "0 \<le> r mod 3600 div 60" "r mod 3600 div 60 < 10 ^ 2"
    using pos_mod_bound [of 3600 r] by (auto simp: pos_imp_zdiv_nonneg_iff intro: div_below)
  have s: "0 \<le> r mod 60" "r mod 60 < 10 ^ 2"
    using pos_mod_bound [of 60 r] by simp_all
  have nats: "nat (r div 3600) = nat r div 3600" "nat (r mod 3600 div 60) = nat r mod 3600 div 60"
    "nat (r mod 60) = nat r mod 60"
    using r by (simp_all add: nat_div_distrib nat_mod_distrib)
  show ?thesis
    using range assms(3) append_int_pad [OF h] append_int_pad [OF mi] append_int_pad [OF s]
    by (simp add: format_seconds_def Let_def r_def [symmetric] nats date_text_def clock_text_def append_int_pad)
qed

lemma date_text_less:
  assumes "(y, m, d) < (y', m', d')" and "y' < 10000" "m' < 100" "d' < 100"
  shows "date_text y m d < date_text y' m' d'"
proof -
  from assms(1) consider "y < y'" | "y = y'" "m < m'" | "y = y'" "m = m'" "d < d'"
    by (auto simp: le_less)
  then show ?thesis
    using assms(2-4) by cases (simp_all add: date_text_def append_less_iff pad_less)
qed

lemma nat_date_less:
  assumes "(y, m, d) < (y', m', d' :: int)" "0 \<le> (y::int)" "0 \<le> (m::int)" "0 \<le> d"
  shows "(nat y, nat m, nat d) < (nat y', nat m', nat d')"
proof -
  from assms(1) consider "y < y'" | "y = y'" "m < m'" | "y = y'" "m = m'" "d < d'"
    by (auto simp: le_less)
  then show ?thesis using assms(2-4) by cases simp_all
qed

lemma clock_cases:
  fixes h i s h' i' s' :: nat
  assumes "3600 * h + 60 * i + s < 3600 * h' + 60 * i' + s'" "i < 60" "s < 60" "i' < 60" "s' < 60"
  shows "h < h' \<or> h = h' \<and> (i < i' \<or> i = i' \<and> s < s')"
  using assms by (cases h h' rule: linorder_cases; cases i i' rule: linorder_cases) auto

lemma clock_text_less:
  assumes "r < r'" and "r' < 86400"
  shows "clock_text r < clock_text r'"
proof -
  have small: "r' div 3600 < 10 ^ 2" "r' mod 3600 div 60 < 10 ^ 2" "r' mod 60 < 10 ^ 2"
    using assms(2) by (simp_all add: less_mult_imp_div_less)
  have split: "r = 3600 * (r div 3600) + 60 * (r mod 3600 div 60) + r mod 60" for r :: nat
  proof -
    have "r mod 3600 mod 60 = r mod 60" by (rule mod_mod_cancel) simp
    then show ?thesis using mult_div_mod_eq [of 3600 r] mult_div_mod_eq [of 60 "r mod 3600"] by linarith
  qed
  have bound: "r mod 3600 div 60 < 60" "r mod 60 < 60" for r :: nat by (simp_all add: less_mult_imp_div_less)
  have "r div 3600 < r' div 3600 \<or> r div 3600 = r' div 3600 \<and>
      (r mod 3600 div 60 < r' mod 3600 div 60 \<or> r mod 3600 div 60 = r' mod 3600 div 60 \<and> r mod 60 < r' mod 60)"
    using assms(1) bound by (intro clock_cases) (simp_all only: split [of r, symmetric] split [of r', symmetric])
  then consider "r div 3600 < r' div 3600" | "r div 3600 = r' div 3600" "r mod 3600 div 60 < r' mod 3600 div 60"
    | "r div 3600 = r' div 3600" "r mod 3600 div 60 = r' mod 3600 div 60" "r mod 60 < r' mod 60" by blast
  then show ?thesis
    using small by cases (simp_all add: clock_text_def append_less_iff pad_less)
qed

lemma format_seconds_less:
  assumes "0 \<le> s" "s < s'" "s' < year_10000"
  shows "format_seconds s < format_seconds s'"
proof -
  obtain y m d where date: "date_of_day (s div 86400) = (y, m, d)" by (cases "date_of_day (s div 86400)")
  obtain y' m' d' where date': "date_of_day (s' div 86400) = (y', m', d')" by (cases "date_of_day (s' div 86400)")
  note shape = format_seconds_text [OF _ _ date] format_seconds_text [OF _ _ date']
  have le: "s div 86400 \<le> s' div 86400" using assms(2) by (simp add: zdiv_mono1)
  show ?thesis
  proof (cases "s div 86400 = s' div 86400")
    case True
    then have "s mod 86400 < s' mod 86400"
      using assms(2) mult_div_mod_eq [of 86400 s] mult_div_mod_eq [of 86400 s'] by linarith
    then have "clock_text (nat (s mod 86400)) < clock_text (nat (s' mod 86400))"
      by (intro clock_text_less) (simp_all add: nat_less_eq_zless)
    with shape assms date date' True show ?thesis by (simp add: append_less_iff)
  next
    case False
    with le have less: "(y, m, d) < (y', m', d')"
      using date_of_day_mono [of "s div 86400" "s' div 86400"] date date' by simp
    have n': "0 \<le> s' div 86400" "s' div 86400 < 3652059"
      using assms by (auto simp: pos_imp_zdiv_nonneg_iff year_10000_def intro: div_below)
    have n: "0 \<le> s div 86400" "s div 86400 < 3652059"
      using assms n' le by (simp_all add: pos_imp_zdiv_nonneg_iff)
    note range = year_range [OF n date] year_range [OF n' date']
    have "(nat y, nat m, nat d) < (nat y', nat m', nat d')"
      using range by (intro nat_date_less [OF less]) auto
    then have "date_text (nat y) (nat m) (nat d) < date_text (nat y') (nat m') (nat d')"
      using range by (intro date_text_less) auto
    with shape assms show ?thesis by (simp add: append_less_iff)
  qed
qed

lemma format_seconds_less_iff:
  assumes "0 \<le> s" "s < year_10000" "0 \<le> s'" "s' < year_10000"
  shows "format_seconds s < format_seconds s' \<longleftrightarrow> s < s'"
  using format_seconds_less assms by (cases s s' rule: linorder_cases) (auto dest: order_less_asym)

lemma format_seconds_inj:
  assumes "0 \<le> s" "s < year_10000" "0 \<le> s'" "s' < year_10000"
  shows "format_seconds s = format_seconds s' \<longleftrightarrow> s = s'"
  using format_seconds_less assms by (metis linorder_neq_iff order_less_irrefl)

lemma length_format_seconds [simp]:
  assumes "0 \<le> s" "s < year_10000"
  shows "length (format_seconds s) = 19"
  using format_seconds_text [OF assms] by (cases "date_of_day (s div 86400)") simp

subsection \<open>Stored times compare like their texts\<close>

definition storable :: "time \<Rightarrow> bool" where
  "storable t \<longleftrightarrow> 0 \<le> t \<and> t < year_10000 * nano_per_second"

lemma storable_seconds:
  assumes "storable t"
  shows "0 \<le> t div nano_per_second" "t div nano_per_second < year_10000"
  using assms by (auto simp: storable_def pos_imp_zdiv_nonneg_iff intro: div_below)

lemma take_fmt_time:
  assumes "storable t" "t \<noteq> 0"
  shows "take 19 (fmt_time t) = format_seconds (t div nano_per_second)"
  using storable_seconds [OF assms(1)] assms(2) by (simp add: fmt_time_def)

lemma fmt_time_less:
  assumes "storable t" "storable u"
  shows "fmt_time t < fmt_time u \<longleftrightarrow> time_text_order t < time_text_order u"
proof -
  note t = storable_seconds [OF assms(1)] and u = storable_seconds [OF assms(2)]
  have longer: "[] < format_seconds (v div nano_per_second) @ f" if "storable v" for v f
    using length_format_seconds [OF storable_seconds [OF that]]
    by (cases "format_seconds (v div nano_per_second)") auto
  show ?thesis
  proof (cases "t = 0 \<or> u = 0")
    case True
    with longer [OF assms(1)] longer [OF assms(2)] t u show ?thesis
      by (auto simp: fmt_time_def time_text_order_def less_prod_simp not_less intro: order_less_imp_le)
  next
    case False
    with t u show ?thesis
      by (simp add: fmt_time_def time_text_order_def append_less_iff format_seconds_less_iff
          format_seconds_inj less_prod_simp le_less) blast
  qed
qed

text \<open>C30: The filters and orders of the queries compare stored texts: their first 19 characters compare like
  the whole seconds, with each other and with the bound of a filter, and the whole texts like the seconds and then
  the text of the fraction.  This holds for all times before the year 10000; the zero time is the empty
  text, before all others.\<close>

theorem stored_times_compare:
  assumes "storable t" and "storable u" and "t \<noteq> zero_time"
  shows "(fmt_time t < fmt_time u \<longleftrightarrow> time_text_order t < time_text_order u) \<and>
    (take 19 (fmt_time t) < second_bound_text u \<longleftrightarrow> second_bound t < second_bound u) \<and>
    (take 19 (fmt_time t) \<ge> second_bound_text u \<longleftrightarrow> second_bound t \<ge> second_bound u) \<and>
    (u \<noteq> zero_time \<longrightarrow>
      (take 19 (fmt_time t) < take 19 (fmt_time u) \<longleftrightarrow> second_bound t < second_bound u) \<and>
      (take 19 (fmt_time t) = take 19 (fmt_time u) \<longleftrightarrow> second_bound t = second_bound u))"
  using fmt_time_less [OF assms(1,2)] storable_seconds [OF assms(1)] storable_seconds [OF assms(2)] assms
  by (simp add: take_fmt_time second_bound_text_def second_bound_def format_seconds_less_iff format_seconds_inj
      flip: not_less)

theorem stored_times_compare_witness:
  "\<not> fmt_time 5000000000 < fmt_time 5500000000 \<and> take 19 (fmt_time 5000000000) = take 19 (fmt_time 5500000000)"
proof -
  have "storable 5000000000" "storable 5500000000" by (simp_all add: storable_def year_10000_def)
  moreover have "time_text_order 5500000000 < time_text_order 5000000000" by (rule empty_sessions_by_text)
  then have "\<not> time_text_order 5000000000 < time_text_order 5500000000" by (rule order_less_not_sym)
  ultimately show ?thesis
    using stored_times_compare [of 5000000000 5500000000] by (simp add: second_bound_def)
qed

subsection \<open>A stored time is read back\<close>

definition nine_digits :: "nat \<Rightarrow> string" where
  "nine_digits n = tl (nat_digits (1000000000 + n))"

lemma nine_digits_pad: "n < 10 ^ 9 \<Longrightarrow> nine_digits n = pad 9 n"
proof -
  assume "n < 10 ^ 9"
  then have n: "1000000000 + n < 10 ^ 10" by simp
  have "pad 10 (1000000000 + n) = digit 1 # pad 9 n" if "n < 10 ^ 9" for n
  proof -
    have step: "pad (Suc w) (10 ^ w + k) = digit 1 # pad w k" if "k < 10 ^ w" for w k
      using that
    proof (induction w arbitrary: k)
      case (Suc w)
      have "k div 10 < 10 ^ w" using Suc.prems by (simp add: less_mult_imp_div_less mult.commute)
      moreover have "(10 ^ Suc w + k) div 10 = 10 ^ w + k div 10" "(10 ^ Suc w + k) mod 10 = k mod 10" by simp_all
      ultimately show ?case using Suc.IH [of "k div 10"] by (simp only: pad.simps(2) [of "Suc w"]) simp
    qed (simp add: digit_def)
    have "Suc 9 = 10" "(10::nat) ^ 9 = 1000000000" by simp_all
    with step [OF that] show ?thesis by (simp only:)
  qed
  with \<open>n < 10 ^ 9\<close> have top: "pad 10 (1000000000 + n) = digit 1 # pad 9 n" by blast
  have "length (nat_digits (1000000000 + n)) = 10"
  proof -
    have "digit 1 \<noteq> CHR ''0''" by code_simp
    with pad_nat_digits [OF n] top show ?thesis
      by (cases "10 - length (nat_digits (1000000000 + n))") auto
  qed
  with pad_nat_digits [OF n] top show ?thesis by (simp add: nine_digits_def)
qed

lemma pad_digits: "c \<in> set (pad w n) \<Longrightarrow> \<exists>d<10. c = digit d"
  by (induction w arbitrary: n) (auto intro: exI [of _ "n mod 10" for n])

lemma parse_digits_zero [simp]: "parse_digits acc (replicate k (CHR ''0'')) \<noteq> None"
  by (induction k arbitrary: acc) (auto simp: digit_value_def)

text \<open>Digits without their trailing zeros, filled up again.\<close>

lemma strip_zeros:
  defines "strip \<equiv> \<lambda>ds. rev (dropWhile (\<lambda>c. c = CHR ''0'') (rev ds))"
  shows "ds = strip ds @ replicate (length ds - length (strip ds)) (CHR ''0'')"
proof -
  let ?zeros = "takeWhile (\<lambda>c. c = CHR ''0'') (rev ds)"
  have "?zeros = replicate (length ?zeros) (CHR ''0'')"
    by (rule replicate_eqI) (auto dest: set_takeWhileD)
  then have zeros: "rev ?zeros = replicate (length ?zeros) (CHR ''0'')" by (metis rev_replicate)
  have "ds = rev (?zeros @ dropWhile (\<lambda>c. c = CHR ''0'') (rev ds))" by simp
  also have "\<dots> = strip ds @ replicate (length ?zeros) (CHR ''0'')"
    unfolding rev_append strip_def zeros ..
  finally have ds: "ds = strip ds @ replicate (length ?zeros) (CHR ''0'')" .
  then have "length ds = length (strip ds) + length ?zeros" by (metis length_append length_replicate)
  with ds show ?thesis by simp
qed

lemma take_fraction_text:
  assumes "n < 10 ^ 9"
  shows "take_fraction (fraction_text n) = (int n, ''Z'')"
proof (cases "n = 0")
  case True
  then show ?thesis by (simp add: fraction_text_def take_fraction_def)
next
  case False
  define ds where "ds = pad 9 n"
  define st where "st = rev (dropWhile (\<lambda>c. c = CHR ''0'') (rev ds))"
  have ds: "ds = st @ replicate (9 - length st) (CHR ''0'')" "length st \<le> 9"
    using strip_zeros [of ds] by (simp_all add: st_def ds_def) (metis length_dropWhile_le length_pad length_rev)
  have parsed: "parse_digits 0 ds = Some n" using parse_pad [OF assms, of 0] by (simp add: ds_def)
  have "st \<noteq> []"
  proof
    assume "st = []"
    with ds have "ds = pad 9 0" by (simp add: pad_zero)
    with parse_pad [of 0 9 0] parsed False show False by simp
  qed
  have digit: "digit_value c \<noteq> None" if "c \<in> set st" for c
  proof -
    have "c \<in> set ds" by (subst ds(1)) (use that in simp)
    then show ?thesis using pad_digits [of c 9 n] digit_value_digit by (auto simp: ds_def)
  qed
  have z: "digit_value (CHR ''Z'') = None" by code_simp
  have shape: "fraction_text n = CHR ''.'' # st @ ''Z''"
    using False nine_digits_pad [OF assms] by (simp add: fraction_text_def nine_digits_def st_def ds_def)
  have "take 9 (st @ replicate 9 (CHR ''0'')) = ds"
    using ds by (metis diff_le_self min.absorb1 take_all_iff take_append take_replicate)
  moreover have "takeWhile (\<lambda>c. digit_value c \<noteq> None) (st @ ''Z'') = st"
    using digit z by (simp add: takeWhile_append2)
  moreover have "dropWhile (\<lambda>c. digit_value c \<noteq> None) (st @ ''Z'') = ''Z''"
    using digit z by (simp add: dropWhile_append2)
  moreover obtain c cs where "st = c # cs" using \<open>st \<noteq> []\<close> by (cases st) auto
  ultimately show ?thesis
    using parsed digit [of c] unfolding shape
    by (simp add: take_fraction_def Let_def del: takeWhile.simps dropWhile.simps parse_digits.simps)
qed

lemma parse_format_seconds:
  assumes "0 \<le> secs" "secs < year_10000" "n < 10 ^ 9"
  shows "parse_rfc3339 (format_seconds secs @ fraction_text n) = Some (secs * nano_per_second + int n)"
proof -
  obtain y m d where date: "date_of_day (secs div 86400) = (y, m, d)" by (cases "date_of_day (secs div 86400)")
  have days: "0 \<le> secs div 86400" "secs div 86400 < 3652059"
    using assms by (auto simp: pos_imp_zdiv_nonneg_iff year_10000_def intro: div_below)
  note range = year_range [OF days date] and epoch = date_of_day_correct [OF date]
  define r where "r = nat (secs mod 86400)"
  have r: "r < 86400" "int r = secs mod 86400" by (simp_all add: r_def nat_less_eq_zless)
  have hms: "r div 3600 < 24" "r mod 3600 div 60 < 60" "r mod 60 < 60"
    using r(1) by (simp_all add: less_mult_imp_div_less)
  have rsum: "r = 3600 * (r div 3600) + 60 * (r mod 3600 div 60) + r mod 60"
  proof -
    have "r mod 3600 mod 60 = r mod 60" by (rule mod_mod_cancel) simp
    then show ?thesis using mult_div_mod_eq [of 3600 r] mult_div_mod_eq [of 60 "r mod 3600"] by linarith
  qed
  have "(((secs div 86400 * 24 + int (r div 3600)) * 60 + int (r mod 3600 div 60)) * 60 + int (r mod 60)) =
      secs div 86400 * 86400 + int (3600 * (r div 3600) + 60 * (r mod 3600 div 60) + r mod 60)" by simp
  also have "\<dots> = secs" using r(2) rsum by simp
  finally have moment: "instant y m d (int (r div 3600)) (int (r mod 3600 div 60)) (int (r mod 60)) (int n) =
      secs * nano_per_second + int n"
    using epoch by (simp add: instant_def)
  have small: "nat y < 10 ^ 4" "nat m < 10 ^ 2" "nat d < 10 ^ 2"
    "r div 3600 < 10 ^ 2" "r mod 3600 div 60 < 10 ^ 2" "r mod 60 < 10 ^ 2"
    using range hms by simp_all
  have "parse_clock y m d (pad 2 h @ CHR '':'' # pad 2 mi @ CHR '':'' # pad 2 s @ fraction_text n) =
      Some (instant y m d (int h) (int mi) (int s) (int n))" if "h < 24" "mi < 60" "s < 60" for h mi s
    using that epoch take_fraction_text [OF assms(3)]
    by (simp add: parse_clock_def take_digits_pad take_hour_def in_range_def take_char_def
        take_zone_def valid_date_def)
  from this [OF hms] have "parse_clock y m d (clock_text r @ fraction_text n) = Some (secs * nano_per_second + int n)"
    unfolding moment by (simp add: clock_text_def)
  then show ?thesis
    using small range format_seconds_text [OF assms(1,2) date]
    by (simp add: parse_rfc3339_def date_text_def take_digits_pad in_range_def take_char_def r_def)
qed

lemma read_stored_time:
  assumes "storable t"
  shows "parse_time (fmt_time t) = Inr t"
proof (cases "t = 0")
  case True
  then show ?thesis by (simp add: fmt_time_def parse_time_def)
next
  case False
  have n: "nat (t mod nano_per_second) < 10 ^ 9"
    using pos_mod_bound [of nano_per_second t] by (simp add: nat_less_iff)
  have "parse_rfc3339 (fmt_time t) = Some t"
    using parse_format_seconds [OF storable_seconds [OF assms] n] False by (simp add: fmt_time_def)
  moreover have "fmt_time t \<noteq> ''''"
    using False length_format_seconds [OF storable_seconds [OF assms]] by (auto simp: fmt_time_def)
  ultimately show ?thesis by (simp add: parse_time_def)
qed


end
