(* ===== verification/Schema.thy ===== *)
theory Schema
  imports Sql_Store
begin

section \<open>Opening the store (internal/store/store.go New, internal/store/sqlstore.go initSchema)\<close>

text \<open>
  A store is opened by building the source name, opening and pinging the database, and bringing its
  schema up to date: missing tables and indexes are created, and the columns that later versions added
  to the tasks are appended.  The database is a catalogue of tables with their columns and rows; the
  effect of the three kinds of statements is that of SQLite, as far as the code relies on it.  The code
  sends the same statements to MySQL, whose engine refuses some of them (a text column as a primary key
  or with a default, an index that is created if it is missing): there a refusal is one of the failed calls
  that \<open>cat_outcomes\<close> lists, and what is said of calls that succeed is said of SQLite only.
\<close>

subsection \<open>The catalogue\<close>

datatype sql_value = SqlText string | SqlInt int

record column =
  cl_name :: string
  cl_type :: string
  cl_key :: bool
  cl_not_null :: bool
  cl_default :: "sql_value option"

record sql_table =
  tb_columns :: "column list"
  tb_rows :: "(string \<rightharpoonup> sql_value) list"

text \<open>What the calls to come will do: succeed, fail, or fail while rows are read.\<close>

datatype call_outcome = CallOk | CallFails string | RowsFail nat string

record catalog =
  cat_tables :: "string \<rightharpoonup> sql_table"
  cat_indexes :: "string \<rightharpoonup> string \<times> string"
  cat_outcomes :: "call_outcome list"

definition take_call :: "catalog \<Rightarrow> call_outcome \<times> catalog" where
  "take_call c = (case cat_outcomes c of [] \<Rightarrow> (CallOk, c) | x # xs \<Rightarrow> (x, c\<lparr>cat_outcomes := xs\<rparr>))"

definition column_names :: "sql_table \<Rightarrow> string list" where
  "column_names tb = map cl_name (tb_columns tb)"

subsection \<open>Statements\<close>

datatype ddl =
    CreateTable string "column list"
  | CreateIndex string string string
  | AddColumn string column

definition no_such_table :: "string \<Rightarrow> string" where
  "no_such_table t = ''no such table: '' @ t"

definition set_column :: "string \<Rightarrow> sql_value option \<Rightarrow> (string \<rightharpoonup> sql_value) \<Rightarrow> (string \<rightharpoonup> sql_value)" where
  "set_column name v r = r(name := v)"

text \<open>
  What SQLite does with a statement it is sent: tables and indexes are created if they are missing, a column
  is added with its default in every row, and it is an error if it exists, or may not be null and has no
  default.
\<close>

fun apply_ddl :: "ddl \<Rightarrow> catalog \<Rightarrow> string + catalog" where
  "apply_ddl (CreateTable t cols) c =
     (case cat_tables c t of
        Some _ \<Rightarrow> Inr c
      | None \<Rightarrow> Inr (c\<lparr>cat_tables := (cat_tables c)(t \<mapsto> \<lparr>tb_columns = cols, tb_rows = []\<rparr>)\<rparr>))"
| "apply_ddl (CreateIndex i t col) c =
     (if cat_indexes c i \<noteq> None then Inr c
      else case cat_tables c t of
        None \<Rightarrow> Inl (no_such_table t)
      | Some tb \<Rightarrow>
          if col \<notin> set (column_names tb) then Inl (''no such column: '' @ col)
          else Inr (c\<lparr>cat_indexes := (cat_indexes c)(i \<mapsto> (t, col))\<rparr>))"
| "apply_ddl (AddColumn t col) c =
     (case cat_tables c t of
        None \<Rightarrow> Inl (no_such_table t)
      | Some tb \<Rightarrow>
          if cl_name col \<in> set (column_names tb) then Inl (''duplicate column name: '' @ cl_name col)
          else if cl_not_null col \<and> cl_default col = None then Inl ''Cannot add a NOT NULL column with default value NULL''
          else Inr (c\<lparr>cat_tables := (cat_tables c)(t \<mapsto>
            \<lparr>tb_columns = tb_columns tb @ [col],
             tb_rows = map (set_column (cl_name col) (cl_default col)) (tb_rows tb)\<rparr>)\<rparr>))"

definition exec_ddl :: "ddl \<Rightarrow> (catalog, string, unit) op" where
  "exec_ddl stmt c =
    (case take_call c of
       (CallFails msg, c1) \<Rightarrow> (Inl msg, c1)
     | (_, c1) \<Rightarrow> (case apply_ddl stmt c1 of Inl msg \<Rightarrow> (Inl msg, c1) | Inr c2 \<Rightarrow> (Inr (), c2)))"

subsection \<open>The schema\<close>

definition key_column :: "string \<Rightarrow> column" where
  "key_column name = \<lparr>cl_name = name, cl_type = ''TEXT'', cl_key = True, cl_not_null = False, cl_default = None\<rparr>"

definition auto_column :: "string \<Rightarrow> column" where
  "auto_column driver = \<lparr>cl_name = ''id'',
     cl_type = (if driver = ''mysql'' then ''BIGINT'' else ''INTEGER''), cl_key = True, cl_not_null = False, cl_default = None\<rparr>"

definition text_column :: "string \<Rightarrow> column" where
  "text_column name = \<lparr>cl_name = name, cl_type = ''TEXT'', cl_key = False, cl_not_null = True, cl_default = None\<rparr>"

definition text_default :: "string \<Rightarrow> string \<Rightarrow> column" where
  "text_default name v =
    \<lparr>cl_name = name, cl_type = ''TEXT'', cl_key = False, cl_not_null = True, cl_default = Some (SqlText v)\<rparr>"

definition int_default :: "string \<Rightarrow> int \<Rightarrow> column" where
  "int_default name v =
    \<lparr>cl_name = name, cl_type = ''INTEGER'', cl_key = False, cl_not_null = True, cl_default = Some (SqlInt v)\<rparr>"

definition schema_statements :: "string \<Rightarrow> ddl list" where
  "schema_statements driver =
    [CreateTable ''collectors'' [key_column ''instance_uid'', text_default ''hostname'' '''', text_default ''version'' '''',
       text_column ''last_seen_at'', text_column ''status'', text_default ''effective_config'' '''', text_default ''group_id'' ''''],
     CreateTable ''collector_groups'' [key_column ''id'', text_column ''name'', text_default ''selector'' ''''],
     CreateTable ''config_versions'' [auto_column driver, text_column ''collector_instance_uid'', text_column ''yaml'',
       text_column ''hash'', int_default ''validated'' 0, text_column ''created_at''],
     CreateTable ''tasks'' [key_column ''id'', text_column ''type'', text_column ''status'', int_default ''require_approval'' 1,
       text_default ''input'' '''', text_default ''generated_yaml'' '''', text_default ''target_group_id'' '''',
       text_default ''approvers'' ''[]'', text_default ''approver'' '''', text_default ''reject_reason'' '''',
       text_default ''model_used'' '''', text_default ''error'' '''', text_column ''created_at'', text_column ''updated_at''],
     CreateIndex ''idx_tasks_status'' ''tasks'' ''status'',
     CreateTable ''chat_sessions'' [key_column ''id'', text_column ''created_at''],
     CreateTable ''chat_messages'' [auto_column driver, text_column ''session_id'', text_column ''role'', text_column ''content'',
       text_column ''created_at''],
     CreateIndex ''idx_chat_messages_session'' ''chat_messages'' ''session_id'',
     CreateTable ''agent_runs'' [key_column ''id'', text_column ''session_id'', text_column ''agent_type'',
       text_default ''tool_calls'' ''[]'', text_column ''status'', text_default ''model_used'' '''', text_column ''started_at'',
       text_default ''finished_at'' ''''],
     CreateTable ''task_events'' [auto_column driver, text_column ''task_id'', text_default ''from_status'' '''',
       text_column ''to_status'', text_column ''created_at''],
     CreateIndex ''idx_task_events_task'' ''task_events'' ''task_id'',
     CreateIndex ''idx_task_events_created'' ''task_events'' ''created_at'',
     CreateTable ''audit_logs'' [auto_column driver, text_column ''actor'', text_column ''action'', text_column ''subject'',
       text_column ''detail'', text_column ''created_at'']]"

text \<open>The columns of later versions, in the order in which they are ensured.\<close>

definition task_columns :: "column list" where
  "task_columns =
    [text_default ''target_instance_uid'' '''', int_default ''rollback_version_id'' 0, text_default ''session_id'' '''',
     text_default ''base_yaml'' '''', text_default ''base_source'' '''', text_default ''git_commit'' '''',
     text_default ''git_path'' '''', text_default ''git_ref'' '''']"

definition session_index :: ddl where
  "session_index = CreateIndex ''idx_tasks_session'' ''tasks'' ''session_id''"

subsection \<open>Bringing the schema up to date\<close>

datatype schema_error =
    SchemaExec string
  | SchemaCheck string string string
  | SchemaRows string
  | SchemaAdd string string string
  | SchemaIndex string

definition with_error :: "('e \<Rightarrow> 'f) \<Rightarrow> ('s, 'e, 'a) op \<Rightarrow> ('s, 'f, 'a) op" where
  "with_error f m s = (case m s of (Inl e, s1) \<Rightarrow> (Inl (f e), s1) | (Inr x, s1) \<Rightarrow> (Inr x, s1))"

text \<open>MySQL counts the columns of the name; SQLite lists the columns until the name is found, and an error
  that ends the list before is returned as it is.\<close>

definition column_exists :: "string \<Rightarrow> string \<Rightarrow> string \<Rightarrow> (catalog, schema_error, bool) op" where
  "column_exists driver t name c =
    (let names = (case cat_tables c t of None \<Rightarrow> [] | Some tb \<Rightarrow> column_names tb) in
     if driver = ''mysql'' then
       (case take_call c of
          (CallOk, c1) \<Rightarrow> (Inr (length (filter (\<lambda>n. n = name) names) > 0), c1)
        | (CallFails msg, c1) \<Rightarrow> (Inl (SchemaCheck t name msg), c1)
        | (RowsFail _ msg, c1) \<Rightarrow> (Inl (SchemaCheck t name msg), c1))
     else
       (case take_call c of
          (CallOk, c1) \<Rightarrow> (Inr (list_ex (\<lambda>n. n = name) names), c1)
        | (CallFails msg, c1) \<Rightarrow> (Inl (SchemaCheck t name msg), c1)
        | (RowsFail k msg, c1) \<Rightarrow>
            if list_ex (\<lambda>n. n = name) (take k names) then (Inr True, c1) else (Inl (SchemaRows msg), c1)))"

definition ensure_column :: "string \<Rightarrow> string \<Rightarrow> column \<Rightarrow> (catalog, schema_error, unit) op" where
  "ensure_column driver t col =
    and_then (column_exists driver t (cl_name col)) (\<lambda>found.
      if found then ret () else with_error (SchemaAdd t (cl_name col)) (exec_ddl (AddColumn t col)))"

primrec each_in_turn :: "('x \<Rightarrow> ('s, 'e, unit) op) \<Rightarrow> 'x list \<Rightarrow> ('s, 'e, unit) op" where
  "each_in_turn f [] = ret ()"
| "each_in_turn f (x # xs) = and_then (f x) (\<lambda>_. each_in_turn f xs)"

definition init_schema :: "string \<Rightarrow> (catalog, schema_error, unit) op" where
  "init_schema driver =
    and_then (each_in_turn (\<lambda>stmt. with_error SchemaExec (exec_ddl stmt)) (schema_statements driver)) (\<lambda>_.
    and_then (each_in_turn (ensure_column driver ''tasks'') task_columns) (\<lambda>_.
    with_error SchemaIndex (exec_ddl session_index)))"

subsection \<open>Opening\<close>

definition open_dsn :: "string \<Rightarrow> string \<Rightarrow> string" where
  "open_dsn driver dsn =
    (if driver = ''sqlite'' then
       let sep = (if contains ''?'' dsn then ''&'' else ''?'');
           opened = dsn @ sep @ ''_pragma=busy_timeout(5000)''
       in if \<not> contains '':memory:'' dsn \<and> \<not> contains ''mode=memory'' dsn
          then opened @ ''&_pragma=journal_mode(WAL)'' else opened
     else dsn)"

datatype store_error =
    StoreOpen string string
  | StorePing string string
  | StoreSchema schema_error

text \<open>The driver opens a source name to a database with the answer of its ping; on SQLite at most four connections
  are used.\<close>

record connection =
  cn_catalog :: catalog
  cn_ping :: "string option"
  cn_max_open :: nat

definition new_store :: "(string \<Rightarrow> string \<Rightarrow> string + connection) \<Rightarrow> string \<Rightarrow> string \<Rightarrow> store_error + connection" where
  "new_store sql_open driver dsn =
    (case sql_open driver (open_dsn driver dsn) of
       Inl msg \<Rightarrow> Inl (StoreOpen driver msg)
     | Inr conn \<Rightarrow>
         (case cn_ping conn of
            Some msg \<Rightarrow> Inl (StorePing driver msg)
          | None \<Rightarrow>
              let conn1 = (if driver = ''sqlite'' then conn\<lparr>cn_max_open := 4\<rparr> else conn) in
              (case init_schema driver (cn_catalog conn1) of
                 (Inl e, _) \<Rightarrow> Inl (StoreSchema e)
               | (Inr _, c) \<Rightarrow> Inr (conn1\<lparr>cn_catalog := c\<rparr>))))"

section \<open>Lemmas\<close>

subsection \<open>Nothing is lost\<close>

text \<open>A table that keeps another: new columns come last, and every row keeps the values it had.\<close>

definition keeps_table :: "sql_table \<Rightarrow> sql_table \<Rightarrow> bool" where
  "keeps_table tb tb' \<longleftrightarrow> (\<exists>new. tb_columns tb' = tb_columns tb @ new) \<and>
    list_all2 (\<lambda>r r'. \<forall>n\<in>set (column_names tb). r' n = r n) (tb_rows tb) (tb_rows tb')"

definition grows :: "catalog \<Rightarrow> catalog \<Rightarrow> bool" where
  "grows c c' \<longleftrightarrow> (\<forall>t tb. cat_tables c t = Some tb \<longrightarrow> (\<exists>tb'. cat_tables c' t = Some tb' \<and> keeps_table tb tb')) \<and>
    (\<forall>i x. cat_indexes c i = Some x \<longrightarrow> cat_indexes c' i = Some x)"

lemma keeps_table_refl [simp]: "keeps_table tb tb"
  by (simp add: keeps_table_def list_all2_same)

lemma keeps_table_trans: "keeps_table a b \<Longrightarrow> keeps_table b c \<Longrightarrow> keeps_table a c"
proof -
  assume ab: "keeps_table a b" and bc: "keeps_table b c"
  from ab have sub: "set (column_names a) \<subseteq> set (column_names b)"
    by (auto simp: keeps_table_def column_names_def)
  have "list_all2 (\<lambda>r r'. \<forall>n\<in>set (column_names a). r' n = r n) (tb_rows a) (tb_rows c)"
  proof (rule list_all2_trans)
    show "list_all2 (\<lambda>r r'. \<forall>n\<in>set (column_names a). r' n = r n) (tb_rows a) (tb_rows b)"
      "list_all2 (\<lambda>r r'. \<forall>n\<in>set (column_names b). r' n = r n) (tb_rows b) (tb_rows c)"
      using ab bc by (simp_all add: keeps_table_def)
  qed (use sub in auto)
  with ab bc show ?thesis by (auto simp: keeps_table_def)
qed

lemma grows_refl [simp]: "grows c c"
  by (simp add: grows_def)

lemma grows_trans: "grows a b \<Longrightarrow> grows b c \<Longrightarrow> grows a c"
  unfolding grows_def by (meson keeps_table_trans)

lemma take_call_tables: "take_call c = (x, c1) \<Longrightarrow> cat_tables c1 = cat_tables c \<and> cat_indexes c1 = cat_indexes c"
  by (auto simp: take_call_def split: list.splits)

lemma grows_tables: "cat_tables c1 = cat_tables c \<Longrightarrow> cat_indexes c1 = cat_indexes c \<Longrightarrow> grows c c1"
  by (simp add: grows_def)

lemma added_column_keeps [intro!]:
  "cl_name (col :: column) \<notin> set (column_names tb) \<Longrightarrow> keeps_table tb \<lparr>tb_columns = tb_columns tb @ [col],
     tb_rows = map (set_column (cl_name col) v) (tb_rows tb)\<rparr>"
  by (auto simp: keeps_table_def set_column_def list_all2_map2 list_all2_same)

lemma apply_ddl_grows: "apply_ddl stmt c = Inr c' \<Longrightarrow> grows c c'"
  by (cases "(stmt, c)" rule: apply_ddl.cases)
    (auto simp: grows_def split: option.splits if_splits)

lemma exec_ddl_cases:
  assumes "exec_ddl stmt c = (r, c')"
  obtains (failed) msg where "r = Inl msg" "cat_tables c' = cat_tables c" "cat_indexes c' = cat_indexes c"
    | (applied) x c1 where "r = Inr ()" "take_call c = (x, c1)" "cat_tables c1 = cat_tables c"
      "cat_indexes c1 = cat_indexes c" "apply_ddl stmt c1 = Inr c'"
proof -
  obtain x c1 where x: "take_call c = (x, c1)" by (cases "take_call c")
  with assms take_call_tables [OF x] show ?thesis
    by (auto simp: exec_ddl_def split: call_outcome.splits sum.splits intro: failed applied)
qed

lemma exec_ddl_grows: "exec_ddl stmt c = (r, c') \<Longrightarrow> grows c c'"
  by (erule exec_ddl_cases) (auto intro: grows_tables dest: apply_ddl_grows intro: grows_trans)

lemma with_error_cases:
  assumes "with_error f m s = (r, s')"
  obtains r0 where "m s = (r0, s')" "r = (case r0 of Inl e \<Rightarrow> Inl (f e) | Inr x \<Rightarrow> Inr x)"
  using assms by (auto simp: with_error_def split: prod.splits sum.splits)

lemma column_exists_tables:
  assumes "column_exists driver t name c = (r, c')"
  shows "cat_tables c' = cat_tables c \<and> cat_indexes c' = cat_indexes c"
proof -
  obtain x c1 where x: "take_call c = (x, c1)" by (cases "take_call c")
  with assms have "c' = c1" by (auto simp: column_exists_def Let_def split: call_outcome.splits if_splits)
  then show ?thesis using take_call_tables [OF x] by simp
qed

subsection \<open>What every statement keeps\<close>

lemma each_in_turn_keeps:
  assumes "\<And>x c r c'. x \<in> set xs \<Longrightarrow> P c \<Longrightarrow> f x c = (r, c') \<Longrightarrow> P c'"
    and "P c" "each_in_turn f xs c = (r, c')"
  shows "P c'"
  using assms
proof (induction xs arbitrary: c)
  case (Cons x xs)
  have rest: "P c'" if "P c1" "each_in_turn f xs c1 = (r, c')" for c1
    by (rule Cons.IH [OF _ that]) (rule Cons.prems(1), simp_all)
  have first: "P c1" if "f x c = (r1, c1)" for r1 c1
    by (rule Cons.prems(1) [OF _ Cons.prems(2) that]) simp
  from Cons.prems(3) [unfolded each_in_turn.simps] show ?case
    by (cases rule: and_then_cases) (use first rest in blast)+
qed (simp add: ret_def)

text \<open>What holds of the tables and is kept by every statement of the schema is kept by its set-up.\<close>

lemma ensure_column_keeps:
  assumes "\<And>c r c'. P c \<Longrightarrow> exec_ddl (AddColumn t col) c = (r, c') \<Longrightarrow> P c'"
    and "\<And>c c'. P c \<Longrightarrow> cat_tables c' = cat_tables c \<Longrightarrow> cat_indexes c' = cat_indexes c \<Longrightarrow> P c'"
    and "P c" "ensure_column driver t col c = (r, c')"
  shows "P c'"
  using assms(4) unfolding ensure_column_def
proof (cases rule: and_then_cases)
  case (err e)
  with column_exists_tables [OF err(1)] assms(2,3) show ?thesis by blast
next
  case (val found c1)
  then have P1: "P c1" using column_exists_tables [OF val(1)] assms(2,3) by blast
  show ?thesis
  proof (cases found)
    case True
    with val(2) P1 show ?thesis by (simp add: ret_def)
  next
    case False
    with val(2) have "with_error (SchemaAdd t (cl_name col)) (exec_ddl (AddColumn t col)) c1 = (r, c')" by simp
    then show ?thesis by (rule with_error_cases) (rule assms(1) [OF P1])
  qed
qed

lemma init_schema_keeps:
  assumes "\<And>stmt c r c'. stmt \<in> set (schema_statements driver) \<union> AddColumn ''tasks'' ` set task_columns \<union> {session_index} \<Longrightarrow>
      P c \<Longrightarrow> exec_ddl stmt c = (r, c') \<Longrightarrow> P c'"
    and "\<And>c c'. P c \<Longrightarrow> cat_tables c' = cat_tables c \<Longrightarrow> cat_indexes c' = cat_indexes c \<Longrightarrow> P c'"
    and "P c" "init_schema driver c = (r, c')"
  shows "P c'"
proof -
  let ?exec = "\<lambda>stmt. with_error SchemaExec (exec_ddl stmt)"
  have first: "P c2" if "each_in_turn ?exec (schema_statements driver) c = (r1, c2)" for r1 c2
    by (rule each_in_turn_keeps [where P = P, OF _ assms(3) that]) (auto elim!: with_error_cases intro: assms(1))
  have second: "P c3" if "P c2" "each_in_turn (ensure_column driver ''tasks'') task_columns c2 = (r2, c3)" for c2 r2 c3
  proof (rule each_in_turn_keeps [where P = P, OF _ that])
    fix col c r c' assume col: "col \<in> set task_columns" and P: "P c"
      and run: "ensure_column driver ''tasks'' col c = (r, c')"
    show "P c'"
      by (rule ensure_column_keeps [where P = P, OF assms(1) assms(2) P run]) (use col in auto)
  qed
  have third: "P c4" if "P c3" "with_error SchemaIndex (exec_ddl session_index) c3 = (r3, c4)" for c3 r3 c4
    using that(2) by (rule with_error_cases) (rule assms(1) [OF _ that(1)], auto)
  from assms(4) show ?thesis
    unfolding init_schema_def using first second third
    by (elim and_then_cases) blast+
qed

lemma init_schema_grows: "init_schema driver c = (r, c') \<Longrightarrow> grows c c'"
  by (rule init_schema_keeps [where P = "grows c"])
    (auto dest: exec_ddl_grows grows_tables intro: grows_trans)

subsection \<open>The schema is complete afterwards\<close>

definition has_columns :: "string \<Rightarrow> string set \<Rightarrow> catalog \<Rightarrow> bool" where
  "has_columns t names c \<longleftrightarrow> (\<exists>tb. cat_tables c t = Some tb \<and> names \<subseteq> set (column_names tb))"

text \<open>What a statement is there for.\<close>

fun provided :: "catalog \<Rightarrow> ddl \<Rightarrow> bool" where
  "provided c (CreateTable t cols) = (cat_tables c t \<noteq> None)"
| "provided c (CreateIndex i t col) = (cat_indexes c i \<noteq> None)"
| "provided c (AddColumn t col) = has_columns t {cl_name col} c"

definition migrations :: "ddl list" where
  "migrations = map (AddColumn ''tasks'') task_columns"

definition complete_schema :: "string \<Rightarrow> catalog \<Rightarrow> bool" where
  "complete_schema driver c \<longleftrightarrow> list_all (provided c) (schema_statements driver @ migrations @ [session_index])"

text \<open>A database of an earlier version: a table that exists has the columns it was created with.\<close>

definition older_schema :: "string \<Rightarrow> catalog \<Rightarrow> bool" where
  "older_schema driver c \<longleftrightarrow> (\<forall>t cols. CreateTable t cols \<in> set (schema_statements driver) \<longrightarrow>
     cat_tables c t = None \<or> has_columns t (cl_name ` set cols) c)"

lemma completeD:
  assumes "complete_schema driver c"
  shows "stmt \<in> set (schema_statements driver) \<Longrightarrow> provided c stmt"
    and "col \<in> set task_columns \<Longrightarrow> has_columns ''tasks'' {cl_name col} c"
    and "provided c session_index"
  using assms
  by (simp_all add: complete_schema_def migrations_def list.pred_map comp_def) (simp_all add: list_all_iff)

lemma has_columns_all:
  assumes "names \<noteq> {}" "\<And>n. n \<in> names \<Longrightarrow> has_columns t {n} c"
  shows "has_columns t names c"
proof -
  obtain n where "n \<in> names" using assms(1) by blast
  then obtain tb where "cat_tables c t = Some tb" using assms(2) by (auto simp: has_columns_def)
  with assms(2) show ?thesis by (auto simp: has_columns_def)
qed

lemma has_columns_grows: "has_columns t names c \<Longrightarrow> grows c c' \<Longrightarrow> has_columns t names c'"
  by (fastforce simp: has_columns_def grows_def keeps_table_def column_names_def)

lemma provided_grows: "provided c stmt \<Longrightarrow> grows c c' \<Longrightarrow> provided c' stmt"
  by (cases stmt) (auto simp: has_columns_grows, (force simp: grows_def)+)

lemma apply_ddl_provided: "apply_ddl stmt c = Inr c' \<Longrightarrow> provided c' stmt"
  by (cases "(stmt, c)" rule: apply_ddl.cases)
    (auto simp: has_columns_def column_names_def split: option.splits if_splits)

lemma exec_ddl_provided: "exec_ddl stmt c = (Inr u, c') \<Longrightarrow> provided c' stmt"
  by (erule exec_ddl_cases) (auto dest: apply_ddl_provided)

lemma olderD:
  assumes "older_schema driver c" "CreateTable t cols \<in> set (schema_statements driver)" "cat_tables c t \<noteq> None"
  shows "has_columns t (cl_name ` set cols) c"
  using assms(1) [unfolded older_schema_def, rule_format, OF assms(2)] assms(3) by simp

lemma tables_once:
  "CreateTable t cols \<in> set (schema_statements driver) \<Longrightarrow> CreateTable t cols' \<in> set (schema_statements driver) \<Longrightarrow>
    cols = cols'"
  by (auto simp: schema_statements_def)

lemma older_step:
  assumes "stmt \<in> set (schema_statements driver) \<union> AddColumn ''tasks'' ` set task_columns \<union> {session_index}"
    and "older_schema driver c" "exec_ddl stmt c = (r, c')"
  shows "older_schema driver c'"
  unfolding older_schema_def
proof (intro allI impI)
  fix t cols assume t: "CreateTable t cols \<in> set (schema_statements driver)"
  note grow = exec_ddl_grows [OF assms(3)]
  show "cat_tables c' t = None \<or> has_columns t (cl_name ` set cols) c'"
  proof (cases "cat_tables c t")
    case (Some tb)
    then have "has_columns t (cl_name ` set cols) c"
      using olderD [OF assms(2) t] by simp
    with grow show ?thesis using has_columns_grows by blast
  next
    case None
    from assms(3) show ?thesis
    proof (cases rule: exec_ddl_cases)
      case (failed msg)
      with None show ?thesis by simp
    next
      case (applied x c1)
      show ?thesis
      proof (cases stmt)
        case (CreateTable t' cols')
        then have "t' = t \<Longrightarrow> cols' = cols" using assms(1) t tables_once by (auto simp: session_index_def)
        with CreateTable applied None show ?thesis
          by (auto simp: has_columns_def column_names_def split: option.splits)
      qed (use applied None in \<open>auto split: option.splits if_splits\<close>)
    qed
  qed
qed

lemma older_same_tables: "older_schema driver c \<Longrightarrow> cat_tables c' = cat_tables c \<Longrightarrow> older_schema driver c'"
  by (simp add: older_schema_def has_columns_def)

lemma init_schema_older: "older_schema driver c \<Longrightarrow> init_schema driver c = (r, c') \<Longrightarrow> older_schema driver c'"
  by (rule init_schema_keeps [where P = "older_schema driver"]) (auto intro: older_step older_same_tables)

text \<open>A set-up that succeeds has done everything.\<close>

lemma each_in_turn_provides:
  assumes "\<And>x c c'. x \<in> set xs \<Longrightarrow> f x c = (Inr (), c') \<Longrightarrow> Q x c'"
    and "\<And>x c r c'. f x c = (r, c') \<Longrightarrow> grows c c'"
    and "\<And>x c c'. Q x c \<Longrightarrow> grows c c' \<Longrightarrow> Q x c'"
  shows "each_in_turn f xs c = (Inr (), c') \<Longrightarrow> list_all (\<lambda>x. Q x c') xs"
  using assms(1)
proof (induction xs arbitrary: c)
  case (Cons x xs)
  from Cons.prems(1) obtain c1 where run: "f x c = (Inr (), c1)" "each_in_turn f xs c1 = (Inr (), c')"
    by (auto elim: and_then_cases)
  have "grows c1 c'"
    by (rule each_in_turn_keeps [where P = "grows c1", OF _ grows_refl run(2)]) (use assms(2) grows_trans in blast)
  have "Q x c1" by (rule Cons.prems(2) [OF _ run(1)]) simp
  then have "Q x c'" using \<open>grows c1 c'\<close> by (rule assms(3))
  moreover have "list_all (\<lambda>x. Q x c') xs"
    by (rule Cons.IH [OF run(2)]) (rule Cons.prems(2), simp_all)
  ultimately show ?case by simp
qed simp

lemma column_exists_found:
  assumes "column_exists driver t name c = (Inr True, c')"
  shows "has_columns t {name} c"
proof -
  let ?names = "case cat_tables c t of None \<Rightarrow> [] | Some tb \<Rightarrow> column_names tb"
  obtain x c1 where x: "take_call c = (x, c1)" by (cases "take_call c")
  have "name \<in> set ?names"
  proof (cases "driver = ''mysql''")
    case True
    with assms x show ?thesis
      by (cases x) (simp_all add: column_exists_def Let_def filter_empty_conv)
  next
    case False
    with assms x show ?thesis
      by (cases x) (auto simp: column_exists_def Let_def list_ex_iff dest: in_set_takeD split: if_splits)
  qed
  then show ?thesis by (cases "cat_tables c t") (simp_all add: has_columns_def)
qed

lemma ensure_column_provides:
  "ensure_column driver t col c = (Inr (), c') \<Longrightarrow> has_columns t {cl_name col} c'"
  unfolding ensure_column_def
proof (erule and_then_cases)
  fix found c1
  assume ex: "column_exists driver t (cl_name col) c = (Inr found, c1)"
    and rest: "(if found then ret () else with_error (SchemaAdd t (cl_name col)) (exec_ddl (AddColumn t col))) c1 = (Inr (), c')"
  show ?thesis
  proof (cases found)
    case True
    then have "c' = c1" using rest by (simp add: ret_def)
    from ex True have "has_columns t {cl_name col} c" using column_exists_found by simp
    with column_exists_tables [OF ex] \<open>c' = c1\<close> show ?thesis by (simp add: has_columns_def)
  next
    case False
    with rest have "with_error (SchemaAdd t (cl_name col)) (exec_ddl (AddColumn t col)) c1 = (Inr (), c')" by simp
    then show ?thesis
      by (rule with_error_cases) (auto split: sum.splits dest: exec_ddl_provided)
  qed
qed simp

lemma init_schema_complete:
  assumes "init_schema driver c = (Inr (), c')"
  shows "complete_schema driver c'"
proof -
  let ?exec = "\<lambda>stmt. with_error SchemaExec (exec_ddl stmt)"
  from assms obtain c1 c2 where run: "each_in_turn ?exec (schema_statements driver) c = (Inr (), c1)"
      "each_in_turn (ensure_column driver ''tasks'') task_columns c1 = (Inr (), c2)"
      "with_error SchemaIndex (exec_ddl session_index) c2 = (Inr (), c')"
    unfolding init_schema_def by (auto elim!: and_then_cases)
  have ensure: "grows c c'" if "ensure_column driver t col c = (r, c')" for t col c r c'
    by (rule ensure_column_keeps [where P = "grows c", OF _ _ grows_refl that])
      (auto dest: exec_ddl_grows grows_tables intro: grows_trans)
  have "list_all (provided c1) (schema_statements driver)"
    by (rule each_in_turn_provides [where Q = "\<lambda>stmt c. provided c stmt", OF _ _ _ run(1)])
      (auto elim!: with_error_cases split: sum.splits dest: exec_ddl_provided exec_ddl_grows provided_grows)
  moreover have "list_all (\<lambda>col. has_columns ''tasks'' {cl_name col} c2) task_columns"
    by (rule each_in_turn_provides [where Q = "\<lambda>col. has_columns ''tasks'' {cl_name col}", OF _ _ _ run(2)])
      (auto dest: ensure_column_provides ensure has_columns_grows)
  moreover have "provided c' session_index" "grows c2 c'"
    using run(3) by (auto elim!: with_error_cases split: sum.splits dest: exec_ddl_provided exec_ddl_grows)
  moreover have "grows c1 c2"
    by (rule each_in_turn_keeps [where P = "grows c1", OF _ grows_refl run(2)]) (blast intro: grows_trans ensure)
  moreover have "grows c1 c'" using calculation(4,5) grows_trans by blast
  ultimately have "list_all (provided c') (schema_statements driver)" "provided c' session_index"
    "list_all (\<lambda>col. has_columns ''tasks'' {cl_name col} c') task_columns"
    using provided_grows has_columns_grows by (blast intro: list.pred_mono_strong)+
  then show ?thesis
    by (simp add: complete_schema_def migrations_def list.pred_map comp_def)
qed

subsection \<open>A healthy database\<close>

lemma healthy_exec: "cat_outcomes c = [] \<Longrightarrow>
    exec_ddl stmt c = (case apply_ddl stmt c of Inl msg \<Rightarrow> (Inl msg, c) | Inr c' \<Rightarrow> (Inr (), c'))"
  by (simp add: exec_ddl_def take_call_def)

lemma apply_ddl_outcomes: "apply_ddl stmt c = Inr c' \<Longrightarrow> cat_outcomes c' = cat_outcomes c"
  by (cases "(stmt, c)" rule: apply_ddl.cases) (auto split: option.splits if_splits)

lemma healthy_exists: "cat_outcomes c = [] \<Longrightarrow>
    column_exists driver t name c = (Inr (has_columns t {name} c), c)"
  by (auto simp: column_exists_def take_call_def has_columns_def list_ex_iff filter_empty_conv split: option.splits)

text \<open>What a statement needs.\<close>

fun ready :: "catalog \<Rightarrow> ddl \<Rightarrow> bool" where
  "ready c (CreateTable t cols) = True"
| "ready c (CreateIndex i t col) = has_columns t {col} c"
| "ready c (AddColumn t col) = (cat_tables c t \<noteq> None \<and> cl_default col \<noteq> None)"

lemma ready_exec:
  assumes "cat_outcomes c = []" "ready c stmt" "\<And>t col. stmt \<noteq> AddColumn t col"
  shows "\<exists>c'. with_error f (exec_ddl stmt) c = (Inr (), c') \<and> cat_outcomes c' = []"
proof -
  have "\<exists>c'. apply_ddl stmt c = Inr c'"
    using assms(2,3) by (cases stmt) (auto simp: has_columns_def split: option.splits)
  then obtain c' where "apply_ddl stmt c = Inr c'" by blast
  with apply_ddl_outcomes [OF this] assms(1) show ?thesis
    by (simp add: with_error_def healthy_exec)
qed

lemma ready_ensure:
  assumes "cat_outcomes c = []" "ready c (AddColumn t col)"
  shows "\<exists>c'. ensure_column driver t col c = (Inr (), c') \<and> cat_outcomes c' = []"
proof (cases "has_columns t {cl_name col} c")
  case True
  with assms(1) show ?thesis by (simp add: ensure_column_def healthy_exists ret_def)
next
  case False
  with assms(2) have "\<exists>c'. apply_ddl (AddColumn t col) c = Inr c'"
    by (auto simp: has_columns_def)
  then obtain c' where "apply_ddl (AddColumn t col) c = Inr c'" by blast
  with apply_ddl_outcomes [OF this] assms(1) False show ?thesis
    by (simp add: ensure_column_def healthy_exists with_error_def healthy_exec)
qed

text \<open>Columns that the tables created so far are known to have.\<close>

fun supported :: "(string \<times> string) set \<Rightarrow> ddl list \<Rightarrow> bool" where
  "supported avail [] = True"
| "supported avail (CreateTable t cols # ss) = supported (avail \<union> {t} \<times> cl_name ` set cols) ss"
| "supported avail (CreateIndex i t col # ss) = ((t, col) \<in> avail \<and> supported avail ss)"
| "supported avail (AddColumn t col # ss) = False"

lemma schema_supported: "supported {} (schema_statements driver)"
  by (simp add: schema_statements_def text_column_def)

lemma healthy_statements:
  assumes "set ss \<subseteq> set (schema_statements driver)" "supported avail ss"
    and "\<And>t col. (t, col) \<in> avail \<Longrightarrow> has_columns t {col} c" "older_schema driver c" "cat_outcomes c = []"
  shows "\<exists>c'. each_in_turn (\<lambda>stmt. with_error SchemaExec (exec_ddl stmt)) ss c = (Inr (), c') \<and> cat_outcomes c' = []"
  using assms
proof (induction avail ss arbitrary: c rule: supported.induct)
  case (1 avail)
  then show ?case by (simp add: ret_def)
next
  case (2 avail t cols ss)
  obtain c1 where c1: "with_error SchemaExec (exec_ddl (CreateTable t cols)) c = (Inr (), c1)" "cat_outcomes c1 = []"
    using ready_exec [OF "2.prems"(5), of "CreateTable t cols" SchemaExec] by auto
  then have ex: "exec_ddl (CreateTable t cols) c = (Inr (), c1)"
    by (auto elim!: with_error_cases split: sum.splits)
  have old: "older_schema driver c1" using older_step [OF _ "2.prems"(4) ex] "2.prems"(1) by simp
  then have "has_columns t (cl_name ` set cols) c1"
    using olderD [of driver c1 t cols] "2.prems"(1) exec_ddl_provided [OF ex] by simp
  then have "has_columns t' {col} c1" if "(t', col) \<in> avail \<union> {t} \<times> cl_name ` set cols" for t' col
  proof (cases "(t', col) \<in> avail")
    case True
    then show ?thesis using "2.prems"(3) has_columns_grows [OF _ exec_ddl_grows [OF ex]] by blast
  next
    case False
    with that \<open>has_columns t (cl_name ` set cols) c1\<close> show ?thesis by (auto simp: has_columns_def)
  qed
  with "2.IH" [of c1] "2.prems"(1,2) old c1 show ?case by simp
next
  case (3 avail i t col ss)
  then have "ready c (CreateIndex i t col)" by simp
  then obtain c1 where c1: "with_error SchemaExec (exec_ddl (CreateIndex i t col)) c = (Inr (), c1)" "cat_outcomes c1 = []"
    using ready_exec [OF "3.prems"(5), of "CreateIndex i t col" SchemaExec] by auto
  then have ex: "exec_ddl (CreateIndex i t col) c = (Inr (), c1)"
    by (auto elim!: with_error_cases split: sum.splits)
  have "older_schema driver c1" using older_step [OF _ "3.prems"(4) ex] "3.prems"(1) by simp
  moreover have "has_columns t' {col'} c1" if "(t', col') \<in> avail" for t' col'
    using that "3.prems"(3) has_columns_grows [OF _ exec_ddl_grows [OF ex]] by blast
  ultimately show ?case using "3.IH" [of c1] "3.prems"(1,2) c1 by simp
qed simp

lemma healthy_migrations:
  assumes "cat_outcomes c = []" "cat_tables c t \<noteq> None" "list_all (\<lambda>col. cl_default col \<noteq> None) cols"
  shows "\<exists>c'. each_in_turn (ensure_column driver t) cols c = (Inr (), c') \<and> cat_outcomes c' = []"
  using assms
proof (induction cols arbitrary: c)
  case (Cons col cols)
  then obtain c1 where c1: "ensure_column driver t col c = (Inr (), c1)" "cat_outcomes c1 = []"
    using ready_ensure [of c t col driver] by auto
  then have "cat_tables c1 t \<noteq> None"
    using ensure_column_provides [OF c1(1)] by (auto simp: has_columns_def)
  with Cons c1 show ?case by simp
qed (simp add: ret_def)

lemma healthy_init:
  assumes "older_schema ''sqlite'' c" "cat_outcomes c = []"
  shows "\<exists>c'. init_schema ''sqlite'' c = (Inr (), c') \<and> cat_outcomes c' = []"
proof -
  let ?exec = "\<lambda>stmt. with_error SchemaExec (exec_ddl stmt)"
  obtain c1 where one: "each_in_turn ?exec (schema_statements ''sqlite'') c = (Inr (), c1)" "cat_outcomes c1 = []"
    using healthy_statements [OF subset_refl schema_supported _ assms] by blast
  have "list_all (provided c1) (schema_statements ''sqlite'')"
    by (rule each_in_turn_provides [where Q = "\<lambda>stmt c. provided c stmt", OF _ _ _ one(1)])
      (auto elim!: with_error_cases split: sum.splits dest: exec_ddl_provided exec_ddl_grows provided_grows)
  then have "cat_tables c1 ''tasks'' \<noteq> None" by (simp add: schema_statements_def)
  moreover have "list_all (\<lambda>col. cl_default col \<noteq> None) task_columns"
    by (simp add: task_columns_def text_default_def int_default_def)
  ultimately obtain c2 where two: "each_in_turn (ensure_column ''sqlite'' ''tasks'') task_columns c1 = (Inr (), c2)"
      "cat_outcomes c2 = []"
    using healthy_migrations [OF one(2)] by blast
  have "list_all (\<lambda>col. has_columns ''tasks'' {cl_name col} c2) task_columns"
  proof (rule each_in_turn_provides [where Q = "\<lambda>col. has_columns ''tasks'' {cl_name col}", OF _ _ _ two(1)])
    fix col c r c' assume run: "ensure_column ''sqlite'' ''tasks'' col c = (r, c')"
    show "grows c c'"
      by (rule ensure_column_keeps [where P = "grows c", OF _ _ grows_refl run])
        (auto dest: exec_ddl_grows grows_tables intro: grows_trans)
  qed (auto dest: ensure_column_provides has_columns_grows)
  then have "has_columns ''tasks'' {''session_id''} c2" by (simp add: task_columns_def text_default_def)
  then obtain c3 where "with_error SchemaIndex (exec_ddl session_index) c2 = (Inr (), c3)" "cat_outcomes c3 = []"
    using ready_exec [OF two(2), of session_index SchemaIndex] by (auto simp: session_index_def)
  with one two show ?thesis by (simp add: init_schema_def)
qed

text \<open>Nothing is left to do on a complete schema.\<close>

lemma provided_exec:
  "provided c stmt \<Longrightarrow> cat_outcomes c = [] \<Longrightarrow> stmt \<notin> range (case_prod AddColumn) \<Longrightarrow> exec_ddl stmt c = (Inr (), c)"
  by (cases stmt) (auto simp: healthy_exec)

lemma each_in_turn_idle: "(\<And>x. x \<in> set xs \<Longrightarrow> f x c = (Inr (), c)) \<Longrightarrow> each_in_turn f xs c = (Inr (), c)"
  by (induction xs) (simp_all add: ret_def)

lemma complete_idle:
  assumes "complete_schema driver c" "cat_outcomes c = []"
  shows "init_schema driver c = (Inr (), c)"
proof -
  have "stmt \<notin> range (case_prod AddColumn)" if "stmt \<in> set (schema_statements driver) \<or> stmt = session_index" for stmt
    using that by (auto simp: schema_statements_def session_index_def)
  then have "with_error f (exec_ddl stmt) c = (Inr (), c)"
    if "stmt \<in> set (schema_statements driver) \<or> stmt = session_index" for stmt and f :: "string \<Rightarrow> schema_error"
    using that completeD(1,3) [OF assms(1)] assms(2) provided_exec [of c stmt] by (auto simp: with_error_def)
  moreover have "ensure_column driver ''tasks'' col c = (Inr (), c)" if "col \<in> set task_columns" for col
    using that completeD(2) [OF assms(1)] assms(2) by (simp add: ensure_column_def healthy_exists ret_def)
  ultimately show ?thesis
    by (simp add: init_schema_def each_in_turn_idle)
qed

section \<open>Properties\<close>

text \<open>C18: Opening a SQLite database of an earlier version of the program, whatever calls fail: no table, column or value is
  lost and the schema stays one that can be brought up to date.  If the set-up succeeds, every table has its
  columns and the tasks have those of all later versions.  Without failures it succeeds, and opening the
  database again changes nothing.\<close>

theorem schema_upgraded:
  assumes "older_schema ''sqlite'' c" "init_schema ''sqlite'' c = (r, c')"
  shows "older_schema ''sqlite'' c' \<and>
    (\<forall>t tb. cat_tables c t = Some tb \<longrightarrow> (\<exists>tb'. cat_tables c' t = Some tb' \<and> keeps_table tb tb')) \<and>
    (r = Inr () \<longrightarrow> complete_schema ''sqlite'' c' \<and>
      (\<forall>t cols. CreateTable t cols \<in> set (schema_statements ''sqlite'') \<longrightarrow> has_columns t (cl_name ` set cols) c') \<and>
      has_columns ''tasks'' (cl_name ` set task_columns) c') \<and>
    (cat_outcomes c = [] \<longrightarrow> r = Inr () \<and> init_schema ''sqlite'' c' = (Inr (), c'))"
proof -
  note older = init_schema_older [OF assms]
  have finished: "complete_schema ''sqlite'' c' \<and>
      (\<forall>t cols. CreateTable t cols \<in> set (schema_statements ''sqlite'') \<longrightarrow> has_columns t (cl_name ` set cols) c') \<and>
      has_columns ''tasks'' (cl_name ` set task_columns) c'" if "r = Inr ()"
  proof -
    have complete: "complete_schema ''sqlite'' c'" using init_schema_complete assms(2) that by blast
    have "cat_tables c' t \<noteq> None" if "CreateTable t cols \<in> set (schema_statements ''sqlite'')" for t cols
      using completeD(1) [OF complete that] by simp
    then have "\<forall>t cols. CreateTable t cols \<in> set (schema_statements ''sqlite'') \<longrightarrow> has_columns t (cl_name ` set cols) c'"
      using olderD [OF older] by blast
    moreover have "has_columns ''tasks'' (cl_name ` set task_columns) c'"
      by (rule has_columns_all) (use completeD(2) [OF complete] in \<open>auto simp: task_columns_def\<close>)
    ultimately show ?thesis using complete by blast
  qed
  moreover have "r = Inr () \<and> init_schema ''sqlite'' c' = (Inr (), c')" if healthy: "cat_outcomes c = []"
  proof -
    from healthy_init [OF assms(1) healthy] assms(2) have "r = Inr ()" "cat_outcomes c' = []" by auto
    with finished complete_idle show ?thesis by blast
  qed
  ultimately show ?thesis
    using older init_schema_grows [OF assms(2)] by (auto simp: grows_def)
qed

text \<open>A database of the first version, with one group.\<close>

definition empty_catalog :: catalog where
  "empty_catalog = \<lparr>cat_tables = Map.empty, cat_indexes = Map.empty, cat_outcomes = []\<rparr>"

definition old_catalog :: catalog where
  "old_catalog = empty_catalog\<lparr>cat_tables := [''collector_groups'' \<mapsto>
    \<lparr>tb_columns = [key_column ''id'', text_column ''name'', text_default ''selector'' ''''],
     tb_rows = [[''id'' \<mapsto> SqlText ''g'', ''name'' \<mapsto> SqlText ''gateways'']]\<rparr>]\<rparr>"

lemma empty_older: "older_schema driver empty_catalog" "cat_outcomes empty_catalog = []"
  by (simp_all add: older_schema_def empty_catalog_def)

lemma old_older: "older_schema ''sqlite'' old_catalog" "cat_outcomes old_catalog = []"
  by (auto simp: older_schema_def old_catalog_def empty_catalog_def has_columns_def column_names_def schema_statements_def
      key_column_def text_column_def text_default_def)

theorem schema_upgraded_witness:
  "\<exists>c'. init_schema ''sqlite'' old_catalog = (Inr (), c') \<and> has_columns ''tasks'' (cl_name ` set task_columns) c' \<and>
    map (\<lambda>r. r ''name'') (tb_rows (the (cat_tables c' ''collector_groups''))) = [Some (SqlText ''gateways'')] \<and>
    init_schema ''sqlite'' c' = (Inr (), c')"
proof -
  obtain r c' where run: "init_schema ''sqlite'' old_catalog = (r, c')" by (cases "init_schema ''sqlite'' old_catalog")
  let ?tb = "the (cat_tables old_catalog ''collector_groups'')"
  have tb: "cat_tables old_catalog ''collector_groups'' = Some ?tb" by (simp add: old_catalog_def)
  note up = schema_upgraded [OF old_older(1) run]
  then obtain tb' where tb': "cat_tables c' ''collector_groups'' = Some tb'" "keeps_table ?tb tb'"
    using tb by blast
  have "map (\<lambda>r. r ''name'') (tb_rows tb') = [Some (SqlText ''gateways'')]"
    using tb'(2) by (auto simp: keeps_table_def old_catalog_def column_names_def key_column_def text_column_def
        text_default_def list_all2_Cons1)
  with up tb'(1) run old_older(2) show ?thesis by auto
qed

text \<open>The source name of a SQLite file asks every connection to wait for a lock and to log writes ahead.\<close>

lemma open_dsn_sqlite:
  assumes "\<not> contains '':memory:'' dsn" "\<not> contains ''mode=memory'' dsn"
  shows "\<exists>sep\<in>{''?'', ''&''}. open_dsn ''sqlite'' dsn =
    dsn @ sep @ ''_pragma=busy_timeout(5000)&_pragma=journal_mode(WAL)''"
  using assms by (simp add: open_dsn_def Let_def)

lemma new_store_ok:
  assumes "sql_open ''sqlite'' (open_dsn ''sqlite'' dsn) = Inr conn" "cn_ping conn = None"
    and "older_schema ''sqlite'' (cn_catalog conn)" "cat_outcomes (cn_catalog conn) = []"
  shows "\<exists>conn'. new_store sql_open ''sqlite'' dsn = Inr conn'"
  using healthy_init [OF assms(3,4)] assms(1,2) by (auto simp: new_store_def Let_def)

end
