(* ===== verification/Row_Codec.thy ===== *)
theory Row_Codec
  imports Time_Text Schema
begin

section \<open>Rows and records (internal/store/sqlstore.go)\<close>

text \<open>
  \<open>Sql_Store\<close> keeps the tables as records, \<open>Schema\<close> the database as rows of columns.  Here are the
  translations between the two, the arguments of the inserts and the scans of the queries, for
  Collectors, groups, versions, tasks, events, conversations and the audit log.  The JSON codec of the
  approvers is a parameter.  The lemmas show that what is written is read back, and that the rows of an
  older database read after the upgrade of the schema as the tasks they were.
\<close>

subsection \<open>Scanning columns\<close>

type_synonym row = "string \<rightharpoonup> sql_value"

datatype scan_error =
    ScanNoRow
  | ScanColumn string
  | ScanTime string
  | ScanApprovers string

definition on_ok :: "'e + 'a \<Rightarrow> ('a \<Rightarrow> 'e + 'b) \<Rightarrow> 'e + 'b" where
  "on_ok r f = (case r of Inl e \<Rightarrow> Inl e | Inr x \<Rightarrow> f x)"

lemma on_ok_simps [simp]: "on_ok (Inl e) f = Inl e" "on_ok (Inr x) f = f x"
  by (simp_all add: on_ok_def)

lemma on_ok_Inr_iff: "on_ok r f = Inr y \<longleftrightarrow> (\<exists>x. r = Inr x \<and> f x = Inr y)"
  by (cases r) auto

text \<open>A column into a string or an integer; a missing value fits neither.\<close>

definition scan_text :: "string \<Rightarrow> row \<Rightarrow> scan_error + string" where
  "scan_text name r =
    (case r name of
       None \<Rightarrow> Inl (ScanColumn name)
     | Some (SqlText s) \<Rightarrow> Inr s
     | Some (SqlInt i) \<Rightarrow> Inr (itoa i))"

definition scan_int :: "string \<Rightarrow> row \<Rightarrow> scan_error + int" where
  "scan_int name r =
    (case r name of
       None \<Rightarrow> Inl (ScanColumn name)
     | Some (SqlInt i) \<Rightarrow> Inr i
     | Some (SqlText s) \<Rightarrow> (case parse_int s of None \<Rightarrow> Inl (ScanColumn name) | Some i \<Rightarrow> Inr i))"

definition scan_time :: "string \<Rightarrow> string \<Rightarrow> scan_error + time" where
  "scan_time name s = (case parse_time s of Inl _ \<Rightarrow> Inl (ScanTime name) | Inr t \<Rightarrow> Inr t)"

definition map_no_row :: "row option \<Rightarrow> scan_error + row" where
  "map_no_row r = (case r of None \<Rightarrow> Inl ScanNoRow | Some x \<Rightarrow> Inr x)"

definition bool_int :: "bool \<Rightarrow> int" where
  "bool_int b = (if b then 1 else 0)"

text \<open>The loop over the rows of a result: the first row that cannot be read ends it.\<close>

fun scan_all :: "(row \<Rightarrow> scan_error + 'a) \<Rightarrow> row list \<Rightarrow> scan_error + 'a list" where
  "scan_all scan [] = Inr []"
| "scan_all scan (r # rs) = on_ok (scan r) (\<lambda>x. on_ok (scan_all scan rs) (\<lambda>xs. Inr (x # xs)))"

subsection \<open>Collectors\<close>

definition collector_row :: "collector \<Rightarrow> row" where
  "collector_row c =
    [''instance_uid'' \<mapsto> SqlText (col_instance_uid c), ''hostname'' \<mapsto> SqlText (col_hostname c),
     ''version'' \<mapsto> SqlText (col_version c), ''last_seen_at'' \<mapsto> SqlText (fmt_time (col_last_seen_at c)),
     ''status'' \<mapsto> SqlText (collector_status_text (col_status c)),
     ''effective_config'' \<mapsto> SqlText (col_effective_config c), ''group_id'' \<mapsto> SqlText (col_group_id c)]"

text \<open>A status the program does not know reads as the unset one.\<close>

definition collector_status_of :: "string \<Rightarrow> collector_status" where
  "collector_status_of v =
    (case List.find (\<lambda>s. collector_status_text s = v)
       [CollectorStatusHealthy, CollectorStatusUnhealthy, CollectorStatusOffline, CollectorStatusUnknown] of
       None \<Rightarrow> CollectorStatusNone | Some s \<Rightarrow> s)"

definition scan_collector :: "row option \<Rightarrow> scan_error + collector" where
  "scan_collector sc =
    on_ok (map_no_row sc) (\<lambda>r.
    on_ok (scan_text ''instance_uid'' r) (\<lambda>uid. on_ok (scan_text ''hostname'' r) (\<lambda>hostname.
    on_ok (scan_text ''version'' r) (\<lambda>version. on_ok (scan_text ''last_seen_at'' r) (\<lambda>last_seen.
    on_ok (scan_text ''status'' r) (\<lambda>status. on_ok (scan_text ''effective_config'' r) (\<lambda>eff.
    on_ok (scan_text ''group_id'' r) (\<lambda>grp.
    on_ok (scan_time ''last_seen_at'' last_seen) (\<lambda>ts.
      Inr \<lparr>col_instance_uid = uid, col_hostname = hostname, col_version = version, col_last_seen_at = ts,
           col_status = collector_status_of status, col_effective_config = eff, col_group_id = grp\<rparr>)))))))))"

subsection \<open>Tasks\<close>

record approvers_codec =
  ac_encode :: "string list \<Rightarrow> string"
  ac_decode :: "string \<Rightarrow> string + string list"

definition task_row :: "approvers_codec \<Rightarrow> task \<Rightarrow> row" where
  "task_row ac t =
    [''id'' \<mapsto> SqlText (t_id t), ''type'' \<mapsto> SqlText (task_type_text (t_type t)),
     ''status'' \<mapsto> SqlText (task_status_text (t_status t)),
     ''require_approval'' \<mapsto> SqlInt (bool_int (t_require_approval t)), ''input'' \<mapsto> SqlText (t_input t),
     ''generated_yaml'' \<mapsto> SqlText (t_generated_yaml t), ''base_yaml'' \<mapsto> SqlText (t_base_yaml t),
     ''base_source'' \<mapsto> SqlText (t_base_source t), ''git_commit'' \<mapsto> SqlText (t_git_commit t),
     ''git_path'' \<mapsto> SqlText (t_git_path t), ''git_ref'' \<mapsto> SqlText (t_git_ref t),
     ''session_id'' \<mapsto> SqlText (t_session_id t), ''target_group_id'' \<mapsto> SqlText (t_target_group_id t),
     ''target_instance_uid'' \<mapsto> SqlText (t_target_instance_uid t),
     ''rollback_version_id'' \<mapsto> SqlInt (t_rollback_version_id t),
     ''approvers'' \<mapsto> SqlText (ac_encode ac (t_approvers t)), ''approver'' \<mapsto> SqlText (t_approver t),
     ''reject_reason'' \<mapsto> SqlText (t_reject_reason t), ''model_used'' \<mapsto> SqlText (t_model_used t),
     ''error'' \<mapsto> SqlText (t_error t), ''created_at'' \<mapsto> SqlText (fmt_time (t_created_at t)),
     ''updated_at'' \<mapsto> SqlText (fmt_time (t_updated_at t))]"

definition scan_task :: "approvers_codec \<Rightarrow> row option \<Rightarrow> scan_error + task" where
  "scan_task ac sc =
    on_ok (map_no_row sc) (\<lambda>r.
    on_ok (scan_text ''id'' r) (\<lambda>id. on_ok (scan_text ''type'' r) (\<lambda>ty.
    on_ok (scan_text ''status'' r) (\<lambda>status. on_ok (scan_int ''require_approval'' r) (\<lambda>req_approval.
    on_ok (scan_text ''input'' r) (\<lambda>inp. on_ok (scan_text ''generated_yaml'' r) (\<lambda>generated.
    on_ok (scan_text ''base_yaml'' r) (\<lambda>base. on_ok (scan_text ''base_source'' r) (\<lambda>source.
    on_ok (scan_text ''git_commit'' r) (\<lambda>commit. on_ok (scan_text ''git_path'' r) (\<lambda>path.
    on_ok (scan_text ''git_ref'' r) (\<lambda>ref. on_ok (scan_text ''session_id'' r) (\<lambda>session.
    on_ok (scan_text ''target_group_id'' r) (\<lambda>target_group. on_ok (scan_text ''target_instance_uid'' r) (\<lambda>target.
    on_ok (scan_int ''rollback_version_id'' r) (\<lambda>rollback. on_ok (scan_text ''approvers'' r) (\<lambda>approvers.
    on_ok (scan_text ''approver'' r) (\<lambda>approver. on_ok (scan_text ''reject_reason'' r) (\<lambda>reason.
    on_ok (scan_text ''model_used'' r) (\<lambda>model. on_ok (scan_text ''error'' r) (\<lambda>err.
    on_ok (scan_text ''created_at'' r) (\<lambda>created. on_ok (scan_text ''updated_at'' r) (\<lambda>upd.
    (case ac_decode ac approvers of
       Inl msg \<Rightarrow> Inl (ScanApprovers msg)
     | Inr names \<Rightarrow>
         on_ok (scan_time ''created_at'' created) (\<lambda>ct. on_ok (scan_time ''updated_at'' upd) (\<lambda>ut.
           Inr \<lparr>t_id = id, t_type = task_type_of ty, t_status = task_status_of status,
                t_require_approval = (req_approval \<noteq> 0), t_input = inp, t_generated_yaml = generated,
                t_base_yaml = base, t_git_commit = commit, t_git_path = path, t_git_ref = ref,
                t_base_source = source, t_session_id = session, t_target_group_id = target_group,
                t_target_instance_uid = target, t_rollback_version_id = rollback, t_approvers = names,
                t_approver = approver, t_reject_reason = reason, t_model_used = model, t_error = err,
                t_created_at = ct, t_updated_at = ut\<rparr>))))))))))))))))))))))))))"

subsection \<open>Versions and events\<close>

definition version_row :: "config_version \<Rightarrow> row" where
  "version_row v =
    [''id'' \<mapsto> SqlInt (cv_id v), ''collector_instance_uid'' \<mapsto> SqlText (cv_collector_instance_uid v),
     ''yaml'' \<mapsto> SqlText (cv_yaml v), ''hash'' \<mapsto> SqlText (cv_hash v),
     ''validated'' \<mapsto> SqlInt (bool_int (cv_validated v)), ''created_at'' \<mapsto> SqlText (fmt_time (cv_created_at v))]"

definition scan_version :: "row \<Rightarrow> scan_error + config_version" where
  "scan_version r =
    on_ok (scan_int ''id'' r) (\<lambda>id. on_ok (scan_text ''collector_instance_uid'' r) (\<lambda>uid.
    on_ok (scan_text ''yaml'' r) (\<lambda>yaml. on_ok (scan_text ''hash'' r) (\<lambda>hash.
    on_ok (scan_int ''validated'' r) (\<lambda>valid. on_ok (scan_text ''created_at'' r) (\<lambda>created.
    on_ok (scan_time ''created_at'' created) (\<lambda>ts.
      Inr \<lparr>cv_id = id, cv_collector_instance_uid = uid, cv_yaml = yaml, cv_hash = hash,
           cv_validated = (valid \<noteq> 0), cv_created_at = ts\<rparr>)))))))"

definition event_row :: "task_event \<Rightarrow> row" where
  "event_row e =
    [''id'' \<mapsto> SqlInt (ev_id e), ''task_id'' \<mapsto> SqlText (ev_task_id e),
     ''from_status'' \<mapsto> SqlText (ev_from_status e), ''to_status'' \<mapsto> SqlText (ev_to_status e),
     ''created_at'' \<mapsto> SqlText (fmt_time (ev_created_at e))]"

definition scan_event :: "row \<Rightarrow> scan_error + task_event" where
  "scan_event r =
    on_ok (scan_int ''id'' r) (\<lambda>id. on_ok (scan_text ''task_id'' r) (\<lambda>task_id.
    on_ok (scan_text ''from_status'' r) (\<lambda>from_status. on_ok (scan_text ''to_status'' r) (\<lambda>to_status.
    on_ok (scan_text ''created_at'' r) (\<lambda>created.
    on_ok (scan_time ''created_at'' created) (\<lambda>ts.
      Inr \<lparr>ev_id = id, ev_task_id = task_id, ev_from_status = from_status, ev_to_status = to_status,
           ev_created_at = ts\<rparr>))))))"

subsection \<open>Groups, conversations and the audit log\<close>

definition group_row :: "collector_group \<Rightarrow> row" where
  "group_row g = [''id'' \<mapsto> SqlText (grp_id g), ''name'' \<mapsto> SqlText (grp_name g), ''selector'' \<mapsto> SqlText (grp_selector g)]"

definition scan_group :: "row option \<Rightarrow> scan_error + collector_group" where
  "scan_group sc =
    on_ok (map_no_row sc) (\<lambda>r.
    on_ok (scan_text ''id'' r) (\<lambda>id. on_ok (scan_text ''name'' r) (\<lambda>name. on_ok (scan_text ''selector'' r) (\<lambda>sel.
      Inr \<lparr>grp_id = id, grp_name = name, grp_selector = sel\<rparr>))))"

definition message_row :: "string \<Rightarrow> chat_message \<Rightarrow> row" where
  "message_row session m =
    [''id'' \<mapsto> SqlInt (msg_id m), ''session_id'' \<mapsto> SqlText session, ''role'' \<mapsto> SqlText (msg_role m),
     ''content'' \<mapsto> SqlText (msg_content m), ''created_at'' \<mapsto> SqlText (fmt_time (msg_created_at m))]"

definition scan_message :: "row \<Rightarrow> scan_error + chat_message" where
  "scan_message r =
    on_ok (scan_int ''id'' r) (\<lambda>id. on_ok (scan_text ''role'' r) (\<lambda>role. on_ok (scan_text ''content'' r) (\<lambda>content.
    on_ok (scan_text ''created_at'' r) (\<lambda>created.
    on_ok (scan_time ''created_at'' created) (\<lambda>ts.
      Inr \<lparr>msg_id = id, msg_role = role, msg_content = content, msg_created_at = ts\<rparr>)))))"

definition session_row :: "chat_session \<Rightarrow> row" where
  "session_row sess = [''id'' \<mapsto> SqlText (sess_id sess), ''created_at'' \<mapsto> SqlText (fmt_time (sess_created_at sess))]"

text \<open>A session is read from its own row and from the rows of its messages.\<close>

definition scan_session :: "row option \<Rightarrow> row list \<Rightarrow> scan_error + chat_session" where
  "scan_session sc messages =
    on_ok (map_no_row sc) (\<lambda>r.
    on_ok (scan_text ''id'' r) (\<lambda>id. on_ok (scan_text ''created_at'' r) (\<lambda>created.
    on_ok (scan_time ''created_at'' created) (\<lambda>ts.
    on_ok (scan_all scan_message messages) (\<lambda>msgs.
      Inr \<lparr>sess_id = id, sess_messages = msgs, sess_created_at = ts\<rparr>)))))"

definition audit_row :: "audit_log \<Rightarrow> row" where
  "audit_row a =
    [''id'' \<mapsto> SqlInt (au_id a), ''actor'' \<mapsto> SqlText (au_actor a), ''action'' \<mapsto> SqlText (audit_action_text (au_action a)),
     ''subject'' \<mapsto> SqlText (au_subject a), ''detail'' \<mapsto> SqlText (au_detail a),
     ''created_at'' \<mapsto> SqlText (fmt_time (au_created_at a))]"

definition scan_audit :: "row \<Rightarrow> scan_error + audit_log" where
  "scan_audit r =
    on_ok (scan_int ''id'' r) (\<lambda>id. on_ok (scan_text ''actor'' r) (\<lambda>actor. on_ok (scan_text ''action'' r) (\<lambda>action.
    on_ok (scan_text ''subject'' r) (\<lambda>subj. on_ok (scan_text ''detail'' r) (\<lambda>detail.
    on_ok (scan_text ''created_at'' r) (\<lambda>created.
    on_ok (scan_time ''created_at'' created) (\<lambda>ts.
      Inr \<lparr>au_id = id, au_actor = actor, au_action = audit_action_of action, au_subject = subj,
           au_detail = detail, au_created_at = ts\<rparr>)))))))"

subsection \<open>A record written is read back\<close>

text \<open>A codec of rows: what is written of a good record is read back.\<close>

locale row_codec =
  fixes to_row :: "'a \<Rightarrow> row"
    and of_row :: "row \<Rightarrow> scan_error + 'a"
    and good :: "'a \<Rightarrow> bool"
  assumes of_to_row: "good x \<Longrightarrow> of_row (to_row x) = Inr x"
begin

lemma scan_all_rows: "list_all good xs \<Longrightarrow> scan_all of_row (map to_row xs) = Inr xs"
  by (induction xs) (simp_all add: of_to_row)

lemma to_row_inj: "good x \<Longrightarrow> good y \<Longrightarrow> to_row x = to_row y \<Longrightarrow> x = y"
  using of_to_row by (metis sum.inject(2))

end

lemma scan_time_fmt [simp]: "storable t \<Longrightarrow> scan_time name (fmt_time t) = Inr t"
  by (simp add: scan_time_def read_stored_time)

lemma collector_status_of_text [simp]: "collector_status_of (collector_status_text s) = s"
  by (cases s) (simp_all add: collector_status_of_def)

definition good_task :: "approvers_codec \<Rightarrow> task \<Rightarrow> bool" where
  "good_task ac t \<longleftrightarrow> storable (t_created_at t) \<and> storable (t_updated_at t) \<and>
     ac_decode ac (ac_encode ac (t_approvers t)) = Inr (t_approvers t)"

lemma scan_text_at: "r name = Some (SqlText s) \<Longrightarrow> scan_text name r = Inr s"
  by (simp add: scan_text_def)

lemma scan_int_at: "r name = Some (SqlInt i) \<Longrightarrow> scan_int name r = Inr i"
  by (simp add: scan_int_def)

interpretation collectors: row_codec collector_row "\<lambda>r. scan_collector (Some r)" "\<lambda>c. storable (col_last_seen_at c)"
  by unfold_locales (simp add: scan_collector_def map_no_row_def collector_row_def scan_text_at)

interpretation tasks: row_codec "task_row ac" "\<lambda>r. scan_task ac (Some r)" "good_task ac" for ac
  by unfold_locales
    (simp add: scan_task_def map_no_row_def task_row_def scan_text_at scan_int_at good_task_def bool_int_def)

interpretation versions: row_codec version_row scan_version "\<lambda>v. storable (cv_created_at v)"
  by unfold_locales (simp add: scan_version_def version_row_def scan_text_at scan_int_at bool_int_def)

interpretation events: row_codec event_row scan_event "\<lambda>e. storable (ev_created_at e)"
  by unfold_locales (simp add: scan_event_def event_row_def scan_text_at scan_int_at)

interpretation groups: row_codec group_row "\<lambda>r. scan_group (Some r)" "\<lambda>_. True"
  by unfold_locales (simp add: scan_group_def map_no_row_def group_row_def scan_text_at)

interpretation messages: row_codec "message_row session" scan_message "\<lambda>m. storable (msg_created_at m)" for session
  by unfold_locales (simp add: scan_message_def message_row_def scan_text_at scan_int_at)

interpretation audits: row_codec audit_row scan_audit "\<lambda>a. storable (au_created_at a)"
  by unfold_locales (simp add: scan_audit_def audit_row_def scan_text_at scan_int_at)

lemma session_read_back:
  assumes "storable (sess_created_at sess)" "list_all (\<lambda>m. storable (msg_created_at m)) (sess_messages sess)"
  shows "scan_session (Some (session_row sess)) (map (message_row (sess_id sess)) (sess_messages sess)) = Inr sess"
  using assms
  by (simp add: scan_session_def map_no_row_def session_row_def scan_text_at messages.scan_all_rows)

subsection \<open>Rows of an older database\<close>

text \<open>The columns of the tasks in the first version, and a task as it was then.\<close>

definition first_columns :: "string list" where
  "first_columns =
    [''id'', ''type'', ''status'', ''require_approval'', ''input'', ''generated_yaml'', ''target_group_id'',
     ''approvers'', ''approver'', ''reject_reason'', ''model_used'', ''error'', ''created_at'', ''updated_at'']"

definition first_version_task :: "task \<Rightarrow> bool" where
  "first_version_task t \<longleftrightarrow> t_target_instance_uid t = '''' \<and> t_rollback_version_id t = 0 \<and> t_session_id t = '''' \<and>
     t_base_yaml t = '''' \<and> t_base_source t = '''' \<and> t_git_commit t = '''' \<and> t_git_path t = '''' \<and> t_git_ref t = ''''"

definition first_version_row :: "approvers_codec \<Rightarrow> task \<Rightarrow> row" where
  "first_version_row ac t = task_row ac t |` set first_columns"

text \<open>The tasks table after some statements: the old columns are kept, the new ones have their defaults.\<close>

definition filled_in :: "sql_table \<Rightarrow> sql_table \<Rightarrow> bool" where
  "filled_in tb tb' \<longleftrightarrow> keeps_table tb tb' \<and> list_all (\<lambda>col. cl_name col \<in> set (column_names tb') \<longrightarrow>
     list_all (\<lambda>r. r (cl_name col) = cl_default col) (tb_rows tb')) task_columns"

definition tasks_filled :: "sql_table \<Rightarrow> catalog \<Rightarrow> bool" where
  "tasks_filled tb c \<longleftrightarrow> (case cat_tables c ''tasks'' of None \<Rightarrow> False | Some tb' \<Rightarrow> filled_in tb tb')"

lemma task_columns_names:
  "col \<in> set task_columns \<Longrightarrow> col' \<in> set task_columns \<Longrightarrow> cl_name col = cl_name col' \<Longrightarrow> col = col'"
proof -
  have "distinct (map cl_name task_columns)" by (simp add: task_columns_def text_default_def int_default_def)
  then have "inj_on cl_name (set task_columns)" by (simp add: distinct_map)
  then show "col \<in> set task_columns \<Longrightarrow> col' \<in> set task_columns \<Longrightarrow> cl_name col = cl_name col' \<Longrightarrow> col = col'"
    by (simp add: inj_onD)
qed

lemma filled_in_add:
  assumes "filled_in tb tb'" "col \<in> set task_columns" "cl_name col \<notin> set (column_names tb')"
  shows "filled_in tb \<lparr>tb_columns = tb_columns tb' @ [col], tb_rows = map (set_column (cl_name col) (cl_default col)) (tb_rows tb')\<rparr>"
    (is "filled_in tb ?new")
proof -
  have "keeps_table tb ?new"
    using assms added_column_keeps [OF assms(3)] keeps_table_trans by (auto simp: filled_in_def)
  moreover have "list_all (\<lambda>r. r (cl_name col') = cl_default col') (tb_rows ?new)"
    if col': "col' \<in> set task_columns" "cl_name col' \<in> set (column_names ?new)" for col'
  proof (cases "cl_name col' = cl_name col")
    case True
    then have "col' = col" using task_columns_names col'(1) assms(2) by blast
    then show ?thesis by (simp add: list_all_iff set_column_def)
  next
    case False
    then have "cl_name col' \<in> set (column_names tb')" using col'(2) by (simp add: column_names_def)
    with assms(1) col'(1) False show ?thesis by (simp add: filled_in_def list_all_iff set_column_def)
  qed
  ultimately show ?thesis by (simp add: filled_in_def list_all_iff)
qed

lemma tasks_filled_step:
  assumes "stmt \<in> set (schema_statements driver) \<union> AddColumn ''tasks'' ` set task_columns \<union> {session_index}"
    and "tasks_filled tb c" "exec_ddl stmt c = (r, c')"
  shows "tasks_filled tb c'"
  using assms(3)
proof (cases rule: exec_ddl_cases)
  case (failed msg)
  with assms(2) show ?thesis by (simp add: tasks_filled_def)
next
  case (applied x c1)
  obtain tb' where tb': "cat_tables c1 ''tasks'' = Some tb'" "filled_in tb tb'"
    using assms(2) applied(3) by (auto simp: tasks_filled_def split: option.splits)
  have no_add: "AddColumn t col \<notin> set (schema_statements driver) \<union> {session_index}" for t col
    by (auto simp: schema_statements_def session_index_def)
  show ?thesis
  proof (cases stmt)
    case (AddColumn t col)
    then have col: "t = ''tasks''" "col \<in> set task_columns" using assms(1) no_add by auto
    with AddColumn applied(5) tb' filled_in_add [OF tb'(2) col(2)] show ?thesis
      by (auto simp: tasks_filled_def split: if_splits)
  qed (use applied(5) tb' in \<open>auto simp: tasks_filled_def split: option.splits if_splits\<close>)
qed

lemma scan_all_list_all2: "list_all2 (\<lambda>t r. scan r = Inr t) ts rs \<Longrightarrow> scan_all scan rs = Inr ts"
  by (induction rule: list_all2_induct) simp_all

lemma scan_task_columns:
  assumes "good_task ac t"
    and "\<forall>n \<in> set (first_columns @ map cl_name task_columns). r n = task_row ac t n"
  shows "scan_task ac (Some r) = Inr t"
  using assms
  by (simp add: first_columns_def task_columns_def text_default_def int_default_def)
    (simp add: scan_task_def map_no_row_def scan_text_at scan_int_at task_row_def good_task_def bool_int_def)

text \<open>C19: A database of the first version is opened: its tasks read as the tasks they were, the fields
  that did not exist then with the empty values.\<close>

theorem older_tasks_read:
  assumes "init_schema driver c = (Inr (), c')"
    and "cat_tables c ''tasks'' = Some \<lparr>tb_columns = cols, tb_rows = map (first_version_row ac) ts\<rparr>"
    and "map cl_name cols = first_columns"
    and "list_all (\<lambda>t. good_task ac t \<and> first_version_task t) ts"
  shows "\<exists>tb. cat_tables c' ''tasks'' = Some tb \<and> scan_all (\<lambda>r. scan_task ac (Some r)) (tb_rows tb) = Inr ts"
proof -
  let ?old = "\<lparr>tb_columns = cols, tb_rows = map (first_version_row ac) ts\<rparr>"
  have names: "column_names ?old = first_columns" using assms(3) by (simp add: column_names_def)
  have "list_all (\<lambda>col. cl_name col \<notin> set first_columns) task_columns"
    by (simp add: task_columns_def first_columns_def text_default_def int_default_def)
  then have "filled_in ?old ?old" by (simp add: filled_in_def names list_all_iff)
  then have start: "tasks_filled ?old c" using assms(2) by (simp add: tasks_filled_def)
  have "tasks_filled ?old c'"
  proof (rule init_schema_keeps [where P = "tasks_filled ?old", OF _ _ start assms(1)])
    fix stmt a r a'
    assume "stmt \<in> set (schema_statements driver) \<union> AddColumn ''tasks'' ` set task_columns \<union> {session_index}"
      "tasks_filled ?old a" "exec_ddl stmt a = (r, a')"
    then show "tasks_filled ?old a'" by (rule tasks_filled_step)
  qed (simp add: tasks_filled_def)
  then obtain tb where tb: "cat_tables c' ''tasks'' = Some tb" "filled_in ?old tb"
    by (auto simp: tasks_filled_def split: option.splits)
  have "\<forall>col \<in> set task_columns. cl_name col \<in> set (column_names tb)"
    using completeD(2) [OF init_schema_complete [OF assms(1)]] tb(1) by (auto simp: has_columns_def)
  then have defaults: "\<forall>r \<in> set (tb_rows tb). \<forall>col \<in> set task_columns. r (cl_name col) = cl_default col"
    using tb(2) by (simp add: filled_in_def list_all_iff)
  have empties: "\<forall>col \<in> set task_columns. task_row ac t (cl_name col) = cl_default col"
    if "first_version_task t" for t
    using that by (simp add: task_columns_def text_default_def int_default_def task_row_def first_version_task_def)
  have "list_all2 (\<lambda>r r'. \<forall>n \<in> set first_columns. r' n = r n) (map (first_version_row ac) ts) (tb_rows tb)"
    using tb(2) names by (simp add: filled_in_def keeps_table_def)
  then have kept: "list_all2 (\<lambda>t r. \<forall>n \<in> set first_columns. r n = first_version_row ac t n) ts (tb_rows tb)"
    by (simp add: list_all2_map1)
  have "list_all2 (\<lambda>t r. scan_task ac (Some r) = Inr t) ts (tb_rows tb)"
  proof (rule list_all2_all_nthI [OF list_all2_lengthD [OF kept]])
    fix i assume i: "i < length ts"
    have t: "good_task ac (ts ! i)" "first_version_task (ts ! i)"
      using assms(4) i by (simp_all add: list_all_iff)
    have "tb_rows tb ! i \<in> set (tb_rows tb)" using i list_all2_lengthD [OF kept] by simp
    with defaults empties [OF t(2)] list_all2_nthD [OF kept i] show "scan_task ac (Some (tb_rows tb ! i)) = Inr (ts ! i)"
      by (intro scan_task_columns [OF t(1)]) (auto simp: first_version_row_def)
  qed
  with tb(1) show ?thesis by (blast intro: scan_all_list_all2)
qed

definition empty_codec :: approvers_codec where
  "empty_codec = \<lparr>ac_encode = (\<lambda>_. ''[]''), ac_decode = (\<lambda>_. Inr [])\<rparr>"

definition first_task :: task where
  "first_task = empty_task\<lparr>t_id := ''t'', t_type := TaskTypeApply, t_status := TaskStatusDone, t_created_at := 63838108799123456780\<rparr>"

definition first_catalog :: catalog where
  "first_catalog = \<lparr>cat_tables = [''tasks'' \<mapsto> \<lparr>tb_columns = map text_column first_columns,
     tb_rows = [first_version_row empty_codec first_task]\<rparr>], cat_indexes = Map.empty, cat_outcomes = []\<rparr>"

lemma first_older: "older_schema ''sqlite'' first_catalog" "cat_outcomes first_catalog = []"
  by (auto simp: older_schema_def first_catalog_def has_columns_def column_names_def schema_statements_def
      first_columns_def key_column_def text_column_def text_default_def int_default_def)

theorem older_tasks_read_witness:
  "\<exists>c' tb. init_schema ''sqlite'' first_catalog = (Inr (), c') \<and> cat_tables c' ''tasks'' = Some tb \<and>
    scan_all (\<lambda>r. scan_task empty_codec (Some r)) (tb_rows tb) = Inr [first_task]"
proof -
  obtain c' where run: "init_schema ''sqlite'' first_catalog = (Inr (), c')"
    using healthy_init [OF first_older] by blast
  have "cat_tables first_catalog ''tasks'' = Some \<lparr>tb_columns = map text_column first_columns,
     tb_rows = map (first_version_row empty_codec) [first_task]\<rparr>" by (simp add: first_catalog_def)
  moreover have "map cl_name (map text_column first_columns) = first_columns"
    by (simp add: text_column_def comp_def)
  moreover have "good_task empty_codec first_task" "first_version_task first_task"
    by (simp_all add: good_task_def first_version_task_def first_task_def empty_task_def empty_codec_def
        storable_def year_10000_def)
  ultimately show ?thesis
    using older_tasks_read [OF run, of "map text_column first_columns" empty_codec "[first_task]"] run by auto
qed

text \<open>Every table reads back as the records written to it, whatever their number, as long as their times lie
  before the year 10000 and the codec of the approvers reads what it wrote: Collectors, groups, versions, tasks,
  events, a session with its messages and the audit log.  A missing row is the error that the store maps to not
  found.\<close>

theorem tables_read_back:
  "(list_all (\<lambda>c. storable (col_last_seen_at c)) cs \<longrightarrow>
      scan_all (\<lambda>r. scan_collector (Some r)) (map collector_row cs) = Inr cs) \<and>
   scan_all (\<lambda>r. scan_group (Some r)) (map group_row gs) = Inr gs \<and>
   (list_all (\<lambda>v. storable (cv_created_at v)) vs \<longrightarrow> scan_all scan_version (map version_row vs) = Inr vs) \<and>
   (list_all (good_task ac) ts \<longrightarrow> scan_all (\<lambda>r. scan_task ac (Some r)) (map (task_row ac) ts) = Inr ts) \<and>
   (list_all (\<lambda>e. storable (ev_created_at e)) es \<longrightarrow> scan_all scan_event (map event_row es) = Inr es) \<and>
   (storable (sess_created_at sess) \<and> list_all (\<lambda>m. storable (msg_created_at m)) (sess_messages sess) \<longrightarrow>
      scan_session (Some (session_row sess)) (map (message_row (sess_id sess)) (sess_messages sess)) = Inr sess) \<and>
   (list_all (\<lambda>a. storable (au_created_at a)) as \<longrightarrow> scan_all scan_audit (map audit_row as) = Inr as) \<and>
   scan_collector None = Inl ScanNoRow \<and> scan_group None = Inl ScanNoRow \<and> scan_task ac None = Inl ScanNoRow \<and>
   scan_session None rows = Inl ScanNoRow"
proof -
  have "scan_collector None = Inl ScanNoRow" "scan_group None = Inl ScanNoRow" "scan_task ac None = Inl ScanNoRow"
    "scan_session None rows = Inl ScanNoRow"
    by (simp_all add: scan_collector_def scan_group_def scan_task_def scan_session_def map_no_row_def)
  moreover have "list_all (\<lambda>_. True) gs" by (simp add: list_all_iff)
  ultimately show ?thesis
    by (simp add: collectors.scan_all_rows groups.scan_all_rows tasks.scan_all_rows versions.scan_all_rows
        events.scan_all_rows session_read_back audits.scan_all_rows)
qed

theorem tables_read_back_witness:
  "scan_all (\<lambda>r. scan_task empty_codec (Some r)) (map (task_row empty_codec) [first_task, first_task\<lparr>t_id := ''u''\<rparr>]) =
    Inr [first_task, first_task\<lparr>t_id := ''u''\<rparr>]"
proof -
  have "list_all (good_task empty_codec) [first_task, first_task\<lparr>t_id := ''u''\<rparr>]"
    by (simp add: good_task_def first_task_def empty_task_def empty_codec_def storable_def year_10000_def)
  with tables_read_back show ?thesis by blast
qed

text \<open>A row whose time or approvers cannot be read ends the whole list with an error.\<close>

lemma scan_all_first_error:
  "scan_all scan (rs @ r # rest) = (case scan_all scan rs of Inl e \<Rightarrow> Inl e | Inr xs \<Rightarrow>
     (case scan r of Inl e \<Rightarrow> Inl e | Inr x \<Rightarrow> on_ok (scan_all scan rest) (\<lambda>ys. Inr (xs @ x # ys))))"
proof (induction rs)
  case Nil
  then show ?case by (cases "scan r") simp_all
next
  case (Cons q rs)
  then show ?case
    by (cases "scan q"; cases "scan_all scan rs"; cases "scan r"; cases "scan_all scan rest") (simp_all)
qed

end
