(* ===== verification/Streams.thy ===== *)
theory Streams
  imports Llm_Chain
begin

section \<open>Streams of responses (internal/agent/llm.go)\<close>

text \<open>
  \<open>Llm_Chain\<close> takes a stream for the list of what it delivers.  Here the streams are what the code
  makes them: a buffered channel that a goroutine fills from the first response and the rest, while
  the caller receives.  The lemmas show that, however the two interleave, the caller gets exactly that list
  and then the end.  The second part has the copies the cache makes, with the objects they share.
\<close>

subsection \<open>A forwarded stream\<close>

text \<open>
  The goroutine sends the first response, then takes each response of the rest and sends it, then closes.
  What the rest has yet to deliver before it is closed is a list; a slice is such a rest as well.
\<close>

record 'r stream =
  st_first :: "'r option"
  st_rest :: "'r list"
  st_held :: "'r option"
  st_buffer :: "'r list"
  st_closed :: bool
  st_received :: "'r list"
  st_ended :: bool

definition stream_capacity :: nat where
  "stream_capacity = 8"

definition prepend_stream :: "'r \<Rightarrow> 'r list \<Rightarrow> 'r stream" where
  "prepend_stream first rest = \<lparr>st_first = Some first, st_rest = rest, st_held = None, st_buffer = [],
     st_closed = False, st_received = [], st_ended = False\<rparr>"

definition prepend_all :: "'r \<Rightarrow> 'r list \<Rightarrow> 'r stream" where
  "prepend_all first rest = \<lparr>st_first = Some first, st_rest = rest, st_held = None, st_buffer = [],
     st_closed = False, st_received = [], st_ended = False\<rparr>"

text \<open>A stream of one response is filled and closed at once, without a goroutine.\<close>

definition single_stream :: "'r \<Rightarrow> 'r stream" where
  "single_stream resp = \<lparr>st_first = None, st_rest = [], st_held = None, st_buffer = [resp],
     st_closed = True, st_received = [], st_ended = False\<rparr>"

inductive stream_step :: "'r stream \<Rightarrow> 'r stream \<Rightarrow> bool" where
  sends_first: "st_first s = Some r \<Longrightarrow> length (st_buffer s) < stream_capacity \<Longrightarrow>
    stream_step s (s\<lparr>st_first := None, st_buffer := st_buffer s @ [r]\<rparr>)"
| takes: "st_first s = None \<Longrightarrow> st_held s = None \<Longrightarrow> st_rest s = r # rs \<Longrightarrow>
    stream_step s (s\<lparr>st_held := Some r, st_rest := rs\<rparr>)"
| sends: "st_held s = Some r \<Longrightarrow> length (st_buffer s) < stream_capacity \<Longrightarrow>
    stream_step s (s\<lparr>st_held := None, st_buffer := st_buffer s @ [r]\<rparr>)"
| closes: "st_first s = None \<Longrightarrow> st_held s = None \<Longrightarrow> st_rest s = [] \<Longrightarrow> \<not> st_closed s \<Longrightarrow>
    stream_step s (s\<lparr>st_closed := True\<rparr>)"
| receives: "\<not> st_ended s \<Longrightarrow> st_buffer s = r # rs \<Longrightarrow>
    stream_step s (s\<lparr>st_buffer := rs, st_received := st_received s @ [r]\<rparr>)"
| sees_end: "\<not> st_ended s \<Longrightarrow> st_buffer s = [] \<Longrightarrow> st_closed s \<Longrightarrow> stream_step s (s\<lparr>st_ended := True\<rparr>)"

inductive_cases stream_stepE: "stream_step s s'"

text \<open>\<open>drainRest\<close> receives to the end; \<open>drainStream\<close> does the same and forgets what it received.\<close>

definition drain_rest :: "'r stream \<Rightarrow> 'r list option" where
  "drain_rest s = (if st_ended s then Some (st_received s) else None)"

subsection \<open>What the caller receives\<close>

definition all_of_stream :: "'r stream \<Rightarrow> 'r list" where
  "all_of_stream s = st_received s @ st_buffer s @ (case st_held s of None \<Rightarrow> [] | Some r \<Rightarrow> [r]) @
     (case st_first s of None \<Rightarrow> [] | Some r \<Rightarrow> [r]) @ st_rest s"

definition stream_inv :: "'r list \<Rightarrow> 'r stream \<Rightarrow> bool" where
  "stream_inv rs s \<longleftrightarrow> all_of_stream s = rs \<and> length (st_buffer s) \<le> stream_capacity \<and>
     (st_first s \<noteq> None \<longrightarrow> st_held s = None) \<and>
     (st_closed s \<longrightarrow> st_first s = None \<and> st_held s = None \<and> st_rest s = []) \<and>
     (st_ended s \<longrightarrow> st_closed s \<and> st_buffer s = [])"

lemma stream_inv_start:
  "stream_inv (first # rest) (prepend_stream first rest)" "stream_inv (first # rest) (prepend_all first rest)"
  "stream_inv [r] (single_stream r)"
  by (simp_all add: stream_inv_def all_of_stream_def prepend_stream_def prepend_all_def single_stream_def
      stream_capacity_def)

lemma stream_step_inv: "stream_step s s' \<Longrightarrow> stream_inv rs s \<Longrightarrow> stream_inv rs s'"
  by (induction rule: stream_step.induct) (auto simp: stream_inv_def all_of_stream_def)

text \<open>The steps left: a response is taken, sent and received, and both sides end once.\<close>

definition stream_work :: "'r stream \<Rightarrow> nat" where
  "stream_work s = 3 * length (st_rest s) + 2 * length (case st_held s of None \<Rightarrow> [] | Some r \<Rightarrow> [r]) +
     2 * length (case st_first s of None \<Rightarrow> [] | Some r \<Rightarrow> [r]) + length (st_buffer s) +
     (if st_closed s then 0 else 1) + (if st_ended s then 0 else 1)"

lemma stream_step_work: "stream_step s s' \<Longrightarrow> stream_work s' < stream_work s"
  by (induction rule: stream_step.induct) (auto simp: stream_work_def)

lemma stream_progress:
  assumes "stream_inv rs s" and "\<not> st_ended s"
  shows "\<exists>s'. stream_step s s'"
proof (cases "st_buffer s")
  case (Cons r bs)
  from receives [OF assms(2) Cons] show ?thesis by blast
next
  case Nil
  then have room: "length (st_buffer s) < stream_capacity" by (simp add: stream_capacity_def)
  show ?thesis
  proof (cases "st_closed s")
    case True
    from sees_end [OF assms(2) Nil True] show ?thesis by blast
  next
    case False
    consider r where "st_first s = Some r" | r where "st_held s = Some r"
      | r qs where "st_first s = None" "st_held s = None" "st_rest s = r # qs"
      | "st_first s = None" "st_held s = None" "st_rest s = []"
      by (cases "st_first s"; cases "st_held s"; cases "st_rest s") auto
    then show ?thesis
    proof cases
      case (1 r)
      from sends_first [OF 1 room] show ?thesis by blast
    next
      case (2 r)
      from sends [OF 2 room] show ?thesis by blast
    next
      case (3 r qs)
      from takes [OF 3] show ?thesis by blast
    next
      case 4
      from closes [OF 4 False] show ?thesis by blast
    qed
  qed
qed

lemma stream_run_inv: "stream_step\<^sup>*\<^sup>* s s' \<Longrightarrow> stream_inv rs s \<Longrightarrow> stream_inv rs s'"
  by (induction rule: rtranclp_induct) (auto intro: stream_step_inv)

lemma stream_run_ends:
  "stream_inv rs s \<Longrightarrow> \<exists>s'. stream_step\<^sup>*\<^sup>* s s' \<and> drain_rest s' = Some rs"
proof (induction "stream_work s" arbitrary: s rule: less_induct)
  case less
  show ?case
  proof (cases "st_ended s")
    case True
    with less.prems show ?thesis
      by (intro exI [of _ s]) (auto simp: stream_inv_def all_of_stream_def drain_rest_def)
  next
    case False
    with stream_progress less.prems obtain s1 where "stream_step s s1" by blast
    with less.hyps [OF stream_step_work stream_step_inv] less.prems show ?thesis
      by (meson converse_rtranclp_into_rtranclp)
  qed
qed

text \<open>C39: A stream put together from a first response and the rest is that list: at any moment the caller has
  received a beginning of it, in order, and once it sees the end it has received all of it; the two
  sides never block each other, every run is finite, and one that goes on until nothing can move
  reaches the end.  The same holds of a collected rest and of a single response.\<close>

theorem stream_delivers_list:
  fixes s :: "'r stream"
  assumes "s0 \<in> {prepend_stream first rest, prepend_all first rest} \<and> rs = first # rest \<or>
      s0 = single_stream first \<and> rs = [first]"
    and "stream_step\<^sup>*\<^sup>* s0 s"
  shows "(\<exists>missing. rs = st_received s @ missing) \<and> (drain_rest s \<noteq> None \<longrightarrow> drain_rest s = Some rs) \<and>
    ((\<nexists>s'. stream_step s s') \<longrightarrow> drain_rest s = Some rs) \<and> wf {(t', t :: 'r stream). stream_step t t'} \<and>
    (\<exists>s'. stream_step\<^sup>*\<^sup>* s s' \<and> drain_rest s' = Some rs)"
proof -
  have "stream_inv rs s0" using assms(1) stream_inv_start by auto
  with assms(2) have inv: "stream_inv rs s" using stream_run_inv by blast
  have done_all: "drain_rest s = Some rs" if "st_ended s"
    using inv that by (auto simp: stream_inv_def all_of_stream_def drain_rest_def)
  have "wf {(t', t :: 'r stream). stream_step t t'}"
    by (rule wf_subset [OF wf_measure [of stream_work]]) (auto dest: stream_step_work)
  moreover have "\<exists>missing. rs = st_received s @ missing"
    using inv by (auto simp: stream_inv_def all_of_stream_def)
  moreover have "st_ended s" if "\<nexists>s'. stream_step s s'" using stream_progress [OF inv] that by blast
  moreover have "drain_rest s \<noteq> None \<longrightarrow> st_ended s" by (simp add: drain_rest_def)
  ultimately show ?thesis using done_all stream_run_ends [OF inv] by blast
qed

theorem stream_delivers_list_witness:
  "\<exists>s'. stream_step\<^sup>*\<^sup>* (prepend_stream (1::nat) [2, 3]) s' \<and> drain_rest s' = Some [1, 2, 3]"
  using stream_delivers_list [of "prepend_stream (1::nat) [2, 3]" 1 "[2, 3]" "[1, 2, 3]" "prepend_stream 1 [2, 3]"]
  by simp

text \<open>
  A caller that stops receiving leaves the goroutine waiting when more than the buffer holds is left:
  it can never finish.
\<close>

lemma abandoned_stream_waits:
  assumes "st_held s = Some r" and "length (st_buffer s) = stream_capacity" and "stream_step s s'"
    and "st_first s = None" and "\<not> st_closed s"
  shows "st_received s' = st_received s @ [hd (st_buffer s)]"
  using assms by (auto elim!: stream_stepE simp: stream_capacity_def)

section \<open>Copies of cached responses\<close>

text \<open>
  A response points to the array of its choices and to its error; a choice points to the array of its
  tool calls.  The heap holds these objects by address.
\<close>

type_synonym addr = nat

record choice_object =
  co_role :: string
  co_content :: string
  co_calls :: "addr option"

record response_object =
  ro_model :: string
  ro_choices :: "addr option"
  ro_error :: "addr option"

record heap =
  hp_responses :: "addr \<rightharpoonup> response_object"
  hp_choices :: "addr \<rightharpoonup> choice_object list"
  hp_calls :: "addr \<rightharpoonup> tool_request list"
  hp_errors :: "addr \<rightharpoonup> string"
  hp_next :: addr

definition elements :: "('a \<rightharpoonup> 'b list) \<Rightarrow> 'a option \<Rightarrow> 'b list" where
  "elements m p = (case p of None \<Rightarrow> [] | Some a \<Rightarrow> (case m a of None \<Rightarrow> [] | Some xs \<Rightarrow> xs))"

text \<open>Appending the choices to a nil slice allocates an array, or leaves nil when there are none.\<close>

definition clone_choices :: "addr option \<Rightarrow> heap \<Rightarrow> addr option \<times> heap" where
  "clone_choices p h =
    (case elements (hp_choices h) p of
       [] \<Rightarrow> (None, h)
     | c # cs \<Rightarrow> (Some (hp_next h), h\<lparr>hp_choices := (hp_choices h)(hp_next h \<mapsto> c # cs), hp_next := hp_next h + 1\<rparr>))"

definition clone_error :: "addr option \<Rightarrow> heap \<Rightarrow> addr option \<times> heap" where
  "clone_error p h =
    (case p of
       None \<Rightarrow> (None, h)
     | Some e \<Rightarrow> (Some (hp_next h), h\<lparr>hp_errors := (hp_errors h)(hp_next h := hp_errors h e), hp_next := hp_next h + 1\<rparr>))"

definition clone_response :: "addr option \<Rightarrow> heap \<Rightarrow> addr option \<times> heap" where
  "clone_response p h =
    (case Option.bind p (hp_responses h) of
       None \<Rightarrow> (None, h)
     | Some r \<Rightarrow>
         (let (choices, h1) = clone_choices (ro_choices r) h;
              (err, h2) = clone_error (ro_error r) h1
          in (Some (hp_next h2), h2\<lparr>hp_responses := (hp_responses h2)(hp_next h2 \<mapsto>
                r\<lparr>ro_choices := choices, ro_error := err\<rparr>), hp_next := hp_next h2 + 1\<rparr>)))"

text \<open>What a response is to a reader, in the terms of \<open>Llm_Chain\<close>.\<close>

definition read_choice :: "heap \<Rightarrow> choice_object \<Rightarrow> llm_message" where
  "read_choice h c = \<lparr>lm_role = co_role c, lm_content = co_content c,
     lm_tool_calls = elements (hp_calls h) (co_calls c), lm_tool_id = '''', lm_tool_name = ''''\<rparr>"

definition read_response :: "heap \<Rightarrow> addr \<Rightarrow> llm_response option" where
  "read_response h a = map_option (\<lambda>r.
     \<lparr>lr_error = Option.bind (ro_error r) (hp_errors h),
      lr_choices = map (read_choice h) (elements (hp_choices h) (ro_choices r)), lr_model = ro_model r\<rparr>) (hp_responses h a)"

text \<open>Every address in use was handed out before.\<close>

definition heap_inv :: "heap \<Rightarrow> bool" where
  "heap_inv h \<longleftrightarrow> (\<forall>a \<ge> hp_next h. hp_responses h a = None \<and> hp_choices h a = None \<and> hp_errors h a = None) \<and>
     (\<forall>a r. hp_responses h a = Some r \<longrightarrow>
        (\<forall>p. ro_choices r = Some p \<or> ro_error r = Some p \<longrightarrow> p < hp_next h))"

text \<open>The holder of the original may overwrite the response, its array of choices and its error.\<close>

definition overwrite :: "addr \<Rightarrow> response_object \<Rightarrow> choice_object list \<Rightarrow> string \<Rightarrow> heap \<Rightarrow> heap" where
  "overwrite a r cs msg h =
    (case hp_responses h a of
       None \<Rightarrow> h
     | Some old \<Rightarrow> h\<lparr>hp_responses := (hp_responses h)(a \<mapsto> r),
         hp_choices := (case ro_choices old of None \<Rightarrow> hp_choices h | Some p \<Rightarrow> (hp_choices h)(p \<mapsto> cs)),
         hp_errors := (case ro_error old of None \<Rightarrow> hp_errors h | Some p \<Rightarrow> (hp_errors h)(p \<mapsto> msg))\<rparr>)"

lemma clone_choices_reads:
  assumes "heap_inv h" "clone_choices p h = (q, h')" "\<forall>a. p = Some a \<longrightarrow> a < hp_next h"
  shows "elements (hp_choices h') q = elements (hp_choices h) p" "hp_responses h' = hp_responses h"
    "hp_calls h' = hp_calls h" "hp_errors h' = hp_errors h" "hp_next h \<le> hp_next h'"
    "\<forall>a < hp_next h. hp_choices h' a = hp_choices h a" "\<forall>a. q = Some a \<longrightarrow> hp_next h \<le> a \<and> a < hp_next h'"
  using assms by (auto simp: clone_choices_def elements_def split: list.splits)

lemma clone_error_reads:
  assumes "clone_error p h = (q, h')" "\<forall>a. p = Some a \<longrightarrow> a < hp_next h"
  shows "Option.bind q (hp_errors h') = Option.bind p (hp_errors h)" "hp_responses h' = hp_responses h"
    "hp_calls h' = hp_calls h" "hp_choices h' = hp_choices h" "hp_next h \<le> hp_next h'"
    "\<forall>a < hp_next h. hp_errors h' a = hp_errors h a" "\<forall>a. q = Some a \<longrightarrow> hp_next h \<le> a \<and> a < hp_next h'"
  using assms by (auto simp: clone_error_def split: option.splits)

text \<open>A cached response is a copy: it reads like the original, and stays so when the holder of the
  original overwrites the response, its choices or its error.\<close>

theorem cached_copy_is_separate:
  assumes "heap_inv h" and "hp_responses h a = Some r" and "clone_response (Some a) h = (p, h')"
  shows "\<exists>b. p = Some b \<and> b \<noteq> a \<and> read_response h' a = read_response h a \<and>
    read_response h' b = read_response h a \<and> read_response (overwrite a r' cs msg h') b = read_response h a"
proof -
  obtain choices h1 where h1: "clone_choices (ro_choices r) h = (choices, h1)" by (cases "clone_choices (ro_choices r) h")
  obtain err h2 where h2: "clone_error (ro_error r) h1 = (err, h2)" by (cases "clone_error (ro_error r) h1")
  have old: "\<forall>p. ro_choices r = Some p \<longrightarrow> p < hp_next h" "\<forall>p. ro_error r = Some p \<longrightarrow> p < hp_next h"
    "a < hp_next h"
    using assms(1,2) unfolding heap_inv_def by (blast, blast, metis not_le option.distinct(1))
  note c = clone_choices_reads [OF assms(1) h1 old(1)]
  have "\<forall>q. ro_error r = Some q \<longrightarrow> q < hp_next h1" using old(2) c(5) by auto
  note e = clone_error_reads [OF h2 this]
  let ?b = "hp_next h2" and ?copy = "r\<lparr>ro_choices := choices, ro_error := err\<rparr>"
  have p: "p = Some ?b" and h': "h' = h2\<lparr>hp_responses := (hp_responses h2)(?b \<mapsto> ?copy), hp_next := ?b + 1\<rparr>"
    using assms(2,3) h1 h2 by (simp_all add: clone_response_def)
  have b: "?b \<noteq> a" using old(3) c(5) e(5) by linarith
  have resp: "hp_responses h2 = hp_responses h" "hp_calls h2 = hp_calls h" using c(2,3) e(2,3) by simp_all
  have arr: "elements (hp_choices h2) choices = elements (hp_choices h) (ro_choices r)"
    "elements (hp_choices h2) (ro_choices r) = elements (hp_choices h) (ro_choices r)"
    using c(1,6) e(4) old(1) by (auto simp: elements_def split: option.split)
  have errs: "Option.bind err (hp_errors h2) = Option.bind (ro_error r) (hp_errors h)"
    "Option.bind (ro_error r) (hp_errors h2) = Option.bind (ro_error r) (hp_errors h)"
    using c(4,5) e(1,6) old(2) by (cases "ro_error r"; force)+
  have reads: "read_response h' a = read_response h a" "read_response h' ?b = read_response h a"
    using b arr errs assms(2) resp by (auto simp: read_response_def read_choice_def h')
  have fresh: "choices \<noteq> ro_choices r \<or> choices = None"
    using c(7) old(1) by (metis not_le option.exhaust)
  have fresh_err: "err \<noteq> ro_error r \<or> err = None"
    using c(5) e(7) old(2) by (metis not_le option.exhaust order_trans)
  have "elements (hp_choices (overwrite a r' cs msg h')) choices = elements (hp_choices h') choices"
    "Option.bind err (hp_errors (overwrite a r' cs msg h')) = Option.bind err (hp_errors h')"
    using fresh fresh_err b assms(2) resp
    by (cases err; auto simp: overwrite_def h' elements_def split: option.split)+
  moreover have "hp_responses (overwrite a r' cs msg h') ?b = hp_responses h' ?b"
    "hp_calls (overwrite a r' cs msg h') = hp_calls h'"
    using b by (auto simp: overwrite_def split: option.split)
  ultimately have "read_response (overwrite a r' cs msg h') ?b = read_response h' ?b"
    by (simp add: read_response_def read_choice_def h')
  with p b reads show ?thesis by auto
qed

text \<open>The copy shares the tool calls: who changes the calls of the original changes the cached response.\<close>

lemma cached_copy_shares_calls:
  assumes "clone_response (Some a) h = (Some b, h')" and "hp_responses h a = Some r"
  shows "\<exists>copy. hp_responses h' b = Some copy \<and>
    map co_calls (elements (hp_choices h') (ro_choices copy)) = map co_calls (elements (hp_choices h) (ro_choices r))"
proof -
  obtain choices h1 where h1: "clone_choices (ro_choices r) h = (choices, h1)" by (cases "clone_choices (ro_choices r) h")
  obtain err h2 where h2: "clone_error (ro_error r) h1 = (err, h2)" by (cases "clone_error (ro_error r) h1")
  have "elements (hp_choices h2) choices = elements (hp_choices h) (ro_choices r)"
    using h1 h2 by (auto simp: clone_choices_def clone_error_def elements_def split: list.splits option.splits)
  then show ?thesis using assms h1 h2 by (auto simp: clone_response_def)
qed

definition cached_heap :: heap where
  "cached_heap = \<lparr>hp_responses = [0 \<mapsto> \<lparr>ro_model = ''m'', ro_choices = Some 1, ro_error = None\<rparr>],
     hp_choices = [1 \<mapsto> [\<lparr>co_role = ''assistant'', co_content = ''hi'', co_calls = None\<rparr>]],
     hp_calls = Map.empty, hp_errors = Map.empty, hp_next = 2\<rparr>"

theorem cached_copy_is_separate_witness:
  "\<exists>b h'. clone_response (Some 0) cached_heap = (Some b, h') \<and>
    read_response (overwrite 0 \<lparr>ro_model = ''other'', ro_choices = None, ro_error = None\<rparr> [] '''' h') b =
      Some \<lparr>lr_error = None, lr_choices = [text_message ''assistant'' ''hi''], lr_model = ''m''\<rparr>"
proof -
  obtain p h' where run: "clone_response (Some 0) cached_heap = (p, h')" by (cases "clone_response (Some 0) cached_heap")
  have "heap_inv cached_heap" by (auto simp: heap_inv_def cached_heap_def)
  moreover have "hp_responses cached_heap 0 = Some \<lparr>ro_model = ''m'', ro_choices = Some 1, ro_error = None\<rparr>"
    by (simp add: cached_heap_def)
  moreover have "read_response cached_heap 0 =
      Some \<lparr>lr_error = None, lr_choices = [text_message ''assistant'' ''hi''], lr_model = ''m''\<rparr>"
    by (simp add: read_response_def read_choice_def elements_def cached_heap_def text_message_def)
  ultimately show ?thesis using cached_copy_is_separate [OF _ _ run] run by metis
qed

end
