(* ===== verification/Orchestrator.thy ===== *)
theory Orchestrator
  imports Agent_Tools
begin

section \<open>The conversation with the agent (internal/agent/orchestrator.go, sessionctx.go)\<close>

text \<open>
  A turn of the conversation: the model is asked with the transcript and the tools, the tools that it
  calls are run and answered in the transcript, until it calls none or the rounds are used up.  Every
  turn is recorded as a run with the calls it made.  The encoder and decoder of JSON and the text of an
  error are parameters; a context carries at most the id of the conversation.
\<close>

subsection \<open>The conversation of a context\<close>

definition with_session_id :: "string option \<Rightarrow> string \<Rightarrow> string option" where
  "with_session_id ctx sid = (if sid = '''' then ctx else Some sid)"

definition session_id_from_ctx :: "string option \<Rightarrow> string" where
  "session_id_from_ctx ctx = (case ctx of Some sid \<Rightarrow> sid | None \<Rightarrow> '''')"

subsection \<open>The orchestrator\<close>

record tool_codec =
  cd_unmarshal :: "string \<Rightarrow> string + args"
  cd_marshal :: "tool_result \<Rightarrow> string + string"
  cd_error_text :: "go_error \<Rightarrow> string"

record orchestrator =
  or_deps :: deps
  or_codec :: tool_codec
  or_tools :: "(string \<times> tool) list"
  or_system_prompt :: string
  or_max_iterations :: nat

definition new_orchestrator :: "tool_codec \<Rightarrow> deps \<Rightarrow> orchestrator" where
  "new_orchestrator codec dp =
    \<lparr>or_deps = dp, or_codec = codec, or_tools = new_tools,
     or_system_prompt = txt_assistant_1 @ txt_assistant_2 @ txt_assistant_3 @ txt_assistant_4,
     or_max_iterations = 6\<rparr>"

text \<open>The system prompt, the last twenty messages of the conversation, and the new one.\<close>

definition history_limit :: nat where
  "history_limit = 20"

definition recent_history :: "chat_message list \<Rightarrow> chat_message list" where
  "recent_history msgs = drop (length msgs - history_limit) msgs"

definition build_messages :: "orchestrator \<Rightarrow> chat_session \<Rightarrow> string \<Rightarrow> llm_message list" where
  "build_messages orch sess user_msg =
    text_message ''system'' (or_system_prompt orch) #
    map (\<lambda>m. text_message (msg_role m) (msg_content m))
      (filter (\<lambda>m. msg_role m = ''user'' \<or> msg_role m = ''assistant'') (recent_history (sess_messages sess))) @
    [text_message ''user'' user_msg]"

subsection \<open>Asking the model\<close>

text \<open>The last response of the stream, or the first error in it.\<close>

primrec last_response :: "llm_response list \<Rightarrow> llm_response option \<Rightarrow> go_error + llm_response" where
  "last_response [] last_seen =
     (case last_seen of None \<Rightarrow> Inl (ErrText MsgLlmStreamEmpty) | Some r \<Rightarrow> Inr r)"
| "last_response (r # rs) last_seen =
     (case lr_error r of
        Some msg \<Rightarrow> Inl (ErrCmd MsgLlmReturnedError msg)
      | None \<Rightarrow> last_response rs (Some r))"

definition chat_generate :: "orchestrator \<Rightarrow> llm_request \<Rightarrow> llm_response tool_op" where
  "chat_generate orch request s =
    (case call_model (or_deps orch) request s of
       (Inl err, s1) \<Rightarrow> (Inl (ErrCmd MsgLlmCallFailed (llm_error_text err)), s1)
     | (Inr rs, s1) \<Rightarrow> (last_response rs None, s1))"

definition first_content :: "llm_response \<Rightarrow> llm_message option" where
  "first_content r = (case lr_choices r of [] \<Rightarrow> None | msg # _ \<Rightarrow> Some msg)"

subsection \<open>Calling a tool\<close>

definition result_limit :: nat where
  "result_limit = 4000"

definition shorten_result :: "string \<Rightarrow> string" where
  "shorten_result payload =
    (if length payload > result_limit then take result_limit payload @ txt_truncated else payload)"

definition record_call :: "tool_call \<Rightarrow> agent_run \<Rightarrow> agent_run" where
  "record_call call run = run\<lparr>run_tool_calls := run_tool_calls run @ [call]\<rparr>"

definition call_tool ::
  "orchestrator \<Rightarrow> string option \<Rightarrow> tool_request \<Rightarrow> agent_run \<Rightarrow> tool_state \<Rightarrow> (go_error + string) \<times> agent_run \<times> tool_state" where
  "call_tool orch ctx tc run s =
    (let codec = or_codec orch;
         call = \<lparr>tc_name = tq_name tc, tc_arguments_json = tq_arguments tc, tc_result_json = '''',
           tc_error = '''', tc_started_at = ts_now s, tc_finished_at = zero_time\<rparr>
     in case map_of (or_tools orch) (tq_name tc) of
          None \<Rightarrow>
            let err = ErrCmd MsgToolUnknown (tq_name tc)
            in (Inl err, record_call (call\<lparr>tc_error := cd_error_text codec err\<rparr>) run, s)
        | Some handle \<Rightarrow>
            (case tool_call_json (cd_unmarshal codec) handle (or_deps orch) (session_id_from_ctx ctx)
                (tq_arguments tc) s of
               (Inl err, s1) \<Rightarrow> (Inl err, record_call (call\<lparr>tc_error := cd_error_text codec err\<rparr>) run, s1)
             | (Inr result, s1) \<Rightarrow>
                 (case cd_marshal codec result of
                    Inl msg \<Rightarrow> (Inl (ErrCmd MsgToolResultUnserializable msg), run, s1)
                  | Inr payload \<Rightarrow>
                      (Inr (shorten_result payload),
                       record_call (call\<lparr>tc_result_json := payload, tc_finished_at := ts_now s1\<rparr>) run, s1))))"

definition tool_message :: "tool_request \<Rightarrow> string \<Rightarrow> llm_message" where
  "tool_message tc content =
    \<lparr>lm_role = ''tool'', lm_content = content, lm_tool_calls = [], lm_tool_id = tq_id tc, lm_tool_name = tq_name tc\<rparr>"

primrec call_tools ::
  "orchestrator \<Rightarrow> string option \<Rightarrow> tool_request list \<Rightarrow> llm_message list \<times> agent_run \<times> tool_state \<Rightarrow>
    llm_message list \<times> agent_run \<times> tool_state" where
  "call_tools orch ctx [] state = state"
| "call_tools orch ctx (tc # tcs) state =
     (case state of (msgs, run, s) \<Rightarrow>
        case call_tool orch ctx tc run s of (result, run1, s1) \<Rightarrow>
          let content = (case result of
                Inl err \<Rightarrow> txt_tool_failed @ cd_error_text (or_codec orch) err
              | Inr text \<Rightarrow> text)
          in call_tools orch ctx tcs (msgs @ [tool_message tc content], run1, s1))"

subsection \<open>The rounds of a turn\<close>

text \<open>One round: the turn ends with a reply or an error, or goes on with a longer transcript.\<close>

type_synonym turn_state = "llm_message list \<times> agent_run \<times> tool_state"
type_synonym turn_end = "(go_error + string) \<times> agent_run \<times> tool_state"

definition assistant_message :: "string \<Rightarrow> time \<Rightarrow> chat_message" where
  "assistant_message content now =
    \<lparr>msg_id = 0, msg_role = ''assistant'', msg_content = content, msg_created_at = now\<rparr>"

definition chat_round :: "orchestrator \<Rightarrow> string option \<Rightarrow> string \<Rightarrow> turn_state \<Rightarrow> turn_end + turn_state" where
  "chat_round orch ctx sid state =
    (case state of (msgs, run, s) \<Rightarrow>
       case chat_generate orch \<lparr>lq_messages = msgs, lq_tools = map fst (or_tools orch)\<rparr> s of
         (Inl err, s1) \<Rightarrow> Inl (Inl err, run\<lparr>run_status := RunStatusFailed\<rparr>, s1)
       | (Inr resp, s1) \<Rightarrow>
           let run1 = run\<lparr>run_model_used := lr_model resp\<rparr> in
           case first_content resp of
             None \<Rightarrow> Inl (Inl (ErrText MsgLlmEmptyResponse), run1\<lparr>run_status := RunStatusFailed\<rparr>, s1)
           | Some msg \<Rightarrow>
               if lm_tool_calls msg = [] then
                 Inl (Inr (lm_content msg), run1\<lparr>run_status := RunStatusDone\<rparr>,
                   snd (on_db (append_message sid (assistant_message (lm_content msg) (ts_now s1))) s1))
               else Inr (call_tools orch ctx (lm_tool_calls msg) (msgs @ [msg], run1, s1)))"

primrec chat_rounds :: "orchestrator \<Rightarrow> string option \<Rightarrow> string \<Rightarrow> nat \<Rightarrow> turn_state \<Rightarrow> turn_end" where
  "chat_rounds orch ctx sid 0 state =
     (case state of (msgs, run, s) \<Rightarrow> (Inr txt_max_iterations, run\<lparr>run_status := RunStatusDone\<rparr>, s))"
| "chat_rounds orch ctx sid (Suc left) state =
     (case chat_round orch ctx sid state of
        Inl finish \<Rightarrow> finish
      | Inr state1 \<Rightarrow> chat_rounds orch ctx sid left state1)"

subsection \<open>A turn\<close>

definition new_run :: "string \<Rightarrow> string \<Rightarrow> time \<Rightarrow> agent_run" where
  "new_run rid sid now =
    \<lparr>run_id = rid, run_session_id = sid, run_agent_type = ''config_generator'', run_tool_calls = [],
     run_status = RunStatusRunning, run_model_used = '''', run_started_at = now, run_finished_at = zero_time\<rparr>"

text \<open>The deferred end of a run: its finish time, and the update whose result is ignored.\<close>

definition finish_run :: "agent_run \<Rightarrow> tool_state \<Rightarrow> tool_state" where
  "finish_run run s = snd (on_db (update_agent_run (run\<lparr>run_finished_at := ts_now s\<rparr>)) s)"

text \<open>A turn starts with its record and the transcript; it gives the reply and the record as it was last.\<close>

definition turn_start :: "orchestrator \<Rightarrow> chat_session \<Rightarrow> string \<Rightarrow> tool_state \<Rightarrow> turn_end + turn_state" where
  "turn_start orch sess user_msg s =
    (let (rid, s1) = new_ulid (or_deps orch) s; run = new_run rid (sess_id sess) (ts_now s1) in
     case on_db (create_agent_run run) s1 of
       (Inl err, s2) \<Rightarrow> Inl (Inl (ErrWrap MsgCreateRunFailed err), run, s2)
     | (Inr _, s2) \<Rightarrow> Inr (build_messages orch sess user_msg, run, s2))"

definition chat_turn :: "orchestrator \<Rightarrow> string option \<Rightarrow> chat_session \<Rightarrow> string \<Rightarrow> tool_state \<Rightarrow> turn_end" where
  "chat_turn orch ctx0 sess user_msg s =
    (case turn_start orch sess user_msg s of
       Inl finish \<Rightarrow> finish
     | Inr start \<Rightarrow>
         (case chat_rounds orch (with_session_id ctx0 (sess_id sess)) (sess_id sess) (or_max_iterations orch) start of
            (reply, run, s1) \<Rightarrow> (reply, run, finish_run run s1)))"

definition chat :: "orchestrator \<Rightarrow> string option \<Rightarrow> chat_session \<Rightarrow> string \<Rightarrow> string tool_op" where
  "chat orch ctx0 sess user_msg s =
    (case chat_turn orch ctx0 sess user_msg s of (reply, _, s1) \<Rightarrow> (reply, s1))"

section \<open>Lemmas\<close>

subsection \<open>The transcript\<close>

text \<open>The state before round \<open>k\<close>, when the turn gets that far.\<close>

primrec rounds_after :: "orchestrator \<Rightarrow> string option \<Rightarrow> string \<Rightarrow> nat \<Rightarrow> turn_state \<Rightarrow> turn_state option" where
  "rounds_after orch ctx sid 0 state = Some state"
| "rounds_after orch ctx sid (Suc k) state =
     (case chat_round orch ctx sid state of
        Inl _ \<Rightarrow> None
      | Inr state1 \<Rightarrow> rounds_after orch ctx sid k state1)"

text \<open>An assistant message that calls tools, with one answer for every call, in the order of the calls.\<close>

definition answered :: "llm_message \<times> llm_message list \<Rightarrow> bool" where
  "answered r \<longleftrightarrow> (case r of (msg, answers) \<Rightarrow> lm_tool_calls msg \<noteq> [] \<and>
    map (\<lambda>a. (lm_role a, lm_tool_id a, lm_tool_name a)) answers =
    map (\<lambda>tc. (''tool'', tq_id tc, tq_name tc)) (lm_tool_calls msg))"

definition transcript_of :: "(llm_message \<times> llm_message list) list \<Rightarrow> llm_message list" where
  "transcript_of rounds = concat (map (\<lambda>(msg, answers). msg # answers) rounds)"

definition calls_of :: "(llm_message \<times> llm_message list) list \<Rightarrow> (string \<times> string) list" where
  "calls_of rounds =
    concat (map (\<lambda>(msg, _). map (\<lambda>tc. (tq_name tc, tq_arguments tc)) (lm_tool_calls msg)) rounds)"

definition recorded :: "agent_run \<Rightarrow> (string \<times> string) list" where
  "recorded run = map (\<lambda>c. (tc_name c, tc_arguments_json c)) (run_tool_calls run)"

definition serializes :: "tool_codec \<Rightarrow> bool" where
  "serializes codec \<longleftrightarrow> (\<forall>result. \<exists>payload. cd_marshal codec result = Inr payload)"

lemma recorded_simps [simp]:
  "recorded (record_call c run) = recorded run @ [(tc_name c, tc_arguments_json c)]"
  "recorded (run\<lparr>run_status := st\<rparr>) = recorded run"
  "recorded (run\<lparr>run_model_used := mdl\<rparr>) = recorded run"
  "run_session_id (record_call c run) = run_session_id run"
  by (simp_all add: recorded_def record_call_def)

lemma call_tool_recorded:
  assumes "serializes (or_codec orch)" "call_tool orch ctx tc run s = (result, run', s')"
  shows "recorded run' = recorded run @ [(tq_name tc, tq_arguments tc)] \<and> run_session_id run' = run_session_id run"
proof -
  have "cd_marshal (or_codec orch) res \<noteq> Inl e" for res e
    using assms(1) unfolding serializes_def by (metis Inr_not_Inl)
  then show ?thesis
    using assms(2) by (auto simp: call_tool_def Let_def split: option.splits sum.splits prod.splits)
qed

lemma call_tools_answers:
  assumes "serializes (or_codec orch)" "call_tools orch ctx tcs (msgs, run, s) = (msgs', run', s')"
  shows "\<exists>answers. msgs' = msgs @ answers \<and>
    map (\<lambda>a. (lm_role a, lm_tool_id a, lm_tool_name a)) answers = map (\<lambda>tc. (''tool'', tq_id tc, tq_name tc)) tcs \<and>
    recorded run' = recorded run @ map (\<lambda>tc. (tq_name tc, tq_arguments tc)) tcs \<and>
    run_session_id run' = run_session_id run"
  using assms(2)
proof (induction tcs arbitrary: msgs run s)
  case (Cons tc tcs)
  obtain result run1 s1 where call: "call_tool orch ctx tc run s = (result, run1, s1)"
    by (cases "call_tool orch ctx tc run s")
  obtain content where "call_tools orch ctx tcs (msgs @ [tool_message tc content], run1, s1) = (msgs', run', s')"
    using Cons.prems call by (auto simp: Let_def)
  from Cons.IH [OF this] obtain answers where
    "msgs' = msgs @ tool_message tc content # answers \<and>
     map (\<lambda>a. (lm_role a, lm_tool_id a, lm_tool_name a)) answers = map (\<lambda>tc. (''tool'', tq_id tc, tq_name tc)) tcs \<and>
     recorded run' = recorded run1 @ map (\<lambda>tc. (tq_name tc, tq_arguments tc)) tcs \<and>
     run_session_id run' = run_session_id run1"
    by auto
  with call_tool_recorded [OF assms(1) call] show ?case
    by (intro exI [of _ "tool_message tc content # answers"]) (simp add: tool_message_def)
qed simp

lemma chat_round_goes_on:
  assumes "serializes (or_codec orch)" "chat_round orch ctx sid (msgs, run, s) = Inr (msgs', run', s')"
  shows "\<exists>r. answered r \<and> msgs' = msgs @ transcript_of [r] \<and> recorded run' = recorded run @ calls_of [r] \<and>
    run_session_id run' = run_session_id run"
proof -
  from assms(2) obtain resp :: llm_response and s1 msg where "lm_tool_calls msg \<noteq> []"
    and call: "call_tools orch ctx (lm_tool_calls msg) (msgs @ [msg], run\<lparr>run_model_used := lr_model resp\<rparr>, s1) =
      (msgs', run', s')"
    by (auto simp: chat_round_def Let_def split: sum.splits prod.splits option.splits if_splits)
  with call_tools_answers [OF assms(1) call] show ?thesis
    by (auto simp: answered_def transcript_of_def calls_of_def)
qed

text \<open>The transcript with which the model is asked in round \<open>k\<close>.\<close>

definition asks :: "orchestrator \<Rightarrow> string option \<Rightarrow> string \<Rightarrow> turn_state \<Rightarrow> nat \<Rightarrow> llm_message list \<Rightarrow> bool" where
  "asks orch ctx sid state k msgs \<longleftrightarrow> (\<exists>run s. rounds_after orch ctx sid k state = Some (msgs, run, s))"

lemma asks_simps:
  "asks orch ctx sid (msgs, run, s) 0 msgs"
  "chat_round orch ctx sid state = Inr state1 \<Longrightarrow> asks orch ctx sid state (Suc k) msgs' = asks orch ctx sid state1 k msgs'"
  by (simp_all add: asks_def)

lemma rounds_after_transcript:
  assumes "serializes (or_codec orch)" "rounds_after orch ctx sid k (msgs0, run0, s0) = Some (msgs, run, s)"
  shows "\<exists>rounds. length rounds = k \<and> list_all answered rounds \<and>
    (\<forall>j\<le>k. asks orch ctx sid (msgs0, run0, s0) j (msgs0 @ transcript_of (take j rounds))) \<and>
    recorded run = recorded run0 @ calls_of rounds \<and> run_session_id run = run_session_id run0"
  using assms(2)
proof (induction k arbitrary: msgs0 run0 s0)
  case (Suc k)
  then obtain state1 where round: "chat_round orch ctx sid (msgs0, run0, s0) = Inr state1"
    and after: "rounds_after orch ctx sid k state1 = Some (msgs, run, s)"
    by (auto split: sum.splits)
  obtain msgs1 run1 s1 where state1: "state1 = (msgs1, run1, s1)" by (cases state1)
  obtain r where r: "answered r" "msgs1 = msgs0 @ transcript_of [r]" "recorded run1 = recorded run0 @ calls_of [r]"
      "run_session_id run1 = run_session_id run0"
    using chat_round_goes_on [OF assms(1)] round state1 by blast
  obtain rounds where rounds: "length rounds = k" "list_all answered rounds"
      "\<forall>j\<le>k. asks orch ctx sid state1 j (msgs1 @ transcript_of (take j rounds))"
      "recorded run = recorded run1 @ calls_of rounds" "run_session_id run = run_session_id run1"
    using Suc.IH [OF after [unfolded state1]] state1 by blast
  have "asks orch ctx sid (msgs0, run0, s0) j (msgs0 @ transcript_of (take j (r # rounds)))" if "j \<le> Suc k" for j
  proof (cases j)
    case 0
    then show ?thesis by (simp add: asks_simps transcript_of_def)
  next
    case (Suc i)
    with that rounds(3) r(2) show ?thesis
      by (simp add: asks_simps(2) [OF round] transcript_of_def)
  qed
  with r rounds show ?case
    by (intro exI [of _ "r # rounds"]) (simp add: calls_of_def)
qed (auto simp: asks_simps transcript_of_def calls_of_def)

lemma chat_rounds_end:
  "chat_rounds orch ctx sid n state = finish \<Longrightarrow>
    (\<exists>k<n. \<exists>state1. rounds_after orch ctx sid k state = Some state1 \<and> chat_round orch ctx sid state1 = Inl finish) \<or>
    (\<exists>msgs run s. rounds_after orch ctx sid n state = Some (msgs, run, s) \<and>
      finish = (Inr txt_max_iterations, run\<lparr>run_status := RunStatusDone\<rparr>, s))"
proof (induction n arbitrary: state)
  case 0
  then show ?case by (cases state) auto
next
  case (Suc n)
  show ?case
  proof (cases "chat_round orch ctx sid state")
    case (Inl fin)
    with Suc.prems show ?thesis by (intro disjI1 exI [of _ 0]) simp
  next
    case (Inr state1)
    with Suc.prems Suc.IH [of state1] show ?thesis
      by (auto intro: exI [of _ "Suc k" for k])
  qed
qed

lemma chat_round_ends:
  assumes "chat_round orch ctx sid (msgs, run, s) = Inl (reply, run', s')"
  shows "recorded run' = recorded run \<and> run_session_id run' = run_session_id run \<and>
    run_status run' = (case reply of Inl _ \<Rightarrow> RunStatusFailed | Inr _ \<Rightarrow> RunStatusDone)"
  using assms by (auto simp: chat_round_def Let_def split: sum.splits prod.splits option.splits if_splits)

subsection \<open>Approval\<close>

definition approves_in :: "agent_run \<Rightarrow> bool" where
  "approves_in run \<longleftrightarrow> ''approve_task'' \<in> fst ` set (recorded run)"

lemma gated_chat_writes:
  "gated s (snd (on_db (append_message sid m) s))"
  "gated s (snd (on_db (create_agent_run run) s))"
  "gated s (finish_run run s)"
proof -
  show "gated s (snd (on_db (append_message sid m) s))"
    by (rule gated_on_db) (unfold append_message_def, rule exec_ctx_keeps [OF stored_task_fault_blind], rule refl,
      auto simp: Let_def stored_task_def [abs_def])
  show "gated s (snd (on_db (create_agent_run run) s))"
    by (rule gated_on_db) (unfold create_agent_run_def, rule exec_direct_keeps [OF stored_task_fault_blind], rule refl,
      auto simp: stored_task_def [abs_def] split: sum.splits)
  show "gated s (finish_run run s)"
    unfolding finish_run_def
    by (rule gated_on_db) (unfold update_agent_run_def, rule exec_direct_keeps [OF stored_task_fault_blind], rule refl,
      auto simp: stored_task_def [abs_def])
qed

lemma chat_round_recorded:
  assumes "serializes (or_codec orch)" "chat_round orch ctx sid (msgs, run, s) = Inr (msgs', run', s')"
  shows "set (recorded run) \<subseteq> set (recorded run')"
  using chat_round_goes_on [OF assms] by auto

lemma rounds_after_Suc:
  "rounds_after orch ctx sid k state = Some state1 \<Longrightarrow>
    rounds_after orch ctx sid (Suc k) state = (case chat_round orch ctx sid state1 of Inl _ \<Rightarrow> None | Inr state2 \<Rightarrow> Some state2)"
proof (induction k arbitrary: state)
  case (Suc k)
  then obtain state2 where round: "chat_round orch ctx sid state = Inr state2"
    and after: "rounds_after orch ctx sid k state2 = Some state1"
    by (auto split: sum.splits)
  have "rounds_after orch ctx sid (Suc (Suc k)) state = rounds_after orch ctx sid (Suc k) state2"
    by (subst rounds_after.simps(2)) (simp add: round)
  then show ?case unfolding Suc.IH [OF after] .
qed (auto split: sum.split)

lemma turn_last_round:
  assumes "chat_rounds orch ctx sid n start = (reply, run, s')"
  obtains k msgs1 run1 s1 where "k \<le> n" "rounds_after orch ctx sid k start = Some (msgs1, run1, s1)"
    "if k = n then reply = Inr txt_max_iterations else \<exists>fin. chat_round orch ctx sid (msgs1, run1, s1) = Inl fin"
    "recorded run = recorded run1" "run_session_id run = run_session_id run1"
    "run_status run = (case reply of Inl _ \<Rightarrow> RunStatusFailed | Inr _ \<Rightarrow> RunStatusDone)"
  using chat_rounds_end [OF assms]
proof (elim disjE exE conjE)
  fix k state1
  assume *: "k < n" "rounds_after orch ctx sid k start = Some state1" "chat_round orch ctx sid state1 = Inl (reply, run, s')"
  obtain msgs1 run1 s1 where state1: "state1 = (msgs1, run1, s1)" by (cases state1)
  with chat_round_ends [of orch ctx sid msgs1 run1 s1 reply run s'] * show thesis
    by (intro that [of k msgs1 run1 s1]) auto
next
  fix msgs1 run1 s1
  assume "rounds_after orch ctx sid n start = Some (msgs1, run1, s1)"
    "(reply, run, s') = (Inr txt_max_iterations, run1\<lparr>run_status := RunStatusDone\<rparr>, s1)"
  then show thesis by (intro that [of n msgs1 run1 s1]) simp_all
qed

text \<open>How a turn runs: its record is created, then the rounds go on, then the record is completed.\<close>

lemma turn_start_cases:
  assumes "turn_start orch sess m s = r"
  obtains (refused) run err s1 where "r = Inl (Inl (ErrWrap MsgCreateRunFailed err), run, s1)" "gated s s1" "recorded run = []"
  | (started) run s1 where "r = Inr (build_messages orch sess m, run, s1)" "gated s s1" "recorded run = []"
      "run_session_id run = sess_id sess"
proof -
  obtain rid s1 where rid: "new_ulid (or_deps orch) s = (rid, s1)" by (cases "new_ulid (or_deps orch) s")
  let ?run = "new_run rid (sess_id sess) (ts_now s1)"
  obtain made s2 where db: "on_db (create_agent_run ?run) s1 = (made, s2)" by (cases "on_db (create_agent_run ?run) s1")
  have "gated s s2"
    using gated_new_ulid [OF rid] gated_chat_writes(2) [of s1 ?run] db gated_trans by simp
  moreover have "recorded ?run = []" "run_session_id ?run = sess_id sess"
    by (simp_all add: recorded_def new_run_def)
  ultimately show thesis
    using assms rid db refused started by (cases made) (auto simp: turn_start_def)
qed

subsection \<open>A model that does not approve\<close>

text \<open>No answer of the model calls the approval tool.\<close>

definition asks_no_approval :: "deps \<Rightarrow> bool" where
  "asks_no_approval dp \<longleftrightarrow> (\<forall>n q t u. case fst (dp_model dp n q t u) of
     Inl _ \<Rightarrow> True
   | Inr rs \<Rightarrow> list_all (\<lambda>r. list_all (\<lambda>msg. list_all (\<lambda>tc. tq_name tc \<noteq> ''approve_task'') (lm_tool_calls msg)) (lr_choices r)) rs)"

lemma last_response_in: "last_response rs seen = Inr r \<Longrightarrow> r \<in> set rs \<or> seen = Some r"
  by (induction rs arbitrary: seen) (auto split: option.splits)

lemma chat_generate_asks:
  assumes "asks_no_approval (or_deps orch)" "chat_generate orch request s = (Inr resp, s')" "first_content resp = Some msg"
  shows "list_all (\<lambda>tc. tq_name tc \<noteq> ''approve_task'') (lm_tool_calls msg)"
proof -
  obtain rs where call: "call_model (or_deps orch) request s = (Inr rs, s')" and "last_response rs None = Inr resp"
    using assms(2) by (auto simp: chat_generate_def split: sum.splits prod.splits)
  then have "resp \<in> set rs" using last_response_in by blast
  moreover have out: "fst (dp_model (or_deps orch) (ts_calls s) request (ts_now s) (ts_opamp s)) = Inr rs"
    using call by (auto simp: call_model_def split: prod.splits)
  have "list_all (\<lambda>r. list_all (\<lambda>msg. list_all (\<lambda>tc. tq_name tc \<noteq> ''approve_task'') (lm_tool_calls msg)) (lr_choices r)) rs"
    using assms(1) [unfolded asks_no_approval_def, rule_format, of "ts_calls s" request "ts_now s" "ts_opamp s"]
    unfolding out by simp
  ultimately have "list_all (\<lambda>msg. list_all (\<lambda>tc. tq_name tc \<noteq> ''approve_task'') (lm_tool_calls msg)) (lr_choices resp)"
    by (simp add: list_all_iff)
  moreover have "msg \<in> set (lr_choices resp)"
    using assms(3) by (auto simp: first_content_def split: list.splits)
  ultimately show ?thesis by (simp add: list_all_iff)
qed

subsection \<open>A turn keeps the gate\<close>

context delivery_gate
begin

lemmas held_chat_writes = gated_chat_writes [THEN held_gated]

lemma held_call_tool:
  assumes "dp_require_approval (or_deps orch)" "model_keeps R (or_deps orch)" "or_tools orch = new_tools"
    and "tq_name tc \<noteq> ''approve_task''" "call_tool orch ctx tc run s = (result, run', s')"
  shows "held R s s'"
proof (cases "map_of new_tools (tq_name tc)")
  case None
  with assms(3,5) show ?thesis by (simp add: call_tool_def Let_def)
next
  case (Some handle)
  let ?call = "tool_call_json (cd_unmarshal (or_codec orch)) handle (or_deps orch) (session_id_from_ctx ctx) (tq_arguments tc)"
  have "held_op R ?call"
    by (rule held_tool_call [OF assms(1,2) map_of_SomeD [OF Some] assms(4)])
  then have "held R s (snd (?call s))" by (simp add: held_op_def)
  with Some assms(3,5) show ?thesis
    by (cases "?call s") (auto simp: call_tool_def Let_def split: sum.splits)
qed

lemma call_tools_held:
  assumes "dp_require_approval (or_deps orch)" "model_keeps R (or_deps orch)" "or_tools orch = new_tools"
    and "serializes (or_codec orch)" "call_tools orch ctx tcs (msgs, run, s) = (msgs', run', s')"
  shows "held R s s' \<or> approves_in run'"
  using assms(5)
proof (induction tcs arbitrary: msgs run s)
  case (Cons tc tcs)
  obtain result run1 s1 where call: "call_tool orch ctx tc run s = (result, run1, s1)"
    by (cases "call_tool orch ctx tc run s")
  obtain content where rest: "call_tools orch ctx tcs (msgs @ [tool_message tc content], run1, s1) = (msgs', run', s')"
    using Cons.prems call by (auto simp: Let_def)
  have kept: "recorded run' = recorded run @ (tq_name tc, tq_arguments tc) # map (\<lambda>tc. (tq_name tc, tq_arguments tc)) tcs"
    using call_tool_recorded [OF assms(4) call] call_tools_answers [OF assms(4) rest] by auto
  show ?case
  proof (cases "tq_name tc = ''approve_task''")
    case True
    with kept show ?thesis by (simp add: approves_in_def)
  next
    case False
    from held_call_tool [OF assms(1-3) False call] Cons.IH [OF rest] show ?thesis
      by (blast intro: held_trans)
  qed
qed simp

lemma held_chat_generate:
  assumes "model_keeps R (or_deps orch)" "chat_generate orch request s = (r, s')"
  shows "held R s s'"
proof -
  obtain out s1 where call: "call_model (or_deps orch) request s = (out, s1)"
    by (cases "call_model (or_deps orch) request s")
  with assms(2) have "s' = s1" by (cases out) (auto simp: chat_generate_def)
  with held_call_model [OF assms(1) call] show ?thesis by simp
qed

lemma chat_round_held:
  assumes "dp_require_approval (or_deps orch)" "model_keeps R (or_deps orch)" "or_tools orch = new_tools"
    and "serializes (or_codec orch)"
  shows "chat_round orch ctx sid (msgs, run, s) = Inr (msgs', run', s') \<Longrightarrow> held R s s' \<or> approves_in run'"
    and "chat_round orch ctx sid (msgs, run, s) = Inl (reply, run', s') \<Longrightarrow> held R s s'"
proof -
  obtain out s1 where gen: "chat_generate orch \<lparr>lq_messages = msgs, lq_tools = map fst (or_tools orch)\<rparr> s = (out, s1)"
    by (cases "chat_generate orch \<lparr>lq_messages = msgs, lq_tools = map fst (or_tools orch)\<rparr> s")
  note first = held_chat_generate [OF assms(2) gen]
  show "held R s s' \<or> approves_in run'" if "chat_round orch ctx sid (msgs, run, s) = Inr (msgs', run', s')"
    using that gen first call_tools_held [OF assms] held_trans
    by (auto simp: chat_round_def Let_def split: sum.splits option.splits if_splits) blast
  show "held R s s'" if "chat_round orch ctx sid (msgs, run, s) = Inl (reply, run', s')"
    using that gen first held_trans [OF first held_chat_writes(1)]
    by (auto simp: chat_round_def Let_def split: sum.splits option.splits if_splits)
qed

lemma rounds_after_held:
  assumes "dp_require_approval (or_deps orch)" "model_keeps R (or_deps orch)" "or_tools orch = new_tools"
    and "serializes (or_codec orch)"
  shows "rounds_after orch ctx sid k (msgs0, run0, s0) = Some (msgs, run, s) \<Longrightarrow>
    (held R s0 s \<or> approves_in run) \<and> set (recorded run0) \<subseteq> set (recorded run)"
proof (induction k arbitrary: msgs0 run0 s0)
  case (Suc k)
  then obtain msgs1 run1 s1 where round: "chat_round orch ctx sid (msgs0, run0, s0) = Inr (msgs1, run1, s1)"
    and after: "rounds_after orch ctx sid k (msgs1, run1, s1) = Some (msgs, run, s)"
    by (auto split: sum.splits)
  have grows: "set (recorded run1) \<subseteq> set (recorded run)" "held R s1 s \<or> approves_in run"
    using Suc.IH [OF after] by simp_all
  moreover have "held R s0 s1 \<or> approves_in run"
    using chat_round_held(1) [OF assms round] grows(1) by (auto simp: approves_in_def)
  ultimately show ?case
    using chat_round_recorded [OF assms(4) round] held_trans by blast
qed auto

lemma chat_rounds_held:
  assumes "dp_require_approval (or_deps orch)" "model_keeps R (or_deps orch)" "or_tools orch = new_tools"
    and "serializes (or_codec orch)" "chat_rounds orch ctx sid n (msgs, run, s) = (reply, run', s')"
  shows "held R s s' \<or> approves_in run'"
  using chat_rounds_end [OF assms(5)]
proof (elim disjE exE conjE)
  fix k state1
  assume after: "rounds_after orch ctx sid k (msgs, run, s) = Some state1"
    and fin: "chat_round orch ctx sid state1 = Inl (reply, run', s')"
  obtain msgs1 run1 s1 where state1: "state1 = (msgs1, run1, s1)" by (cases state1)
  show ?thesis
    using rounds_after_held [OF assms(1-4) after [unfolded state1]] chat_round_held(2) [OF assms(1-4) fin [unfolded state1]]
      chat_round_ends [OF fin [unfolded state1]] held_trans
    by (auto simp: approves_in_def)
next
  fix msgs1 run1 s1
  assume "rounds_after orch ctx sid n (msgs, run, s) = Some (msgs1, run1, s1)"
    and "(reply, run', s') = (Inr txt_max_iterations, run1\<lparr>run_status := RunStatusDone\<rparr>, s1)"
  then show ?thesis
    using rounds_after_held [OF assms(1-4)] by (auto simp: approves_in_def)
qed

lemma chat_turn_held:
  assumes "dp_require_approval (or_deps orch)" "model_keeps R (or_deps orch)" "or_tools orch = new_tools"
    and "serializes (or_codec orch)" "chat_turn orch ctx0 sess m s = (reply, run, s')"
  shows "held R s s' \<or> approves_in run"
proof -
  obtain r where r: "turn_start orch sess m s = r" by blast
  then show ?thesis
  proof (cases rule: turn_start_cases)
    case (refused run0 err s1)
    with assms(5) r show ?thesis by (simp add: chat_turn_def held_gated)
  next
    case (started run0 s1)
    let ?rounds = "chat_rounds orch (with_session_id ctx0 (sess_id sess)) (sess_id sess) (or_max_iterations orch)
      (build_messages orch sess m, run0, s1)"
    obtain s3 where rounds: "?rounds = (reply, run, s3)" and s': "s' = finish_run run s3"
      using assms(5) started r by (auto simp: chat_turn_def split: prod.splits)
    from chat_rounds_held [OF assms(1-4) rounds] have "held R s s3 \<or> approves_in run"
      using held_trans [OF held_gated [OF started(2)]] by auto
    then show ?thesis
      using held_trans [OF _ held_chat_writes(3)] unfolding s' by blast
  qed
qed

lemma call_tools_unapproved:
  assumes "dp_require_approval (or_deps orch)" "model_keeps R (or_deps orch)" "or_tools orch = new_tools"
    and "list_all (\<lambda>tc. tq_name tc \<noteq> ''approve_task'') tcs" "call_tools orch ctx tcs (msgs, run, s) = (msgs', run', s')"
  shows "held R s s'"
  using assms(4,5)
proof (induction tcs arbitrary: msgs run s)
  case (Cons tc tcs)
  obtain result run1 s1 where call: "call_tool orch ctx tc run s = (result, run1, s1)"
    by (cases "call_tool orch ctx tc run s")
  obtain content where "call_tools orch ctx tcs (msgs @ [tool_message tc content], run1, s1) = (msgs', run', s')"
    using Cons.prems(2) call by (auto simp: Let_def)
  then have "held R s1 s'" using Cons.IH Cons.prems(1) by simp
  moreover have "held R s s1"
    using held_call_tool [OF assms(1-3) _ call] Cons.prems(1) by simp
  ultimately show ?case by (rule held_trans [rotated])
qed simp

lemma chat_round_unapproved:
  assumes "dp_require_approval (or_deps orch)" "model_keeps R (or_deps orch)" "or_tools orch = new_tools"
    and "asks_no_approval (or_deps orch)" "chat_round orch ctx sid (msgs, run, s) = Inr (msgs', run', s')"
  shows "held R s s'"
proof -
  obtain resp :: llm_response and s1 msg where
    gen: "chat_generate orch \<lparr>lq_messages = msgs, lq_tools = map fst (or_tools orch)\<rparr> s = (Inr resp, s1)"
    and msg: "first_content resp = Some msg"
    and call: "call_tools orch ctx (lm_tool_calls msg) (msgs @ [msg], run\<lparr>run_model_used := lr_model resp\<rparr>, s1) =
      (msgs', run', s')"
    using assms(5) by (auto simp: chat_round_def Let_def split: sum.splits prod.splits option.splits if_splits)
  from call_tools_unapproved [OF assms(1-3) chat_generate_asks [OF assms(4) gen msg] call]
    held_chat_generate [OF assms(2) gen] held_trans
  show ?thesis by blast
qed

lemma chat_rounds_unapproved:
  assumes "dp_require_approval (or_deps orch)" "model_keeps R (or_deps orch)" "or_tools orch = new_tools"
    and "asks_no_approval (or_deps orch)"
  shows "chat_rounds orch ctx sid n (msgs, run, s) = (reply, run', s') \<Longrightarrow> held R s s'"
proof (induction n arbitrary: msgs run s)
  case (Suc n)
  show ?case
  proof (cases "chat_round orch ctx sid (msgs, run, s)")
    case (Inl fin)
    with Suc.prems have "chat_round orch ctx sid (msgs, run, s) = Inl (reply, run', s')" by simp
    obtain out s1 where gen: "chat_generate orch \<lparr>lq_messages = msgs, lq_tools = map fst (or_tools orch)\<rparr> s = (out, s1)"
      by (cases "chat_generate orch \<lparr>lq_messages = msgs, lq_tools = map fst (or_tools orch)\<rparr> s")
    with \<open>chat_round orch ctx sid (msgs, run, s) = Inl (reply, run', s')\<close> show ?thesis
      using held_chat_generate [OF assms(2) gen] held_trans [OF held_chat_generate [OF assms(2) gen] held_chat_writes(1)]
      by (auto simp: chat_round_def Let_def split: sum.splits option.splits if_splits)
  next
    case (Inr state1)
    obtain msgs1 run1 s1 where "state1 = (msgs1, run1, s1)" by (cases state1)
    with Inr Suc.prems Suc.IH [of msgs1 run1 s1] have "held R s1 s'" by simp
    moreover have "held R s s1" using chat_round_unapproved [OF assms] Inr \<open>state1 = (msgs1, run1, s1)\<close> by simp
    ultimately show ?thesis by (rule held_trans [rotated])
  qed
qed simp

lemma held_chat:
  assumes "dp_require_approval (or_deps orch)" "model_keeps R (or_deps orch)" "or_tools orch = new_tools"
    and "asks_no_approval (or_deps orch)"
  shows "held_op R (chat orch ctx0 sess m)"
proof -
  have "held R s (snd (chat orch ctx0 sess m s))" for s
  proof -
    obtain r where r: "turn_start orch sess m s = r" by blast
    then show ?thesis
    proof (cases rule: turn_start_cases)
      case (refused run0 err s1)
      with r show ?thesis by (simp add: chat_def chat_turn_def held_gated)
    next
      case (started run0 s1)
      let ?rounds = "chat_rounds orch (with_session_id ctx0 (sess_id sess)) (sess_id sess) (or_max_iterations orch)
        (build_messages orch sess m, run0, s1)"
      obtain reply run s3 where rounds: "?rounds = (reply, run, s3)" by (cases ?rounds)
      with started r have "snd (chat orch ctx0 sess m s) = finish_run run s3"
        by (simp add: chat_def chat_turn_def)
      with held_trans [OF held_gated [OF started(2)] held_trans [OF chat_rounds_unapproved [OF assms rounds] held_chat_writes(3)]]
      show ?thesis by simp
    qed
  qed
  then show ?thesis by (simp add: held_op_def)
qed

end

section \<open>Properties\<close>

text \<open>C7: With approval required, a turn of the conversation sends nothing to a Collector, queues nothing and brings
  no task into delivery, whatever the model answers, unless the model itself called the approval tool,
  and then the record of the turn has that call.\<close>

theorem chat_delivers_by_approval_only:
  assumes "dp_require_approval dp" "idle_model dp" "serializes codec"
    and "chat_turn (new_orchestrator codec dp) ctx sess m s = (reply, run, s')"
  shows "os_sent (ts_opamp s') = os_sent (ts_opamp s) \<and> os_pending (ts_opamp s') = os_pending (ts_opamp s) \<and>
      (\<forall>k t'. stored_task (tdb s') k = Some t' \<longrightarrow> t_status t' \<in> {TaskStatusApplying, TaskStatusDone} \<longrightarrow>
        (\<exists>t. stored_task (tdb s) k = Some t \<and> t_status t = t_status t')) \<or>
    ''approve_task'' \<in> tc_name ` set (run_tool_calls run)"
proof -
  let ?o = "new_orchestrator codec dp"
  have "dp_require_approval (or_deps ?o)" "model_keeps fleet_untouched (or_deps ?o)" "or_tools ?o = new_tools"
    "serializes (or_codec ?o)"
    using assms(1-3) by (simp_all add: new_orchestrator_def idle_model_keeps)
  from strict.chat_turn_held [OF this assms(4)] show ?thesis
    unfolding held_strict gated_def approves_in_def recorded_def by (auto simp: image_image)
qed

text \<open>C16: A turn asks the model at most six times, each time with the whole transcript so far: the system prompt, the
  recent history, the new message, and after it for every earlier round the message with its tool calls
  followed by one answer per call, in order and with the id of the call.  The record of the turn has
  exactly these calls, and says failed exactly when the turn ends in an error.\<close>

theorem turn_transcript:
  assumes "serializes (or_codec orch)" "or_max_iterations orch = 6" "sid = sess_id sess"
    and "turn_start orch sess m s = Inr start" "chat_turn orch ctx0 sess m s = (reply, run, s')"
  shows "\<exists>rounds. length rounds \<le> 6 \<and> list_all answered rounds \<and>
      (\<forall>j \<le> length rounds. j < 6 \<longrightarrow>
        asks orch (with_session_id ctx0 sid) sid start j (build_messages orch sess m @ transcript_of (take j rounds))) \<and>
      (if length rounds = 6 then reply = Inr txt_max_iterations
       else \<forall>msgs. \<not> asks orch (with_session_id ctx0 sid) sid start (Suc (length rounds)) msgs) \<and>
      recorded run = calls_of rounds \<and> run_session_id run = sid \<and>
      run_status run = (case reply of Inl _ \<Rightarrow> RunStatusFailed | Inr _ \<Rightarrow> RunStatusDone)"
proof -
  obtain run0 s2 where start: "start = (build_messages orch sess m, run0, s2)" "recorded run0 = []"
      "run_session_id run0 = sid"
    using assms(3,4) by (cases rule: turn_start_cases [OF assms(4)]) auto
  let ?ctx = "with_session_id ctx0 sid"
  obtain s3 where "chat_rounds orch ?ctx sid 6 start = (reply, run, s3)"
    using assms(2-5) by (auto simp: chat_turn_def split: prod.splits)
  then obtain k msgs2 run2 s4 where k: "k \<le> 6" "rounds_after orch ?ctx sid k start = Some (msgs2, run2, s4)"
      "if k = 6 then reply = Inr txt_max_iterations else \<exists>fin. chat_round orch ?ctx sid (msgs2, run2, s4) = Inl fin"
      "recorded run = recorded run2" "run_session_id run = run_session_id run2"
      "run_status run = (case reply of Inl _ \<Rightarrow> RunStatusFailed | Inr _ \<Rightarrow> RunStatusDone)"
    by (rule turn_last_round)
  obtain rounds where rounds: "length rounds = k" "list_all answered rounds"
      "\<forall>j\<le>k. asks orch ?ctx sid start j (build_messages orch sess m @ transcript_of (take j rounds))"
      "recorded run2 = calls_of rounds" "run_session_id run2 = sid"
    using rounds_after_transcript [OF assms(1) k(2) [unfolded start(1)]] start by auto
  have "\<not> asks orch ?ctx sid start (Suc k) msgs" if "chat_round orch ?ctx sid (msgs2, run2, s4) = Inl fin" for msgs fin
    using that unfolding asks_def rounds_after_Suc [OF k(2)] by simp
  with k rounds show ?thesis
    by (intro exI [of _ rounds]) auto
qed

section \<open>A sample turn\<close>

text \<open>A model that first lists the Collectors and then answers.\<close>

definition listing_answer :: "nat \<Rightarrow> llm_message" where
  "listing_answer n = (text_message ''assistant'' ''ok'')\<lparr>lm_tool_calls :=
    (if n = 0 then [\<lparr>tq_id = ''1'', tq_name = ''list_collectors'', tq_arguments = ''''\<rparr>] else [])\<rparr>"

definition asking_deps :: deps where
  "asking_deps = sample_deps\<lparr>dp_model :=
    (\<lambda>n q t u. (Inr [\<lparr>lr_error = None, lr_choices = [listing_answer n], lr_model = ''m''\<rparr>], 1, u))\<rparr>"

definition plain_codec :: tool_codec where
  "plain_codec = \<lparr>cd_unmarshal = (\<lambda>_. Inr Map.empty), cd_marshal = (\<lambda>_. Inr ''[]''), cd_error_text = (\<lambda>_. '''')\<rparr>"

definition sample_session :: chat_session where
  "sample_session = \<lparr>sess_id = ''s'', sess_messages = [], sess_created_at = 0\<rparr>"

abbreviation sample_orch :: orchestrator where
  "sample_orch \<equiv> new_orchestrator plain_codec asking_deps"

abbreviation sample_turn :: turn_end where
  "sample_turn \<equiv> chat_turn sample_orch None sample_session ''hi'' (sample_state empty_db)"

lemma asking_idle: "idle_model asking_deps" "dp_require_approval asking_deps" "serializes plain_codec"
  by (simp_all add: idle_model_def asking_deps_def sample_deps_def serializes_def plain_codec_def)

lemma sample_round:
  "chat_round (new_orchestrator plain_codec asking_deps) ctx sid (msgs, run, s) =
    (let s1 = s\<lparr>ts_now := ts_now s + 1, ts_calls := ts_calls s + 1\<rparr>; run1 = run\<lparr>run_model_used := ''m''\<rparr> in
     if ts_calls s = 0 then Inr (call_tools (new_orchestrator plain_codec asking_deps) ctx (lm_tool_calls (listing_answer 0))
       (msgs @ [listing_answer 0], run1, s1))
     else Inl (Inr ''ok'', run1\<lparr>run_status := RunStatusDone\<rparr>,
       snd (on_db (append_message sid (assistant_message ''ok'' (ts_now s1))) s1)))"
  by (simp add: chat_round_def chat_generate_def call_model_def asking_deps_def new_orchestrator_def first_content_def
      listing_answer_def text_message_def Let_def)

lemma sample_call:
  assumes "db_faults (tdb s) = []" "db_collectors (tdb s) = []"
  shows "call_tools (new_orchestrator plain_codec asking_deps) ctx (lm_tool_calls (listing_answer 0)) (msgs, run, s) =
    (msgs @ [tool_message (hd (lm_tool_calls (listing_answer 0))) ''[]''],
     record_call \<lparr>tc_name = ''list_collectors'', tc_arguments_json = '''', tc_result_json = ''[]'', tc_error = '''',
       tc_started_at = ts_now s, tc_finished_at = ts_now s\<rparr> run, s)"
  using assms
  by (simp add: listing_answer_def call_tool_def new_orchestrator_def new_tools_def plain_codec_def tool_call_json_def
      handle_list_collectors_def on_db_eq list_collectors_def and_then_def query_healthy ret_def Let_def shorten_result_def
      result_limit_def paged_def get_string_def)

lemma sample_start:
  obtains run s where "turn_start sample_orch sample_session ''hi'' (sample_state empty_db) =
      Inr (build_messages sample_orch sample_session ''hi'', run, s)"
    "recorded run = []" "db_faults (tdb s) = []" "db_collectors (tdb s) = []" "ts_calls s = 0"
  by (simp add: turn_start_def new_ulid_def sample_state_def new_opamp_def on_db_eq create_agent_run_def exec_direct_healthy
      empty_db_def insert_unique_def new_run_def recorded_def Let_def
      new_orchestrator_def asking_deps_def sample_deps_def)

lemma sample_turn_run:
  "\<exists>run s. sample_turn = (Inr ''ok'', run, s) \<and> recorded run = [(''list_collectors'', '''')]"
proof (rule sample_start)
  fix run s
  assume *: "turn_start sample_orch sample_session ''hi'' (sample_state empty_db) =
      Inr (build_messages sample_orch sample_session ''hi'', run, s)"
    "recorded run = []" "db_faults (tdb s) = []" "db_collectors (tdb s) = []" "ts_calls s = 0"
  have six: "or_max_iterations sample_orch = 6" by (simp add: new_orchestrator_def)
  show ?thesis
    using * by (simp add: chat_turn_def six eval_nat_numeral sample_round sample_call Let_def)
qed

theorem chat_delivers_by_approval_only_witness:
  "os_sent (ts_opamp (snd (snd sample_turn))) = [] \<and> os_pending (ts_opamp (snd (snd sample_turn))) = Map.empty"
proof -
  obtain run s where turn: "sample_turn = (Inr ''ok'', run, s)" "recorded run = [(''list_collectors'', '''')]"
    using sample_turn_run by blast
  then have "''approve_task'' \<notin> tc_name ` set (run_tool_calls run)"
    by (auto simp: recorded_def)
  with chat_delivers_by_approval_only [OF asking_idle(2,1,3) turn(1)] turn(1) show ?thesis
    by (simp add: sample_state_def new_opamp_def)
qed

theorem turn_transcript_witness:
  "\<exists>rounds start. length rounds = 1 \<and> list_all answered rounds \<and> calls_of rounds = [(''list_collectors'', '''')] \<and>
    (\<forall>j \<le> 1. asks sample_orch (Some ''s'') ''s'' start j
      (build_messages sample_orch sample_session ''hi'' @ transcript_of (take j rounds)))"
proof (rule sample_start)
  fix run0 s0
  assume start: "turn_start sample_orch sample_session ''hi'' (sample_state empty_db) =
      Inr (build_messages sample_orch sample_session ''hi'', run0, s0)"
  obtain run s where turn: "sample_turn = (Inr ''ok'', run, s)" "recorded run = [(''list_collectors'', '''')]"
    using sample_turn_run by blast
  have orch: "serializes (or_codec sample_orch)" "or_max_iterations sample_orch = 6" "''s'' = sess_id sample_session"
    using asking_idle(3) by (simp_all add: new_orchestrator_def sample_session_def)
  obtain rounds where rounds: "list_all answered rounds" "calls_of rounds = [(''list_collectors'', '''')]"
      "\<forall>j \<le> length rounds. j < 6 \<longrightarrow> asks sample_orch (Some ''s'') ''s''
        (build_messages sample_orch sample_session ''hi'', run0, s0) j
        (build_messages sample_orch sample_session ''hi'' @ transcript_of (take j rounds))"
    using turn_transcript [OF orch start turn(1)] turn(2) by (auto simp: with_session_id_def)
  have "length rounds = 1"
    using rounds(1,2) by (cases rounds; cases "tl rounds") (auto simp: calls_of_def answered_def append_eq_Cons_conv)
  with rounds show ?thesis by (intro exI [of _ rounds]) auto
qed

end
