(* ===== verification/Mcp_Server.thy ===== *)
theory Mcp_Server
  imports Orchestrator
begin

section \<open>The MCP server (internal/mcp/server.go)\<close>

text \<open>
  The tools of the agent, offered over MCP: the schema of the arguments is translated, and a call runs
  the tool without a conversation and answers with the encoded result or the text of the error.  The
  protocol library, the encoder of the arguments and the log are not modelled.
\<close>

subsection \<open>Schemas\<close>

datatype schema =
  Schema (sc_type: string) (sc_description: string) (sc_required: "string list")
    (sc_properties: "(string \<times> schema) list") (sc_items: "schema option")

datatype open_schema =
  OpenSchema (os_types: "string list") (os_description: string) (os_required: "string list")
    (os_properties: "(string \<times> open_schema) list") (os_items: "open_schema option")

definition open_types :: "string \<Rightarrow> string list" where
  "open_types ty =
    (if ty \<in> set [''object'', ''string'', ''array'', ''number'', ''integer'', ''boolean''] then [ty] else [])"

primrec convert_schema :: "schema \<Rightarrow> open_schema" where
  "convert_schema (Schema ty desc req props items) =
     OpenSchema (open_types ty) desc req
       (if ty = ''object'' then map (map_prod id convert_schema) props else [])
       (if ty = ''array'' then map_option convert_schema items else None)"

subsection \<open>Calls\<close>

datatype mcp_result = McpText string | McpError string

definition mcp_call ::
  "(args \<Rightarrow> string + string) \<Rightarrow> tool_codec \<Rightarrow> deps \<Rightarrow> tool \<Rightarrow> args \<Rightarrow> tool_state \<Rightarrow> mcp_result \<times> tool_state" where
  "mcp_call marshal_args codec dp handle arguments s =
    (case marshal_args arguments of
       Inl msg \<Rightarrow> (McpError (txt_arguments_unserializable @ msg), s)
     | Inr json_args \<Rightarrow>
         (case tool_call_json (cd_unmarshal codec) handle dp (session_id_from_ctx None) json_args s of
            (Inl err, s1) \<Rightarrow> (McpError (cd_error_text codec err), s1)
          | (Inr result, s1) \<Rightarrow>
              (case cd_marshal codec result of
                 Inl msg \<Rightarrow> (McpError (txt_result_unserializable @ msg), s1)
               | Inr payload \<Rightarrow> (McpText payload, s1))))"

text \<open>What is registered: every tool under its name.\<close>

type_synonym mcp_tool = "string \<times> (args \<Rightarrow> tool_state \<Rightarrow> mcp_result \<times> tool_state)"

definition to_mcp_tool :: "(args \<Rightarrow> string + string) \<Rightarrow> tool_codec \<Rightarrow> deps \<Rightarrow> string \<times> tool \<Rightarrow> mcp_tool" where
  "to_mcp_tool marshal_args codec dp t = (fst t, mcp_call marshal_args codec dp (snd t))"

definition new_mcp_server :: "(args \<Rightarrow> string + string) \<Rightarrow> tool_codec \<Rightarrow> deps \<Rightarrow> (string \<times> tool) list \<Rightarrow> mcp_tool list" where
  "new_mcp_server marshal_args codec dp tools = map (to_mcp_tool marshal_args codec dp) tools"

subsection \<open>The log of the library\<close>

text \<open>
  The methods the library logs through, each with the formatted text, and the records they write.  Without
  a logger nothing is written; the fatal methods write an error and return.
\<close>

datatype log_level = LogDebug | LogInfo | LogWarn | LogError

datatype log_method =
    MethodDebug | MethodDebugf
  | MethodInfo | MethodInfof
  | MethodWarn | MethodWarnf
  | MethodError | MethodErrorf
  | MethodFatal | MethodFatalf

fun adapter_level :: "log_method \<Rightarrow> log_level" where
  "adapter_level MethodDebug = LogDebug"
| "adapter_level MethodDebugf = LogDebug"
| "adapter_level MethodInfo = LogInfo"
| "adapter_level MethodInfof = LogInfo"
| "adapter_level MethodWarn = LogWarn"
| "adapter_level MethodWarnf = LogWarn"
| "adapter_level MethodError = LogError"
| "adapter_level MethodErrorf = LogError"
| "adapter_level MethodFatal = LogError"
| "adapter_level MethodFatalf = LogError"

definition slog_adapter ::
  "bool \<Rightarrow> log_method \<Rightarrow> string \<Rightarrow> (log_level \<times> string) list \<Rightarrow> (log_level \<times> string) list" where
  "slog_adapter has_logger m msg log_records =
    (if has_logger then log_records @ [(adapter_level m, msg)] else log_records)"

section \<open>Properties\<close>

text \<open>C20: A call over MCP does what the same call of the model does in a conversation without an id: the same
  change of the state, the same answer, but not shortened, and an error exactly when the other is one.\<close>

theorem mcp_shares_tools:
  assumes "(name, call) \<in> set (new_mcp_server marshal_args codec dp new_tools)"
    and "marshal_args arguments = Inr json_args" "tq_name tc = name" "tq_arguments tc = json_args"
    and "call arguments s = (answer, s1)"
    and "call_tool (new_orchestrator codec dp) None tc run s = (result, run', s2)"
  shows "s1 = s2 \<and> (case result of
      Inr text \<Rightarrow> (\<exists>payload. answer = McpText payload \<and> text = shorten_result payload)
    | Inl err \<Rightarrow> (\<exists>msg. answer = McpError msg))"
proof -
  have keys: "distinct (map fst new_tools)" by (simp add: new_tools_def)
  from assms(1) obtain handle where handle: "(name, handle) \<in> set new_tools"
    and call: "call = mcp_call marshal_args codec dp handle"
    by (auto simp: new_mcp_server_def to_mcp_tool_def)
  have found: "map_of (or_tools (new_orchestrator codec dp)) (tq_name tc) = Some handle"
    using map_of_is_SomeI [OF keys handle] assms(3) by (simp add: new_orchestrator_def)
  have codec: "or_codec (new_orchestrator codec dp) = codec" "or_deps (new_orchestrator codec dp) = dp"
    by (simp_all add: new_orchestrator_def)
  obtain r s3 where run: "tool_call_json (cd_unmarshal codec) handle dp (session_id_from_ctx None) json_args s = (r, s3)"
    by (cases "tool_call_json (cd_unmarshal codec) handle dp (session_id_from_ctx None) json_args s")
  show ?thesis
    using assms(2,4-6) run call found
    by (auto simp: mcp_call_def call_tool_def codec Let_def split: sum.splits)
qed

theorem mcp_shares_tools_witness:
  "\<exists>call. (''list_collectors'', call) \<in> set (new_mcp_server (\<lambda>_. Inr ''{}'') plain_codec sample_deps new_tools) \<and>
    snd (call Map.empty (sample_state empty_db)) =
      snd (snd (call_tool (new_orchestrator plain_codec sample_deps) None
        \<lparr>tq_id = ''1'', tq_name = ''list_collectors'', tq_arguments = ''{}''\<rparr> (new_run ''r'' '''' 0) (sample_state empty_db)))"
proof -
  let ?tools = "new_mcp_server (\<lambda>_. Inr ''{}'') plain_codec sample_deps new_tools"
  let ?tc = "\<lparr>tq_id = ''1'', tq_name = ''list_collectors'', tq_arguments = ''{}''\<rparr>"
  let ?s = "sample_state empty_db" and ?run = "new_run ''r'' '''' 0"
  let ?call = "mcp_call (\<lambda>_. Inr ''{}'') plain_codec sample_deps handle_list_collectors"
  have in_tools: "(''list_collectors'', ?call) \<in> set ?tools"
    by (simp add: new_mcp_server_def to_mcp_tool_def new_tools_def)
  obtain answer s1 where one: "?call Map.empty ?s = (answer, s1)" by (cases "?call Map.empty ?s")
  obtain result run' s2 where two: "call_tool (new_orchestrator plain_codec sample_deps) None ?tc ?run ?s = (result, run', s2)"
    by (cases "call_tool (new_orchestrator plain_codec sample_deps) None ?tc ?run ?s")
  have "s1 = s2"
    using mcp_shares_tools [OF in_tools _ _ _ one two, of "''{}''"] by simp
  with in_tools one two show ?thesis by (intro exI [of _ ?call]) simp
qed

end
