(* ===== verification/Demo.thy ===== *)
theory Demo
  imports Task_Service Validator Texts
begin

section \<open>Demonstration data (internal/demo/demo.go)\<close>

text \<open>
  The data that a demonstration starts with, written to a store without Collectors: Collectors in every
  state of health, a group, two versions, a conversation, three tasks with their events, and audit
  records.  The identifiers and the digest are parameters; the log is left out.
\<close>

subsection \<open>Configurations\<close>

definition demo_lines :: "string list \<Rightarrow> string" where
  "demo_lines ls = concat (map (\<lambda>l. l @ [CHR 0x0A]) ls)"

definition demo_yaml_1 :: string where
  "demo_yaml_1 = demo_lines
    [''receivers:'',
     ''  otlp:'',
     ''    protocols:'',
     ''      grpc:'',
     ''      http:'',
     ''exporters:'',
     ''  debug:'',
     ''    verbosity: basic'',
     ''service:'',
     ''  pipelines:'',
     ''    traces:'',
     ''      receivers: [otlp]'',
     ''      exporters: [debug]'',
     ''    metrics:'',
     ''      receivers: [otlp]'',
     ''      exporters: [debug]'']"

definition demo_yaml_2 :: string where
  "demo_yaml_2 = demo_lines
    [''receivers:'',
     ''  otlp:'',
     ''    protocols:'',
     ''      grpc:'',
     ''      http:'',
     ''processors:'',
     ''  memory_limiter:'',
     ''    check_interval: 1s'',
     ''    limit_mib: 512'',
     ''exporters:'',
     ''  debug:'',
     ''    verbosity: basic'',
     ''service:'',
     ''  pipelines:'',
     ''    traces:'',
     ''      receivers: [otlp]'',
     ''      processors: [memory_limiter]'',
     ''      exporters: [debug]'',
     ''    metrics:'',
     ''      receivers: [otlp]'',
     ''      processors: [memory_limiter]'',
     ''      exporters: [debug]'']"

subsection \<open>Texts\<close>

text \<open>Demonstration group.\<close>

definition txt_demo_group :: string where
  "txt_demo_group = utf8
    [230, 188, 148, 231, 164, 186, 229, 136, 134, 231, 187, 132, 239, 188, 136, 231, 189,
     145, 229, 133, 179, 47, 65, 80, 73, 239, 188, 137]"

text \<open>Add a memory limiter, waiting for approval.\<close>

definition txt_demo_input_1 :: string where
  "txt_demo_input_1 = utf8
    [228, 184, 186, 32, 100, 101, 109, 111, 45, 103, 97, 116, 101, 119, 97, 121, 45, 49, 32,
     229, 162, 158, 229, 138, 160, 32, 109, 101, 109, 111, 114, 121, 95, 108, 105, 109, 105,
     116, 101, 114, 239, 188, 136, 230, 188, 148, 231, 164, 186, 239, 188, 140, 231, 173,
     137, 229, 190, 133, 229, 174, 161, 230, 137, 185, 239, 188, 137]"

text \<open>The basic configuration sent directly.\<close>

definition txt_demo_input_2 :: string where
  "txt_demo_input_2 = utf8
    [231, 155, 180, 230, 142, 165, 228, 184, 139, 229, 143, 145, 229, 159, 186, 231, 161,
     128, 233, 133, 141, 231, 189, 174, 229, 136, 176, 32, 100, 101, 109, 111, 45, 103, 97,
     116, 101, 119, 97, 121, 45, 49]"

text \<open>Enable tail sampling, rejected.\<close>

definition txt_demo_input_3 :: string where
  "txt_demo_input_3 = utf8
    [228, 184, 186, 32, 100, 101, 109, 111, 45, 97, 112, 105, 45, 49, 32, 229, 144, 175,
     231, 148, 168, 32, 116, 97, 105, 108, 32, 115, 97, 109, 112, 108, 105, 110, 103, 239,
     188, 136, 230, 188, 148, 231, 164, 186, 239, 188, 140, 232, 162, 171, 230, 139, 146,
     231, 187, 157, 239, 188, 137]"

text \<open>Not needed here.\<close>

definition txt_demo_reason :: string where
  "txt_demo_reason = utf8
    [229, 189, 147, 229, 137, 141, 231, 142, 175, 229, 162, 131, 230, 151, 160, 32, 116, 97,
     105, 108, 95, 115, 97, 109, 112, 108, 105, 110, 103, 32, 233, 156, 128, 230, 177, 130,
     239, 188, 140, 229, 133, 136, 228, 184, 141, 229, 138, 160]"

text \<open>Configuration sent.\<close>

definition txt_demo_sent :: string where
  "txt_demo_sent = utf8
    [228, 184, 139, 229, 143, 145, 233, 133, 141, 231, 189, 174, 32, 104, 97, 115, 104, 61]"

text \<open>Configuration generated.\<close>

definition txt_demo_generated :: string where
  "txt_demo_generated = utf8
    [231, 148, 159, 230, 136, 144, 233, 133, 141, 231, 189, 174, 32, 116, 97, 114, 103, 101,
     116, 61]"

text \<open>Please add a memory limit.\<close>

definition txt_demo_question :: string where
  "txt_demo_question = utf8
    [229, 184, 174, 230, 136, 145, 231, 187, 153, 32, 100, 101, 109, 111, 45, 103, 97, 116,
     101, 119, 97, 121, 45, 49, 32, 229, 162, 158, 229, 138, 160, 229, 134, 133, 229, 173,
     152, 233, 153, 144, 229, 136, 182, 239, 188, 140, 233, 129, 191, 229, 133, 141, 32, 79,
     79, 77]"

text \<open>Generated and waiting for approval.\<close>

definition txt_demo_answer :: string where
  "txt_demo_answer = utf8
    [229, 183, 178, 231, 148, 159, 230, 136, 144, 229, 184, 166, 32, 109, 101, 109, 111,
     114, 121, 95, 108, 105, 109, 105, 116, 101, 114, 32, 231, 154, 132, 233, 133, 141, 231,
     189, 174, 229, 185, 182, 233, 128, 154, 232, 191, 135, 230, 160, 161, 233, 170, 140,
     239, 188, 140, 229, 183, 178, 229, 136, 155, 229, 187, 186, 228, 187, 187, 229, 138,
     161, 231, 173, 137, 229, 190, 133, 229, 174, 161, 230, 137, 185, 239, 188, 136, 230,
     188, 148, 231, 164, 186, 230, 149, 176, 230, 141, 174, 239, 188, 137, 227, 128, 130]"

subsection \<open>The data\<close>

abbreviation demo_minute :: duration where
  "demo_minute \<equiv> 60 * nano_per_second"

definition demo_uid :: "string \<Rightarrow> string" where
  "demo_uid name = ''demo-'' @ name"

definition demo_group_id :: string where
  "demo_group_id = ''grp-demo''"

definition demo_version :: string where
  "demo_version = ''0.156.0''"

definition demo_collector ::
  "string \<Rightarrow> string \<Rightarrow> time \<Rightarrow> collector_status \<Rightarrow> string \<Rightarrow> string \<Rightarrow> collector" where
  "demo_collector name version seen status effective grp =
    \<lparr>col_instance_uid = demo_uid name, col_hostname = demo_uid name, col_version = version, col_last_seen_at = seen,
     col_status = status, col_effective_config = effective, col_group_id = grp\<rparr>"

definition demo_collectors :: "time \<Rightarrow> collector list" where
  "demo_collectors now =
    [demo_collector ''gateway-1'' demo_version (now - 30 * nano_per_second) CollectorStatusHealthy demo_yaml_2 demo_group_id,
     demo_collector ''api-1'' demo_version (now - 45 * nano_per_second) CollectorStatusHealthy demo_yaml_1 demo_group_id,
     demo_collector ''worker-1'' demo_version (now - 10 * nano_per_second) CollectorStatusUnhealthy demo_yaml_1 '''',
     demo_collector ''legacy-1'' ''0.120.0'' (now - 180 * demo_minute) CollectorStatusOffline demo_yaml_1 '''',
     demo_collector ''agent-1'' demo_version (now - 5 * nano_per_second) CollectorStatusUnknown '''' '''']"

definition demo_group :: collector_group where
  "demo_group = \<lparr>grp_id = demo_group_id, grp_name = txt_demo_group, grp_selector = ''{\"env\":\"demo\"}''\<rparr>"

definition demo_versions :: "sha_sum \<Rightarrow> time \<Rightarrow> config_version list" where
  "demo_versions sha now =
    [\<lparr>cv_id = 0, cv_collector_instance_uid = demo_uid ''gateway-1'', cv_yaml = demo_yaml_1,
       cv_hash = content_hash sha demo_yaml_1, cv_validated = True, cv_created_at = now - 120 * demo_minute\<rparr>,
     \<lparr>cv_id = 0, cv_collector_instance_uid = demo_uid ''gateway-1'', cv_yaml = demo_yaml_2,
       cv_hash = content_hash sha demo_yaml_2, cv_validated = True, cv_created_at = now - 30 * demo_minute\<rparr>]"

definition demo_task_1 :: "string \<Rightarrow> string \<Rightarrow> time \<Rightarrow> task" where
  "demo_task_1 sid tid now = empty_task\<lparr>t_id := tid, t_type := TaskTypeGenerate,
     t_status := TaskStatusAwaitingApproval, t_require_approval := True, t_input := txt_demo_input_1,
     t_generated_yaml := demo_yaml_2, t_target_group_id := demo_uid ''gateway-1'', t_model_used := ''demo-model'',
     t_session_id := sid, t_created_at := now - 60 * demo_minute, t_updated_at := now - 55 * demo_minute\<rparr>"

definition demo_task_2 :: "string \<Rightarrow> time \<Rightarrow> task" where
  "demo_task_2 tid now = empty_task\<lparr>t_id := tid, t_type := TaskTypeApply,
     t_status := TaskStatusDone, t_require_approval := True, t_input := txt_demo_input_2,
     t_generated_yaml := demo_yaml_1, t_target_group_id := demo_uid ''gateway-1'',
     t_target_instance_uid := demo_uid ''gateway-1'', t_approver := ''admin'',
     t_created_at := now - 180 * demo_minute, t_updated_at := now - 180 * demo_minute\<rparr>"

definition demo_task_3 :: "string \<Rightarrow> string \<Rightarrow> time \<Rightarrow> task" where
  "demo_task_3 sid tid now = empty_task\<lparr>t_id := tid, t_type := TaskTypeGenerate,
     t_status := TaskStatusRejected, t_require_approval := True, t_input := txt_demo_input_3,
     t_generated_yaml := demo_yaml_2, t_target_group_id := demo_uid ''api-1'', t_approver := ''admin'',
     t_session_id := sid, t_reject_reason := txt_demo_reason, t_model_used := ''demo-model'',
     t_created_at := now - 120 * demo_minute, t_updated_at := now - 100 * demo_minute\<rparr>"

text \<open>The first id is that of the conversation, the others those of the tasks.\<close>

definition demo_tasks :: "string \<Rightarrow> string \<times> string \<times> string \<Rightarrow> time \<Rightarrow> task list" where
  "demo_tasks sid tids now =
    (case tids of (t1, t2, t3) \<Rightarrow> [demo_task_1 sid t1 now, demo_task_2 t2 now, demo_task_3 sid t3 now])"

definition demo_event :: "time \<Rightarrow> string \<times> task_status \<times> task_status \<times> int \<Rightarrow> task_event" where
  "demo_event now e =
    (case e of (tid, from, to, minutes) \<Rightarrow>
      \<lparr>ev_id = 0, ev_task_id = tid, ev_from_status = task_status_text from, ev_to_status = task_status_text to,
       ev_created_at = now - minutes * demo_minute\<rparr>)"

definition demo_events :: "string \<times> string \<times> string \<Rightarrow> time \<Rightarrow> task_event list" where
  "demo_events tids now =
    (case tids of (t1, t2, t3) \<Rightarrow> map (demo_event now)
      [(t1, TaskStatusNone, TaskStatusPending, 60),
       (t1, TaskStatusPending, TaskStatusGenerating, 58),
       (t1, TaskStatusGenerating, TaskStatusValidating, 56),
       (t1, TaskStatusValidating, TaskStatusAwaitingApproval, 55),
       (t2, TaskStatusNone, TaskStatusPending, 180),
       (t2, TaskStatusPending, TaskStatusAwaitingApproval, 180),
       (t2, TaskStatusAwaitingApproval, TaskStatusApplying, 179),
       (t2, TaskStatusApplying, TaskStatusDone, 178),
       (t3, TaskStatusNone, TaskStatusPending, 120),
       (t3, TaskStatusPending, TaskStatusAwaitingApproval, 119),
       (t3, TaskStatusAwaitingApproval, TaskStatusRejected, 100)])"

definition demo_log :: "string \<Rightarrow> audit_action \<Rightarrow> string \<Rightarrow> string \<Rightarrow> time \<Rightarrow> audit_log" where
  "demo_log actor action subject detail at_time =
    \<lparr>au_id = 0, au_actor = actor, au_action = action, au_subject = subject, au_detail = detail, au_created_at = at_time\<rparr>"

definition demo_audit :: "sha_sum \<Rightarrow> string \<times> string \<times> string \<Rightarrow> time \<Rightarrow> audit_log list" where
  "demo_audit sha tids now =
    (case tids of (t1, _, t3) \<Rightarrow>
      [demo_log ''admin'' AuditActionApply (demo_uid ''gateway-1'') (txt_demo_sent @ content_hash sha demo_yaml_1)
         (now - 180 * demo_minute),
       demo_log ''admin'' AuditActionGenerate (demo_uid ''api-1'') (txt_demo_generated @ demo_uid ''api-1'')
         (now - 120 * demo_minute),
       demo_log ''admin'' AuditActionReject t3 txt_demo_reason (now - 100 * demo_minute),
       demo_log ''agent'' AuditActionGenerate t1 (txt_demo_generated @ demo_uid ''gateway-1'') (now - 55 * demo_minute)])"

definition demo_messages :: "time \<Rightarrow> chat_message list" where
  "demo_messages now =
    [\<lparr>msg_id = 0, msg_role = ''user'', msg_content = txt_demo_question, msg_created_at = now - 30 * demo_minute\<rparr>,
     \<lparr>msg_id = 0, msg_role = ''assistant'', msg_content = txt_demo_answer, msg_created_at = now - 29 * demo_minute\<rparr>]"

subsection \<open>Seeding\<close>

text \<open>What could not be written, with the error of the store.\<close>

datatype demo_stage =
    DemoCheck
  | DemoCollector string
  | DemoGroup
  | DemoVersion
  | DemoSession
  | DemoTask
  | DemoEvent
  | DemoAudit
  | DemoMessage

type_synonym 'a demo_op = "(sql_db, demo_stage \<times> go_error, 'a) op"

definition at_stage :: "demo_stage \<Rightarrow> 'a db_op \<Rightarrow> 'a demo_op" where
  "at_stage stage m d = (case m d of (Inl err, d1) \<Rightarrow> (Inl (stage, err), d1) | (Inr x, d1) \<Rightarrow> (Inr x, d1))"

primrec each_row :: "('r \<Rightarrow> demo_stage) \<Rightarrow> ('r \<Rightarrow> 'a db_op) \<Rightarrow> 'r list \<Rightarrow> unit demo_op" where
  "each_row stage write [] = ret ()"
| "each_row stage write (r # rs) = and_then (at_stage (stage r) (write r)) (\<lambda>_. each_row stage write rs)"

definition write_demo :: "sha_sum \<Rightarrow> string \<Rightarrow> string \<times> string \<times> string \<Rightarrow> time \<Rightarrow> unit demo_op" where
  "write_demo sha sid tids now =
    and_then (each_row (\<lambda>c. DemoCollector (col_instance_uid c)) upsert_collector (demo_collectors now)) (\<lambda>_.
    and_then (at_stage DemoGroup (upsert_group demo_group)) (\<lambda>_.
    and_then (each_row (\<lambda>_. DemoVersion) create_config_version (demo_versions sha now)) (\<lambda>_.
    and_then (at_stage DemoSession (create_session sid (now - 30 * demo_minute))) (\<lambda>_.
    and_then (each_row (\<lambda>_. DemoTask) create_task (demo_tasks sid tids now)) (\<lambda>_.
    and_then (each_row (\<lambda>_. DemoEvent) append_task_event (demo_events tids now)) (\<lambda>_.
    and_then (each_row (\<lambda>_. DemoAudit) append_audit (demo_audit sha tids now)) (\<lambda>_.
    each_row (\<lambda>_. DemoMessage) (append_message sid) (demo_messages now))))))))"

definition seed :: "sha_sum \<Rightarrow> string \<Rightarrow> string \<times> string \<times> string \<Rightarrow> time \<Rightarrow> unit demo_op" where
  "seed sha sid tids now =
    and_then (at_stage DemoCheck (list_collectors 0 0)) (\<lambda>(existing, _).
      if existing \<noteq> [] then ret () else write_demo sha sid tids now)"

section \<open>Properties\<close>

text \<open>Seeding writes only to a store without Collectors.\<close>

lemma seed_once:
  assumes "db_faults d = []" "db_collectors d \<noteq> []"
  shows "seed sha sid tids now d = (Inr (), d)"
proof -
  have "set (paged 0 0 (sort_key col_instance_uid (db_collectors d))) \<noteq> {}"
    using assms(2) by (simp add: paged_def)
  then have "paged 0 0 (sort_key col_instance_uid (db_collectors d)) \<noteq> []" by simp
  with assms(1) show ?thesis
    by (simp add: seed_def at_stage_def list_collectors_def and_then_def query_healthy ret_def)
qed

text \<open>The recorded events of the demonstration lead each task to its status, but two of the three logs skip
  the generation: they step from pending to waiting for approval, which the service never does.\<close>

lemma demo_events_replay:
  assumes "distinct [t1, t2, t3]"
  shows "let log = \<lambda>k. map (\<lambda>e. (ev_from_status e, ev_to_status e)) (filter (\<lambda>e. ev_task_id e = k) (demo_events (t1, t2, t3) now))
    in replay TaskStatusNone (log t1) = Some (t_status (demo_task_1 sid t1 now)) \<and>
       replay TaskStatusNone (log t2) = None \<and> replay TaskStatusNone (log t3) = None \<and>
       snd (last (log t2)) = task_status_text (t_status (demo_task_2 t2 now)) \<and>
       snd (last (log t3)) = task_status_text (t_status (demo_task_3 sid t3 now))"
proof -
  from assms have "t1 \<noteq> t2" "t2 \<noteq> t1" "t1 \<noteq> t3" "t3 \<noteq> t1" "t2 \<noteq> t3" "t3 \<noteq> t2" by auto
  then show ?thesis
    by (simp add: demo_events_def demo_event_def demo_task_1_def demo_task_2_def demo_task_3_def can_transition_def
        Let_def del: task_status_text.simps)
qed

end
