(* ===== verification/Ulid.thy ===== *)
theory Ulid
  imports Go_Strings
begin

section \<open>Identifiers (internal/ulid/ulid.go)\<close>

text \<open>
  An identifier is the time in milliseconds in hexadecimal digits, then eight random bytes; without
  random bytes it is the time in nanoseconds.  The times are those of the Unix epoch.
\<close>

fun nat_hex :: "nat \<Rightarrow> string" where
  "nat_hex n = (if n < 16 then [hex_digit n] else nat_hex (n div 16) @ [hex_digit (n mod 16)])"

declare nat_hex.simps [simp del]

definition int_hex :: "int \<Rightarrow> string" where
  "int_hex i = (if i < 0 then CHR ''-'' # nat_hex (nat (- i)) else nat_hex (nat i))"

definition new_id :: "int \<Rightarrow> int \<Rightarrow> 8 word list option \<Rightarrow> string" where
  "new_id milli nano random =
    (case random of
       None \<Rightarrow> int_hex nano
     | Some b \<Rightarrow> int_hex milli @ hex_encode b)"

section \<open>Lemmas\<close>

lemma hex_digit_inj: "m < 16 \<Longrightarrow> n < 16 \<Longrightarrow> hex_digit m = hex_digit n \<Longrightarrow> m = n"
  using hex_value_digit by (metis option.inject)

lemma nat_hex_nonempty [simp]: "nat_hex n \<noteq> []" "[] \<noteq> nat_hex n"
  by (subst nat_hex.simps, simp)+

lemma nat_hex_small: "nat_hex n = [c] \<longleftrightarrow> n < 16 \<and> c = hex_digit n"
  by (subst nat_hex.simps) auto

lemma nat_hex_inj: "nat_hex m = nat_hex n \<Longrightarrow> m = n"
proof (induction m arbitrary: n rule: nat_hex.induct)
  case (1 m)
  show ?case
  proof (cases "m < 16")
    case True
    then have "nat_hex n = [hex_digit m]" using 1(2) by (subst (asm) nat_hex.simps) simp
    with True show ?thesis using hex_digit_inj by (auto simp: nat_hex_small)
  next
    case False
    then have m: "nat_hex m = nat_hex (m div 16) @ [hex_digit (m mod 16)]" by (subst nat_hex.simps) simp
    have "\<not> n < 16"
    proof
      assume "n < 16"
      then have "nat_hex n = [hex_digit n]" by (subst nat_hex.simps) simp
      with m 1(2) show False by simp
    qed
    then have "nat_hex n = nat_hex (n div 16) @ [hex_digit (n mod 16)]" by (subst nat_hex.simps) simp
    with m 1(2) have "nat_hex (m div 16) = nat_hex (n div 16)" "hex_digit (m mod 16) = hex_digit (n mod 16)"
      by simp_all
    then have "m div 16 = n div 16" "m mod 16 = n mod 16"
      using 1(1) [OF False] hex_digit_inj by simp_all
    then show ?thesis by (metis div_mult_mod_eq)
  qed
qed

lemma length_hex_encode: "length (hex_encode b) = 2 * length b"
  by (induction b) (simp_all add: hex_encode_def)

text \<open>Two identifiers made with random bytes are equal only if they were made in the same millisecond from
  the same bytes.\<close>

theorem new_id_distinct:
  assumes "0 \<le> milli" "0 \<le> milli'" "length b = 8" "length b' = 8"
    and "new_id milli nano (Some b) = new_id milli' nano' (Some b')"
  shows "milli = milli' \<and> b = b'"
proof -
  have "nat_hex (nat milli) @ hex_encode b = nat_hex (nat milli') @ hex_encode b'"
    using assms by (simp add: new_id_def int_hex_def)
  moreover have "length (hex_encode b) = length (hex_encode b')"
    using assms(3,4) by (simp add: length_hex_encode)
  ultimately have "nat_hex (nat milli) = nat_hex (nat milli')" "hex_encode b = hex_encode b'"
    using append_eq_append_conv by blast+
  with assms(1,2) show ?thesis
    using nat_hex_inj hex_encode_inj by (metis eq_nat_nat_iff)
qed

end
