(* ===== verification/Passwd.thy ===== *)
theory Passwd
  imports Web_Auth
begin

section \<open>The password command (cmd/cadenza-passwd/main.go)\<close>

text \<open>
  The command that makes the hash of the administrator's password: the password is the first argument or
  the standard input, without the white space around it.  The hash function is a parameter; the exit
  code of a failure is 1.
\<close>

datatype passwd_error = PasswdStdin string | PasswdEmpty | PasswdHash string

definition passwd_input :: "string list \<Rightarrow> string + string \<Rightarrow> passwd_error + string" where
  "passwd_input args stdin =
    (case args of
       password # _ \<Rightarrow> Inr password
     | [] \<Rightarrow> (case stdin of Inl msg \<Rightarrow> Inl (PasswdStdin msg) | Inr text \<Rightarrow> Inr text))"

definition passwd_main :: "(string \<Rightarrow> string + string) \<Rightarrow> string list \<Rightarrow> string + string \<Rightarrow> passwd_error + string" where
  "passwd_main generate args stdin =
    (case passwd_input args stdin of
       Inl e \<Rightarrow> Inl e
     | Inr input \<Rightarrow>
         let password = trim_space input in
         if password = '''' then Inl PasswdEmpty
         else case generate password of
           Inl msg \<Rightarrow> Inl (PasswdHash msg)
         | Inr hash \<Rightarrow> Inr hash)"

section \<open>Properties\<close>

text \<open>C33: A guard set up with the printed hash accepts the administrator with that password, without the white space
  around it, when the library accepts its own hashes.\<close>

theorem passwd_login_roundtrip:
  assumes "passwd_main generate args stdin = Inr hash" "passwd_input args stdin = Inr typed"
    and "\<And>p h. generate p = Inr h \<Longrightarrow> h \<noteq> '''' \<and> be_valid be h \<and> be_matches be h p"
    and "load_config env = Inr cfg" "env ''WEB_ADMIN_PASSWORD_HASH'' = Some hash" "env ''WEB_AUTH_MODE'' = None"
  shows "\<exists>m. new_auth_manager be cfg = Inr m \<and> (\<forall>r now b.
    rq_method r = ''POST'' \<and> decode_strings (rq_body r) [''username'', ''password''] = Some [am_username m, trim_space typed] \<longrightarrow>
    (\<exists>sess. am_sessions (snd (handle_login be now (Some b) r m)) (hex_encode b) = Some sess \<and>
      as_username sess = am_username m))"
proof -
  have gen: "generate (trim_space typed) = Inr hash" "trim_space typed \<noteq> ''''"
    using assms(1,2) by (auto simp: passwd_main_def Let_def split: if_splits sum.splits)
  note ok = assms(3) [OF gen(1)]
  have web: "web_auth_mode (cfg_web cfg) = web_auth_simple" "web_admin_hash (cfg_web cfg) = hash"
    "web_admin_user (cfg_web cfg) \<noteq> ''''"
    using load_config_read [OF assms(4)] assms(5,6)
    by (auto simp: read_config_def read_web_def get_env_def getenv_def split: option.splits)
  then obtain m where m: "new_auth_manager be cfg = Inr m" "enabled m" "am_hash m = hash" "am_username m \<noteq> ''''"
    using ok by (auto simp: new_auth_manager_def enabled_def Let_def)
  have "\<exists>sess. am_sessions (snd (handle_login be now (Some b) r m)) (hex_encode b) = Some sess \<and>
      as_username sess = am_username m"
    if "rq_method r = ''POST''"
      "decode_strings (rq_body r) [''username'', ''password''] = Some [am_username m, trim_space typed]" for r now b
  proof -
    have "valid_login be m r" using that m gen(2) ok by (simp add: valid_login_def)
    then show ?thesis
      by - (rule handle_login_cases [of be m r "Some b" now], auto simp: open_session_effect)
  qed
  with m(1) show ?thesis by blast
qed

lemma plain_hash_loads:
  "load_config [''LLM_API_KEY'' \<mapsto> ''k'', ''WEB_ADMIN_PASSWORD_HASH'' \<mapsto> ''pw''] =
    Inr (read_config [''LLM_API_KEY'' \<mapsto> ''k'', ''WEB_ADMIN_PASSWORD_HASH'' \<mapsto> ''pw''])"
  by (simp add: load_config_def validate_config_def validate_web_def validate_gitops_def Let_def read_config_def
      read_llm_def read_web_def get_env_def getenv_def)

theorem passwd_login_roundtrip_witness:
  "\<exists>m sess. am_sessions (snd (handle_login sample_bcrypt 3 (Some [0xff]) sample_login m)) (hex_encode [0xff]) = Some sess \<and>
    passwd_main Inr [''pw''] (Inl '''') = Inr (am_hash m)"
proof -
  let ?env = "[''LLM_API_KEY'' \<mapsto> ''k'', ''WEB_ADMIN_PASSWORD_HASH'' \<mapsto> ''pw'']"
  have trim: "trim_space ''pw'' = ''pw''" by code_simp
  then have main: "passwd_main (\<lambda>p. if p = '''' then Inl '''' else Inr p) [''pw''] (Inl '''') = Inr ''pw''"
    "passwd_main Inr [''pw''] (Inl '''') = Inr ''pw''"
    by (simp_all add: passwd_main_def passwd_input_def)
  have "\<exists>m. new_auth_manager sample_bcrypt (read_config ?env) = Inr m \<and> (\<forall>r now b.
    rq_method r = ''POST'' \<and> decode_strings (rq_body r) [''username'', ''password''] = Some [am_username m, trim_space ''pw''] \<longrightarrow>
    (\<exists>sess. am_sessions (snd (handle_login sample_bcrypt now (Some b) r m)) (hex_encode b) = Some sess \<and>
      as_username sess = am_username m))"
    by (rule passwd_login_roundtrip [OF main(1) _ _ plain_hash_loads])
      (simp_all add: passwd_input_def sample_bcrypt_def split: if_splits)
  moreover have "am_username m = ''admin'' \<and> am_hash m = ''pw''"
    if "new_auth_manager sample_bcrypt (read_config ?env) = Inr m" for m
    using that by (auto simp: new_auth_manager_def Let_def read_config_def read_web_def get_env_def getenv_def
        sample_bcrypt_def split: if_splits)
  moreover have "rq_method sample_login = ''POST''"
    "decode_strings (rq_body sample_login) [''username'', ''password''] = Some [''admin'', ''pw'']"
    using valid_sample_login decode_sample_login by (simp_all add: valid_login_def)
  ultimately show ?thesis
    unfolding main(2) trim by metis
qed

end
