(* ===== verification/Program.thy ===== *)
theory Program
  imports Rest_Safety Mcp_Server Demo Ulid Schema Passwd
begin

section \<open>The program (cmd/server/main.go)\<close>

text \<open>
  The start of the server: the configuration is read from the environment, the parts are built in order,
  each failure ending the start, and the routes are put together.  The platform gives what comes from
  outside the repository: the database driver and what the tables hold, the clients of the model, git and
  the file system, the handlers of the OpAMP and MCP libraries, the digest of passwords, identifiers and the clock.  The
  listener, signals and the log are left out.
\<close>

subsection \<open>The platform\<close>

type_synonym model_client = "nat \<Rightarrow> llm_request \<Rightarrow> time \<Rightarrow> opamp \<Rightarrow> (llm_error + llm_response list) \<times> nat \<times> opamp"

record platform =
  pf_sql_open :: "string \<Rightarrow> string \<Rightarrow> string + connection"
  pf_rows :: "catalog \<Rightarrow> sql_db"
  pf_now :: time
  pf_ids :: "nat \<Rightarrow> string"
  pf_confirm :: confirm_env
  pf_opamp_env :: opamp_env
  pf_around :: "opamp surroundings"
  pf_decode :: map_decoder
  pf_otelcol :: otelcol_env
  pf_attach :: "string option"
  pf_model :: "llm_config \<Rightarrow> string + model_client"
  pf_look :: "string \<Rightarrow> dir_outcome"
  pf_git :: "string \<Rightarrow> git_command"
  pf_bcrypt :: bcrypt_env
  pf_codec :: tool_codec
  pf_marshal_args :: "args \<Rightarrow> string + string"
  pf_opamp_handler :: api_handler
  pf_mcp_handler :: "mcp_tool list \<Rightarrow> api_handler"
  pf_web_dir :: "string \<Rightarrow> string \<rightharpoonup> string"
  pf_embedded :: "(string \<rightharpoonup> string) option"

datatype start_error =
    StartConfig config_error
  | StartStore store_error
  | StartOpamp string
  | StartModel string
  | StartGit go_error
  | StartGitStatus go_error
  | StartAuth

subsection \<open>The parts\<close>

definition offline_after :: duration where
  "offline_after = 90 * nano_per_second"

definition offline_interval :: duration where
  "offline_interval = 30 * nano_per_second"

definition data_source :: "config \<Rightarrow> string" where
  "data_source cfg = (if cfg_db_driver cfg = ''sqlite'' then cfg_db_sqlite_path cfg else cfg_db_dsn cfg)"

text \<open>The demonstration data takes the first four identifiers; its result is only logged.\<close>

definition seeded :: "platform \<Rightarrow> config \<Rightarrow> sql_db \<Rightarrow> sql_db" where
  "seeded pf cfg d =
    (if web_demo_mode (cfg_web cfg)
     then snd (seed (ce_sha (pf_confirm pf)) (pf_ids pf 0) (pf_ids pf 1, pf_ids pf 2, pf_ids pf 3) (pf_now pf) d) else d)"

definition closed_repo :: git_repo where
  "closed_repo = \<lparr>gr_dir = '''', gr_timeout = 0, gr_cached_at = zero_time, gr_cached = None\<rparr>"

text \<open>In git mode the repository must open and its status must be readable.\<close>

definition open_git :: "platform \<Rightarrow> config \<Rightarrow> start_error + git_command option \<times> git_repo" where
  "open_git pf cfg =
    (if cfg_config_source cfg \<noteq> ''git'' then Inr (None, closed_repo)
     else let git = pf_git pf (cfg_git_repo_dir cfg) in
       case open_repo (pf_look pf) git (cfg_git_repo_dir cfg) of
         Inl err \<Rightarrow> Inl (StartGit err)
       | Inr repo \<Rightarrow>
           (case status_of git (pf_now pf) (cfg_git_ref cfg) repo of
              (Inl err, _) \<Rightarrow> Inl (StartGitStatus err)
            | (Inr _, repo1) \<Rightarrow> Inr (Some git, repo1)))"

definition build_deps :: "platform \<Rightarrow> config \<Rightarrow> model_client \<Rightarrow> git_command option \<Rightarrow> deps" where
  "build_deps pf cfg client git =
    \<lparr>dp_confirm = pf_confirm pf, dp_opamp_env = pf_opamp_env pf, dp_around = pf_around pf,
     dp_has_opamp = True, dp_has_registry = True, dp_decode = pf_decode pf, dp_otelcol = pf_otelcol pf,
     dp_model = client, dp_ulid = (\<lambda>n. pf_ids pf (n + 4)), dp_require_approval = cfg_require_approval cfg,
     dp_otelcol_bin = cfg_otelcol_bin cfg, dp_strict_validate = cfg_strict_validate cfg,
     dp_config_source = cfg_config_source cfg, dp_git_ref = cfg_git_ref cfg,
     dp_git_pathspec = cfg_git_config_pathspec cfg, dp_git = git\<rparr>"

definition build_web_handler :: "platform \<Rightarrow> config \<Rightarrow> (request \<Rightarrow> response) option" where
  "build_web_handler pf cfg =
    (let w = cfg_web cfg in
     if web_disable w then None
     else if web_dir w \<noteq> '''' then Some (spa_handler (pf_web_dir pf (web_dir w)))
     else map_option spa_handler (pf_embedded pf))"

definition build_router :: "platform \<Rightarrow> config \<Rightarrow> deps \<Rightarrow> git_command option \<Rightarrow> router" where
  "build_router pf cfg dp git =
    (let orch = new_orchestrator (pf_codec pf) dp;
         tools = new_mcp_server (pf_marshal_args pf) (pf_codec pf) dp new_tools
     in \<lparr>rt_handlers = new_handlers dp git (cfg_config_source cfg) (chat orch None),
         rt_bcrypt = pf_bcrypt pf, rt_opamp = pf_opamp_handler pf, rt_mcp = pf_mcp_handler pf tools,
         rt_web = build_web_handler pf cfg, rt_cors = web_cors_origins (cfg_web cfg),
         rt_demo = web_demo_mode (cfg_web cfg), rt_mcp_token = cfg_mcp_auth_token cfg,
         rt_config_source = cfg_config_source cfg\<rparr>)"

definition first_state :: "platform \<Rightarrow> config \<Rightarrow> sql_db \<Rightarrow> git_repo \<Rightarrow> app_state" where
  "first_state pf cfg d repo =
    \<lparr>ap_tools = \<lparr>ts_opamp = new_opamp (new_registry offline_after) d (cfg_opamp_auth_token cfg),
       ts_now = pf_now pf, ts_ids = 0, ts_calls = 0\<rparr>, ap_repo = repo\<rparr>"

subsection \<open>The start\<close>

definition start_server :: "platform \<Rightarrow> environment \<Rightarrow> start_error + router \<times> server_state" where
  "start_server pf env =
    (case load_config env of
       Inl e \<Rightarrow> Inl (StartConfig e)
     | Inr cfg \<Rightarrow>
         (case new_store (pf_sql_open pf) (cfg_db_driver cfg) (data_source cfg) of
            Inl err \<Rightarrow> Inl (StartStore err)
          | Inr conn \<Rightarrow>
              (case pf_attach pf of
                 Some msg \<Rightarrow> Inl (StartOpamp msg)
               | None \<Rightarrow>
                   (case pf_model pf (cfg_llm cfg) of
                      Inl msg \<Rightarrow> Inl (StartModel msg)
                    | Inr client \<Rightarrow>
                        (case open_git pf cfg of
                           Inl e \<Rightarrow> Inl e
                         | Inr (git, repo) \<Rightarrow>
                             (case new_auth_manager (pf_bcrypt pf) cfg of
                                Inl _ \<Rightarrow> Inl StartAuth
                              | Inr m \<Rightarrow>
                                  Inr (build_router pf cfg (build_deps pf cfg client git) git,
                                    (m, first_state pf cfg (seeded pf cfg (pf_rows pf (cn_catalog conn))) repo))))))))"

subsection \<open>The sweep in the background\<close>

text \<open>At every tick the Collectors that were silent too long are marked; the times are those of the ticks
  until the server stops.\<close>

definition sweep_at :: "map_order \<Rightarrow> time \<Rightarrow> app_state \<Rightarrow> app_state" where
  "sweep_at order now a = a\<lparr>ap_tools := (on_opamp (on_fleet (mark_offline order now)) (ap_tools a))\<lparr>ts_now := now\<rparr>\<rparr>"

definition offline_loop :: "map_order \<Rightarrow> time list \<Rightarrow> app_state \<Rightarrow> app_state" where
  "offline_loop order ticks a = fold (sweep_at order) ticks a"

section \<open>Lemmas\<close>

text \<open>A server that started: every part was built from the loaded configuration.\<close>

lemma start_server_cases:
  assumes "start_server pf env = Inr (rt, st0)"
  obtains client git repo m d where "load_config env = Inr (read_config env)"
    "\<exists>conn. new_store (pf_sql_open pf) (cfg_db_driver (read_config env)) (data_source (read_config env)) = Inr conn \<and>
      d = pf_rows pf (cn_catalog conn)"
    "pf_model pf (cfg_llm (read_config env)) = Inr client"
    "open_git pf (read_config env) = Inr (git, repo)"
    "new_auth_manager (pf_bcrypt pf) (read_config env) = Inr m"
    "rt = build_router pf (read_config env) (build_deps pf (read_config env) client git) git"
    "st0 = (m, first_state pf (read_config env) (seeded pf (read_config env) d) repo)"
proof -
  obtain cfg where cfg: "load_config env = Inr cfg"
    using assms by (auto simp: start_server_def split: sum.splits)
  with load_config_read [OF cfg] assms that show ?thesis
    by (auto simp: start_server_def split: sum.splits option.splits prod.splits)
qed

lemma build_router_simps [simp]:
  "hd_deps (rt_handlers (build_router pf cfg dp git)) = dp"
  "hd_git (rt_handlers (build_router pf cfg dp git)) = git"
  "hd_chat (rt_handlers (build_router pf cfg dp git)) = chat (new_orchestrator (pf_codec pf) dp) None"
  "rt_web (build_router pf cfg dp git) = build_web_handler pf cfg"
  "rt_mcp_token (build_router pf cfg dp git) = cfg_mcp_auth_token cfg"
  "rt_bcrypt (build_router pf cfg dp git) = pf_bcrypt pf"
  by (simp_all add: build_router_def new_handlers_def Let_def)

lemma build_deps_simps [simp]:
  "dp_model (build_deps pf cfg client git) = client"
  "dp_require_approval (build_deps pf cfg client git) = cfg_require_approval cfg"
  "dp_git (build_deps pf cfg client git) = git"
  by (simp_all add: build_deps_def)

lemma first_state_opamp [simp]:
  "os_sent (ts_opamp (ap_tools (first_state pf cfg d repo))) = []"
  "os_pending (ts_opamp (ap_tools (first_state pf cfg d repo))) = Map.empty"
  "ap_repo (first_state pf cfg d repo) = repo"
  "tdb (ap_tools (first_state pf cfg d repo)) = d"
  by (simp_all add: first_state_def new_opamp_def)

lemma open_git_mode: "open_git pf cfg = Inr (git, repo) \<Longrightarrow> git \<noteq> None \<longleftrightarrow> cfg_config_source cfg = ''git''"
  by (auto simp: open_git_def Let_def split: if_splits sum.splits prod.splits)

subsection \<open>A model that does not approve\<close>

text \<open>While the client of the model is called the fleet goes on, and its answers do not call the approval tool.\<close>

definition harmless_client :: "opamp_env \<Rightarrow> model_client \<Rightarrow> bool" where
  "harmless_client env client \<longleftrightarrow> (\<forall>n q t u. case client n q t u of (out, _, u') \<Rightarrow>
     (fleet_step env)\<^sup>*\<^sup>* u u' \<and>
     (case out of Inl _ \<Rightarrow> True
      | Inr rs \<Rightarrow> list_all (\<lambda>r. list_all (\<lambda>msg. list_all (\<lambda>tc. tq_name tc \<noteq> ''approve_task'') (lm_tool_calls msg))
          (lr_choices r)) rs))"

lemma harmless_deps:
  assumes "harmless_client env (dp_model dp)"
  shows "model_keeps fleet_drained dp" "asks_no_approval dp"
  using assms fleet_run_drained
  by (fastforce simp: harmless_client_def model_keeps_def asks_no_approval_def case_prod_beta)+

subsection \<open>Runs with all that reaches the server\<close>

text \<open>In the background the fleet goes on and time passes; the sweep is both.\<close>

inductive background_step :: "opamp_env \<Rightarrow> app_state \<Rightarrow> app_state \<Rightarrow> bool" for env where
  fleet_acts: "fleet_step env (ts_opamp (ap_tools a)) u \<Longrightarrow>
    background_step env a (a\<lparr>ap_tools := (ap_tools a)\<lparr>ts_opamp := u\<rparr>\<rparr>)"
| time_passes: "background_step env a (a\<lparr>ap_tools := (ap_tools a)\<lparr>ts_now := now\<rparr>\<rparr>)"

lemma sweep_background: "(background_step env)\<^sup>*\<^sup>* a (sweep_at order now a)"
proof -
  let ?a1 = "a\<lparr>ap_tools := (ap_tools a)\<lparr>ts_opamp := on_fleet (mark_offline order now) (ts_opamp (ap_tools a))\<rparr>\<rparr>"
  have "background_step env a ?a1" by (rule fleet_acts) (rule sweep_marks)
  moreover have "background_step env ?a1 (?a1\<lparr>ap_tools := (ap_tools ?a1)\<lparr>ts_now := now\<rparr>\<rparr>)" by (rule time_passes)
  moreover have "?a1\<lparr>ap_tools := (ap_tools ?a1)\<lparr>ts_now := now\<rparr>\<rparr> = sweep_at order now a"
    by (simp add: sweep_at_def on_opamp_def)
  ultimately show ?thesis by auto
qed

lemma offline_loop_background: "(background_step env)\<^sup>*\<^sup>* a (offline_loop order ticks a)"
  unfolding offline_loop_def
  by (induction ticks arbitrary: a) (auto intro: rtranclp_trans [OF sweep_background])

text \<open>What a request to the MCP end point does: the library calls registered tools, in any order, while the
  background goes on.\<close>

inductive mcp_run :: "opamp_env \<Rightarrow> mcp_tool list \<Rightarrow> app_state \<Rightarrow> app_state \<Rightarrow> bool" for env tools where
  mcp_nothing: "mcp_run env tools a a"
| mcp_background: "mcp_run env tools a b \<Longrightarrow> background_step env b c \<Longrightarrow> mcp_run env tools a c"
| mcp_called: "mcp_run env tools a b \<Longrightarrow> (name, call) \<in> set tools \<Longrightarrow>
    mcp_run env tools a (b\<lparr>ap_tools := snd (call arguments (ap_tools b))\<rparr>)"

text \<open>
  An event of a run in which no task is approved: before the request the background goes on; the request is
  not the approval of a task; a connection of an agent is served by running its messages, and a request to
  the MCP end point calls any tools but the approval.
\<close>

definition unapproved_event :: "opamp_env \<Rightarrow> mcp_tool list \<Rightarrow> router \<Rightarrow> http_event \<Rightarrow> bool" where
  "unapproved_event env tools rt ev \<longleftrightarrow> (case ev of (f, _, r) \<Rightarrow>
     (\<forall>a. (background_step env)\<^sup>*\<^sup>* a (f a)) \<and> \<not> approves_request r \<and>
     (rq_path r = ''/v1/opamp'' \<longrightarrow> (\<forall>a. (background_step env)\<^sup>*\<^sup>* a (snd (rt_opamp rt r a)))) \<and>
     (rq_path r = ''/mcp'' \<longrightarrow>
       (\<forall>a. mcp_run env (filter (\<lambda>t. fst t \<noteq> ''approve_task'') tools) a (snd (rt_mcp rt r a)))))"

lemma background_held: "background_step env a a' \<Longrightarrow> held fleet_drained (ap_tools a) (ap_tools a')"
proof (induction rule: background_step.induct)
  case (fleet_acts a u)
  from fleet_step_drained [OF fleet_acts] show ?case by (simp add: held_def stored_task_def)
next
  case (time_passes a now)
  then show ?case by (simp add: held_def)
qed

lemma background_run_held: "(background_step env)\<^sup>*\<^sup>* a a' \<Longrightarrow> held fleet_drained (ap_tools a) (ap_tools a')"
  by (induction rule: rtranclp_induct) (auto intro: draining.held_trans background_held)

lemma mcp_run_held:
  assumes "dp_require_approval dp" "model_keeps fleet_drained dp"
  shows "mcp_run env (filter (\<lambda>t. fst t \<noteq> ''approve_task'') (new_mcp_server marshal codec dp new_tools)) a a' \<Longrightarrow>
    held fleet_drained (ap_tools a) (ap_tools a')"
proof (induction rule: mcp_run.induct)
  case (mcp_nothing a)
  then show ?case by simp
next
  case (mcp_background a b c)
  then show ?case using draining.held_trans background_held by blast
next
  case (mcp_called a b name call arguments)
  then obtain handle where handle: "(name, handle) \<in> set new_tools" "name \<noteq> ''approve_task''"
    and call: "call = mcp_call marshal codec dp handle"
    by (auto simp: new_mcp_server_def to_mcp_tool_def)
  note tool = draining.held_opD [OF draining.held_tool_call [OF assms handle]]
  have "held fleet_drained s (snd (call arguments s))" for s
    by (auto simp: call mcp_call_def split: sum.split prod.split dest: tool)
  with mcp_called.IH show ?case using draining.held_trans by simp
qed

lemma run_server_held:
  assumes "\<And>r a m random. unapproved_event env tools rt (id, random, r) \<Longrightarrow>
      held fleet_drained (ap_tools a) (ap_tools (snd (snd (serve rt random r (m, a)))))"
    and "list_all (unapproved_event env tools rt) evs"
  shows "held fleet_drained (ap_tools (snd st)) (ap_tools (snd (run_server rt evs st)))"
  using assms(2)
proof (induction evs rule: rev_induct)
  case (snoc ev evs)
  obtain f random r where ev: "ev = (f, random, r)" by (cases ev)
  let ?st = "run_server rt evs st"
  from snoc.prems ev have ok: "unapproved_event env tools rt (id, random, r)" and f: "(background_step env)\<^sup>*\<^sup>* a (f a)" for a
    by (auto simp: unapproved_event_def)
  have "held fleet_drained (ap_tools (snd st)) (ap_tools (f (snd ?st)))"
    by (rule draining.held_trans [OF _ background_run_held [OF f]]) (use snoc in simp)
  from draining.held_trans [OF this assms(1) [OF ok]] show ?case
    unfolding ev run_server_snoc .
qed (simp add: run_server_def)

section \<open>Properties\<close>

text \<open>C6: A server is started with approval required, on a model whose answers do not call the approval tool.  In any
  run of requests, to the REST interface, conversations, the MCP end point and connections of agents, with agents
  reporting, connections closing, the sweep and time going on between the requests and during the calls of the
  model, in which no request approves a task and no MCP request calls the approval tool, nothing is delivered:
  nothing is sent to a Collector or queued, the reply to any message of an agent carries no configuration, and
  every task that is being applied or done was so when the server started.  Requests are handled one after
  the other; the libraries are taken to do no more than call the registered tools and handlers.\<close>

theorem started_server_delivers_approved_only:
  assumes "start_server pf env = Inr (rt, (m0, a0))" "get_bool env ''REQUIRE_APPROVAL'' True"
    and "\<And>cfg client. pf_model pf cfg = Inr client \<Longrightarrow> harmless_client (pf_opamp_env pf) client"
    and "tools = new_mcp_server (pf_marshal_args pf) (pf_codec pf) (hd_deps (rt_handlers rt)) new_tools"
    and "list_all (unapproved_event (pf_opamp_env pf) tools rt) evs" "run_server rt evs (m0, a0) = (m, a)"
  shows "os_sent (ts_opamp (ap_tools a)) = [] \<and> os_pending (ts_opamp (ap_tools a)) = Map.empty \<and>
    (\<forall>now conn msg reply. fst (on_message (pf_opamp_env pf) now conn msg (ts_opamp (ap_tools a))) = Some reply \<longrightarrow>
      sm_remote_config reply = None) \<and>
    (\<forall>k t'. stored_task (tdb (ap_tools a)) k = Some t' \<longrightarrow> t_status t' \<in> {TaskStatusApplying, TaskStatusDone} \<longrightarrow>
      (\<exists>t. stored_task (tdb (ap_tools a0)) k = Some t \<and> t_status t = t_status t'))"
proof (rule start_server_cases [OF assms(1)])
  fix client git repo m' d
  let ?cfg = "read_config env"
  let ?dp = "build_deps pf ?cfg client git" and ?events = "unapproved_event (pf_opamp_env pf) tools rt"
  assume model: "pf_model pf (cfg_llm ?cfg) = Inr client" and rt: "rt = build_router pf ?cfg ?dp git"
    and st: "(m0, a0) = (m', first_state pf ?cfg (seeded pf ?cfg d) repo)"
  have approval: "dp_require_approval ?dp" using assms(2) by (simp add: read_config_def)
  have "harmless_client (pf_opamp_env pf) (dp_model ?dp)" using assms(3) [OF model] by simp
  note harmless = harmless_deps [OF this]
  have "held_op fleet_drained (hd_chat (rt_handlers rt) sess message)" for sess message
    unfolding rt build_router_simps
    by (rule draining.held_chat) (simp_all add: new_orchestrator_def approval [unfolded build_deps_simps] harmless)
  note chat = draining.held_chat_handler [OF this]
  have tools: "tools = new_mcp_server (pf_marshal_args pf) (pf_codec pf) ?dp new_tools"
    using assms(4) rt by simp
  have "held fleet_drained (ap_tools a1) (ap_tools (snd (snd (serve rt random r (m1, a1)))))"
    if "?events (id, random, r)" for r a1 m1 random
  proof (rule draining.serve_held)
    show "dp_require_approval (hd_deps (rt_handlers rt))" using approval by (simp add: rt)
    show "\<not> approves_request r" using that by (simp add: unapproved_event_def)
  next
    assume "rq_path r = ''/v1/opamp''"
    then show "held fleet_drained (ap_tools a1) (ap_tools (snd (rt_opamp rt r a1)))"
      using that by (intro background_run_held [where env = "pf_opamp_env pf"]) (simp add: unapproved_event_def)
  next
    assume "rq_path r = ''/mcp''"
    then have "mcp_run (pf_opamp_env pf) (filter (\<lambda>t. fst t \<noteq> ''approve_task'') tools) a1 (snd (rt_mcp rt r a1))"
      using that by (simp add: unapproved_event_def)
    then show "held fleet_drained (ap_tools a1) (ap_tools (snd (rt_mcp rt r a1)))"
      unfolding tools by (rule mcp_run_held [OF approval harmless(1)])
  qed (rule chat)
  from run_server_held [OF this assms(5), of "(m0, a0)"] assms(6)
  have "held fleet_drained (ap_tools a0) (ap_tools a)" by simp
  then have empty: "os_sent (ts_opamp (ap_tools a)) = []" "os_pending (ts_opamp (ap_tools a)) = Map.empty"
    and tasks: "\<forall>k t'. stored_task (tdb (ap_tools a)) k = Some t' \<longrightarrow> t_status t' \<in> {TaskStatusApplying, TaskStatusDone} \<longrightarrow>
      (\<exists>t. stored_task (tdb (ap_tools a0)) k = Some t \<and> t_status t = t_status t')"
    using st by (auto simp: held_def fleet_drained_def fun_eq_iff)
  have "sm_remote_config reply = None"
    if "fst (on_message (pf_opamp_env pf) now conn msg (ts_opamp (ap_tools a))) = Some reply" for now conn msg reply
    using reply_was_queued [OF that] empty(2) by (cases "sm_remote_config reply") auto
  with empty tasks show ?thesis by blast
qed

text \<open>C17: A server that started is guarded unless the environment turned the guard off, with nobody logged in; it
  requires approvals, checks the token of the MCP end point and serves the web interface as the
  environment says, and it has a repository exactly in git mode.\<close>

theorem started_as_configured:
  assumes "start_server pf env = Inr (rt, (m, a))"
  shows "(enabled m \<or> env ''WEB_AUTH_MODE'' = Some ''off'') \<and> am_sessions m = Map.empty \<and>
    dp_require_approval (hd_deps (rt_handlers rt)) = get_bool env ''REQUIRE_APPROVAL'' True \<and>
    rt_mcp_token rt = getenv env ''MCP_AUTH_TOKEN'' \<and>
    os_auth_token (ts_opamp (ap_tools a)) = getenv env ''OPAMP_AUTH_TOKEN'' \<and>
    (get_bool env ''DISABLE_WEB'' False \<longrightarrow> rt_web rt = None) \<and>
    (hd_git (rt_handlers rt) = None \<longleftrightarrow> get_env env ''CONFIG_SOURCE'' ''builtin'' \<noteq> ''git'')"
proof (rule start_server_cases [OF assms])
  fix client git repo m' d
  assume load: "load_config env = Inr (read_config env)" and git: "open_git pf (read_config env) = Inr (git, repo)"
    and auth: "new_auth_manager (pf_bcrypt pf) (read_config env) = Inr m'"
    and rt: "rt = build_router pf (read_config env) (build_deps pf (read_config env) client git) git"
    and st: "(m, a) = (m', first_state pf (read_config env) (seeded pf (read_config env) d) repo)"
  have "am_mode m = web_auth_mode (cfg_web (read_config env)) \<and> am_sessions m = Map.empty"
    using auth st by (auto simp: new_auth_manager_def Let_def split: if_splits)
  moreover have "enabled m \<or> env ''WEB_AUTH_MODE'' = Some ''off''"
    using calculation loaded_config_usable_modes [OF load]
      get_env_value [of env "''WEB_AUTH_MODE''" web_auth_simple "''off''"]
    by (auto simp: enabled_def web_auth_off_def web_auth_simple_def read_config_def read_web_def)
  moreover have "hd_git (rt_handlers rt) = None \<longleftrightarrow> get_env env ''CONFIG_SOURCE'' ''builtin'' \<noteq> ''git''"
    using open_git_mode [OF git] rt by (cases git) (simp_all add: read_config_fields)
  moreover have "cfg_require_approval (read_config env) = get_bool env ''REQUIRE_APPROVAL'' True"
    "cfg_mcp_auth_token (read_config env) = getenv env ''MCP_AUTH_TOKEN''"
    "cfg_opamp_auth_token (read_config env) = getenv env ''OPAMP_AUTH_TOKEN''"
    "web_disable (cfg_web (read_config env)) = get_bool env ''DISABLE_WEB'' False"
    by (simp_all add: read_config_def read_web_def)
  ultimately show ?thesis
    using st rt by (auto simp: build_web_handler_def first_state_def new_opamp_def Let_def)
qed

section \<open>A sample start\<close>

definition sample_platform :: platform where
  "sample_platform =
    \<lparr>pf_sql_open = (\<lambda>_ _. Inr \<lparr>cn_catalog = empty_catalog, cn_ping = None, cn_max_open = 0\<rparr>),
     pf_rows = (\<lambda>_. empty_db), pf_now = 0, pf_ids = (\<lambda>n. itoa (int n)), pf_confirm = dp_confirm sample_deps,
     pf_opamp_env = dp_opamp_env sample_deps, pf_around = dp_around sample_deps, pf_decode = dp_decode sample_deps,
     pf_otelcol = dp_otelcol sample_deps, pf_attach = None, pf_model = (\<lambda>_. Inr (dp_model asking_deps)),
     pf_look = DirOk, pf_git = (\<lambda>_ _. GitTimeout), pf_bcrypt = sample_bcrypt, pf_codec = plain_codec,
     pf_marshal_args = (\<lambda>_. Inr ''{}''), pf_opamp_handler = (\<lambda>r a. (not_found, a)),
     pf_mcp_handler = (\<lambda>tools r a. (not_found, a\<lparr>ap_tools := snd (snd (hd tools) Map.empty (ap_tools a))\<rparr>)), pf_web_dir = (\<lambda>_. Map.empty), pf_embedded = None\<rparr>"

definition plain_environment :: environment where
  "plain_environment = [''LLM_API_KEY'' \<mapsto> ''sk-1'', ''WEB_ADMIN_PASSWORD_HASH'' \<mapsto> ''$2y$10$abc'',
    ''DISABLE_WEB'' \<mapsto> ''true'']"

lemma plain_environment_loads: "load_config plain_environment = Inr (read_config plain_environment)"
  by (simp add: load_config_def validate_config_def validate_web_def validate_gitops_def Let_def read_config_def
      read_llm_def read_web_def get_env_def getenv_def plain_environment_def)

lemma sample_started:
  obtains rt m a where "start_server sample_platform plain_environment = Inr (rt, (m, a))"
proof -
  have "cfg_config_source (read_config plain_environment) = ''builtin''"
    by (simp add: read_config_def get_env_def plain_environment_def)
  then have "open_git sample_platform (read_config plain_environment) = Inr (None, closed_repo)"
    by (simp add: open_git_def)
  moreover obtain m where "new_auth_manager sample_bcrypt (read_config plain_environment) = Inr m"
    by (cases "new_auth_manager sample_bcrypt (read_config plain_environment)")
      (auto simp: new_auth_manager_def Let_def sample_bcrypt_def split: if_splits)
  moreover have "cfg_db_driver (read_config plain_environment) = ''sqlite''"
    by (simp add: read_config_def get_env_def plain_environment_def)
  moreover have "\<exists>conn. new_store (pf_sql_open sample_platform) ''sqlite'' dsn = Inr conn" for dsn
    by (rule new_store_ok [where conn = "\<lparr>cn_catalog = empty_catalog, cn_ping = None, cn_max_open = 0\<rparr>"])
      (simp_all add: sample_platform_def empty_older)
  then obtain conn where "new_store (pf_sql_open sample_platform) ''sqlite'' (data_source (read_config plain_environment)) =
      Inr conn" by blast
  ultimately show ?thesis
    using that by (simp add: start_server_def plain_environment_loads) (simp add: sample_platform_def)
qed

lemma asking_harmless: "harmless_client env (dp_model asking_deps)"
  by (simp add: harmless_client_def asking_deps_def listing_answer_def text_message_def)

text \<open>An agent reports, a client calls a tool over MCP, and a user talks to the assistant.\<close>

definition sample_report :: "app_state \<Rightarrow> app_state" where
  "sample_report a = a\<lparr>ap_tools := (ap_tools a)\<lparr>ts_opamp :=
     snd (on_message (pf_opamp_env sample_platform) 7 1 acknowledging_agent (ts_opamp (ap_tools a)))\<rparr>\<rparr>"

definition sample_events :: "http_event list" where
  "sample_events = [(sample_report, None, web_request ''POST'' ''/mcp'' None []),
     (sample_report, None, web_request ''POST'' ''/api/v1/chat'' None [(''message'', JStr ''hi'')])]"

lemma filter_name: "t = (''list_collectors'', f) \<Longrightarrow> t \<in> set ts \<Longrightarrow>
    (''list_collectors'', f) \<in> set (filter (\<lambda>t. fst t \<noteq> ''approve_task'') ts)"
  by simp

theorem started_server_delivers_approved_only_witness:
  "\<exists>rt m0 a0. start_server sample_platform plain_environment = Inr (rt, (m0, a0)) \<and>
    os_sent (ts_opamp (ap_tools (snd (run_server rt sample_events (m0, a0))))) = [] \<and>
    (\<exists>reply. fst (on_message (pf_opamp_env sample_platform) 9 1 acknowledging_agent
      (ts_opamp (ap_tools (snd (run_server rt sample_events (m0, a0)))))) = Some reply \<and> sm_remote_config reply = None)"
proof (rule sample_started)
  fix rt m0 a0
  assume start: "start_server sample_platform plain_environment = Inr (rt, (m0, a0))"
  let ?env = "pf_opamp_env sample_platform"
  define tools where "tools = new_mcp_server (pf_marshal_args sample_platform) (pf_codec sample_platform)
    (hd_deps (rt_handlers rt)) new_tools"
  obtain m a where run: "run_server rt sample_events (m0, a0) = (m, a)" by (cases "run_server rt sample_events (m0, a0)")
  have mcp: "rt_mcp rt = (\<lambda>r a. (not_found, a\<lparr>ap_tools := snd (snd (hd tools) Map.empty (ap_tools a))\<rparr>))"
    by (rule start_server_cases [OF start])
      (simp add: build_router_def Let_def tools_def new_handlers_def, simp add: sample_platform_def)
  have "hd tools = (''list_collectors'', snd (hd tools))" "hd tools \<in> set tools"
    by (simp_all add: tools_def new_mcp_server_def new_tools_def to_mcp_tool_def)
  then have listed: "(''list_collectors'', snd (hd tools)) \<in> set (filter (\<lambda>t. fst t \<noteq> ''approve_task'') tools)"
    by (rule filter_name)
  have called: "mcp_run ?env (filter (\<lambda>t. fst t \<noteq> ''approve_task'') tools) a (snd (rt_mcp rt r a))" for r a
    using mcp_called [OF mcp_nothing listed, of ?env a Map.empty] by (simp only: mcp snd_conv)
  have "(background_step ?env)\<^sup>*\<^sup>* a (sample_report a)" for a
    unfolding sample_report_def by (intro r_into_rtranclp fleet_acts agent_reports)
  moreover have "split_path ''/api/v1/chat'' = [''api'', ''v1'', ''chat'']" by (simp add: split_path_def)
  ultimately have "list_all (unapproved_event ?env tools rt) sample_events"
    using called by (simp add: unapproved_event_def sample_events_def approves_request_def web_request_def)
  moreover have "get_bool plain_environment ''REQUIRE_APPROVAL'' True"
    by (simp add: get_bool_def get_parsed_def plain_environment_def)
  moreover have "harmless_client ?env client" if "pf_model sample_platform cfg = Inr client" for cfg client
    using that asking_harmless by (simp add: sample_platform_def)
  ultimately have "os_sent (ts_opamp (ap_tools a)) = [] \<and>
      (\<forall>now conn msg reply. fst (on_message ?env now conn msg (ts_opamp (ap_tools a))) = Some reply \<longrightarrow>
        sm_remote_config reply = None)"
    using started_server_delivers_approved_only [OF start _ _ tools_def _ run] by blast
  moreover have "fst (on_message ?env 9 1 acknowledging_agent u) \<noteq> None" for u
    by (simp add: on_message_def Let_def acknowledging_agent_def hex_encode_eq_Nil_iff split: prod.split)
  ultimately show ?thesis using start run by (metis option.exhaust snd_conv)
qed

theorem started_as_configured_witness:
  "\<exists>rt m a. start_server sample_platform plain_environment = Inr (rt, (m, a)) \<and> enabled m \<and> rt_web rt = None \<and>
    dp_require_approval (hd_deps (rt_handlers rt))"
proof (rule sample_started)
  fix rt m a
  assume start: "start_server sample_platform plain_environment = Inr (rt, (m, a))"
  have "get_bool plain_environment ''DISABLE_WEB'' False" "get_bool plain_environment ''REQUIRE_APPROVAL'' True"
    "plain_environment ''WEB_AUTH_MODE'' = None"
    by (simp_all add: get_bool_def get_parsed_def parse_bool_def plain_environment_def)
  with started_as_configured [OF start] start show ?thesis by simp
qed

end
