(* ===== verification/Dispatch_Time.thy ===== *)
theory Dispatch_Time
  imports Dispatch
begin

section \<open>How long a dispatch takes (internal/agent/tools.go, confirm.go, cmd/server/main.go)\<close>

text \<open>
  A dispatch delivers to the Collectors of a target one after the other and waits for each.  The request that
  approves a task waits for the dispatch, and the server stops writing its response after thirty seconds.

  In the model time passes in the waits for a confirmation only: sending a message (\<open>conn_send\<close>) and the
  database operations, whose retries the program spaces out and for which SQLite itself waits, take no
  time.  A lower bound on the model's time is therefore one on the program's: what the model leaves out
  only adds to it.  The first group of lemmas bounds from above the time spent in the waits, and says
  nothing of the time the sends and the database take; the second bounds from below the time a dispatch to
  silent Collectors takes.
\<close>

definition http_read_timeout :: duration where
  "http_read_timeout = 30 * nano_per_second"

definition http_write_timeout :: duration where
  "http_write_timeout = 30 * nano_per_second"

subsection \<open>The waits, at most\<close>

definition late_at_most :: "duration \<Rightarrow> 's surroundings \<Rightarrow> bool" where
  "late_at_most slack around \<longleftrightarrow> (\<forall>t u late u'. around t u = Some (late, u') \<longrightarrow> int late \<le> slack)"

text \<open>The longest a single delivery waits: two rounds, each ending at the poll after its deadline.\<close>

definition longest_delivery :: "duration \<Rightarrow> duration \<Rightarrow> duration" where
  "longest_delivery timeout slack = 2 * (quot timeout 2 + confirm_poll_interval + slack)"

lemma wait_confirm_takes:
  assumes "late_at_most slack around" "0 \<le> slack" "0 \<le> half"
    and "wait_confirm cenv around view uid want content (now + half) now s = (b, now', s')"
  shows "now \<le> now' \<and> now' \<le> now + (half + confirm_poll_interval + slack)"
proof -
  have "now' \<le> max now (now + half + confirm_poll_interval + slack)"
    using wait_confirm_time [OF _ assms(4), of slack] assms(1) by (auto simp: late_at_most_def)
  with wait_confirm_result [OF assms(4)] assms(2,3) show ?thesis by (auto simp: confirm_poll_interval_def)
qed

lemma push_and_confirm_takes:
  assumes "late_at_most slack around" "0 \<le> slack" "0 \<le> timeout"
    and "push_and_confirm cenv around pusher view uid content timeout now s = (r, now', s')"
  shows "now \<le> now' \<and> now' \<le> now + longest_delivery timeout slack"
proof -
  define half where "half = quot timeout 2"
  have half: "0 \<le> half" using assms(3) by (simp add: half_def quot_nonneg)
  note wait = wait_confirm_takes [OF assms(1,2) half]
  have long: "now \<le> now + longest_delivery timeout slack"
    using half assms(2) by (simp add: longest_delivery_def half_def confirm_poll_interval_def)
  show ?thesis
  proof (cases "pusher = None \<or> view = None")
    case True
    with assms(4) long show ?thesis
      by (auto simp: push_and_confirm_def split: sum.splits option.splits prod.splits)
  next
    case False
    then obtain p v where pv: "pusher = Some p" "view = Some v" by auto
    obtain x s1 where s1: "cp_push p uid content s = (x, s1)" by (cases "cp_push p uid content s")
    define want where "want = content_hash (ce_sha cenv) content"
    obtain b2 now2 s2 where w2: "wait_confirm cenv around v uid want content (now + half) now s1 = (b2, now2, s2)"
      by (metis prod_cases3)
    obtain sent s3 where s3: "cp_restart p uid s2 = (sent, s3)" by (cases "cp_restart p uid s2")
    obtain b4 now4 s4 where w4: "wait_confirm cenv around v uid want content (now2 + half) now2 s3 = (b4, now4, s4)"
      by (metis prod_cases3)
    have "now' = now \<or> now' = now2 \<or> now' = now4"
      using assms(4) pv s1 w2 s3 w4
      by (auto simp: push_and_confirm_def Let_def want_def [symmetric] half_def [symmetric]
          split: sum.splits bool.splits if_splits)
    with wait [OF w2] wait [OF w4] long show ?thesis
      by (auto simp: longest_delivery_def half_def [symmetric])
  qed
qed

lemma record_config_version_now: "ts_now (record_config_version dp uid content s) = ts_now s"
  by (auto simp: record_config_version_def sync_store_def sync_registry_def on_db_eq split: option.split sum.split)

lemma deliver_all_takes:
  assumes "late_at_most slack (dp_around dp)" "0 \<le> slack"
  shows "deliver_all dp content cs s = (un, s') \<Longrightarrow>
    ts_now s \<le> ts_now s' \<and> ts_now s' \<le> ts_now s + int (length cs) * longest_delivery default_confirm_timeout slack"
proof (induction cs arbitrary: s un s')
  case (Cons c cs)
  let ?long = "longest_delivery default_confirm_timeout slack"
  obtain r s1 where d: "deliver dp (col_instance_uid c) content s = (r, s1)"
    by (cases "deliver dp (col_instance_uid c) content s")
  have "0 \<le> default_confirm_timeout" by (simp add: default_confirm_timeout_def)
  with d have first: "ts_now s \<le> ts_now s1 \<and> ts_now s1 \<le> ts_now s + ?long"
    using push_and_confirm_takes [OF assms] by (fastforce simp: deliver_def Let_def split: prod.splits)
  obtain un' s2 where rest: "deliver_all dp content cs
      (case r of Inl _ \<Rightarrow> s1 | Inr _ \<Rightarrow> record_config_version dp (col_instance_uid c) content s1) = (un', s2)"
    by (metis surj_pair)
  have "s' = s2" using Cons.prems d rest by (auto simp: Let_def split: sum.splits prod.splits)
  moreover have "ts_now (case r of Inl _ \<Rightarrow> s1 | Inr _ \<Rightarrow> record_config_version dp (col_instance_uid c) content s1) = ts_now s1"
    by (simp add: record_config_version_now split: sum.split)
  ultimately have "ts_now s1 \<le> ts_now s' \<and> ts_now s' \<le> ts_now s1 + int (length cs) * ?long"
    using Cons.IH [OF rest] by simp
  with first show ?case by (simp add: distrib_right)
qed simp

subsection \<open>At least, when the target is silent\<close>

text \<open>What the registry keeps of a connected agent.\<close>

definition agent_facts ::
  "string \<Rightarrow> registry \<Rightarrow> conn_id option \<times> 64 word option \<times> string option \<times> string option" where
  "agent_facts uid r = (rg_conns r uid, rg_caps r uid, rg_rep_hash r uid, rg_rep_eff r uid)"

definition same_facts :: "string set \<Rightarrow> registry \<Rightarrow> registry \<Rightarrow> bool" where
  "same_facts uids r r' \<longleftrightarrow> (\<forall>uid\<in>uids. agent_facts uid r' = agent_facts uid r)"

text \<open>
  While the server waits the context is not cancelled and, from any state in which the registry knows of the
  agents \<open>uids\<close> what it knew in \<open>r\<close>, none of them reports, connects or leaves.  Other agents do as they like.
\<close>

definition silent_about :: "string set \<Rightarrow> registry \<Rightarrow> opamp surroundings \<Rightarrow> bool" where
  "silent_about uids r around \<longleftrightarrow> (\<forall>t u. same_facts uids r (os_reg u) \<longrightarrow>
     (case around t u of None \<Rightarrow> False | Some (_, u') \<Rightarrow> same_facts uids r (os_reg u')))"

definition silent_wait :: "registry \<Rightarrow> string \<Rightarrow> duration" where
  "silent_wait r uid = (if accepts_restart uid r then default_confirm_timeout else quot default_confirm_timeout 2)"

text \<open>The Collectors of \<open>cs\<close> are connected and known by an identifier that decodes, and none has reported
  \<open>content\<close> so far.\<close>

definition awaits_report :: "confirm_env \<Rightarrow> string \<Rightarrow> collector list \<Rightarrow> opamp \<Rightarrow> bool" where
  "awaits_report cenv content cs u \<longleftrightarrow>
    list_all (\<lambda>c. reg_online (col_instance_uid c) (os_reg u) \<and> hex_decode (col_instance_uid c) \<noteq> None \<and>
      \<not> report_confirms cenv opamp_view (col_instance_uid c) (content_hash (ce_sha cenv) content) content u) cs"

lemma same_facts_refl [simp]: "same_facts uids r r"
  by (simp add: same_facts_def)

lemma facts_decide:
  assumes "same_facts uids r r'" and "uid \<in> uids"
  shows "reg_online uid r' = reg_online uid r" "accepts_restart uid r' = accepts_restart uid r"
    "reported_hash uid r' = reported_hash uid r" "reported_effective uid r' = reported_effective uid r"
  using assms
  by (simp_all add: same_facts_def agent_facts_def reg_online_def accepts_restart_def reported_hash_def reported_effective_def)

lemma facts_report:
  assumes "same_facts uids (os_reg s) (os_reg s')" and "uid \<in> uids"
  shows "report_confirms cenv opamp_view uid want content s' = report_confirms cenv opamp_view uid want content s"
  by (rule opamp_channel.report_same) (simp_all add: opamp_view_def facts_decide [OF assms])

lemma same_facts_trans: "same_facts uids r r' \<Longrightarrow> same_facts uids r' r'' \<Longrightarrow> same_facts uids r r''"
  by (simp add: same_facts_def)

lemma same_facts_sym: "same_facts uids r r' \<Longrightarrow> same_facts uids r' r"
  by (simp add: same_facts_def)

lemma silent_aboutD:
  assumes "silent_about uids r around" and "same_facts uids r (os_reg u)"
  shows "around t u \<noteq> None" and "around t u = Some (late, u') \<Longrightarrow> same_facts uids r (os_reg u')"
proof -
  have "case around t u of None \<Rightarrow> False | Some (_, u') \<Rightarrow> same_facts uids r (os_reg u')"
    using assms unfolding silent_about_def by blast
  then show "around t u \<noteq> None" and "around t u = Some (late, u') \<Longrightarrow> same_facts uids r (os_reg u')"
    by (auto split: option.splits)
qed

lemma message_same_facts:
  assumes "hex_encode (am_instance_uid msg) \<notin> uids"
  shows "same_facts uids (os_reg u) (os_reg (snd (on_message env now conn msg u)))"
proof (cases "hex_encode (am_instance_uid msg) = ''''")
  case True
  then show ?thesis by (simp add: on_message_def)
next
  case False
  show ?thesis
    unfolding same_facts_def agent_facts_def
    using assms by (auto simp: on_message_registry [OF refl False] frame_simps collector_from_message_uid)
qed

lemma other_agent_silent:
  assumes "hex_encode (am_instance_uid msg) \<notin> uids"
  shows "silent_about uids r (\<lambda>t u. Some (late t, snd (on_message env t conn msg u)))"
  using same_facts_trans [OF _ message_same_facts [OF assms]] by (simp add: silent_about_def)

lemma silent_wait_confirm:
  assumes "silent_about uids r around" "same_facts uids r (os_reg s)" "uid \<in> uids"
    and "wait_confirm cenv around opamp_view uid want content deadline now s = (b, now', s')"
    and "\<not> report_confirms cenv opamp_view uid want content s"
  shows "\<not> b \<and> deadline \<le> now' \<and> same_facts uids r (os_reg s')"
proof -
  have same: "same_facts uids r (os_reg s')"
    using wait_confirm_keeps [where P = "\<lambda>v. same_facts uids r (os_reg v)", OF _ assms(4,2)]
      silent_aboutD(2) [OF assms(1)] by blast
  have "same_facts uids (os_reg s) (os_reg s')" using same assms(2) by (simp add: same_facts_def)
  with wait_confirm_result [OF assms(4)] assms(5) facts_report [OF this assms(3)] silent_aboutD(1) [OF assms(1) same]
  show ?thesis using same by (metis not_less)
qed

lemma silent_delivery:
  assumes "silent_about uids r0 around" "same_facts uids r0 (os_reg s)" "uid \<in> uids"
    and "reg_online uid (os_reg s)" "hex_decode uid \<noteq> None"
    and "\<not> report_confirms cenv opamp_view uid (content_hash (ce_sha cenv) content) content s"
    and "push_and_confirm cenv around (Some (opamp_pusher env)) (Some opamp_view) uid content default_confirm_timeout now s
      = (r, now', s')"
  shows "r = Inr False \<and> now + silent_wait r0 uid \<le> now' \<and> same_facts uids r0 (os_reg s')"
proof -
  note silent = silent_wait_confirm [OF assms(1) _ assms(3)]
  define half where "half = quot default_confirm_timeout 2"
  define want where "want = content_hash (ce_sha cenv) content"
  obtain s1 where push: "push_config env uid content s = (ok_unit, s1)" using push_config_accepted [OF assms(5)] by blast
  have s1: "os_reg s1 = os_reg s" using push_config_reg [of env uid content s] push by simp
  obtain b2 now2 s2 where w2: "wait_confirm cenv around opamp_view uid want content (now + half) now s1 = (b2, now2, s2)"
    by (metis prod_cases3)
  have "\<not> report_confirms cenv opamp_view uid want content s1"
    using assms(6) facts_report [of uids s s1, OF _ assms(3)] s1 by (simp add: want_def)
  with silent [OF _ w2] assms(2) s1 have first: "\<not> b2 \<and> now + half \<le> now2 \<and> same_facts uids r0 (os_reg s2)" by simp
  obtain sent s3 where s3: "send_restart env uid s2 = (sent, s3)" by (cases "send_restart env uid s2")
  have s3r: "os_reg s3 = os_reg s2" using send_restart_frame(1) [of env uid s2] s3 by simp
  have "same_facts uids (os_reg s) (os_reg s3)" using first assms(2) s3r by (simp add: same_facts_def)
  then have "\<not> report_confirms cenv opamp_view uid want content s3"
    using assms(6) facts_report [OF _ assms(3)] by (simp add: want_def)
  moreover obtain b4 now4 s4 where
    w4: "wait_confirm cenv around opamp_view uid want content (now2 + half) now2 s3 = (b4, now4, s4)"
    by (metis prod_cases3)
  ultimately have second: "\<not> b4 \<and> now2 + half \<le> now4 \<and> same_facts uids r0 (os_reg s4)"
    using silent [OF _ w4] first s3r by simp
  have acc: "accepts_restart uid (os_reg s2) = accepts_restart uid r0"
    using first facts_decide(2) [OF _ assms(3)] by blast
  have online: "rv_online opamp_view uid s" using assms(4) by (simp add: opamp_view_def)
  have "(r, now', s') = (if accepts_restart uid r0 then (Inr False, now4, s4) else (Inr False, now2, s2))"
    using online assms(7) push w2 s3 w4 first second acc
    by (auto simp: push_and_confirm_def opamp_pusher_def Let_def want_def [symmetric] half_def [symmetric]
        rv_accepts_opamp split: if_splits bool.splits)
  moreover have "default_confirm_timeout = half + half"
    by (simp add: half_def default_confirm_timeout_def quot_def)
  ultimately show ?thesis
    using first second by (auto simp: silent_wait_def half_def [symmetric] split: if_splits)
qed

lemma record_config_version_facts:
  "same_facts uids (os_reg (ts_opamp s)) (os_reg (ts_opamp (record_config_version dp uid content s)))"
  by (auto simp: record_config_version_def sync_store_def sync_registry_def on_db_eq same_facts_def agent_facts_def frame_simps
      split: option.split sum.split)

lemma awaits_report_same:
  assumes "same_facts uids (os_reg u) (os_reg u')" and "col_instance_uid ` set cs \<subseteq> uids" and "awaits_report cenv content cs u"
  shows "awaits_report cenv content cs u'"
  using assms facts_decide [OF assms(1)] facts_report [OF assms(1)]
  by (auto simp: awaits_report_def list_all_iff)

lemma silent_deliver_all:
  assumes "silent_about uids r0 (dp_around dp)" "dp_has_opamp dp" "dp_has_registry dp"
    and "same_facts uids r0 (os_reg (ts_opamp s))" and "col_instance_uid ` set cs \<subseteq> uids"
    and "awaits_report (dp_confirm dp) content cs (ts_opamp s)"
    and "deliver_all dp content cs s = (un, s')"
  shows "un = map col_instance_uid cs \<and>
    ts_now s + sum_list (map (\<lambda>c. silent_wait r0 (col_instance_uid c)) cs) \<le> ts_now s'"
  using assms(4-)
proof (induction cs arbitrary: s un)
  case (Cons c cs)
  let ?uid = "col_instance_uid c"
  obtain r s1 where d: "deliver dp ?uid content s = (r, s1)" by (cases "deliver dp ?uid content s")
  have first: "r = Inr False \<and> ts_now s + silent_wait r0 ?uid \<le> ts_now s1 \<and> same_facts uids r0 (os_reg (ts_opamp s1))"
    using d assms(2,3) Cons.prems(2,3) silent_delivery [OF assms(1) Cons.prems(1)]
    by (fastforce simp: deliver_def Let_def awaits_report_def split: prod.splits)
  define s2 where "s2 = record_config_version dp ?uid content s1"
  have facts: "same_facts uids r0 (os_reg (ts_opamp s2))"
    using first same_facts_trans [OF _ record_config_version_facts] by (simp add: s2_def)
  obtain un' where rest: "deliver_all dp content cs s2 = (un', s')" "un = ?uid # un'"
    using Cons.prems(4) d first by (auto simp: s2_def [symmetric] Let_def split: prod.splits)
  have "same_facts uids (os_reg (ts_opamp s)) (os_reg (ts_opamp s2))"
    using facts Cons.prems(1) by (simp add: same_facts_def)
  moreover have "awaits_report (dp_confirm dp) content cs (ts_opamp s)"
    using Cons.prems(3) by (simp add: awaits_report_def)
  moreover have "col_instance_uid ` set cs \<subseteq> uids" using Cons.prems(2) by simp
  ultimately have "awaits_report (dp_confirm dp) content cs (ts_opamp s2)"
    using awaits_report_same by blast
  moreover have "ts_now s2 = ts_now s1" by (simp add: s2_def record_config_version_now)
  ultimately show ?case using Cons.IH [OF facts _ _ rest(1)] Cons.prems(2) rest(2) first by simp
qed simp

lemma silent_wait_seconds:
  "silent_wait r uid = (if accepts_restart uid r then 12 * nano_per_second else 6 * nano_per_second)"
  by (simp add: silent_wait_def default_confirm_timeout_def quot_def)

lemma silent_waits_least: "int (length cs) * (6 * nano_per_second) \<le> sum_list (map (\<lambda>c. silent_wait r (col_instance_uid c)) cs)"
  by (induction cs) (simp_all add: silent_wait_seconds distrib_right)

text \<open>C10: The time a dispatch to silent Collectors takes.  Suppose that the Collectors of the target are connected,
  their identifiers decode, none has reported the content before, and while the server waits its context is not
  cancelled and none of them reports, connects or leaves, whatever other agents do.  Then every one of them is
  unconfirmed, and the dispatch takes at least twelve seconds for each that accepts restarts and six for
  each that does not; with five or more Collectors, longer than the server waits to write the response of the
  request that approves the task.  (The time that sends and database writes take is not counted and only
  adds to this.)\<close>

theorem dispatch_duration:
  assumes "deliver_all dp content cs s = (un, s')"
    and "silent_about (col_instance_uid ` set cs) (os_reg (ts_opamp s)) (dp_around dp)"
    and "dp_has_opamp dp" and "dp_has_registry dp"
    and "awaits_report (dp_confirm dp) content cs (ts_opamp s)"
  shows "un = map col_instance_uid cs \<and>
    ts_now s + sum_list (map (\<lambda>c. if accepts_restart (col_instance_uid c) (os_reg (ts_opamp s))
      then 12 * nano_per_second else 6 * nano_per_second) cs) \<le> ts_now s' \<and>
    (5 \<le> length cs \<longrightarrow> ts_now s + http_write_timeout \<le> ts_now s')"
proof -
  have run: "un = map col_instance_uid cs \<and>
      ts_now s + sum_list (map (\<lambda>c. silent_wait (os_reg (ts_opamp s)) (col_instance_uid c)) cs) \<le> ts_now s'"
    using silent_deliver_all [OF assms(2-4) _ _ assms(5,1)] by simp
  with silent_waits_least [of cs "os_reg (ts_opamp s)"]
  have "5 \<le> length cs \<longrightarrow> ts_now s + http_write_timeout \<le> ts_now s'" by (auto simp: http_write_timeout_def)
  with run show ?thesis unfolding silent_wait_seconds by blast
qed

text \<open>Five silent Collectors keep a dispatch longer than the server waits to write the response, while another
  agent reports at every poll.\<close>

definition silent_collectors :: "collector list" where
  "silent_collectors = map blank_collector [''00'', ''01'', ''02'', ''03'', ''04'']"

definition connected_state :: tool_state where
  "connected_state = (sample_state empty_db)\<lparr>ts_opamp := (new_opamp (new_registry 90) empty_db '''')\<lparr>os_reg :=
     (new_registry 90)\<lparr>rg_conns := (\<lambda>_. Some 1)\<rparr>\<rparr>\<rparr>"

definition other_agent :: agent_to_server where
  "other_agent = \<lparr>am_instance_uid = [255], am_description = None, am_health = Some True, am_effective = None,
     am_capabilities = 4, am_remote_status = Some (RcApplied, [7])\<rparr>"

definition busy_deps :: deps where
  "busy_deps = sample_deps\<lparr>dp_around :=
     (\<lambda>t u. Some (0, snd (on_message (dp_opamp_env sample_deps) t 2 other_agent u)))\<rparr>"

theorem dispatch_duration_witness:
  "fst (deliver_all busy_deps ''x'' silent_collectors connected_state) = [''00'', ''01'', ''02'', ''03'', ''04''] \<and>
   ts_now connected_state + http_write_timeout \<le> ts_now (snd (deliver_all busy_deps ''x'' silent_collectors connected_state))"
proof -
  have uids: "col_instance_uid ` set silent_collectors = {''00'', ''01'', ''02'', ''03'', ''04''}"
    by (simp add: silent_collectors_def blank_collector_def)
  have "hex_encode (am_instance_uid other_agent) = ''ff''" unfolding other_agent_def by code_simp
  then have "hex_encode (am_instance_uid other_agent) \<notin> {''00'', ''01'', ''02'', ''03'', ''04''}" by simp
  then have silent: "silent_about (col_instance_uid ` set silent_collectors) (os_reg (ts_opamp connected_state)) (dp_around busy_deps)"
    unfolding uids busy_deps_def by (simp add: other_agent_silent)
  have "hex_decode ''00'' \<noteq> None" "hex_decode ''01'' \<noteq> None" "hex_decode ''02'' \<noteq> None"
    "hex_decode ''03'' \<noteq> None" "hex_decode ''04'' \<noteq> None" by code_simp+
  then have "awaits_report (dp_confirm busy_deps) ''x'' silent_collectors (ts_opamp connected_state)"
    by (simp add: awaits_report_def silent_collectors_def blank_collector_def connected_state_def reg_online_def
        report_confirms_def opamp_view_def reported_hash_def reported_effective_def new_registry_def del: hex_decode.simps)
  with dispatch_duration [OF surjective_pairing silent, of "''x''"] show ?thesis
    by (simp add: busy_deps_def sample_deps_def silent_collectors_def blank_collector_def)
qed

end
