(* ===== verification/Serving.thy ===== *)
theory Serving
  imports Program Dispatch_Time
begin

section \<open>Serving and stopping (cmd/server/main.go)\<close>

text \<open>
  The end of the start function: the server listens until the listener ends or a signal arrives, and the
  exit code.  What the listener and the shutdown return is given.  The lemmas relate the time limits of
  the server to the time a dispatch takes.
\<close>

record http_server =
  hs_addr :: string
  hs_read_timeout :: duration
  hs_write_timeout :: duration

definition http_server_of :: "config \<Rightarrow> http_server" where
  "http_server_of cfg = \<lparr>hs_addr = cfg_http_addr cfg, hs_read_timeout = http_read_timeout,
     hs_write_timeout = http_write_timeout\<rparr>"

datatype listen_end = ListenNil | ListenServerClosed | ListenFailed string

datatype stop_event = ListenerEnds listen_end | SignalArrives

definition shutdown_timeout :: duration where
  "shutdown_timeout = 10 * nano_per_second"

text \<open>What comes first ends the wait; on a signal the result is that of the shutdown.\<close>

definition serve_until :: "stop_event \<Rightarrow> string option \<Rightarrow> string option" where
  "serve_until event shutdown =
    (case event of
       ListenerEnds (ListenFailed err) \<Rightarrow> Some err
     | ListenerEnds _ \<Rightarrow> None
     | SignalArrives \<Rightarrow> shutdown)"

definition run_program :: "platform \<Rightarrow> environment \<Rightarrow> stop_event \<Rightarrow> string option \<Rightarrow> (start_error + string) option" where
  "run_program pf env event shutdown =
    (case start_server pf env of
       Inl e \<Rightarrow> Some (Inl e)
     | Inr _ \<Rightarrow> map_option Inr (serve_until event shutdown))"

definition exit_code :: "(start_error + string) option \<Rightarrow> int" where
  "exit_code r = (case r of None \<Rightarrow> 0 | Some _ \<Rightarrow> 1)"

text \<open>The name a reference is logged under.\<close>

definition shown_ref :: "string \<Rightarrow> string" where
  "shown_ref ref = (if ref = '''' then ''HEAD'' else ref)"

text \<open>The tools that can be called, of those built.\<close>

definition collect_callable :: "(tool \<Rightarrow> bool) \<Rightarrow> (string \<times> tool) list \<Rightarrow> (string \<times> tool) list" where
  "collect_callable callable tools = filter (\<lambda>t. callable (snd t)) tools"

text \<open>The program ends with success only when it started and the listener was closed or the shutdown
  completed.\<close>

lemma exit_code_success:
  "exit_code (run_program pf env event shutdown) = 0 \<longleftrightarrow> is_ok (start_server pf env) \<and>
    (event = ListenerEnds ListenNil \<or> event = ListenerEnds ListenServerClosed \<or> event = SignalArrives \<and> shutdown = None)"
  by (cases "start_server pf env")
    (auto simp: exit_code_def run_program_def serve_until_def split: option.splits stop_event.splits listen_end.splits)

text \<open>
  A dispatch to five silent Collectors outlasts the write timeout, to two silent ones the shutdown: its
  answer is not delivered, or it is cut off with the task still applying.
\<close>

lemma silent_dispatch_outlasts:
  assumes "deliver_all dp content cs s = (un, s')" "dp_has_opamp dp" "dp_has_registry dp"
    and "silent_about (col_instance_uid ` set cs) (os_reg (ts_opamp s)) (dp_around dp)"
    and "awaits_report (dp_confirm dp) content cs (ts_opamp s)"
  shows "(5 \<le> length cs \<longrightarrow> ts_now s + hs_write_timeout (http_server_of cfg) \<le> ts_now s') \<and>
    (2 \<le> length cs \<longrightarrow> ts_now s + shutdown_timeout < ts_now s')"
proof -
  have "ts_now s + int (length cs) * (6 * nano_per_second) \<le> ts_now s'"
    using silent_deliver_all [OF assms(4,2,3) _ _ assms(5,1)] silent_waits_least [of cs "os_reg (ts_opamp s)"] by simp
  then show ?thesis
    by (auto simp: http_server_of_def http_write_timeout_def shutdown_timeout_def)
qed

end
