(* ===== verification/Spec2Isabelle.thy ===== *)
theory Spec2Isabelle
  imports Rest_Effects Task_Refinement Task_Races Fleet_Mirror Supervised_Delivery Row_Codec Streams Serving
begin

text \<open>
  A model of cadenza, a server that manages a fleet of OpenTelemetry Collectors: the Collectors report
  over the OpAMP protocol, an operator or a language-model agent proposes configurations, a person
  approves them, and the server delivers them and waits until the Collector has confirmed.  The theories
  translate the Go packages under src/internal and the program under src/cmd, one group of definitions
  per component, and prove what makes each component and their composition correct.

  How the parts work together.  A request reaches the root handler (\<open>Router\<close>), which guards the REST
  interface with a login (\<open>Web_Auth\<close>) and the MCP endpoint with a token.  The REST handlers
  (\<open>Rest_Api\<close>, with the parsing of parameters in \<open>Rest_Params\<close>) and the tools of the agent
  (\<open>Agent_Tools\<close>), which a conversation (\<open>Orchestrator\<close>) and the MCP server (\<open>Mcp_Server\<close>) call,
  create tasks through the task service (\<open>Task_Service\<close>), after a configuration was
  generated by the language model (\<open>Llm_Chain\<close>, \<open>Streams\<close>) or read from git (\<open>Git_Source\<close>) and checked
  (\<open>Validator\<close>).  An approved task is dispatched (\<open>Dispatch\<close>): the configuration is pushed through the
  OpAMP server (\<open>Opamp_Server\<close>, \<open>Registry\<close>) and confirmed by comparing what the Collector reports
  with what was sent (\<open>Confirm\<close>, \<open>Config_Subset\<close>).  Everything is kept in the store (\<open>Sql_Store\<close>).
  \<open>Program\<close> builds all of it from the environment: it loads the configuration (\<open>Runtime_Config\<close>), opens
  the database and its schema (\<open>Schema\<close>), and puts the router together.  At the other end of the protocol
  \<open>Supervisor\<close> models the agent of the end-to-end test, which owns a Collector and restarts it from every
  configuration it receives.

  Theories and the code they model:
    \<^item> \<open>Prelude\<close>, \<open>Go_Strings\<close>, \<open>Texts\<close>: shared vocabulary, the string functions of Go's standard
      library, and the constant texts as UTF-8 bytes;
    \<^item> \<open>Store_Models\<close> (store/models.go): the records and enumerations, and the error values;
    \<^item> \<open>Sql_Store\<close>, \<open>Session_List\<close> (store/sqlstore.go, store/store.go): tables as lists of rows, every
      statement as an operation, driver failures as a list of outcomes to come, the retry on a busy
      database; \<open>Schema\<close> (store/store.go New, store/sqlstore.go initSchema): opening, as statements on
      a catalogue of tables, columns and rows with the effect they have in SQLite;
    \<^item> \<open>Task_Service\<close> (task/task.go): the state machine of a task and its operations;
      \<open>Task_Refinement\<close> relates them to the documented diagram as an abstract machine, and
      \<open>Task_Races\<close> lets the reads and writes of requests interleave;
    \<^item> \<open>Time_Text\<close>, \<open>Row_Codec\<close> (store/sqlstore.go): the text of a stored time with its calendar, and the
      translation of records to rows of columns and back;
    \<^item> \<open>Unified_Diff\<close> (diff/diff.go), \<open>Validator\<close> (validator/validator.go),
      \<open>Config_Subset\<close> (agent/subset.go), \<open>Git_Source\<close> (gitsource/gitsource.go);
    \<^item> \<open>Registry\<close>, \<open>Opamp_Server\<close> (opampserver/registry.go, server.go): connections, reports, queued
      configurations and the messages sent, with a step relation for runs of the server;
      \<open>Fleet_Mirror\<close> relates the registry to its copy in the store, and \<open>Fleet_Steps\<close> has the steps the
      fleet takes on its own (an agent reports, a connection closes, the sweep), among which waiting
      operations run;
    \<^item> \<open>Confirm\<close> (agent/confirm.go): delivery with a bounded wait for the confirmation;
    \<^item> \<open>Llm_Chain\<close>, \<open>Streams\<close> (agent/llm.go): retry, circuit breaker and cache around a model; the streams
      they pass on, as goroutines over a buffered channel, and the copies of cached responses in a heap;
    \<^item> \<open>Tool_Env\<close>, \<open>Dispatch\<close>, \<open>Agent_Tools\<close> (agent/tools.go): the state and helpers of the tools, the
      dispatch of an approved task, and each tool; \<open>Dispatch_Time\<close> bounds from below the
      time a dispatch to silent Collectors takes;
    \<^item> \<open>Orchestrator\<close> (agent/orchestrator.go, sessionctx.go), \<open>Mcp_Server\<close> (mcp/server.go): a turn of the
      conversation with its rounds and the record of its calls, and the same tools over MCP;
    \<^item> \<open>Runtime_Config\<close> (config/config.go): environment variables, defaults and checks at the start;
    \<^item> \<open>Web_Auth\<close> (api/auth.go, api/mcpauth.go): login sessions and the MCP token; \<open>Passwd\<close>
      (cmd/cadenza-passwd/main.go): the command that makes the password hash;
    \<^item> \<open>Ops_Stats\<close> (api/stats.go): counts and indicators computed from the event log;
    \<^item> \<open>Http_Types\<close>, \<open>Rest_Params\<close>, \<open>Rest_Api\<close>, \<open>Router\<close> (api/handlers.go, apply.go, sessions.go, git.go,
      system.go, static.go, router.go): requests, parameters, handlers and routes;
      \<open>Rest_Safety\<close> holds what is proved of the interface as a whole, \<open>Rest_Effects\<close> what single
      requests do;
    \<^item> \<open>Ulid\<close> (ulid/ulid.go), \<open>Demo\<close> (demo/demo.go): identifiers, and the data of a demonstration;
    \<^item> \<open>Program\<close>, \<open>Serving\<close> (cmd/server/main.go): the start of the server and its background sweep, the
      limits it serves with and how it ends;
    \<^item> \<open>Supervisor\<close> (tests/supervisor-fixture/main.go): the agent that supervises a Collector process;
      \<open>Supervised_Delivery\<close> composes it with the delivery of the server;
    \<^item> this theory: the composition of delivery, OpAMP server and registry.

  What is shown.  Store: well-formedness of reachable databases, the exact number of attempts, round trips
  of writes and reads, paging and cursors without loss or repetition.  Tasks: transitions follow the documented
  diagram, every operation's effect on every branch, the event log replays to the stored status, an
  applied task was approved, also when requests overlap.  Diff: the hunks turn the old text into the new one, and the edit script is
  minimal below the table limit.  Validation and confirmation: the verdict is characterised, a confirmed
  delivery goes back to a message of that very Collector.  Tools: with approval required nothing is
  sent without it, and a dispatch sends approved content only, while the fleet goes on during its waits.  Interface: a protected request goes
  back to a login of the administrator, reading requests change nothing, and parameters are in range.
  Conversation: the transcript answers every call in order and the record has exactly the calls made;
  over MCP a call does the same.  Program: opening a SQLite database loses nothing and completes its schema,
  the server is guarded as configured, and over whole runs, with conversations, calls over MCP and agents that
  report, nothing is delivered without an approval.  Rows:
  what is written is read back, the tasks of an older database read after the upgrade as they were, and
  comparing the texts of times is comparing the times.  Streams: every interleaving delivers the list.
  Supervisor: at most one child runs, and a delivery to it is confirmed when its Collector was restarted, or
  when the file that is left covers what was sent.

  Interfaces are locales: \<open>keyed_store\<close> (tables and maps by key), the repository the task service works on,
  \<open>row_codec\<close> (a record and its row), \<open>dispatch_channel\<close> (what a delivery needs of a pusher and a view of
  the registry) and \<open>delivery_gate\<close> (a relation on the server's state that tools, conversations and handlers
  keep without an approval: nothing sent and the queue as it was, or nothing sent and the queue only
  drained); each is interpreted on the code's own definitions.

  Conventions.  An operation returns its result and the new state; an error is \<open>Inl\<close>.  Integers are
  mathematical integers with \<open>wrap64\<close> where the code can leave 64 bits; words are used for bit fields and
  bytes; strings are lists of bytes.  A time is the number of nanoseconds since year 1.  Time passes in the
  waits for a confirmation and in the calls of the model only: sending a message, the statements of the
  database and the commands that are run take no time.  Loops are recursions that terminate: over the data,
  over a remaining number of attempts or rounds (the retries of the store and of the model and the six rounds
  of a turn, given by the code's own constants or configuration), or, for the polling loop of a delivery,
  over the time left until the deadline, which each poll shortens.

  Parameters, because their code is not part of the repository: the YAML parser, the JSON codec of tool
  arguments and results, the SHA-256 and bcrypt functions, the Collector binary and the temporary file of
  a deep validation, the git command and the file system, the database driver, the OpAMP transport and
  client, the processes of the operating system, the language model, the MCP library and random bytes.  The rest of the system during a wait is a function
  on the state.  In \<open>Program\<close> the decorated model of \<open>Llm_Chain\<close> enters as the answers it gives to
  the numbered calls, and the rows of an opened database as the records they encode.

  Not modelled: logging; contexts and their cancellation, but for the wait between database attempts and
  in the retries of the model; the listener and the connections it serves, of which \<open>Serving\<close> has the result
  only; the flags and printing of the supervisor.  A redirect of Go's request multiplexer keeps the query, which the
  \<open>Location\<close> of \<open>Router\<close> leaves out.  Requests are handled one after the other, but for the task
  service, whose reads and writes interleave in \<open>Task_Races\<close>.
\<close>

section \<open>From a confirmed delivery back to the agent\<close>

text \<open>A message of an agent that carries evidence for a configuration.\<close>

definition acknowledges :: "confirm_env \<Rightarrow> string \<Rightarrow> string \<Rightarrow> agent_to_server \<Rightarrow> bool" where
  "acknowledges cenv uid content msg \<longleftrightarrow> hex_encode (am_instance_uid msg) = uid \<and>
    ((\<exists>hash. am_remote_status msg = Some (RcApplied, hash) \<and>
        hex_encode hash = content_hash (ce_sha cenv) content) \<or>
     (\<exists>cm. am_effective msg = Some (Some cm) \<and>
        config_subset (ce_decode cenv) content (config_map_to_string cm)))"

lemma rv_opamp:
  "rv_accepts_restart opamp_view uid s = accepts_restart uid (os_reg s)"
  "rv_online opamp_view uid s = reg_online uid (os_reg s)"
  by (simp_all add: opamp_view_def)

lemma report_confirms_opamp:
  "report_confirms cenv opamp_view uid want content s \<longleftrightarrow> reported_hash uid (os_reg s) = Some want \<or>
    (\<exists>eff. reported_effective uid (os_reg s) = Some eff \<and> config_subset (ce_decode cenv) content eff)"
  by (auto simp: report_confirms_def opamp_view_def split: option.splits)

text \<open>Evidence that is new after a run of the server was carried by a message in that run.\<close>

lemma confirming_run:
  assumes "(opamp_step env)\<^sup>*\<^sup>* s s'"
    and "report_confirms cenv opamp_view uid (content_hash (ce_sha cenv) content) content s'"
    and "\<not> report_confirms cenv opamp_view uid (content_hash (ce_sha cenv) content) content s"
  shows "\<exists>u now conn msg. (opamp_step env)\<^sup>*\<^sup>* s u \<and>
    (opamp_step env)\<^sup>*\<^sup>* (snd (on_message env now conn msg u)) s' \<and> acknowledges cenv uid content msg"
  using assms
proof (induction rule: rtranclp_induct)
  case base
  then show ?case by simp
next
  case (step u s')
  let ?conf = "report_confirms cenv opamp_view uid (content_hash (ce_sha cenv) content) content"
  show ?case
  proof (cases "?conf u")
    case True
    with step show ?thesis by (meson rtranclp.rtrancl_into_rtrancl)
  next
    case False
    with step.prems(1) report_origin [OF step.hyps(2)] obtain now conn msg
      where "s' = snd (on_message env now conn msg u)" "acknowledges cenv uid content msg"
      unfolding report_confirms_opamp acknowledges_def by metis
    with step.hyps(1) show ?thesis by blast
  qed
qed

text \<open>C1: When a delivery to a connected agent is confirmed while the server runs, then either the agent's
  earlier report confirmed the content already, or during the delivery a message of that very agent
  carried the acknowledgement of its hash or an effective configuration that covers it.\<close>

theorem confirmed_delivery_was_acknowledged:
  assumes "push_and_confirm cenv around (Some (opamp_pusher env)) (Some opamp_view) uid content timeout now s
      = (Inr True, now', s')"
    and "reg_online uid (os_reg s)"
    and "\<forall>t u late u'. around t u = Some (late, u') \<longrightarrow> (opamp_step env)\<^sup>*\<^sup>* u u'"
  shows "report_confirms cenv opamp_view uid (content_hash (ce_sha cenv) content) content s \<or>
    (\<exists>u t conn msg. (opamp_step env)\<^sup>*\<^sup>* s u \<and>
      (opamp_step env)\<^sup>*\<^sup>* (snd (on_message env t conn msg u)) s' \<and> acknowledges cenv uid content msg)"
proof -
  define want where "want = content_hash (ce_sha cenv) content"
  have run: "(opamp_step env)\<^sup>*\<^sup>* u u' \<and> b = report_confirms cenv opamp_view uid want content u'"
    if w: "wait_confirm cenv around opamp_view uid want content deadline t u = (b, t', u')" for deadline t u b t' u'
  proof -
    have round: "(opamp_step env)\<^sup>*\<^sup>* u v'"
      if "around t v = Some (late, v')" "(opamp_step env)\<^sup>*\<^sup>* u v" for t v late v'
      using that assms(3) by (meson rtranclp_trans)
    have "(opamp_step env)\<^sup>*\<^sup>* u u'"
      by (rule wait_confirm_keeps [where P = "\<lambda>v. (opamp_step env)\<^sup>*\<^sup>* u v", OF round w rtranclp.rtrancl_refl])
    with wait_confirm_result [OF w] show ?thesis by simp
  qed
  obtain r s1 where push: "push_config env uid content s = (r, s1)" by (cases "push_config env uid content s")
  have first: "(opamp_step env)\<^sup>*\<^sup>* s s1"
    using config_pushed [of env s uid content] push by auto
  obtain b2 now2 s2 where w2: "wait_confirm cenv around opamp_view uid want content (now + quot timeout 2) now s1
      = (b2, now2, s2)" by (metis prod_cases3)
  obtain sent s3 where s3: "send_restart env uid s2 = (sent, s3)" by (cases "send_restart env uid s2")
  have restart: "(opamp_step env)\<^sup>*\<^sup>* s2 s3" using restart_sent [of env s2 uid] s3 by auto
  obtain b4 now4 s4 where w4: "wait_confirm cenv around opamp_view uid want content (now2 + quot timeout 2) now2 s3
      = (b4, now4, s4)" by (metis prod_cases3)
  have "s' = s2 \<and> b2 \<or> s' = s4 \<and> b4"
    using assms(1,2) push w2 s3 w4
    by (auto simp: push_and_confirm_def Let_def opamp_pusher_def want_def [symmetric]
        rv_opamp split: sum.splits bool.splits if_splits)
  then have "(opamp_step env)\<^sup>*\<^sup>* s s'" "report_confirms cenv opamp_view uid want content s'"
    using run [OF w2] run [OF w4] first restart by (auto intro: rtranclp_trans)
  then show ?thesis using confirming_run unfolding want_def by blast
qed

theorem confirmed_delivery_was_acknowledged_witness:
  "\<exists>u msg. acknowledges \<lparr>ce_sha = (\<lambda>_. [7]), ce_decode = (\<lambda>_. Inl '''')\<rparr> ''00'' ''x'' msg \<and>
    (opamp_step \<lparr>oe_sha = (\<lambda>_. [7]), oe_send_ok = (\<lambda>_ _. True), oe_order = rev\<rparr>)\<^sup>*\<^sup>*
      ((new_opamp (new_registry 10) empty_db '''')\<lparr>os_reg := (new_registry 10)\<lparr>rg_conns := [''00'' \<mapsto> 1]\<rparr>\<rparr>) u"
proof -
  let ?cenv = "\<lparr>ce_sha = (\<lambda>_. [7]), ce_decode = (\<lambda>_. Inl '''')\<rparr>"
  let ?env = "\<lparr>oe_sha = (\<lambda>_. [7]), oe_send_ok = (\<lambda>_ _. True), oe_order = rev\<rparr>"
  let ?s = "(new_opamp (new_registry 10) empty_db '''')\<lparr>os_reg := (new_registry 10)\<lparr>rg_conns := [''00'' \<mapsto> 1]\<rparr>\<rparr>"
  let ?msg = "\<lparr>am_instance_uid = [0], am_description = None, am_health = None, am_effective = None,
      am_capabilities = 0, am_remote_status = Some (RcApplied, [7])\<rparr>"
  define around where "around = (\<lambda>(t::time) u. Some (0::nat, snd (on_message ?env 5 1 ?msg u)))"
  have uid: "hex_encode (am_instance_uid ?msg) = ''00''" by code_simp
  have ack: "reported_hash ''00'' (os_reg (snd (on_message ?env 5 1 ?msg u))) = Some (content_hash (ce_sha ?cenv) ''x'')"
    for u using on_message_registry [OF uid]
    by (simp add: content_hash_def frame_simps take_remote_status_def set_reported_hash_def reported_hash_def)
  have online: "reg_online ''00'' (os_reg ?s)" by (simp add: reg_online_def)
  have "hex_decode ''00'' \<noteq> None" by code_simp
  then obtain s1 where push: "push_config ?env ''00'' ''x'' ?s = (ok_unit, s1)"
    using push_config_accepted by blast
  have "2 \<le> default_confirm_timeout" by (simp add: default_confirm_timeout_def)
  moreover have "around 5 s1 = Some (0, snd (on_message ?env 5 1 ?msg s1))" by (simp add: around_def)
  ultimately obtain now' s' where run: "push_and_confirm ?cenv around (Some (opamp_pusher ?env)) (Some opamp_view)
      ''00'' ''x'' default_confirm_timeout 5 ?s = (Inr True, now', s')"
    using acknowledged_first_round [OF online push _ _ ack] by blast
  have steps: "\<forall>t u late u'. around t u = Some (late, u') \<longrightarrow> (opamp_step ?env)\<^sup>*\<^sup>* u u'"
  proof (intro allI impI)
    fix t u late u' assume "around t u = Some (late, u')"
    then have "u' = snd (on_message ?env 5 1 ?msg u)" by (simp add: around_def)
    then have "opamp_step ?env u u'" by (simp only: message_arrives)
    then show "(opamp_step ?env)\<^sup>*\<^sup>* u u'" by (rule r_into_rtranclp)
  qed
  have "\<not> report_confirms ?cenv opamp_view ''00'' (content_hash (ce_sha ?cenv) ''x'') ''x'' ?s"
    by (simp add: report_confirms_opamp reported_hash_def reported_effective_def new_registry_def)
  with confirmed_delivery_was_acknowledged [OF run online steps] show ?thesis by blast
qed

end
